(* ===== verification/Prelude.thy ===== *)
theory Prelude
  imports Complex_Main "HOL-Library.AList"
begin

text \<open>
  Vocabulary shared by every component: the errors and results of the TypeScript code, a
  state-and-error action type for operations that read and write stored files, the part of
  the JavaScript string, number and JSON library the sources use, files that may be absent or
  unreadable, and timestamps.

  A JavaScript string is a list of UTF-16 code units; here a \<open>char\<close> is one code unit below
  256, so \<open>length\<close> counts what \<open>String.length\<close> counts. Code units above 255 are outside the
  model. JavaScript's \<open>Map\<close> keeps insertion order and replaces in place; so does
  \<open>AList.update\<close> on an association list.
\<close>

named_theorems room_defs \<open>operations of the room, boardroom and forum stores\<close>
named_theorems broker_defs \<open>operations of the tunnel broker\<close>

subsection \<open>Errors and results\<close>

text \<open>
  What the sources throw. \<open>PlainError\<close> is \<open>new Error(message)\<close>; \<open>NotFound\<close> and \<open>FileExists\<close> are
  the file-system errors with code ENOENT and EEXIST; \<open>SyntaxError\<close> is a failed \<open>JSON.parse\<close>
  (or another unreadable file); \<open>TypeError\<close> is a property read of null.
\<close>

datatype js_error =
    PlainError string
  | NotFound
  | FileExists
  | SyntaxError
  | TypeError
  | RoomLogFullError
  | ActiveSessionExistsError

type_synonym 'a result = "js_error + 'a"

fun bindR :: "'e + 'a \<Rightarrow> ('a \<Rightarrow> 'e + 'b) \<Rightarrow> 'e + 'b" where
  "bindR (Inl e) f = Inl e"
| "bindR (Inr x) f = f x"

lemma bindR_Inr_iff: "bindR m f = Inr y \<longleftrightarrow> (\<exists>x. m = Inr x \<and> f x = Inr y)"
  by (cases m) auto

lemma bindR_Inl_iff: "bindR m f = Inl e \<longleftrightarrow> m = Inl e \<or> (\<exists>x. m = Inr x \<and> f x = Inl e)"
  by (cases m) auto

lemma bindR_cong [fundef_cong]:
  "m = m' \<Longrightarrow> (\<And>x. m' = Inr x \<Longrightarrow> f x = f' x) \<Longrightarrow> bindR m f = bindR m' f'"
  by (cases m') auto

text \<open>\<open>xs.map(f)\<close> where \<open>f\<close> may throw: the first error wins.\<close>

fun mapR :: "('a \<Rightarrow> 'e + 'b) \<Rightarrow> 'a list \<Rightarrow> 'e + 'b list" where
  "mapR f [] = Inr []"
| "mapR f (x # xs) = bindR (f x) (\<lambda>y. bindR (mapR f xs) (\<lambda>ys. Inr (y # ys)))"

lemma mapR_Inr_length: "mapR f xs = Inr ys \<Longrightarrow> length ys = length xs"
  by (induction xs arbitrary: ys) (auto simp: bindR_Inr_iff)

lemma mapR_Inr_all: "mapR f xs = Inr ys \<Longrightarrow> list_all2 (\<lambda>x y. f x = Inr y) xs ys"
  by (induction xs arbitrary: ys) (auto simp: bindR_Inr_iff)

subsection \<open>Actions: state passing with errors\<close>

text \<open>
  An action maps a state to a result and the state it leaves behind. An error does not undo
  the writes made before it, as in the sources.
\<close>

type_synonym ('s, 'e, 'a) action = "'s \<Rightarrow> ('e + 'a) \<times> 's"

definition ret :: "'a \<Rightarrow> ('s, 'e, 'a) action" where
  "ret x = (\<lambda>s. (Inr x, s))"

definition throw :: "'e \<Rightarrow> ('s, 'e, 'a) action" where
  "throw e = (\<lambda>s. (Inl e, s))"

definition lift :: "'e + 'a \<Rightarrow> ('s, 'e, 'a) action" where
  "lift r = (\<lambda>s. (r, s))"

definition bindA :: "('s, 'e, 'a) action \<Rightarrow> ('a \<Rightarrow> ('s, 'e, 'b) action) \<Rightarrow> ('s, 'e, 'b) action" where
  "bindA m f = (\<lambda>s. case m s of (Inl e, s') \<Rightarrow> (Inl e, s') | (Inr x, s') \<Rightarrow> f x s')"

definition gets :: "('s \<Rightarrow> 'a) \<Rightarrow> ('s, 'e, 'a) action" where
  "gets f = (\<lambda>s. (Inr (f s), s))"

definition modify :: "('s \<Rightarrow> 's) \<Rightarrow> ('s, 'e, unit) action" where
  "modify f = (\<lambda>s. (Inr (), f s))"

lemma ret_apply [simp]: "ret x s = (Inr x, s)"
  and throw_apply [simp]: "throw e s = (Inl e, s)"
  and lift_apply [simp]: "lift r s = (r, s)"
  and gets_apply [simp]: "gets g s = (Inr (g s), s)"
  and modify_apply [simp]: "modify h s = (Inr (), h s)"
  by (simp_all add: ret_def throw_def lift_def gets_def modify_def)

lemma bindA_apply: "bindA m f s = (case m s of (Inl e, s') \<Rightarrow> (Inl e, s') | (Inr x, s') \<Rightarrow> f x s')"
  by (simp add: bindA_def)

lemma bindA_Inr [simp]: "m s = (Inr x, s') \<Longrightarrow> bindA m f s = f x s'"
  and bindA_Inl [simp]: "m s = (Inl e, s') \<Longrightarrow> bindA m f s = (Inl e, s')"
  by (simp_all add: bindA_apply)

lemma bindA_Inr_iff:
  "bindA m f s = (Inr y, t) \<longleftrightarrow> (\<exists>x u. m s = (Inr x, u) \<and> f x u = (Inr y, t))"
  by (auto simp: bindA_apply split: prod.splits sum.splits)

lemma bindA_Inl_iff:
  "bindA m f s = (Inl e, t) \<longleftrightarrow>
     m s = (Inl e, t) \<or> (\<exists>x u. m s = (Inr x, u) \<and> f x u = (Inl e, t))"
  by (auto simp: bindA_apply split: prod.splits sum.splits)

lemma bindA_ret [simp]: "bindA (ret x) f = f x"
  and bindA_throw [simp]: "bindA (throw e) f = throw e"
  and bindA_lift_Inr [simp]: "bindA (lift (Inr x)) f = f x"
  and bindA_lift_Inl [simp]: "bindA (lift (Inl e)) f = throw e"
  by (simp_all add: bindA_def ret_def throw_def lift_def fun_eq_iff)

text \<open>\<open>keeps P m\<close>: whatever \<open>m\<close> returns or throws, it maintains \<open>P\<close>.\<close>

definition keeps :: "('s \<Rightarrow> bool) \<Rightarrow> ('s, 'e, 'a) action \<Rightarrow> bool" where
  "keeps P m \<longleftrightarrow> (\<forall>s. P s \<longrightarrow> P (snd (m s)))"

lemma keepsI [intro]: "(\<And>s. P s \<Longrightarrow> P (snd (m s))) \<Longrightarrow> keeps P m"
  by (simp add: keeps_def)

lemma keepsD: "keeps P m \<Longrightarrow> P s \<Longrightarrow> P (snd (m s))"
  by (simp add: keeps_def)

lemma keeps_basic [simp]: "keeps P (ret x)" "keeps P (throw e)" "keeps P (lift r)" "keeps P (gets f)"
  by (simp_all add: keeps_def)

lemma keeps_bindA: "keeps P m \<Longrightarrow> (\<And>x. keeps P (f x)) \<Longrightarrow> keeps P (bindA m f)"
  unfolding keeps_def bindA_apply by (auto split: prod.splits sum.splits)

lemma bindA_assoc: "bindA (bindA m f) g = bindA m (\<lambda>x. bindA (f x) g)"
  by (rule ext) (simp add: bindA_def split: prod.splits sum.splits)

text \<open>\<open>along R m\<close>: whatever \<open>m\<close> returns or throws, \<open>R\<close> relates the states before and after.\<close>

definition along :: "('s \<Rightarrow> 's \<Rightarrow> bool) \<Rightarrow> ('s, 'e, 'a) action \<Rightarrow> bool" where
  "along R m \<longleftrightarrow> (\<forall>s. R s (snd (m s)))"

lemma alongI: "(\<And>s. R s (snd (m s))) \<Longrightarrow> along R m"
  by (simp add: along_def)

lemma alongD: "along R m \<Longrightarrow> R s (snd (m s))"
  by (simp add: along_def)

lemma along_mono: "along R m \<Longrightarrow> (\<And>s t. R s t \<Longrightarrow> Q s t) \<Longrightarrow> along Q m"
  by (simp add: along_def)

lemma snd_bindA:
  "snd (bindA m f s) = (case fst (m s) of Inl _ \<Rightarrow> snd (m s) | Inr x \<Rightarrow> snd (f x (snd (m s))))"
  by (simp add: bindA_apply split: prod.split sum.split)

text \<open>Two continuations that leave the same states behind are interchangeable for \<open>along\<close>.\<close>

lemma along_same:
  assumes "along R (bindA m f)" "\<And>x s. snd (g x s) = snd (f x s)"
  shows "along R (bindA m g)"
proof -
  have "snd (bindA m g s) = snd (bindA m f s)" for s
    by (simp add: snd_bindA assms(2) split: sum.split)
  with assms(1) show ?thesis by (simp add: along_def)
qed

lemma along_bindA:
  assumes "\<And>s t u. R s t \<Longrightarrow> R t u \<Longrightarrow> R s u" and "along R m" and "\<And>x. along R (f x)"
  shows "along R (bindA m f)"
proof (rule alongI)
  fix s
  obtain r t where m: "m s = (r, t)" by fastforce
  have "R s t" using alongD [OF assms(2), of s] m by simp
  then show "R s (snd (bindA m f s))"
    using alongD [OF assms(3)] m assms(1) by (cases r) (auto simp: bindA_apply)
qed

subsection \<open>Files\<close>

text \<open>
  A stored file is absent, present with contents that do not parse, or present with a decoded
  value. Reading a JSON file decodes it; the three outcomes are the three branches the code
  distinguishes (\<open>isNotFoundError\<close> tells the first from the second).
\<close>

datatype 'a stored = NoFile | BadFile | File 'a

fun readFileR :: "'a stored \<Rightarrow> 'a result" where
  "readFileR NoFile = Inl NotFound"
| "readFileR BadFile = Inl SyntaxError"
| "readFileR (File x) = Inr x"

definition isNotFoundError :: "js_error \<Rightarrow> bool" where
  "isNotFoundError e \<longleftrightarrow> e = NotFound"

text \<open>Exclusive creation (\<open>open(file, "wx")\<close>) fails when the file exists, whatever it holds.\<close>

fun createFileR :: "'a \<Rightarrow> 'a stored \<Rightarrow> 'a stored result" where
  "createFileR x NoFile = Inr (File x)"
| "createFileR x BadFile = Inl FileExists"
| "createFileR x (File y) = Inl FileExists"

text \<open>Appending one line to a line log (\<open>flag: "a"\<close>) creates it when absent.\<close>

fun appendLine :: "'a \<Rightarrow> 'a list stored \<Rightarrow> 'a list stored" where
  "appendLine x NoFile = File [x]"
| "appendLine x BadFile = BadFile"
| "appendLine x (File xs) = File (xs @ [x])"

lemma readFileR_Inr_iff [simp]: "readFileR f = Inr x \<longleftrightarrow> f = File x"
  by (cases f) auto

subsection \<open>Timestamps\<close>

text \<open>
  A stored timestamp is a string; the code reads it only through \<open>Date.parse\<close> and writes it
  only through \<open>toISOString\<close>. \<open>Iso ms\<close> is a string that parses to that many milliseconds
  since the epoch, \<open>BadStamp\<close> one that parses to NaN.
\<close>

datatype tstamp = Iso int | BadStamp string

fun Date_parse :: "tstamp \<Rightarrow> int option" where
  "Date_parse (Iso ms) = Some ms"
| "Date_parse (BadStamp _) = None"

end
