(* ===== verification/JsLib.thy ===== *)
theory JsLib
  imports Prelude
begin

text \<open>
  The part of the JavaScript library the sources use on strings, arrays and parsed JSON values:
  \<open>trim\<close>, \<open>toLowerCase\<close>, \<open>split\<close>, \<open>join\<close>, \<open>startsWith\<close>, \<open>includes\<close>, \<open>findIndex\<close>,
  \<open>slice(-n)\<close>, the number tests, and property access.
\<close>

subsection \<open>Strings\<close>

text \<open>White space as \<open>trim\<close> and the regular-expression class \<open>\s\<close> see it below 256.\<close>

definition js_space :: "char \<Rightarrow> bool" where
  "js_space c \<longleftrightarrow>
     c \<in> set [CHR 0x09, CHR 0x0A, CHR 0x0B, CHR 0x0C, CHR 0x0D, CHR 0x20, CHR 0xA0]"

definition js_trimStart :: "string \<Rightarrow> string" where
  "js_trimStart s = dropWhile js_space s"

definition js_trim :: "string \<Rightarrow> string" where
  "js_trim s = rev (dropWhile js_space (rev (dropWhile js_space s)))"

text \<open>\<open>toLowerCase\<close> on ASCII and on the Latin-1 capitals (0xC0 to 0xDE without 0xD7).\<close>

definition js_lower :: "char \<Rightarrow> char" where
  "js_lower c =
     (let n = (of_char c :: nat)
      in if (65 \<le> n \<and> n \<le> 90) \<or> (192 \<le> n \<and> n \<le> 222 \<and> n \<noteq> 215) then char_of (n + 32) else c)"

definition js_toLowerCase :: "string \<Rightarrow> string" where
  "js_toLowerCase s = map js_lower s"

definition starts_with :: "string \<Rightarrow> string \<Rightarrow> bool" where
  "starts_with p s \<longleftrightarrow> take (length p) s = p"

definition ends_with :: "string \<Rightarrow> string \<Rightarrow> bool" where
  "ends_with p s \<longleftrightarrow> starts_with (rev p) (rev s)"

text \<open>\<open>haystack.includes(needle)\<close> on strings.\<close>

fun str_includes :: "string \<Rightarrow> string \<Rightarrow> bool" where
  "str_includes [] n \<longleftrightarrow> n = []"
| "str_includes (c # cs) n \<longleftrightarrow> starts_with n (c # cs) \<or> str_includes cs n"

text \<open>\<open>s.split(c)\<close> for a one-character separator, and \<open>parts.join(c)\<close>.\<close>

fun js_split :: "char \<Rightarrow> string \<Rightarrow> string list" where
  "js_split d [] = [[]]"
| "js_split d (c # cs) =
     (if c = d then [] # js_split d cs
      else case js_split d cs of [] \<Rightarrow> [[c]] | w # ws \<Rightarrow> (c # w) # ws)"

fun js_join :: "char \<Rightarrow> string list \<Rightarrow> string" where
  "js_join d [] = []"
| "js_join d [w] = w"
| "js_join d (w # v # ws) = w @ d # js_join d (v # ws)"

text \<open>\<open>parts.join(sep)\<close> for a separator of any length.\<close>

fun js_join_str :: "string \<Rightarrow> string list \<Rightarrow> string" where
  "js_join_str sep [] = []"
| "js_join_str sep [w] = w"
| "js_join_str sep (w # v # ws) = w @ sep @ js_join_str sep (v # ws)"

lemma js_split_nonempty [simp]: "js_split d s \<noteq> []"
  by (cases s) (auto split: list.splits)

lemma js_join_split [simp]: "js_join d (js_split d s) = s"
proof (induction s)
  case (Cons c cs)
  obtain w ws where "js_split d cs = w # ws"
    using js_split_nonempty by (meson neq_Nil_conv)
  with Cons.IH show ?case by (cases ws) auto
qed simp

lemma js_split_free: "w \<in> set (js_split d s) \<Longrightarrow> d \<notin> set w"
  by (induction s arbitrary: w) (auto split: if_splits list.splits)

lemma str_includes_subset: "str_includes s n \<Longrightarrow> set n \<subseteq> set s"
proof (induction s)
  case (Cons c cs)
  show ?case
  proof (cases "starts_with n (c # cs)")
    case True
    then have "n = take (length n) (c # cs)" by (simp add: starts_with_def)
    then show ?thesis by (metis set_take_subset)
  next
    case False
    with Cons show ?thesis by auto
  qed
qed simp

lemma js_trim_nonempty_iff: "js_trim s = [] \<longleftrightarrow> (\<forall>c \<in> set s. js_space c)"
proof -
  have "(\<forall>c \<in> set (dropWhile js_space s). js_space c) \<longleftrightarrow> dropWhile js_space s = []"
    by (metis hd_dropWhile hd_in_set empty_iff list.set(1))
  then show ?thesis by (simp add: js_trim_def)
qed

lemma js_trim_fixed:
  assumes "s \<noteq> [] \<Longrightarrow> \<not> js_space (hd s) \<and> \<not> js_space (last s)"
  shows "js_trim s = s"
proof (cases "s = []")
  case False
  with assms have h: "\<not> js_space (hd s)" and l: "\<not> js_space (hd (rev s))"
    by (auto simp: hd_rev)
  have drop_id: "x \<noteq> [] \<Longrightarrow> \<not> js_space (hd x) \<Longrightarrow> dropWhile js_space x = x" for x
    by (cases x) auto
  from False h l show ?thesis by (simp add: js_trim_def drop_id)
qed (simp add: js_trim_def)

lemma js_trim_ends:
  assumes "js_trim s \<noteq> []"
  shows "\<not> js_space (hd (js_trim s)) \<and> \<not> js_space (last (js_trim s))"
proof -
  let ?u = "dropWhile js_space s"
  have u: "?u \<noteq> []" using assms unfolding js_trim_def by (metis rev.simps(1) dropWhile.simps(1))
  then have hu: "\<not> js_space (hd ?u)" using hd_dropWhile by blast
  let ?v = "dropWhile js_space (rev ?u)"
  have v: "?v \<noteq> []" using assms unfolding js_trim_def by (metis rev.simps(1))
  have hv: "\<not> js_space (hd ?v)" using v hd_dropWhile by blast
  have "last ?v = last (rev ?u)"
    using v by (metis dropWhile_eq_drop last_drop not_le drop_all)
  with u v hu hv show ?thesis by (simp add: js_trim_def hd_rev last_rev)
qed

lemma js_trim_idem [simp]: "js_trim (js_trim s) = js_trim s"
  using js_trim_ends by (intro js_trim_fixed) blast

text \<open>Decimal rendering of a natural number, as \<open>String(n)\<close> or a template literal does.\<close>

fun nat_str :: "nat \<Rightarrow> string" where
  "nat_str n =
     (if n < 10 then [char_of (48 + n)] else nat_str (n div 10) @ [char_of (48 + n mod 10)])"

declare nat_str.simps [simp del]

text \<open>Reading the digits back, so that different numbers have different texts.\<close>

definition digits_value :: "string \<Rightarrow> nat" where
  "digits_value s = foldl (\<lambda>v c. 10 * v + (of_char c - 48)) 0 s"

lemma digits_value_nat_str [simp]: "digits_value (nat_str n) = n"
proof (induction n rule: nat_str.induct)
  case (1 n)
  show ?case
  proof (cases "n < 10")
    case True
    then show ?thesis by (simp add: nat_str.simps [of n] digits_value_def)
  next
    case False
    with 1 show ?thesis by (simp add: nat_str.simps [of n] digits_value_def)
  qed
qed

lemma nat_str_inj [simp]: "nat_str m = nat_str n \<longleftrightarrow> m = n"
  by (metis digits_value_nat_str)

lemma nat_str_digits: "c \<in> set (nat_str n) \<Longrightarrow> (of_char c :: nat) \<le> 57"
proof (induction n rule: nat_str.induct)
  case (1 n)
  show ?case
  proof (cases "n < 10")
    case True
    with 1 show ?thesis by (auto simp: nat_str.simps [of n])
  next
    case False
    with 1 have "c \<in> set (nat_str (n div 10)) \<or> c = char_of (48 + n mod 10)"
      by (subst (asm) nat_str.simps) auto
    with 1 False show ?thesis by auto
  qed
qed

text \<open>A length-prefixed string can be read back, whatever follows it.\<close>

lemma length_prefixed_inj:
  assumes "nat_str (length a) @ '':'' @ a @ x = nat_str (length b) @ '':'' @ b @ y"
  shows "a = b \<and> x = y"
proof -
  have head: "takeWhile (\<lambda>c. c \<noteq> CHR '':'') (nat_str n @ '':'' @ z) = nat_str n" for n z
    using nat_str_digits [of "CHR '':''" n] by (subst takeWhile_append2) auto
  have "nat_str (length a) = nat_str (length b)"
    using arg_cong [OF assms, of "takeWhile (\<lambda>c. c \<noteq> CHR '':'')"] unfolding head .
  with assms show ?thesis by simp
qed

subsection \<open>Arrays\<close>

fun findIndex :: "('a \<Rightarrow> bool) \<Rightarrow> 'a list \<Rightarrow> nat option" where
  "findIndex p [] = None"
| "findIndex p (x # xs) = (if p x then Some 0 else map_option Suc (findIndex p xs))"

text \<open>
  The upsert every keyed list of the sources performs: replace the first element with the same
  key in place, or push at the end.
\<close>

definition upsertBy :: "('a \<Rightarrow> 'k) \<Rightarrow> 'a \<Rightarrow> 'a list \<Rightarrow> 'a list" where
  "upsertBy key x xs =
     (case findIndex (\<lambda>y. key y = key x) xs of None \<Rightarrow> xs @ [x] | Some i \<Rightarrow> xs[i := x])"

lemma findIndex_None [simp]: "findIndex p xs = None \<longleftrightarrow> (\<forall>x \<in> set xs. \<not> p x)"
  by (induction xs) auto

lemma findIndex_Some:
  "findIndex p xs = Some i \<Longrightarrow> i < length xs \<and> p (xs ! i) \<and> (\<forall>j < i. \<not> p (xs ! j))"
proof (induction xs arbitrary: i)
  case (Cons x xs)
  show ?case
  proof (cases "p x")
    case False
    with Cons.prems obtain j where "findIndex p xs = Some j" "i = Suc j" by auto
    with Cons.IH False show ?thesis by (auto simp: nth_Cons split: nat.splits)
  qed (use Cons.prems in auto)
qed simp

lemma upsertBy_Nil [simp]: "upsertBy key x [] = [x]"
  by (simp add: upsertBy_def)

lemma upsertBy_Cons [simp]:
  "upsertBy key x (y # ys) = (if key y = key x then x # ys else y # upsertBy key x ys)"
  by (cases "findIndex (\<lambda>z. key z = key x) ys") (simp_all add: upsertBy_def del: findIndex_None)

lemma upsertBy_keys:
  "map key (upsertBy key x xs) = (if key x \<in> key ` set xs then map key xs else map key xs @ [key x])"
  by (induction xs) auto

lemma upsertBy_distinct: "distinct (map key xs) \<Longrightarrow> distinct (map key (upsertBy key x xs))"
  by (auto simp: upsertBy_keys)

lemma find_upsertBy_same [simp]: "find (\<lambda>y. key y = key x) (upsertBy key x xs) = Some x"
  by (induction xs) auto

lemma find_upsertBy_other [simp]:
  "k \<noteq> key x \<Longrightarrow> find (\<lambda>y. key y = k) (upsertBy key x xs) = find (\<lambda>y. key y = k) xs"
  by (induction xs) auto

lemma set_upsertBy: "set (upsertBy key x xs) \<subseteq> insert x (set xs)"
  by (induction xs) auto

lemma in_set_upsertBy [simp]: "x \<in> set (upsertBy key x xs)"
  by (induction xs) auto

text \<open>Updating an insertion-ordered map keeps a property of its entries.\<close>

lemma update_entries:
  "\<forall>(k', v') \<in> set al. P k' v' \<Longrightarrow> P k v \<Longrightarrow> \<forall>(k', v') \<in> set (AList.update k v al). P k' v'"
  by (induction al) auto

lemma update_new: "k \<notin> fst ` set al \<Longrightarrow> AList.update k v al = al @ [(k, v)]"
  by (induction al) auto

lemma delete_filter: "AList.delete k al = filter (\<lambda>kv. fst kv \<noteq> k) al"
  by (induction al) auto

lemma distinct_map_sort [simp]: "distinct (map f (sort_key g xs)) = distinct (map f xs)"
  by (simp add: distinct_map)

text \<open>Removing later duplicates keeps the order of first appearance.\<close>

fun first_occurrences :: "'a list \<Rightarrow> 'a list" where
  "first_occurrences [] = []"
| "first_occurrences (x # xs) = x # filter (\<lambda>y. y \<noteq> x) (first_occurrences xs)"

lemma set_first_occurrences [simp]: "set (first_occurrences xs) = set xs"
  by (induction xs) auto

lemma distinct_first_occurrences [simp]: "distinct (first_occurrences xs)"
  by (induction xs) auto

lemma first_occurrences_filter:
  "first_occurrences (filter P xs) = filter P (first_occurrences xs)"
  by (induction xs) (auto simp: filter_filter intro: filter_cong)

lemma first_occurrences_snoc:
  "first_occurrences (xs @ [x]) =
     (if x \<in> set xs then first_occurrences xs else first_occurrences xs @ [x])"
  by (induction xs) auto

text \<open>\<open>xs.slice(-n)\<close> for positive \<open>n\<close>: the last \<open>n\<close> elements.\<close>

definition lastN :: "nat \<Rightarrow> 'a list \<Rightarrow> 'a list" where
  "lastN n xs = drop (length xs - n) xs"

lemma length_lastN [simp]: "length (lastN n xs) = min n (length xs)"
  by (simp add: lastN_def)

text \<open>\<open>Math.max\<close> folded over a list from 0.\<close>

definition maxOf :: "('a \<Rightarrow> nat) \<Rightarrow> 'a list \<Rightarrow> nat" where
  "maxOf f xs = foldl (\<lambda>highest x. max highest (f x)) 0 xs"

lemma foldl_max_ge: "(m::nat) \<le> foldl (\<lambda>h x. max h (f x)) m xs"
  by (induction xs arbitrary: m) (auto intro: order_trans [OF _ max.cobounded1] order.trans)

lemma foldl_max_upper: "x \<in> set xs \<Longrightarrow> f x \<le> foldl (\<lambda>h x. max h (f x)) (m::nat) xs"
proof (induction xs arbitrary: m)
  case (Cons y ys)
  show ?case
  proof (cases "x = y")
    case True
    have "max m (f y) \<le> foldl (\<lambda>h x. max h (f x)) (max m (f y)) ys" by (rule foldl_max_ge)
    with True show ?thesis by simp
  qed (use Cons in auto)
qed simp

lemma maxOf_upper: "x \<in> set xs \<Longrightarrow> f x \<le> maxOf f xs"
  unfolding maxOf_def by (rule foldl_max_upper)

lemma foldl_max_le: "(\<And>x. x \<in> set xs \<Longrightarrow> f x < b) \<Longrightarrow> (m::nat) < b \<Longrightarrow> foldl (\<lambda>h x. max h (f x)) m xs < b"
  by (induction xs arbitrary: m) auto

lemma maxOf_less: "(\<And>x. x \<in> set xs \<Longrightarrow> f x < b) \<Longrightarrow> 0 < b \<Longrightarrow> maxOf f xs < b"
  unfolding maxOf_def by (rule foldl_max_le)

subsection \<open>Numbers and JSON values\<close>

text \<open>
  A JavaScript number is a double. \<open>Finite r\<close> carries the exact rational value of a finite
  double.
\<close>

datatype jnum = Finite rat | PosInf | NegInf | NaN

definition max_safe :: int where
  "max_safe = 9007199254740991"

fun Number_isInteger :: "jnum \<Rightarrow> bool" where
  "Number_isInteger (Finite r) \<longleftrightarrow> r = of_int \<lfloor>r\<rfloor>"
| "Number_isInteger _ \<longleftrightarrow> False"

fun Number_isSafeInteger :: "jnum \<Rightarrow> bool" where
  "Number_isSafeInteger (Finite r) \<longleftrightarrow> r = of_int \<lfloor>r\<rfloor> \<and> \<bar>\<lfloor>r\<rfloor>\<bar> \<le> max_safe"
| "Number_isSafeInteger _ \<longleftrightarrow> False"

fun jnum_int :: "jnum \<Rightarrow> int" where
  "jnum_int (Finite r) = \<lfloor>r\<rfloor>"
| "jnum_int _ = 0"

datatype json =
    JNull
  | JBool bool
  | JNum jnum
  | JStr string
  | JArr "json list"
  | JObj "(string \<times> json) list"

text \<open>
  \<open>value.key\<close>: reading a property of null throws; of an object gives its value or undefined
  (\<open>None\<close>); of any other value undefined (no property the sources read exists on them).
\<close>

fun jprop :: "json \<Rightarrow> string \<Rightarrow> json option result" where
  "jprop JNull k = Inl TypeError"
| "jprop (JObj ps) k = Inr (map_of ps k)"
| "jprop _ k = Inr None"

end
