(* ===== verification/Types.thy ===== *)
theory Types
  imports JsLib
begin

text \<open>
  The wire and storage shapes of \<open>protocol/types.ts\<close> and the slug and integer checks of
  \<open>protocol/validation.ts\<close>. Optional properties are \<open>option\<close> fields.
\<close>

subsection \<open>Shapes\<close>

datatype ParticipantKind = K_agent | K_human | K_system
datatype ParticipantLocation = L_local | L_remote
datatype ParticipantInstall = I_lite | I_core | I_host
datatype ParticipantAttention = PA_manual | PA_attending | PA_standby | PA_away | PA_managed
datatype AttentionMode = AM_foreground_attended | AM_wake_on_event | AM_heartbeat | AM_manual
datatype RoomStatus = RS_open | RS_closed
datatype AttendancePolicy =
  AP_manual_ok | AP_agents_foreground | AP_all_foreground | AP_host_directed
datatype MessageType =
    MT_message | MT_question | MT_reply | MT_status | MT_request_review | MT_request_debug
  | MT_handoff | MT_system

record RoomBrief =
  rb_body :: string
  rb_brief_version :: nat
  rb_brief_updated_at :: tstamp
  rb_brief_updated_by :: string

record ActiveSession =
  as_channel_id :: string
  as_started_at :: tstamp
  as_expected_duration_m :: int
  as_requested_mode :: "AttendancePolicy option"
  as_started_by :: string
  as_ended_at :: "tstamp option"

record RoomState =
  rs_id :: string
  rs_status :: RoomStatus
  rs_attendance_policy :: "AttendancePolicy option"
  rs_createdAt :: tstamp
  rs_updatedAt :: tstamp
  rs_expires_at :: "tstamp option"
  rs_next_message_id :: nat
  rs_brief_version :: nat
  rs_brief_updated_at :: tstamp
  rs_brief_updated_by :: string
  rs_active_session :: "ActiveSession option"
  rs_auto_continue_enabled :: "bool option"
  rs_auto_continue_delay_s :: "int option"

record Participant =
  p_alias :: string
  p_display_name :: "string option"
  p_kind :: ParticipantKind
  p_location :: ParticipantLocation
  p_install :: ParticipantInstall
  p_attention :: ParticipantAttention
  p_is_host :: bool
  p_token_hash :: "string option"
  p_removed_at :: "tstamp option"
  p_joinedAt :: tstamp
  p_lastSeenAt :: tstamp
  p_supported_modes :: "AttentionMode list option"
  p_requested_mode :: "AttentionMode option"
  p_effective_mode :: "AttentionMode option"
  p_poll_cadence_s :: "rat option"
  p_safety_wake_s :: "rat option"
  p_forum_review_channel :: "string option"
  p_session_id :: "string option"

record ClientMessageInput =
  in_text :: string
  in_type :: "MessageType option"
  in_reply_to :: "int option"
  in_client_msg_id :: "string option"

record Message =
  m_id :: nat
  m_room :: string
  m_ts :: tstamp
  m_from :: string
  m_type :: MessageType
  m_text :: string
  m_reply_to :: "int option"
  m_client_msg_id :: "string option"
  m_mentions :: "string list"

subsection \<open>Slugs and integers\<close>

definition slug_chars :: string where
  "slug_chars = ''abcdefghijklmnopqrstuvwxyz0123456789-''"

definition MAX_SLUG_LENGTH :: nat where
  "MAX_SLUG_LENGTH = 64"

definition isSafeSlug :: "string \<Rightarrow> bool" where
  "isSafeSlug value \<longleftrightarrow>
     length value > 0 \<and> length value \<le> MAX_SLUG_LENGTH \<and>
     list_all (\<lambda>c. c \<in> set slug_chars) value \<and>
     \<not> str_includes value ''..'' \<and> \<not> str_includes value ''/'' \<and>
     \<not> str_includes value [CHR 0x5C]"

definition assertSafeSlug :: "string \<Rightarrow> string \<Rightarrow> unit result" where
  "assertSafeSlug value label =
     (if isSafeSlug value then Inr ()
      else Inl (PlainError (label @ '' must be lowercase [a-z0-9-], 1-64 chars'')))"

definition parsePositiveInteger :: "jnum \<Rightarrow> string \<Rightarrow> int result" where
  "parsePositiveInteger value label =
     (if \<not> Number_isSafeInteger value \<or> jnum_int value < 0
      then Inl (PlainError (label @ '' must be a non-negative safe integer''))
      else Inr (jnum_int value))"

lemma assertSafeSlug_Inr [simp]: "assertSafeSlug v l = Inr u \<longleftrightarrow> isSafeSlug v"
  by (simp add: assertSafeSlug_def)

lemma assertSafeSlug_True [simp]: "isSafeSlug v \<Longrightarrow> assertSafeSlug v l = Inr ()"
  by (simp add: assertSafeSlug_def)

text \<open>
  The explicit path tests of \<open>isSafeSlug\<close> never change its answer: the character class already
  excludes the dot, the slash and the backslash. So a safe slug is one path component.
\<close>

lemma isSafeSlug_iff:
  "isSafeSlug v \<longleftrightarrow> 0 < length v \<and> length v \<le> 64 \<and> (\<forall>c \<in> set v. c \<in> set slug_chars)"
proof -
  have "\<not> str_includes v n" if "\<forall>c \<in> set v. c \<in> set slug_chars" and "\<exists>c \<in> set n. c \<notin> set slug_chars" for n
    using that str_includes_subset by blast
  from this [of "''..''"] this [of "''/''"] this [of "[CHR 0x5C]"] show ?thesis
    by (auto simp: isSafeSlug_def MAX_SLUG_LENGTH_def list_all_iff slug_chars_def)
qed

lemma isSafeSlug_nonempty: "isSafeSlug v \<Longrightarrow> v \<noteq> []"
  by (simp add: isSafeSlug_def)

lemma isSafeSlug_charD: "isSafeSlug v \<Longrightarrow> c \<in> set v \<Longrightarrow> c \<in> set slug_chars"
  by (simp add: isSafeSlug_iff)

end
