(* ===== verification/Attention.thy ===== *)
theory Attention
  imports Types
begin

text \<open>
  \<open>protocol/attention.ts\<close>, \<open>protocol/attendance.ts\<close> and \<open>protocol/wake-tier.ts\<close>: the
  wake-on-event attention modes, their capability order, the negotiation of a participant's
  effective mode from what it declares and what the host asks, and the wake tier derived from
  it. The lemmas show that negotiation picks the most capable declared mode that does not exceed
  the request, and never claims an undeclared capability.
\<close>

fun mode_name :: "AttentionMode \<Rightarrow> string" where
  "mode_name AM_foreground_attended = ''foreground_attended''"
| "mode_name AM_wake_on_event = ''wake_on_event''"
| "mode_name AM_heartbeat = ''heartbeat''"
| "mode_name AM_manual = ''manual''"

definition ATTENTION_MODES :: "AttentionMode list" where
  "ATTENTION_MODES = [AM_foreground_attended, AM_wake_on_event, AM_heartbeat, AM_manual]"

definition isAttentionMode :: "string \<Rightarrow> bool" where
  "isAttentionMode value \<longleftrightarrow> value \<in> set (map mode_name ATTENTION_MODES)"

definition parseAttentionMode :: "string \<Rightarrow> AttentionMode result" where
  "parseAttentionMode value =
     (case find (\<lambda>m. mode_name m = value) ATTENTION_MODES of
        Some m \<Rightarrow> Inr m
      | None \<Rightarrow> Inl (PlainError
          ''attention mode must be one of: foreground_attended, wake_on_event, heartbeat, manual''))"

text \<open>\<open>ATTENTION_MODES.indexOf(mode)\<close>.\<close>

definition attentionRank :: "AttentionMode \<Rightarrow> int" where
  "attentionRank mode =
     (case findIndex (\<lambda>m. m = mode) ATTENTION_MODES of None \<Rightarrow> - 1 | Some i \<Rightarrow> int i)"

definition normalizeSupportedModes :: "string list \<Rightarrow> AttentionMode list result" where
  "normalizeSupportedModes modes =
     bindR (mapR parseAttentionMode modes)
       (\<lambda>seen. Inr (filter (\<lambda>mode. mode \<in> set seen) ATTENTION_MODES))"

text \<open>The loop of \<open>negotiateEffectiveMode\<close>, with \<open>best\<close> as its accumulator.\<close>

fun negotiate_loop ::
  "int \<Rightarrow> AttentionMode option \<Rightarrow> AttentionMode list \<Rightarrow> AttentionMode option" where
  "negotiate_loop requestedRank best [] = best"
| "negotiate_loop requestedRank best (mode # supported) =
     (if attentionRank mode < requestedRank then negotiate_loop requestedRank best supported
      else if (case best of None \<Rightarrow> True | Some b \<Rightarrow> attentionRank mode < attentionRank b)
      then negotiate_loop requestedRank (Some mode) supported
      else negotiate_loop requestedRank best supported)"

definition negotiateEffectiveMode :: "AttentionMode list \<Rightarrow> AttentionMode \<Rightarrow> AttentionMode" where
  "negotiateEffectiveMode supported requested =
     (case negotiate_loop (attentionRank requested) None supported of
        Some best \<Rightarrow> best | None \<Rightarrow> AM_manual)"

definition isDegraded :: "AttentionMode \<Rightarrow> AttentionMode \<Rightarrow> bool" where
  "isDegraded effective requested \<longleftrightarrow> attentionRank effective > attentionRank requested"

record NegotiatedAttention =
  na_supported_modes :: "AttentionMode list"
  na_requested_mode :: AttentionMode
  na_effective_mode :: AttentionMode

text \<open>
  A participant record stores typed modes, so re-normalising them cannot throw: it drops
  duplicates and restores the capability order.
\<close>

definition negotiateParticipantAttention :: "Participant \<Rightarrow> NegotiatedAttention" where
  "negotiateParticipantAttention participant =
     (let declared = (case p_supported_modes participant of Some ms \<Rightarrow> ms | None \<Rightarrow> []);
          supported = filter (\<lambda>mode. mode \<in> set declared) ATTENTION_MODES;
          requested = (case p_requested_mode participant of
                         Some r \<Rightarrow> r | None \<Rightarrow> AM_foreground_attended)
      in \<lparr> na_supported_modes = supported, na_requested_mode = requested,
           na_effective_mode = negotiateEffectiveMode supported requested \<rparr>)"

text \<open>\<open>withNegotiatedAttention\<close> of \<open>server/http.ts\<close>: spread the negotiated modes over the record.\<close>

definition withNegotiatedAttention :: "Participant \<Rightarrow> Participant" where
  "withNegotiatedAttention participant =
     (let n = negotiateParticipantAttention participant
      in participant\<lparr> p_supported_modes := Some (na_supported_modes n),
                      p_requested_mode := Some (na_requested_mode n),
                      p_effective_mode := Some (na_effective_mode n) \<rparr>)"

datatype WakeTier = Tier_A | Tier_B | Tier_C

definition wakeTierForMode :: "AttentionMode \<Rightarrow> WakeTier" where
  "wakeTierForMode mode =
     (if mode = AM_wake_on_event then Tier_A else if mode = AM_manual then Tier_C else Tier_B)"

subsection \<open>Attendance policies\<close>

fun policy_name :: "AttendancePolicy \<Rightarrow> string" where
  "policy_name AP_manual_ok = ''manual-ok''"
| "policy_name AP_agents_foreground = ''agents-foreground''"
| "policy_name AP_all_foreground = ''all-foreground''"
| "policy_name AP_host_directed = ''host-directed''"

definition ATTENDANCE_POLICIES :: "AttendancePolicy list" where
  "ATTENDANCE_POLICIES = [AP_manual_ok, AP_agents_foreground, AP_all_foreground, AP_host_directed]"

definition parseAttendancePolicy :: "string \<Rightarrow> AttendancePolicy result" where
  "parseAttendancePolicy value =
     (case find (\<lambda>p. policy_name p = value) ATTENDANCE_POLICIES of
        Some p \<Rightarrow> Inr p
      | None \<Rightarrow> Inl (PlainError
          ''attendance policy must be one of: manual-ok, agents-foreground, all-foreground, host-directed''))"

subsection \<open>Facts\<close>

lemma attentionRank_simps [simp]:
  "attentionRank AM_foreground_attended = 0" "attentionRank AM_wake_on_event = 1"
  "attentionRank AM_heartbeat = 2" "attentionRank AM_manual = 3"
  by (simp_all add: attentionRank_def ATTENTION_MODES_def)

lemma attentionRank_inj [simp]: "attentionRank a = attentionRank b \<longleftrightarrow> a = b"
  by (cases a; cases b) auto

lemma attentionRank_manual_max: "attentionRank m \<le> attentionRank AM_manual"
  by (cases m) auto

lemma set_ATTENTION_MODES [simp]: "set ATTENTION_MODES = UNIV"
  by (auto simp: ATTENTION_MODES_def intro: AttentionMode.exhaust)

lemma parseAttentionMode_name [simp]: "parseAttentionMode (mode_name m) = Inr m"
  by (cases m) (simp_all add: parseAttentionMode_def ATTENTION_MODES_def)

lemma parseAttendancePolicy_name [simp]: "parseAttendancePolicy (policy_name p) = Inr p"
  by (cases p) (simp_all add: parseAttendancePolicy_def ATTENDANCE_POLICIES_def)

lemma parseAttentionMode_Inr: "parseAttentionMode v = Inr m \<longleftrightarrow> v = mode_name m"
proof
  assume "parseAttentionMode v = Inr m"
  then show "v = mode_name m"
    by (auto simp: parseAttentionMode_def find_Some_iff split: option.splits)
qed simp

lemma parseAttendancePolicy_Inr: "parseAttendancePolicy v = Inr p \<longleftrightarrow> v = policy_name p"
proof
  assume "parseAttendancePolicy v = Inr p"
  then show "v = policy_name p"
    by (auto simp: parseAttendancePolicy_def find_Some_iff split: option.splits)
qed simp

text \<open>The loop invariant: \<open>best\<close> is the least rank at or above the request seen so far.\<close>

lemma negotiate_loop_None:
  "negotiate_loop r best ms = None \<longleftrightarrow> best = None \<and> (\<forall>m \<in> set ms. attentionRank m < r)"
  by (induction r best ms rule: negotiate_loop.induct) (auto split: option.splits)

lemma negotiate_loop_Some:
  assumes "negotiate_loop r best ms = Some b"
    and "\<And>b0. best = Some b0 \<Longrightarrow> r \<le> attentionRank b0"
  shows "(b \<in> set ms \<or> best = Some b) \<and> r \<le> attentionRank b \<and>
         (\<forall>m \<in> set ms. r \<le> attentionRank m \<longrightarrow> attentionRank b \<le> attentionRank m) \<and>
         (\<forall>b0. best = Some b0 \<longrightarrow> attentionRank b \<le> attentionRank b0)"
  using assms
proof (induction ms arbitrary: best)
  case (Cons mode ms)
  let ?take = "\<not> attentionRank mode < r \<and>
    (case best of None \<Rightarrow> True | Some b0 \<Rightarrow> attentionRank mode < attentionRank b0)"
  define next_best where "next_best = (if ?take then Some mode else best)"
  have "negotiate_loop r next_best ms = Some b"
    using Cons.prems(1) by (simp add: next_best_def split: if_splits)
  moreover have "r \<le> attentionRank b0" if "next_best = Some b0" for b0
    using that Cons.prems(2) by (auto simp: next_best_def split: if_splits)
  ultimately have ih: "(b \<in> set ms \<or> next_best = Some b) \<and> r \<le> attentionRank b \<and>
      (\<forall>m \<in> set ms. r \<le> attentionRank m \<longrightarrow> attentionRank b \<le> attentionRank m) \<and>
      (\<forall>b0. next_best = Some b0 \<longrightarrow> attentionRank b \<le> attentionRank b0)"
    by (rule Cons.IH)
  show ?case
  proof (cases ?take)
    case True
    with ih show ?thesis by (auto simp: next_best_def split: option.splits)
  next
    case False
    with ih show ?thesis by (cases best) (auto simp: next_best_def)
  qed
qed auto

lemma normalizeSupportedModes_Inr:
  "normalizeSupportedModes vs = Inr ms \<longleftrightarrow>
     (\<exists>ds. vs = map mode_name ds \<and> ms = filter (\<lambda>m. m \<in> set ds) ATTENTION_MODES)"
proof -
  have *: "mapR parseAttentionMode vs = Inr ds \<longleftrightarrow> vs = map mode_name ds" for ds
    by (induction vs arbitrary: ds) (auto simp: bindR_Inr_iff parseAttentionMode_Inr)
  show ?thesis by (auto simp: normalizeSupportedModes_def bindR_Inr_iff *)
qed

subsection \<open>Properties\<close>

text \<open>Claim C6. The negotiated mode is the most capable declared mode that is not more capable than
  the requested one; when there is none it is \<open>manual\<close>. So a participant is never given a mode it
  did not declare (but for the manual floor), nor one above the request, and re-negotiating a
  negotiated record changes nothing.\<close>

theorem negotiation_optimal:
  "(let eff = negotiateEffectiveMode supported req;
        fits = {m \<in> set supported. attentionRank req \<le> attentionRank m}
    in attentionRank req \<le> attentionRank eff \<and>
       (if fits = {} then eff = AM_manual
        else eff \<in> fits \<and> (\<forall>m \<in> fits. attentionRank eff \<le> attentionRank m))) \<and>
   withNegotiatedAttention (withNegotiatedAttention p) = withNegotiatedAttention p"
proof -
  let ?loop = "negotiate_loop (attentionRank req) None supported"
  have best: "b \<in> set supported \<and> attentionRank req \<le> attentionRank b \<and>
      (\<forall>m \<in> set supported. attentionRank req \<le> attentionRank m \<longrightarrow> attentionRank b \<le> attentionRank m)"
    if "?loop = Some b" for b
    using negotiate_loop_Some [OF that] by simp
  have none: "?loop = None \<longleftrightarrow> (\<forall>m \<in> set supported. attentionRank m < attentionRank req)"
    by (simp add: negotiate_loop_None)
  have twice: "withNegotiatedAttention (withNegotiatedAttention p) = withNegotiatedAttention p"
    by (simp add: withNegotiatedAttention_def negotiateParticipantAttention_def Let_def)
  show ?thesis
  proof (cases ?loop)
    case None
    with none have "{m \<in> set supported. attentionRank req \<le> attentionRank m} = {}" by auto
    with None twice attentionRank_manual_max show ?thesis
      by (simp add: negotiateEffectiveMode_def Let_def)
  next
    case (Some b)
    with best twice show ?thesis by (auto simp: negotiateEffectiveMode_def Let_def)
  qed
qed

lemma negotiation_optimal_witness:
  "negotiateEffectiveMode [AM_manual, AM_heartbeat, AM_foreground_attended] AM_wake_on_event = AM_heartbeat"
proof -
  have fits: "{m \<in> set [AM_manual, AM_heartbeat, AM_foreground_attended].
      attentionRank AM_wake_on_event \<le> attentionRank m} = {AM_manual, AM_heartbeat}" by auto
  show ?thesis
    using negotiation_optimal [where supported = "[AM_manual, AM_heartbeat, AM_foreground_attended]"
        and req = AM_wake_on_event and p = undefined]
    unfolding fits Let_def by auto
qed

end
