(* ===== verification/Mentions.thy ===== *)
theory Mentions
  imports Types
begin

text \<open>
  \<open>protocol/mentions.ts\<close>: the scan for \<open>@alias\<close> tokens outside code. The regular expression
  \<open>/(^|[^\w-])@([a-z0-9-]+)/g\<close> is modelled by \<open>mention_scan\<close>, which returns the second group
  of every match in order; its flag says that the scan is still at index 0, where \<open>^\<close> matches.
  The lemmas characterise the matches by position, and relate the masked text to the source.
\<close>

definition backtick :: char where
  "backtick = CHR 0x60"

definition newline :: char where
  "newline = CHR 0x0A"

text \<open>\<open>[a-z0-9-]\<close> and \<open>[^\w-]\<close>.\<close>

definition alias_char :: "char \<Rightarrow> bool" where
  "alias_char c \<longleftrightarrow> c \<in> set slug_chars"

definition boundary_char :: "char \<Rightarrow> bool" where
  "boundary_char c \<longleftrightarrow>
     c \<notin> set (''ABCDEFGHIJKLMNOPQRSTUVWXYZ_'' @ slug_chars)"

text \<open>The match attempt at one position: \<open>^\<close> first (at index 0), then a boundary character.\<close>

fun match_here :: "bool \<Rightarrow> string \<Rightarrow> (string \<times> string) option" where
  "match_here at_start s =
     (let after = (\<lambda>r. let a = takeWhile alias_char r in
                       if a = [] then None else Some (a, dropWhile alias_char r))
      in case (if at_start \<and> s \<noteq> [] \<and> hd s = CHR ''@'' then after (tl s) else None) of
           Some m \<Rightarrow> Some m
         | None \<Rightarrow> (case s of
               c # d # r \<Rightarrow> if boundary_char c \<and> d = CHR ''@'' then after r else None
             | _ \<Rightarrow> None))"

lemma match_here_shorter: "match_here at_start s = Some (a, r) \<Longrightarrow> length r < length s"
proof -
  have *: "length (dropWhile alias_char x) < Suc (length x)" for x
    by (simp add: le_imp_less_Suc length_dropWhile_le)
  assume "match_here at_start s = Some (a, r)"
  then show ?thesis
    using * [of "tl s"] * [of "tl (tl s)"]
    by (cases s) (auto simp: Let_def split: if_splits list.splits option.splits)
qed

function mention_scan :: "bool \<Rightarrow> string \<Rightarrow> string list" where
  "mention_scan at_start s =
     (case s of
        [] \<Rightarrow> []
      | c # cs \<Rightarrow> (case match_here at_start s of
            Some (a, rest) \<Rightarrow> a # mention_scan False rest
          | None \<Rightarrow> mention_scan False cs))"
  by pat_completeness auto
termination
  by (relation "measure (length \<circ> snd)") (auto dest: match_here_shorter simp del: match_here.simps)

declare match_here.simps [simp del] mention_scan.simps [simp del]

fun maskInlineCode_loop :: "bool \<Rightarrow> string \<Rightarrow> string" where
  "maskInlineCode_loop inInline [] = []"
| "maskInlineCode_loop inInline (c # cs) =
     (if c = backtick then CHR '' '' # maskInlineCode_loop (\<not> inInline) cs
      else (if inInline then CHR '' '' else c) # maskInlineCode_loop inInline cs)"

definition maskInlineCode :: "string \<Rightarrow> string" where
  "maskInlineCode line = maskInlineCode_loop False line"

definition is_fence :: "string \<Rightarrow> bool" where
  "is_fence line \<longleftrightarrow> starts_with [backtick, backtick, backtick] (js_trimStart line)"

fun mask_lines :: "bool \<Rightarrow> string list \<Rightarrow> string list" where
  "mask_lines inFence [] = []"
| "mask_lines inFence (line # ls) =
     (if is_fence line then replicate (length line) CHR '' '' # mask_lines (\<not> inFence) ls
      else if inFence then replicate (length line) CHR '' '' # mask_lines inFence ls
      else maskInlineCode line # mask_lines inFence ls)"

definition maskCode :: "string \<Rightarrow> string" where
  "maskCode text = js_join newline (mask_lines False (js_split newline text))"

record MentionAnalysis =
  ma_mentions :: "string list"
  ma_unknown :: "string list"

text \<open>One iteration of the match loop; a list stands for each array and its \<open>seen\<close> set.\<close>

definition analyze_step :: "string list \<Rightarrow> MentionAnalysis \<Rightarrow> string \<Rightarrow> MentionAnalysis" where
  "analyze_step roster acc alias =
     (if alias \<in> set roster then
        (if alias \<in> set (ma_mentions acc) then acc
         else acc\<lparr> ma_mentions := ma_mentions acc @ [alias] \<rparr>)
      else
        (if alias \<in> set (ma_unknown acc) then acc
         else acc\<lparr> ma_unknown := ma_unknown acc @ [alias] \<rparr>))"

definition analyzeMentions :: "string \<Rightarrow> string list \<Rightarrow> MentionAnalysis" where
  "analyzeMentions text participantAliases =
     foldl (analyze_step (filter isSafeSlug participantAliases))
       \<lparr> ma_mentions = [], ma_unknown = [] \<rparr> (mention_scan True (maskCode text))"

definition parseMentions :: "string \<Rightarrow> string list \<Rightarrow> string list" where
  "parseMentions text participantAliases = ma_mentions (analyzeMentions text participantAliases)"

subsection \<open>The match loop\<close>

text \<open>The occurrences the expression finds, stated by position.\<close>

definition mentioned_at :: "bool \<Rightarrow> string \<Rightarrow> string \<Rightarrow> string \<Rightarrow> string \<Rightarrow> bool" where
  "mentioned_at at_start s pre alias post \<longleftrightarrow>
     s = pre @ CHR ''@'' # alias @ post \<and>
     (if pre = [] then at_start else boundary_char (last pre)) \<and>
     alias \<noteq> [] \<and> list_all alias_char alias \<and> (post = [] \<or> \<not> alias_char (hd post))"

lemma boundary_not_alias: "boundary_char c \<Longrightarrow> \<not> alias_char c"
  by (auto simp: boundary_char_def alias_char_def)

lemma at_char_facts [simp]: "boundary_char CHR ''@''" "\<not> alias_char CHR ''@''"
  by (simp_all add: boundary_char_def alias_char_def slug_chars_def)

lemma takeWhile_token:
  assumes "list_all p a" "post = [] \<or> \<not> p (hd post)"
  shows "takeWhile p (a @ post) = a" "dropWhile p (a @ post) = post"
  using assms by (induction a) (cases post; auto)+

lemma takeWhile_token_split:
  assumes "a = takeWhile p x" "r = dropWhile p x" "a \<noteq> []"
  shows "x = a @ r \<and> a \<noteq> [] \<and> list_all p a \<and> (r = [] \<or> \<not> p (hd r))"
  using assms by (auto simp: list_all_iff dest: set_takeWhileD)
    (metis hd_dropWhile dropWhile_eq_Nil_conv)

lemma match_here_Some:
  assumes "match_here at_start s = Some (a, r)"
  shows "\<exists>pre. mentioned_at at_start s pre a r \<and> length pre \<le> 1"
proof -
  consider x where "at_start" "s = CHR ''@'' # x" "takeWhile alias_char x \<noteq> []"
      "a = takeWhile alias_char x" "r = dropWhile alias_char x"
    | c x where "s = c # CHR ''@'' # x" "boundary_char c" "takeWhile alias_char x \<noteq> []"
      "a = takeWhile alias_char x" "r = dropWhile alias_char x"
    using assms
    by (cases s) (auto simp: match_here.simps Let_def split: if_splits list.splits option.splits)
  then show ?thesis
  proof cases
    case (1 x)
    with takeWhile_token_split [of a alias_char x r] show ?thesis
      by (intro exI [of _ "[]"]) (auto simp: mentioned_at_def)
  next
    case (2 c x)
    with takeWhile_token_split [of a alias_char x r] show ?thesis
      by (intro exI [of _ "[c]"]) (auto simp: mentioned_at_def)
  qed
qed

lemma match_here_hit:
  assumes "mentioned_at at_start s pre alias post" "length pre \<le> 1"
  shows "match_here at_start s = Some (alias, post)"
proof -
  have tok: "takeWhile alias_char (alias @ post) = alias" "dropWhile alias_char (alias @ post) = post"
    and ne: "alias \<noteq> []"
    using assms by (auto simp: mentioned_at_def takeWhile_token)
  consider "pre = []" | c where "pre = [c]"
    using assms(2) by (cases pre) auto
  then show ?thesis
  proof cases
    case 1
    with assms tok ne show ?thesis by (simp add: mentioned_at_def match_here.simps)
  next
    case (2 c)
    with assms tok ne show ?thesis by (simp add: mentioned_at_def match_here.simps Let_def)
  qed
qed

text \<open>An occurrence that starts later is never swallowed by the match in front of it.\<close>

lemma mentioned_at_later:
  assumes "mentioned_at b s pre alias post" "mentioned_at b' s pre0 a0 r0"
    and "length pre0 < length pre"
  shows "mentioned_at False r0 (drop (length pre0 + 1 + length a0) pre) alias post"
proof -
  let ?j = "length pre0" and ?n = "length a0" and ?k = "length pre"
  have s: "s = pre @ CHR ''@'' # alias @ post" and s0: "s = pre0 @ CHR ''@'' # a0 @ r0"
    using assms by (auto simp: mentioned_at_def)
  have pre: "pre \<noteq> []" using assms(3) by auto
  have tok: "alias_char (s ! (?j + 1 + i))" if "i < ?n" for i
    using that assms(2) by (simp add: s0 nth_append mentioned_at_def list_all_length)
  have "s ! ?k = CHR ''@''" by (simp add: s)
  moreover have "boundary_char (s ! (?k - 1))"
    using assms(1) pre by (simp add: s nth_append mentioned_at_def last_conv_nth)
  ultimately have no: "\<not> alias_char (s ! ?k)" "\<not> alias_char (s ! (?k - 1))"
    using boundary_not_alias by auto
  have "?j + 1 + ?n < ?k"
  proof (rule ccontr)
    assume "\<not> ?j + 1 + ?n < ?k"
    then consider "?k \<le> ?j + ?n" | "?k = ?j + ?n + 1" by linarith
    then show False
    proof cases
      case 1
      with assms(3) have "?k - ?j - 1 < ?n" "?j + 1 + (?k - ?j - 1) = ?k" by simp_all
      with tok no(1) show False by metis
    next
      case 2
      moreover have "a0 \<noteq> []" using assms(2) by (simp add: mentioned_at_def)
      ultimately have "?n - 1 < ?n" "?j + 1 + (?n - 1) = ?k - 1" using 2 by simp_all
      with tok no(2) show False by metis
    qed
  qed
  moreover have "r0 = drop (?j + 1 + ?n) s" by (simp add: s0)
  ultimately show ?thesis
    using assms(1) pre by (simp add: mentioned_at_def s)
qed

lemma mention_scan_complete:
  "mentioned_at at_start s pre alias post \<Longrightarrow> alias \<in> set (mention_scan at_start s)"
proof (induction at_start s arbitrary: pre rule: mention_scan.induct)
  case (1 at_start s)
  obtain c cs where s: "s = c # cs"
    using 1(3) by (cases s) (auto simp: mentioned_at_def)
  show ?case
  proof (cases "length pre \<le> 1")
    case True
    from match_here_hit [OF 1(3) True] show ?thesis
      by (simp add: s mention_scan.simps [of at_start "c # cs"])
  next
    case long: False
    show ?thesis
    proof (cases "match_here at_start s")
      case None
      have "mentioned_at False cs (tl pre) alias post"
        using long 1(3) by (cases pre) (auto simp: mentioned_at_def s)
      with 1(1) [OF s None] None show ?thesis
        by (simp add: s mention_scan.simps [of at_start "c # cs"])
    next
      case (Some m)
      obtain a0 r0 where m: "m = (a0, r0)" by (cases m)
      with Some match_here_Some obtain pre0
        where "mentioned_at at_start s pre0 a0 r0" "length pre0 \<le> 1" by blast
      with mentioned_at_later [OF 1(3)] long
      have "mentioned_at False r0 (drop (length pre0 + 1 + length a0) pre) alias post" by simp
      with 1(2) [OF s Some m [symmetric]] Some m show ?thesis
        by (simp add: s mention_scan.simps [of at_start "c # cs"])
    qed
  qed
qed

lemma mentioned_at_shift:
  assumes "mentioned_at False r pre a post" "s = w @ r"
  shows "mentioned_at b s (w @ pre) a post"
  using assms by (auto simp: mentioned_at_def split: if_splits)

lemma mention_scan_sound:
  "a \<in> set (mention_scan at_start s) \<Longrightarrow> \<exists>pre post. mentioned_at at_start s pre a post"
proof (induction at_start s rule: mention_scan.induct)
  case (1 at_start s)
  then obtain c cs where s: "s = c # cs" by (cases s) (auto simp: mention_scan.simps)
  show ?case
  proof (cases "match_here at_start s")
    case None
    with 1(3) s have "a \<in> set (mention_scan False cs)"
      by (simp add: mention_scan.simps [of at_start "c # cs"])
    with 1(1) [OF s None] mentioned_at_shift [where s = s and w = "[c]" and b = at_start] s
    show ?thesis by fastforce
  next
    case (Some m)
    obtain a0 r0 where m: "m = (a0, r0)" by (cases m)
    with Some match_here_Some obtain pre0 where at: "mentioned_at at_start s pre0 a0 r0" by blast
    then have split: "s = (pre0 @ CHR ''@'' # a0) @ r0" by (simp add: mentioned_at_def)
    from 1(3) s Some m have "a = a0 \<or> a \<in> set (mention_scan False r0)"
      by (simp add: mention_scan.simps [of at_start "c # cs"])
    with at 1(2) [OF s Some m [symmetric]] mentioned_at_shift [OF _ split] show ?thesis by blast
  qed
qed

subsection \<open>The collected lists\<close>

lemma analyze_fold:
  "foldl (analyze_step roster) \<lparr> ma_mentions = [], ma_unknown = [] \<rparr> toks =
     \<lparr> ma_mentions = filter (\<lambda>a. a \<in> set roster) (first_occurrences toks),
       ma_unknown = filter (\<lambda>a. a \<notin> set roster) (first_occurrences toks) \<rparr>"
proof (induction toks rule: rev_induct)
  case (snoc a toks)
  then show ?case by (simp add: analyze_step_def first_occurrences_snoc)
qed simp

lemma analyzeMentions_eq:
  "analyzeMentions text aliases =
     \<lparr> ma_mentions = filter (\<lambda>a. a \<in> set (filter isSafeSlug aliases))
         (first_occurrences (mention_scan True (maskCode text))),
       ma_unknown = filter (\<lambda>a. a \<notin> set (filter isSafeSlug aliases))
         (first_occurrences (mention_scan True (maskCode text))) \<rparr>"
  unfolding analyzeMentions_def by (rule analyze_fold)

subsection \<open>Masking\<close>

lemma mask_inline_length [simp]: "length (maskInlineCode_loop b s) = length s"
  by (induction b s rule: maskInlineCode_loop.induct) auto

lemma mask_inline_spec:
  "list_all2 (\<lambda>m c. (m = c \<or> m = CHR '' '') \<and> m \<noteq> backtick) (maskInlineCode_loop b s) s"
  by (induction b s rule: maskInlineCode_loop.induct) (auto simp: backtick_def)

lemma replicate_spec:
  "list_all2 (\<lambda>m c. (m = c \<or> m = CHR '' '') \<and> m \<noteq> backtick) (replicate (length s) CHR '' '') s"
  by (induction s) (auto simp: backtick_def)

lemma mask_lines_spec:
  "list_all2 (list_all2 (\<lambda>m c. (m = c \<or> m = CHR '' '') \<and> m \<noteq> backtick)) (mask_lines b ls) ls"
  by (induction b ls rule: mask_lines.induct)
    (auto simp: maskInlineCode_def mask_inline_spec replicate_spec)

lemma js_join_all2:
  "list_all2 (list_all2 R) ms ls \<Longrightarrow> R d d \<Longrightarrow> list_all2 R (js_join d ms) (js_join d ls)"
proof (induction ms ls rule: list_all2_induct)
  case (Cons m ms l ls)
  then show ?case by (cases ms; cases ls) (auto intro: list_all2_appendI)
qed simp

lemma maskCode_spec:
  "list_all2 (\<lambda>m c. (m = c \<or> m = CHR '' '') \<and> m \<noteq> backtick) (maskCode text) text"
  using js_join_all2 [OF mask_lines_spec, of newline False "js_split newline text"]
  by (simp add: maskCode_def newline_def backtick_def)

lemma mask_inline_plain: "backtick \<notin> set s \<Longrightarrow> maskInlineCode_loop False s = s"
  by (induction s) auto

lemma is_fence_backtick: "is_fence l \<Longrightarrow> backtick \<in> set l"
proof -
  assume "is_fence l"
  then have "backtick \<in> set (js_trimStart l)"
    by (cases "js_trimStart l") (auto simp: is_fence_def starts_with_def)
  then show ?thesis using set_dropWhileD by (fastforce simp: js_trimStart_def)
qed

lemma mask_lines_plain:
  "(\<And>l. l \<in> set ls \<Longrightarrow> backtick \<notin> set l) \<Longrightarrow> mask_lines False ls = ls"
  by (induction ls) (auto simp: maskInlineCode_def mask_inline_plain dest: is_fence_backtick)

lemma js_split_subset: "w \<in> set (js_split d s) \<Longrightarrow> set w \<subseteq> set s"
proof (induction s arbitrary: w)
  case (Cons c cs)
  obtain u us where "js_split d cs = u # us"
    using js_split_nonempty by (meson neq_Nil_conv)
  with Cons.prems Cons.IH [of u] Cons.IH [of w] show ?case by (auto split: if_splits)
qed simp

lemma maskCode_plain:
  assumes "backtick \<notin> set text"
  shows "maskCode text = text"
proof -
  have "backtick \<notin> set l" if "l \<in> set (js_split newline text)" for l
    using js_split_subset [OF that] assms by blast
  then show ?thesis by (simp add: maskCode_def mask_lines_plain)
qed

subsection \<open>Properties\<close>

text \<open>Claim C5. The mentions of a message are exactly the safe roster aliases that occur in the
  masked text as \<open>@alias\<close>, at its start or after a boundary character and not inside a longer
  token: the match loop neither invents one nor skips one (a match never swallows the boundary
  of the next), and no alias is listed twice.\<close>

theorem parseMentions_exact:
  "set (parseMentions body aliases) =
     {a \<in> set aliases. isSafeSlug a \<and> (\<exists>pre post. mentioned_at True (maskCode body) pre a post)} \<and>
   distinct (parseMentions body aliases)"
proof -
  have "a \<in> set (mention_scan True s) \<longleftrightarrow> (\<exists>pre post. mentioned_at True s pre a post)" for a s
    using mention_scan_complete mention_scan_sound by blast
  then show ?thesis by (auto simp: parseMentions_def analyzeMentions_eq)
qed

text \<open>Masking code keeps the length of the text and replaces characters only by spaces,
  never leaves a backquote, and leaves a text without backquotes as it is.\<close>

lemma maskCode_faithful:
  "length (maskCode body) = length body \<and>
   (\<forall>i < length body. maskCode body ! i \<in> {body ! i, CHR '' ''} \<and> maskCode body ! i \<noteq> backtick) \<and>
   (backtick \<notin> set body \<longrightarrow> maskCode body = body)"
  using maskCode_spec [of body] by (auto simp: list_all2_conv_all_nth maskCode_plain)

end
