(* ===== verification/Messages.thy ===== *)
theory Messages
  imports Types
begin

text \<open>
  \<open>protocol/messages.ts\<close>: decoding a client's JSON body into a message input, and building the
  stored message. The lemmas state exactly which inputs are accepted.
\<close>

definition MAX_MESSAGE_TEXT_LENGTH :: nat where
  "MAX_MESSAGE_TEXT_LENGTH = 24000"

definition MAX_CLIENT_MESSAGE_ID_LENGTH :: nat where
  "MAX_CLIENT_MESSAGE_ID_LENGTH = 128"

record BuildMessageOptions =
  bo_id :: nat
  bo_room :: string
  bo_from :: string
  bo_now :: int
  bo_mentions :: "string list"
  bo_type :: "MessageType option"

fun type_name :: "MessageType \<Rightarrow> string" where
  "type_name MT_message = ''message''"
| "type_name MT_question = ''question''"
| "type_name MT_reply = ''reply''"
| "type_name MT_status = ''status''"
| "type_name MT_request_review = ''request_review''"
| "type_name MT_request_debug = ''request_debug''"
| "type_name MT_handoff = ''handoff''"
| "type_name MT_system = ''system''"

definition CLIENT_MESSAGE_TYPES :: "MessageType list" where
  "CLIENT_MESSAGE_TYPES =
     [MT_message, MT_question, MT_reply, MT_status, MT_request_review, MT_request_debug, MT_handoff]"

definition parseClientMessageType :: "json option \<Rightarrow> MessageType option" where
  "parseClientMessageType value =
     find (\<lambda>t. value = Some (JStr (type_name t))) CLIENT_MESSAGE_TYPES"

definition parsePositiveMessageId :: "json \<Rightarrow> string \<Rightarrow> int result" where
  "parsePositiveMessageId value label =
     (case value of
        JNum n \<Rightarrow>
          (if \<not> Number_isSafeInteger n \<or> jnum_int n \<le> 0
           then Inl (PlainError (label @ '' must be a positive safe integer''))
           else Inr (jnum_int n))
      | _ \<Rightarrow> Inl (PlainError (label @ '' must be a positive safe integer'')))"

definition client_id_chars :: string where
  "client_id_chars =
     ''ABCDEFGHIJKLMNOPQRSTUVWXYZabcdefghijklmnopqrstuvwxyz0123456789._:-''"

definition parseClientMessageId :: "json \<Rightarrow> string result" where
  "parseClientMessageId value =
     (case value of
        JStr s \<Rightarrow>
          (if length s = 0 \<or> length s > MAX_CLIENT_MESSAGE_ID_LENGTH \<or>
              \<not> list_all (\<lambda>c. c \<in> set client_id_chars) s
           then Inl (PlainError ''client_msg_id must be 1-128 chars using letters, numbers, dot, underscore, colon, or dash'')
           else Inr s)
      | _ \<Rightarrow> Inl (PlainError ''client_msg_id must be 1-128 chars using letters, numbers, dot, underscore, colon, or dash''))"

definition clientMessageInputFromRecord :: "json \<Rightarrow> ClientMessageInput result" where
  "clientMessageInputFromRecord rec =
     (if (case rec of JObj _ \<Rightarrow> False | JArr _ \<Rightarrow> False | _ \<Rightarrow> True)
      then Inl (PlainError ''message input must be an object'')
      else bindR (jprop rec ''text'') (\<lambda>src.
        case src of
          Some (JStr body) \<Rightarrow>
            if length (js_trim body) = 0 then Inl (PlainError ''message text is required'')
            else if length body > MAX_MESSAGE_TEXT_LENGTH
            then Inl (PlainError ''message text must be <= 24000 characters'')
            else bindR (jprop rec ''type'') (\<lambda>ty.
              bindR (jprop rec ''reply_to'') (\<lambda>rt.
              bindR (case rt of None \<Rightarrow> Inr None
                     | Some v \<Rightarrow> bindR (parsePositiveMessageId v ''reply_to'') (Inr \<circ> Some)) (\<lambda>reply.
              bindR (jprop rec ''client_msg_id'') (\<lambda>cm.
              bindR (case cm of None \<Rightarrow> Inr None
                     | Some v \<Rightarrow> bindR (parseClientMessageId v) (Inr \<circ> Some)) (\<lambda>cid.
              Inr \<lparr> in_text = body, in_type = parseClientMessageType ty, in_reply_to = reply,
                    in_client_msg_id = cid \<rparr>)))))
        | _ \<Rightarrow> Inl (PlainError ''message text is required'')))"

text \<open>\<open>options.type ?? input.type ?? "message"\<close>.\<close>

definition buildMessage :: "ClientMessageInput \<Rightarrow> BuildMessageOptions \<Rightarrow> Message" where
  "buildMessage input options =
     \<lparr> m_id = bo_id options, m_room = bo_room options, m_ts = Iso (bo_now options),
       m_from = bo_from options,
       m_type = (case bo_type options of Some t \<Rightarrow> t
                 | None \<Rightarrow> (case in_type input of Some t \<Rightarrow> t | None \<Rightarrow> MT_message)),
       m_text = in_text input, m_reply_to = in_reply_to input,
       m_client_msg_id = in_client_msg_id input, m_mentions = bo_mentions options \<rparr>"

lemma parseClientMessageType_client:
  "parseClientMessageType v = Some t \<Longrightarrow> t \<noteq> MT_system \<and> v = Some (JStr (type_name t))"
  by (auto simp: parseClientMessageType_def CLIENT_MESSAGE_TYPES_def split: if_splits)

lemma parseClientMessageType_name:
  "t \<noteq> MT_system \<Longrightarrow> parseClientMessageType (Some (JStr (type_name t))) = Some t"
  by (cases t) (simp_all add: parseClientMessageType_def CLIENT_MESSAGE_TYPES_def)

lemma parsePositiveMessageId_Inr:
  "parsePositiveMessageId v l = Inr i \<longleftrightarrow>
     (\<exists>r. v = JNum (Finite r) \<and> r = of_int i \<and> 0 < i \<and> i \<le> max_safe)"
proof -
  have "v = JNum (Finite (of_int i))"
    if "v = JNum n" "Number_isSafeInteger n" "jnum_int n = i" for n
    using that by (cases n) auto
  then show ?thesis
    by (auto simp: parsePositiveMessageId_def split: json.splits if_splits)
      (metis Number_isSafeInteger.elims(2) abs_le_D1 jnum_int.simps(1))
qed

definition validClientId :: "string \<Rightarrow> bool" where
  "validClientId s \<longleftrightarrow> 0 < length s \<and> length s \<le> 128 \<and> list_all (\<lambda>c. c \<in> set client_id_chars) s"

lemma parseClientMessageId_Inr:
  "parseClientMessageId v = Inr s \<longleftrightarrow> v = JStr s \<and> validClientId s"
  by (auto simp: parseClientMessageId_def validClientId_def MAX_CLIENT_MESSAGE_ID_LENGTH_def
      split: json.splits if_splits)

lemma decoded_object: "clientMessageInputFromRecord rec = Inr inp \<Longrightarrow> \<exists>ps. rec = JObj ps"
  by (cases rec) (auto simp: clientMessageInputFromRecord_def)

text \<open>What an accepted input satisfies.\<close>

definition validInput :: "ClientMessageInput \<Rightarrow> bool" where
  "validInput inp \<longleftrightarrow>
     (\<exists>c \<in> set (in_text inp). \<not> js_space c) \<and> length (in_text inp) \<le> 24000 \<and>
     in_type inp \<noteq> Some MT_system \<and>
     (\<forall>i. in_reply_to inp = Some i \<longrightarrow> 0 < i \<and> i \<le> max_safe) \<and>
     (\<forall>s. in_client_msg_id inp = Some s \<longrightarrow> validClientId s)"

lemma decoded_valid:
  assumes "clientMessageInputFromRecord rec = Inr inp"
  shows "validInput inp"
proof -
  obtain ps where "rec = JObj ps" using decoded_object [OF assms] by blast
  with assms show ?thesis
    by (auto simp: clientMessageInputFromRecord_def validInput_def bindR_Inr_iff
        parsePositiveMessageId_Inr parseClientMessageId_Inr js_trim_nonempty_iff
        MAX_MESSAGE_TEXT_LENGTH_def
        split: option.splits json.splits if_splits dest: parseClientMessageType_client)
qed

text \<open>The JSON body a client sends for an input.\<close>

definition inputJson :: "ClientMessageInput \<Rightarrow> json" where
  "inputJson inp = JObj (
     [(''text'', JStr (in_text inp))] @
     (case in_type inp of None \<Rightarrow> [] | Some t \<Rightarrow> [(''type'', JStr (type_name t))]) @
     (case in_reply_to inp of None \<Rightarrow> [] | Some i \<Rightarrow> [(''reply_to'', JNum (Finite (of_int i)))]) @
     (case in_client_msg_id inp of None \<Rightarrow> [] | Some s \<Rightarrow> [(''client_msg_id'', JStr s)]))"

text \<open>Decoding is the inverse of sending for exactly the valid inputs: a non-blank text
  of at most 24000 code units, a client message type (never \<open>system\<close>), a positive safe integer
  as \<open>reply_to\<close> and a well-formed \<open>client_msg_id\<close>; every other input is refused.\<close>

lemma clientMessageInput_roundtrip:
  "clientMessageInputFromRecord (inputJson inp) = Inr inp \<longleftrightarrow> validInput inp"
proof
  assume "clientMessageInputFromRecord (inputJson inp) = Inr inp"
  then show "validInput inp" by (rule decoded_valid)
next
  assume v: "validInput inp"
  have ty: "parseClientMessageType (map_option (JStr \<circ> type_name) (in_type inp)) = in_type inp"
  proof (cases "in_type inp")
    case (Some t)
    with v have "t \<noteq> MT_system" by (simp add: validInput_def)
    with Some show ?thesis by (simp add: parseClientMessageType_name)
  qed (simp add: parseClientMessageType_def find_None_iff)
  obtain body t r c where inp: "inp = \<lparr> in_text = body, in_type = t, in_reply_to = r,
      in_client_msg_id = c \<rparr>" by (cases inp)
  have pr: "parsePositiveMessageId (JNum (Finite (of_int i))) ''reply_to'' = Inr i" if "r = Some i" for i
    using v that by (simp add: inp validInput_def parsePositiveMessageId_Inr)
  have pc: "parseClientMessageId (JStr s) = Inr s" if "c = Some s" for s
    using v that by (simp add: inp validInput_def parseClientMessageId_Inr)
  show "clientMessageInputFromRecord (inputJson inp) = Inr inp"
    using v ty pr pc
    by (auto simp: inp clientMessageInputFromRecord_def inputJson_def validInput_def
        js_trim_nonempty_iff MAX_MESSAGE_TEXT_LENGTH_def split: option.splits)
qed

end
