(* ===== verification/Boardroom.thy ===== *)
theory Boardroom
  imports Types
begin

text \<open>
  \<open>protocol/boardroom.ts\<close>: channels, boardrooms, identities, read cursors and their checks. A
  channel's type and lifecycle are strings as they come from disk, so the vocabulary checks of
  \<open>assertValidChannel\<close> are real branches.
\<close>

definition CHANNEL_TYPES :: "string list" where
  "CHANNEL_TYPES = [''chat'', ''forum'']"

definition CHANNEL_LIFECYCLES :: "string list" where
  "CHANNEL_LIFECYCLES = [''active'', ''idle'', ''inactive'', ''removed'']"

definition DEFAULT_CHANNEL_ID :: string where
  "DEFAULT_CHANNEL_ID = ''general''"

datatype ParticipantRole = Role_human | Role_agent

record Channel =
  ch_id :: string
  ch_name :: string
  ch_type :: string
  ch_lifecycle :: string
  ch_createdAt :: tstamp

record Boardroom =
  br_id :: string
  br_name :: "string option"
  br_channels :: "Channel list"
  br_lifecycle :: string
  br_createdAt :: tstamp
  br_updatedAt :: tstamp
  br_legacy :: bool

record ParticipantIdentity =
  pi_participantId :: string
  pi_displayName :: string
  pi_role :: ParticipantRole
  pi_isHost :: bool
  pi_reconnectable :: bool
  pi_nameOwnerHash :: "string option"

record ChannelReadCursor =
  cc_participantId :: string
  cc_channelId :: string
  cc_sinceId :: nat
  cc_updatedAt :: tstamp

record ChannelView =
  cv_channelId :: string
  cv_type :: string
  cv_messages :: "Message list"
  cv_unread :: nat
  cv_lastReadId :: nat
  cv_latestId :: nat

definition isBroadcast :: "Message \<Rightarrow> bool" where
  "isBroadcast message \<longleftrightarrow> m_type message = MT_status"

definition unread_step :: "nat \<Rightarrow> nat \<times> nat \<Rightarrow> Message \<Rightarrow> nat \<times> nat" where
  "unread_step lastReadId = (\<lambda>(unread, latestId) message.
     (if m_id message > lastReadId then unread + 1 else unread,
      if m_id message > latestId then m_id message else latestId))"

definition summarizeUnread :: "Message list \<Rightarrow> nat \<Rightarrow> nat \<times> nat" where
  "summarizeUnread messages lastReadId = foldl (unread_step lastReadId) (0, lastReadId) messages"

definition roleFromKind :: "ParticipantKind \<Rightarrow> ParticipantRole" where
  "roleFromKind kind = (if kind = K_human then Role_human else Role_agent)"

definition shown_name :: "Participant \<Rightarrow> string" where
  "shown_name p = (case p_display_name p of Some n \<Rightarrow> n | None \<Rightarrow> p_alias p)"

definition participantIdentity :: "Participant \<Rightarrow> ParticipantIdentity result" where
  "participantIdentity participant =
     bindR (assertSafeSlug (p_alias participant) ''participant alias'') (\<lambda>_.
     Inr \<lparr> pi_participantId = p_alias participant, pi_displayName = shown_name participant,
           pi_role = roleFromKind (p_kind participant), pi_isHost = p_is_host participant,
           pi_reconnectable = (p_token_hash participant \<noteq> None),
           pi_nameOwnerHash = p_token_hash participant \<rparr>)"

definition defaultChannel :: "tstamp \<Rightarrow> Channel" where
  "defaultChannel createdAt =
     \<lparr> ch_id = DEFAULT_CHANNEL_ID, ch_name = ''general'', ch_type = ''chat'',
       ch_lifecycle = ''active'', ch_createdAt = createdAt \<rparr>"

definition deriveDefaultBoardroom ::
  "string \<Rightarrow> tstamp \<Rightarrow> tstamp \<Rightarrow> string option \<Rightarrow> Boardroom" where
  "deriveDefaultBoardroom ident createdAt updatedAt bname =
     \<lparr> br_id = ident, br_name = bname, br_channels = [defaultChannel createdAt],
       br_lifecycle = ''active'', br_createdAt = createdAt, br_updatedAt = updatedAt,
       br_legacy = True \<rparr>"

definition parseChannelType :: "string \<Rightarrow> string result" where
  "parseChannelType value =
     (if value = ''chat'' \<or> value = ''forum'' then Inr value
      else Inl (PlainError ''channel type must be one of chat, forum''))"

text \<open>\<open>replace(/\s+/g, " ")\<close>: every maximal run of white space becomes one space.\<close>

fun collapse_space :: "bool \<Rightarrow> string \<Rightarrow> string" where
  "collapse_space in_run [] = []"
| "collapse_space in_run (c # cs) =
     (if js_space c
      then (if in_run then collapse_space True cs else CHR '' '' # collapse_space True cs)
      else c # collapse_space False cs)"

definition control_char :: "char \<Rightarrow> bool" where
  "control_char c \<longleftrightarrow> (of_char c :: nat) < 32 \<or> (of_char c :: nat) = 127"

definition parseChannelName :: "string \<Rightarrow> string result" where
  "parseChannelName value =
     (let trimmed = collapse_space False (js_trim value)
      in if length trimmed = 0 \<or> length trimmed > 60 \<or> list_ex control_char trimmed
         then Inl (PlainError ''channel name must be 1-60 characters without control characters'')
         else Inr trimmed)"

definition findNameOwnerConflict ::
  "Participant list \<Rightarrow> string \<Rightarrow> string \<Rightarrow> string option \<Rightarrow> string option" where
  "findNameOwnerConflict participants displayName claimantAlias claimantHash =
     (let target = js_toLowerCase displayName
      in case find (\<lambda>p. p_alias p \<noteq> claimantAlias \<and> js_toLowerCase (shown_name p) = target)
                participants of
           None \<Rightarrow> None
         | Some owner \<Rightarrow>
             (if p_token_hash owner \<noteq> None \<and> claimantHash \<noteq> None \<and>
                 p_token_hash owner = claimantHash
              then None else Some (p_alias owner)))"

definition assertValidChannel :: "Channel \<Rightarrow> unit result" where
  "assertValidChannel channel =
     bindR (assertSafeSlug (ch_id channel) ''channel id'') (\<lambda>_.
     if ch_type channel \<notin> set CHANNEL_TYPES
     then Inl (PlainError ''channel type must be one of chat, forum'')
     else if ch_lifecycle channel \<notin> set CHANNEL_LIFECYCLES
     then Inl (PlainError ''channel lifecycle must be one of active, idle, inactive, removed'')
     else Inr ())"

fun assert_channels :: "string list \<Rightarrow> Channel list \<Rightarrow> unit result" where
  "assert_channels seen [] = Inr ()"
| "assert_channels seen (channel # cs) =
     bindR (assertValidChannel channel) (\<lambda>_.
     if ch_id channel \<in> set seen then Inl (PlainError (''duplicate channel id: '' @ ch_id channel))
     else assert_channels (ch_id channel # seen) cs)"

definition assertValidBoardroom :: "Boardroom \<Rightarrow> unit result" where
  "assertValidBoardroom boardroom =
     bindR (assertSafeSlug (br_id boardroom) ''boardroom id'') (\<lambda>_.
     if length (br_channels boardroom) = 0
     then Inl (PlainError ''boardroom must have at least one channel'')
     else bindR (assert_channels [] (br_channels boardroom)) (\<lambda>_.
     if br_lifecycle boardroom \<notin> set CHANNEL_LIFECYCLES
     then Inl (PlainError ''boardroom lifecycle must be one of active, idle, inactive, removed'')
     else Inr ()))"

subsection \<open>Well-formed boardrooms\<close>

definition wf_channel :: "Channel \<Rightarrow> bool" where
  "wf_channel c \<longleftrightarrow> isSafeSlug (ch_id c) \<and> ch_type c \<in> {''chat'', ''forum''} \<and>
     ch_lifecycle c \<in> {''active'', ''idle'', ''inactive'', ''removed''}"

definition wf_boardroom :: "Boardroom \<Rightarrow> bool" where
  "wf_boardroom b \<longleftrightarrow> isSafeSlug (br_id b) \<and> br_channels b \<noteq> [] \<and>
     (\<forall>c \<in> set (br_channels b). wf_channel c) \<and> distinct (map ch_id (br_channels b)) \<and>
     br_lifecycle b \<in> {''active'', ''idle'', ''inactive'', ''removed''}"

lemma assertValidChannel_Inr [simp]: "assertValidChannel c = Inr u \<longleftrightarrow> wf_channel c"
  by (auto simp: assertValidChannel_def wf_channel_def bindR_Inr_iff CHANNEL_TYPES_def
      CHANNEL_LIFECYCLES_def)

lemma assert_channels_Inr [simp]:
  "assert_channels seen cs = Inr u \<longleftrightarrow>
     (\<forall>c \<in> set cs. wf_channel c \<and> ch_id c \<notin> set seen) \<and> distinct (map ch_id cs)"
proof (induction seen cs rule: assert_channels.induct)
  case (2 seen channel cs)
  then show ?case by (cases "ch_id channel \<in> set seen") (auto simp: bindR_Inr_iff image_iff, metis)
qed simp

lemma assertValidBoardroom_Inr [simp]: "assertValidBoardroom b = Inr u \<longleftrightarrow> wf_boardroom b"
  by (auto simp: assertValidBoardroom_def wf_boardroom_def bindR_Inr_iff CHANNEL_LIFECYCLES_def)

lemma assertValidBoardroom_ok [simp]: "wf_boardroom b \<Longrightarrow> assertValidBoardroom b = Inr ()"
  by simp

lemma general_safe [simp]: "isSafeSlug DEFAULT_CHANNEL_ID"
  by (simp add: isSafeSlug_iff DEFAULT_CHANNEL_ID_def slug_chars_def)

lemma wf_defaultChannel [simp]: "wf_channel (defaultChannel t)"
  by (simp add: wf_channel_def defaultChannel_def)

lemma wf_deriveDefaultBoardroom [simp]:
  "wf_boardroom (deriveDefaultBoardroom r c u n) \<longleftrightarrow> isSafeSlug r"
  by (simp add: wf_boardroom_def deriveDefaultBoardroom_def)

subsection \<open>Unread counts\<close>

lemma unread_fold:
  "foldl (unread_step c) (n, m) ms =
     (n + length (filter (\<lambda>x. m_id x > c) ms), foldl (\<lambda>h x. max h (m_id x)) m ms)"
  by (induction ms arbitrary: n m) (auto simp: unread_step_def max_def)

lemma summarizeUnread_eq:
  "summarizeUnread ms c =
     (length (filter (\<lambda>x. m_id x > c) ms), foldl (\<lambda>h x. max h (m_id x)) c ms)"
  by (simp add: summarizeUnread_def unread_fold)

subsection \<open>Channel names\<close>

lemma space_is_space [simp]: "js_space CHR '' ''"
  by (simp add: js_space_def)

text \<open>A collapsed, trimmed string: no white space but single inner spaces.\<close>

fun single_spaced :: "bool \<Rightarrow> string \<Rightarrow> bool" where
  "single_spaced after_space [] \<longleftrightarrow> True"
| "single_spaced after_space (c # cs) \<longleftrightarrow>
     (js_space c \<longrightarrow> c = CHR '' '' \<and> \<not> after_space) \<and> single_spaced (js_space c) cs"

lemma collapse_single: "single_spaced b (collapse_space b s)"
  by (induction b s rule: collapse_space.induct) auto

lemma collapse_fixed: "single_spaced b s \<Longrightarrow> collapse_space b s = s"
  by (induction b s rule: collapse_space.induct) auto

lemma collapse_hd:
  "s \<noteq> [] \<Longrightarrow> \<not> js_space (hd s) \<Longrightarrow> collapse_space b s \<noteq> [] \<and> \<not> js_space (hd (collapse_space b s))"
  by (cases s) auto

lemma collapse_last:
  "s \<noteq> [] \<Longrightarrow> \<not> js_space (last s) \<Longrightarrow> collapse_space b s \<noteq> [] \<and> last (collapse_space b s) = last s"
  by (induction b s rule: collapse_space.induct) (auto split: if_splits)

text \<open>\<open>single_spaced\<close> strings are built from the inside: reading them back changes nothing.\<close>

lemma collapse_trim_fixed:
  assumes "n = collapse_space False (js_trim v)"
  shows "collapse_space False (js_trim n) = n"
proof (cases "js_trim v = []")
  case False
  note ends = js_trim_ends [OF False]
  have "js_trim n = n"
    using collapse_hd [OF False, of False] collapse_last [OF False, of False] ends
    by (intro js_trim_fixed) (simp add: assms)
  moreover have "collapse_space False n = n"
    by (simp add: assms collapse_fixed collapse_single)
  ultimately show ?thesis by simp
next
  case True
  have "js_trim [] = []" by (simp add: js_trim_def)
  with True show ?thesis by (simp add: assms)
qed

lemma parseChannelName_Inr:
  "parseChannelName v = Inr n \<longleftrightarrow>
     n = collapse_space False (js_trim v) \<and> 0 < length n \<and> length n \<le> 60 \<and>
     (\<forall>c \<in> set n. \<not> control_char c)"
  by (auto simp: parseChannelName_def Let_def list_ex_iff)

subsection \<open>Properties\<close>

text \<open>A boardroom read from disk is accepted exactly when its id is a safe slug, it has at
  least one channel, every channel is valid, no two channels share an id, and its lifecycle is
  one of the four words; the projection of a legacy room with a safe id always is.\<close>

lemma assertValidBoardroom_exact:
  "(assertValidBoardroom b = Inr () \<longleftrightarrow>
     isSafeSlug (br_id b) \<and> br_channels b \<noteq> [] \<and>
     (\<forall>c \<in> set (br_channels b). assertValidChannel c = Inr ()) \<and>
     distinct (map ch_id (br_channels b)) \<and> br_lifecycle b \<in> set CHANNEL_LIFECYCLES) \<and>
   (isSafeSlug room \<longrightarrow> assertValidBoardroom (deriveDefaultBoardroom room c u nm) = Inr ())"
  by (auto simp: wf_boardroom_def CHANNEL_LIFECYCLES_def deriveDefaultBoardroom_def)

text \<open>A channel name the parser returns has 1 to 60 characters, none a control character,
  only single inner spaces as white space, and parsing it again returns it unchanged: renaming a
  channel to its own name is the identity.\<close>

lemma parseChannelName_stable:
  assumes "parseChannelName v = Inr n"
  shows "parseChannelName n = Inr n \<and> single_spaced False n \<and> js_trim n = n \<and>
    0 < length n \<and> length n \<le> 60 \<and> (\<forall>c \<in> set n. \<not> control_char c)"
proof -
  have n: "n = collapse_space False (js_trim v)"
    and ok: "0 < length n \<and> length n \<le> 60 \<and> (\<forall>c \<in> set n. \<not> control_char c)"
    using assms unfolding parseChannelName_Inr by blast+
  have "parseChannelName n = Inr n"
    unfolding parseChannelName_Inr using ok collapse_trim_fixed [OF n] by metis
  moreover have "single_spaced False n" by (simp add: n collapse_single)
  moreover have ne: "js_trim v \<noteq> []" using ok n by auto
  then have "js_trim n = n"
    using collapse_hd [OF ne, of False] collapse_last [OF ne, of False] js_trim_ends [OF ne]
    by (intro js_trim_fixed) (simp add: n)
  ultimately show ?thesis using ok by simp
qed

text \<open>As long as no two participants share a shown name (up to case), a display name is
  refused exactly when another participant holds it and does not hold it under the claimant's
  token; the conflict reported is that participant.\<close>

lemma findNameOwnerConflict_exact:
  assumes "distinct (map (js_toLowerCase \<circ> shown_name) ps)"
  shows "findNameOwnerConflict ps nm alias h = Some owner \<longleftrightarrow>
    (\<exists>p \<in> set ps. p_alias p = owner \<and> owner \<noteq> alias \<and>
       js_toLowerCase (shown_name p) = js_toLowerCase nm \<and>
       \<not> (h \<noteq> None \<and> p_token_hash p = h))"
proof -
  let ?q = "\<lambda>p. p_alias p \<noteq> alias \<and> js_toLowerCase (shown_name p) = js_toLowerCase nm"
  have uniq: "find ?q ps = Some p \<longleftrightarrow> p \<in> set ps \<and> ?q p" for p
    using assms
  proof (induction ps)
    case (Cons x xs)
    then show ?case by (force simp: image_iff)
  qed simp
  show ?thesis
  proof (cases "find ?q ps")
    case None
    then have "findNameOwnerConflict ps nm alias h = None" by (simp add: findNameOwnerConflict_def)
    with None show ?thesis by (auto simp: find_None_iff)
  next
    case (Some p)
    with uniq have only: "x \<in> set ps \<and> ?q x \<longleftrightarrow> x = p" for x by (metis option.inject)
    then show ?thesis
      by (auto simp: findNameOwnerConflict_def Some) (metis only)+
  qed
qed

end
