(* ===== verification/Forum.thy ===== *)
theory Forum
  imports Types
begin

text \<open>
  \<open>protocol/forum.ts\<close>: the frozen shapes of forum posts and comments, the tag normaliser and the
  checks every stored record passes. The status is the string found on disk.
\<close>

definition FORUM_SCHEMA_VERSION :: int where
  "FORUM_SCHEMA_VERSION = 1"

definition FORUM_POST_STATUSES :: "string list" where
  "FORUM_POST_STATUSES = [''open'', ''answered'', ''resolved'', ''closed'']"

definition DEFAULT_FORUM_POST_STATUS :: string where
  "DEFAULT_FORUM_POST_STATUS = ''open''"

definition MAX_FORUM_TAGS :: nat where "MAX_FORUM_TAGS = 12"
definition MAX_FORUM_TITLE_LENGTH :: nat where "MAX_FORUM_TITLE_LENGTH = 200"
definition MAX_FORUM_BODY_LENGTH :: nat where "MAX_FORUM_BODY_LENGTH = 16000"

record ForumPost =
  fp_schema_version :: int
  fp_id :: string
  fp_channel_id :: string
  fp_author :: string
  fp_title :: string
  fp_body :: string
  fp_status :: string
  fp_tags :: "string list"
  fp_created_at :: tstamp
  fp_updated_at :: tstamp

record ForumComment =
  fc_schema_version :: int
  fc_id :: string
  fc_post_id :: string
  fc_channel_id :: string
  fc_author :: string
  fc_body :: string
  fc_created_at :: tstamp

definition parseForumStatus :: "string \<Rightarrow> string result" where
  "parseForumStatus value =
     (if value \<in> set FORUM_POST_STATUSES then Inr value
      else Inl (PlainError ''forum status must be one of open, answered, resolved, closed''))"

text \<open>The loop of \<open>normalizeForumTags\<close>; \<open>out\<close> is its accumulator.\<close>

fun normalize_tags_loop :: "string list \<Rightarrow> string list \<Rightarrow> string list result" where
  "normalize_tags_loop out [] = Inr out"
| "normalize_tags_loop out (raw # tags) =
     (let tag = js_toLowerCase (js_trim raw)
      in if length tag = 0 \<or> tag \<in> set out then normalize_tags_loop out tags
         else if \<not> isSafeSlug tag
         then Inl (PlainError (''forum tag must be lowercase [a-z0-9-]: '' @ raw))
         else normalize_tags_loop (out @ [tag]) tags)"

definition normalizeForumTags :: "string list \<Rightarrow> string list result" where
  "normalizeForumTags tags =
     bindR (normalize_tags_loop [] tags) (\<lambda>out.
     if length out > MAX_FORUM_TAGS
     then Inl (PlainError ''a forum post may have at most 12 tags'') else Inr out)"

definition assertForumTitle :: "string \<Rightarrow> unit result" where
  "assertForumTitle title =
     (if length (js_trim title) = 0 then Inl (PlainError ''forum post title is required'')
      else if length title > MAX_FORUM_TITLE_LENGTH
      then Inl (PlainError ''forum post title must be <= 200 characters'') else Inr ())"

definition assertForumBody :: "string \<Rightarrow> unit result" where
  "assertForumBody body =
     (if length body > MAX_FORUM_BODY_LENGTH
      then Inl (PlainError ''forum body must be <= 16000 characters'') else Inr ())"

definition assertSchemaVersion :: "int \<Rightarrow> string \<Rightarrow> unit result" where
  "assertSchemaVersion value label =
     (if value \<noteq> FORUM_SCHEMA_VERSION
      then Inl (PlainError (label @ '' schema_version must be 1'')) else Inr ())"

definition assertValidForumPost :: "ForumPost \<Rightarrow> unit result" where
  "assertValidForumPost post =
     bindR (assertSchemaVersion (fp_schema_version post) ''forum post'') (\<lambda>_.
     bindR (assertSafeSlug (fp_id post) ''forum post id'') (\<lambda>_.
     bindR (assertSafeSlug (fp_channel_id post) ''channel id'') (\<lambda>_.
     bindR (assertSafeSlug (fp_author post) ''forum post author'') (\<lambda>_.
     bindR (assertForumTitle (fp_title post)) (\<lambda>_.
     bindR (assertForumBody (fp_body post)) (\<lambda>_.
     bindR (parseForumStatus (fp_status post)) (\<lambda>_.
     bindR (normalizeForumTags (fp_tags post)) (\<lambda>_. Inr ()))))))))"

definition assertValidForumComment :: "ForumComment \<Rightarrow> unit result" where
  "assertValidForumComment comment =
     bindR (assertSchemaVersion (fc_schema_version comment) ''forum comment'') (\<lambda>_.
     bindR (assertSafeSlug (fc_id comment) ''forum comment id'') (\<lambda>_.
     bindR (assertSafeSlug (fc_post_id comment) ''forum post id'') (\<lambda>_.
     bindR (assertSafeSlug (fc_channel_id comment) ''channel id'') (\<lambda>_.
     bindR (assertSafeSlug (fc_author comment) ''forum comment author'') (\<lambda>_.
     if length (js_trim (fc_body comment)) = 0
     then Inl (PlainError ''forum comment body is required'')
     else assertForumBody (fc_body comment))))))"

subsection \<open>Tags\<close>

text \<open>A slug is its own normal form.\<close>

lemma slug_char_lower: "c \<in> set slug_chars \<Longrightarrow> js_lower c = c \<and> \<not> js_space c"
  by (auto simp: slug_chars_def js_lower_def js_space_def)

lemma slug_trim: "isSafeSlug t \<Longrightarrow> js_trim t = t"
proof -
  assume "isSafeSlug t"
  then have *: "\<forall>c \<in> set t. \<not> js_space c" by (simp add: isSafeSlug_iff slug_char_lower)
  then have "dropWhile js_space x = x" if "set x \<subseteq> set t" for x
    using that by (cases x) auto
  from this [of t] this [of "rev t"] show ?thesis by (simp add: js_trim_def)
qed

lemma slug_lower: "isSafeSlug t \<Longrightarrow> js_toLowerCase t = t"
  by (simp add: js_toLowerCase_def isSafeSlug_iff slug_char_lower map_idI)

text \<open>What the loop adds to \<open>out\<close>: the new normal forms in order of first appearance.\<close>

definition tag_forms :: "string list \<Rightarrow> string list" where
  "tag_forms tags =
     first_occurrences (filter (\<lambda>t. t \<noteq> []) (map (js_toLowerCase \<circ> js_trim) tags))"

lemma normalize_loop_Inr:
  "normalize_tags_loop out tags = Inr r \<longleftrightarrow>
     r = out @ filter (\<lambda>t. t \<notin> set out) (tag_forms tags) \<and>
     (\<forall>t \<in> set (tag_forms tags). t \<notin> set out \<longrightarrow> isSafeSlug t)"
proof (induction out tags rule: normalize_tags_loop.induct)
  case (2 out raw tags)
  let ?t = "js_toLowerCase (js_trim raw)"
  have forms: "tag_forms (raw # tags) =
      (if ?t = [] then tag_forms tags else ?t # filter (\<lambda>y. y \<noteq> ?t) (tag_forms tags))"
    by (simp add: tag_forms_def)
  have same: "filter (\<lambda>x. x \<notin> A) (filter (\<lambda>y. y \<noteq> ?t) fs) = filter (\<lambda>x. x \<notin> insert ?t A) fs"
    for A and fs :: "string list"
    by (auto simp: conj_commute intro: filter_cong)
  show ?case
  proof (cases "?t = [] \<or> ?t \<in> set out")
    case True
    then have step: "normalize_tags_loop out (raw # tags) = normalize_tags_loop out tags"
      by simp
    have "(\<forall>x \<in> set (tag_forms (raw # tags)). x \<notin> set out \<longrightarrow> isSafeSlug x) \<longleftrightarrow>
        (\<forall>x \<in> set (tag_forms tags). x \<notin> set out \<longrightarrow> isSafeSlug x)"
      using True by (auto simp: forms)
    moreover have "filter (\<lambda>x. x \<notin> set out) (tag_forms (raw # tags)) =
        filter (\<lambda>x. x \<notin> set out) (tag_forms tags)"
    proof (cases "?t = []")
      case False
      with True have "insert ?t (set out) = set out" by auto
      with False True show ?thesis
        unfolding forms using same [of "set out" "tag_forms tags"] by simp
    qed (simp add: forms)
    ultimately show ?thesis using 2(1) [OF refl] True by (simp only: step) simp
  next
    case False
    note fresh = this
    show ?thesis
    proof (cases "isSafeSlug ?t")
      case True
      with fresh have step: "normalize_tags_loop out (raw # tags) = normalize_tags_loop (out @ [?t]) tags"
        by (simp add: Let_def)
      from 2(2) [OF refl] fresh True same [of "set out" "tag_forms tags"] show ?thesis
        unfolding step by (auto simp: forms)
    qed (use fresh in \<open>auto simp: forms Let_def\<close>)
  qed
qed (auto simp: tag_forms_def)

lemma normalizeForumTags_Inr:
  "normalizeForumTags tags = Inr out \<longleftrightarrow>
     out = tag_forms tags \<and> (\<forall>t \<in> set out. isSafeSlug t) \<and> length out \<le> 12"
  by (auto simp: normalizeForumTags_def bindR_Inr_iff normalize_loop_Inr MAX_FORUM_TAGS_def)

lemma first_occurrences_distinct: "distinct xs \<Longrightarrow> first_occurrences xs = xs"
  by (induction xs) (auto intro: filter_True)

lemma tag_forms_fixed:
  assumes "\<forall>t \<in> set ts. isSafeSlug t" "distinct ts"
  shows "tag_forms ts = ts"
proof -
  have "map (js_toLowerCase \<circ> js_trim) ts = ts"
    using assms(1) by (intro map_idI) (simp add: slug_trim slug_lower)
  moreover have "filter (\<lambda>t. t \<noteq> []) ts = ts"
    using assms(1) by (intro filter_True) (auto dest: isSafeSlug_nonempty)
  ultimately show ?thesis using assms(2) by (simp add: tag_forms_def first_occurrences_distinct)
qed

lemma tag_forms_distinct: "distinct (tag_forms ts)"
  by (simp add: tag_forms_def)

lemma normalizeForumTags_idem: "normalizeForumTags ts = Inr out \<Longrightarrow> normalizeForumTags out = Inr out"
  by (auto simp: normalizeForumTags_Inr tag_forms_fixed tag_forms_distinct)

lemma assertForumTitle_Inr [simp]:
  "assertForumTitle t = Inr u \<longleftrightarrow> js_trim t \<noteq> [] \<and> length t \<le> 200"
  by (simp add: assertForumTitle_def MAX_FORUM_TITLE_LENGTH_def)

lemma assertForumBody_Inr [simp]: "assertForumBody b = Inr u \<longleftrightarrow> length b \<le> 16000"
  by (simp add: assertForumBody_def MAX_FORUM_BODY_LENGTH_def)

lemma assertSchemaVersion_Inr [simp]: "assertSchemaVersion v l = Inr u \<longleftrightarrow> v = 1"
  by (simp add: assertSchemaVersion_def FORUM_SCHEMA_VERSION_def)

lemma parseForumStatus_Inr [simp]:
  "parseForumStatus v = Inr s \<longleftrightarrow> s = v \<and> v \<in> set FORUM_POST_STATUSES"
  by (auto simp: parseForumStatus_def)

lemma default_status_ok [simp]: "DEFAULT_FORUM_POST_STATUS \<in> set FORUM_POST_STATUSES"
  by (simp add: DEFAULT_FORUM_POST_STATUS_def FORUM_POST_STATUSES_def)

text \<open>The form in which the stores keep posts and comments.\<close>

definition wf_post :: "ForumPost \<Rightarrow> bool" where
  "wf_post p \<longleftrightarrow>
     fp_schema_version p = 1 \<and> isSafeSlug (fp_id p) \<and> isSafeSlug (fp_channel_id p) \<and>
     isSafeSlug (fp_author p) \<and> js_trim (fp_title p) \<noteq> [] \<and> length (fp_title p) \<le> 200 \<and>
     length (fp_body p) \<le> 16000 \<and> fp_status p \<in> set FORUM_POST_STATUSES \<and>
     normalizeForumTags (fp_tags p) = Inr (fp_tags p)"

lemma wf_post_valid: "wf_post p \<Longrightarrow> assertValidForumPost p = Inr ()"
  by (simp add: wf_post_def assertValidForumPost_def bindR_Inr_iff)

lemma assertValidForumPost_Inr:
  "assertValidForumPost p = Inr u \<longleftrightarrow>
     fp_schema_version p = 1 \<and> isSafeSlug (fp_id p) \<and> isSafeSlug (fp_channel_id p) \<and>
     isSafeSlug (fp_author p) \<and> js_trim (fp_title p) \<noteq> [] \<and> length (fp_title p) \<le> 200 \<and>
     length (fp_body p) \<le> 16000 \<and> fp_status p \<in> set FORUM_POST_STATUSES \<and>
     (\<exists>ts. normalizeForumTags (fp_tags p) = Inr ts)"
  by (auto simp: assertValidForumPost_def bindR_Inr_iff)

lemma assertValidForumComment_Inr:
  "assertValidForumComment c = Inr u \<longleftrightarrow>
     fc_schema_version c = 1 \<and> isSafeSlug (fc_id c) \<and> isSafeSlug (fc_post_id c) \<and>
     isSafeSlug (fc_channel_id c) \<and> isSafeSlug (fc_author c) \<and> js_trim (fc_body c) \<noteq> [] \<and>
     length (fc_body c) \<le> 16000"
  by (auto simp: assertValidForumComment_def bindR_Inr_iff)

subsection \<open>Properties\<close>

text \<open>Tag normalisation succeeds exactly when the trimmed, lowercased, non-empty tags are
  at most twelve safe slugs; it then returns them once each in order of first appearance, and
  normalising its result again changes nothing.\<close>

lemma normalizeForumTags_exact:
  "(normalizeForumTags tags = Inr out \<longleftrightarrow>
     out = first_occurrences (filter (\<lambda>t. t \<noteq> []) (map (js_toLowerCase \<circ> js_trim) tags)) \<and>
     (\<forall>t \<in> set out. isSafeSlug t) \<and> length out \<le> 12) \<and>
   (normalizeForumTags tags = Inr out \<longrightarrow> distinct out \<and> normalizeForumTags out = Inr out)"
  using tag_forms_fixed [of out] tag_forms_distinct [of tags]
  by (auto simp: normalizeForumTags_Inr tag_forms_def [symmetric])

end
