(* ===== verification/Interfaces.thy ===== *)
theory Interfaces
  imports JsLib "HOL-Library.Sublist"
begin

text \<open>
  The contracts the components rely on, each a locale: a transition system with an invariant, a
  system whose log only grows, a keyed store, and a request limiter. Every one is interpreted on
  the definitions of the component that provides it.
\<close>

subsection \<open>Systems and their invariants\<close>

locale transition_system =
  fixes init :: "'s \<Rightarrow> bool"
    and step :: "'s \<Rightarrow> 's \<Rightarrow> bool"
    and inv :: "'s \<Rightarrow> bool"
  assumes init_inv: "init s \<Longrightarrow> inv s"
    and step_inv: "inv s \<Longrightarrow> step s t \<Longrightarrow> inv t"
begin

lemma steps_inv: "step\<^sup>*\<^sup>* s t \<Longrightarrow> inv s \<Longrightarrow> inv t"
  by (induction rule: rtranclp_induct) (auto intro: step_inv)

lemma reachable_inv: "init s \<Longrightarrow> step\<^sup>*\<^sup>* s t \<Longrightarrow> inv t"
  by (blast intro: steps_inv init_inv)

end

text \<open>A system with a log to which steps only append.\<close>

locale append_log = transition_system init step inv
  for init :: "'s \<Rightarrow> bool" and step :: "'s \<Rightarrow> 's \<Rightarrow> bool" and inv :: "'s \<Rightarrow> bool" +
  fixes log_of :: "'s \<Rightarrow> 'e list"
  assumes step_log: "inv s \<Longrightarrow> step s t \<Longrightarrow> prefix (log_of s) (log_of t)"
begin

lemma steps_log: "step\<^sup>*\<^sup>* s t \<Longrightarrow> inv s \<Longrightarrow> prefix (log_of s) (log_of t)"
proof (induction rule: rtranclp_induct)
  case (step t u)
  then have "prefix (log_of t) (log_of u)" by (blast intro: step_log steps_inv)
  with step show ?case by (blast intro: prefix_order.trans)
qed simp

lemma steps_entry: "step\<^sup>*\<^sup>* s t \<Longrightarrow> inv s \<Longrightarrow> i < length (log_of s) \<Longrightarrow> log_of t ! i = log_of s ! i"
  by (auto dest!: steps_log elim!: prefixE simp: nth_append)

lemma steps_mem: "step\<^sup>*\<^sup>* s t \<Longrightarrow> inv s \<Longrightarrow> x \<in> set (log_of s) \<Longrightarrow> x \<in> set (log_of t)"
  by (auto dest!: steps_log elim!: prefixE)

lemma steps_length: "step\<^sup>*\<^sup>* s t \<Longrightarrow> inv s \<Longrightarrow> length (log_of s) \<le> length (log_of t)"
  by (auto dest!: steps_log intro: prefix_length_le)

end

text \<open>A system whose steps are steps of a simpler one, seen through an abstraction.\<close>

locale refinement = transition_system init step inv
  for init :: "'s \<Rightarrow> bool" and step :: "'s \<Rightarrow> 's \<Rightarrow> bool" and inv :: "'s \<Rightarrow> bool" +
  fixes abs :: "'s \<Rightarrow> 'a" and astep :: "'a \<Rightarrow> 'a \<Rightarrow> bool"
  assumes abs_step: "inv s \<Longrightarrow> step s t \<Longrightarrow> astep (abs s) (abs t)"
begin

lemma abs_steps: "step\<^sup>*\<^sup>* s t \<Longrightarrow> inv s \<Longrightarrow> astep\<^sup>*\<^sup>* (abs s) (abs t)"
proof (induction rule: rtranclp_induct)
  case (step t u)
  then have "astep (abs t) (abs u)" by (blast intro: abs_step steps_inv)
  with step show ?case by (simp add: rtranclp.rtrancl_into_rtrancl)
qed simp

end

subsection \<open>Keyed stores\<close>

locale keyed_store =
  fixes look :: "'k \<Rightarrow> 's \<Rightarrow> 'v option"
    and put :: "'k \<Rightarrow> 'v \<Rightarrow> 's \<Rightarrow> 's"
  assumes look_put_same: "look k (put k v s) = Some v"
    and look_put_other: "k \<noteq> k' \<Longrightarrow> look k' (put k v s) = look k' s"
begin

lemma look_put: "look k' (put k v s) = (if k = k' then Some v else look k' s)"
  by (simp add: look_put_same look_put_other)

text \<open>A sequence of writes: the last one for a key wins, the others leave it alone.\<close>

lemma look_fold_put:
  "look k (fold (\<lambda>(k', v). put k' v) kvs s) =
     (case find (\<lambda>kv. fst kv = k) (rev kvs) of Some kv \<Rightarrow> Some (snd kv) | None \<Rightarrow> look k s)"
proof (induction kvs rule: rev_induct)
  case (snoc kv kvs)
  then show ?case by (cases kv) (simp add: look_put)
qed simp

lemma put_commute_look:
  "k \<noteq> k' \<Longrightarrow> look x (put k v (put k' v' s)) = look x (put k' v' (put k v s))"
  by (auto simp: look_put)

end

subsection \<open>Request limiters\<close>

text \<open>
  A fixed-window limiter. \<open>win k s\<close> is the end of the key's current window and the number counted
  in it; a window is live at a time before its end. \<open>admit mx now k s\<close> answers a request of \<open>k\<close> and
  returns the new state. A limiter may count refused requests or not: only that a full window
  stays full matters. Limits may differ from key to key.
\<close>

definition live_window :: "(int \<times> nat) option \<Rightarrow> int \<Rightarrow> bool" where
  "live_window w t \<longleftrightarrow> (case w of Some (r, c) \<Rightarrow> t < r | None \<Rightarrow> False)"

locale request_limiter =
  fixes admit :: "nat \<Rightarrow> int \<Rightarrow> 'k \<Rightarrow> 's \<Rightarrow> bool \<times> 's"
    and win :: "'k \<Rightarrow> 's \<Rightarrow> (int \<times> nat) option"
    and span :: int
    and ok :: "'s \<Rightarrow> bool"
  assumes admit_ok: "ok s \<Longrightarrow> ok (snd (admit mx now k s))"
    and admit_open: "ok s \<Longrightarrow> \<not> live_window (win k s) now \<Longrightarrow>
        fst (admit mx now k s) \<and> win k (snd (admit mx now k s)) = Some (now + span, 1)"
    and admit_count: "ok s \<Longrightarrow> win k s = Some (r, c) \<Longrightarrow> now < r \<Longrightarrow> c < mx \<Longrightarrow>
        fst (admit mx now k s) \<and> win k (snd (admit mx now k s)) = Some (r, Suc c)"
    and admit_full: "ok s \<Longrightarrow> win k s = Some (r, c) \<Longrightarrow> now < r \<Longrightarrow> mx \<le> c \<Longrightarrow>
        \<not> fst (admit mx now k s) \<and> (\<exists>c' \<ge> mx. win k (snd (admit mx now k s)) = Some (r, c'))"
    and admit_other: "ok s \<Longrightarrow> k \<noteq> k' \<Longrightarrow> now \<le> t \<Longrightarrow>
        live_window (win k' (snd (admit mx now k s))) t = live_window (win k' s) t \<and>
        (live_window (win k' s) t \<longrightarrow> win k' (snd (admit mx now k s)) = win k' s)"
begin

text \<open>A run of timed requests, and how many of a key's requests it admits.\<close>

primrec admitted :: "('k \<Rightarrow> nat) \<Rightarrow> 'k \<Rightarrow> (int \<times> 'k) list \<Rightarrow> 's \<Rightarrow> nat" where
  "admitted mx k [] s = 0"
| "admitted mx k (q # qs) s =
     (if snd q = k \<and> fst (admit (mx (snd q)) (fst q) (snd q) s) then 1 else 0) +
     admitted mx k qs (snd (admit (mx (snd q)) (fst q) (snd q) s))"

text \<open>What a key can still get before time \<open>e\<close>, at most one window length away.\<close>

definition budget :: "nat \<Rightarrow> (int \<times> nat) option \<Rightarrow> int \<Rightarrow> int \<Rightarrow> nat" where
  "budget mx w t e =
     (case w of None \<Rightarrow> mx
      | Some (r, c) \<Rightarrow> if t < r then (mx - c) + (if e \<le> r then 0 else mx) else mx)"

lemma budget_later: "t \<le> t' \<Longrightarrow> t' < e \<Longrightarrow> budget mx w t' e \<le> budget mx w t e"
  by (auto simp: budget_def split: option.splits)

lemma budget_le: "budget mx w t e \<le> 2 * mx"
  by (auto simp: budget_def split: option.splits)

lemma budget_step:
  assumes "0 < mx k" "e \<le> t + span" "t < e" "ok s"
  shows "(if j = k \<and> fst (admit (mx j) t j s) then 1 else 0) +
    budget (mx k) (win k (snd (admit (mx j) t j s))) t e \<le> budget (mx k) (win k s) t e"
proof (cases "j = k")
  case True
  consider "\<not> live_window (win k s) t"
    | r c where "win k s = Some (r, c)" "t < r" "c < mx k"
    | r c where "win k s = Some (r, c)" "t < r" "mx k \<le> c"
    by (cases "win k s") (auto simp: live_window_def, force)
  then show ?thesis
  proof cases
    case 1
    with admit_open [of s k t "mx k"] True assms show ?thesis
      by (auto simp: budget_def live_window_def split: option.splits)
  next
    case (2 r c)
    with admit_count [of s k r c t "mx k"] True assms show ?thesis by (auto simp: budget_def)
  next
    case (3 r c)
    with admit_full [of s k r c t "mx k"] True assms show ?thesis by (auto simp: budget_def)
  qed
next
  case False
  have "budget (mx k) (win k (snd (admit (mx j) t j s))) t e = budget (mx k) (win k s) t e"
  proof (cases "live_window (win k s) t")
    case True
    then show ?thesis using admit_other [OF assms(4) False order_refl, where mx = "mx j"] by simp
  next
    case dead: False
    then have "\<not> live_window (win k (snd (admit (mx j) t j s))) t"
      using admit_other [OF assms(4) False order_refl, where mx = "mx j"] by simp
    with dead show ?thesis by (auto simp: budget_def live_window_def split: option.splits)
  qed
  with False show ?thesis by simp
qed

lemma admitted_budget:
  assumes "0 < mx k" "sorted (map fst qs)" "\<forall>q \<in> set qs. t \<le> fst q \<and> fst q < e" "e \<le> t + span" "ok s"
  shows "admitted mx k qs s \<le> budget (mx k) (win k s) t e"
  using assms
proof (induction qs arbitrary: s t)
  case (Cons q qs)
  let ?s' = "snd (admit (mx (snd q)) (fst q) (snd q) s)"
  have "admitted mx k qs ?s' \<le> budget (mx k) (win k ?s') (fst q) e"
    using Cons.prems by (intro Cons.IH) (auto intro: admit_ok)
  moreover have "(if snd q = k \<and> fst (admit (mx (snd q)) (fst q) (snd q) s) then 1 else 0) +
      budget (mx k) (win k ?s') (fst q) e \<le> budget (mx k) (win k s) (fst q) e"
    using Cons.prems by (intro budget_step) auto
  moreover have "budget (mx k) (win k s) (fst q) e \<le> budget (mx k) (win k s) t e"
    using Cons.prems by (intro budget_later) auto
  ultimately show ?case by simp
qed simp

text \<open>
  In any interval of one window length a key gets at most twice the limit, and at most the limit
  when no window of it was live at the start of the interval.
\<close>

lemma admitted_bound:
  assumes "0 < mx k" "sorted (map fst qs)" "\<forall>q \<in> set qs. t \<le> fst q \<and> fst q < t + span" "ok s"
  shows "admitted mx k qs s \<le> 2 * mx k \<and>
    (\<not> live_window (win k s) t \<longrightarrow> admitted mx k qs s \<le> mx k)"
proof -
  have "admitted mx k qs s \<le> budget (mx k) (win k s) t (t + span)"
    using assms by (intro admitted_budget) auto
  moreover have "budget (mx k) (win k s) t (t + span) = mx k" if "\<not> live_window (win k s) t"
    using that by (auto simp: budget_def live_window_def split: option.splits)
  ultimately show ?thesis using budget_le [of "mx k" "win k s" t "t + span"] by auto
qed

end

end
