(* ===== verification/RoomFiles.thy ===== *)
theory RoomFiles
  imports Boardroom Forum
begin

text \<open>
  The files of one room directory (\<open>storage/paths.ts\<close>) and the reads and writes the stores make
  on them (\<open>storage/secure-fs.ts\<close>): a JSON file is replaced atomically (\<open>writeSecureFile\<close> renames
  a complete temporary file over it), created exclusively (\<open>createSecureFile\<close>), or extended by
  whole lines (\<open>appendSecureFile\<close>). An action is one run of a store operation on the directory of
  its room; an operation under the writer lock is one step, because the lock excludes the others.
\<close>

record CursorRecord =
  cu_alias :: string
  cu_sinceId :: nat
  cu_updatedAt :: tstamp

record RoomFiles =
  rf_state :: "RoomState stored"
  rf_participants :: "Participant list stored"
  rf_brief :: "string stored"
  rf_messages :: "Message list stored"
  rf_cursors :: "(string \<times> CursorRecord stored) list"
  rf_boardroom :: "Boardroom stored"
  rf_channelCursors :: "((string \<times> string) \<times> ChannelReadCursor stored) list"
  rf_posts :: "((string \<times> string) \<times> ForumPost stored) list"
  rf_comments :: "((string \<times> string) \<times> ForumComment list stored) list"

type_synonym 'a room_action = "(RoomFiles, js_error, 'a) action"

definition empty_room :: RoomFiles where
  "empty_room = \<lparr> rf_state = NoFile, rf_participants = NoFile, rf_brief = NoFile,
     rf_messages = NoFile, rf_cursors = [], rf_boardroom = NoFile, rf_channelCursors = [],
     rf_posts = [], rf_comments = [] \<rparr>"

definition lookup_file :: "'k \<Rightarrow> ('k \<times> 'a stored) list \<Rightarrow> 'a stored" where
  "lookup_file k fs = (case map_of fs k of Some f \<Rightarrow> f | None \<Rightarrow> NoFile)"

definition read_json :: "(RoomFiles \<Rightarrow> 'a stored) \<Rightarrow> 'a room_action" where
  "read_json sel = (\<lambda>s. (readFileR (sel s), s))"

text \<open>\<open>createSecureFile\<close> through a selector and an updater of the record.\<close>

definition create_json ::
  "(RoomFiles \<Rightarrow> 'a stored) \<Rightarrow> (('a stored \<Rightarrow> 'a stored) \<Rightarrow> RoomFiles \<Rightarrow> RoomFiles) \<Rightarrow> 'a \<Rightarrow> unit room_action" where
  "create_json sel upd x = (\<lambda>s. case createFileR x (sel s) of
     Inl e \<Rightarrow> (Inl e, s) | Inr f \<Rightarrow> (Inr (), upd (\<lambda>_. f) s))"

lemma lookup_file_update [simp]:
  "lookup_file k (AList.update k' f fs) = (if k = k' then f else lookup_file k fs)"
  by (simp add: lookup_file_def update_conv')

lemma read_json_apply [simp]: "read_json sel s = (readFileR (sel s), s)"
  by (simp add: read_json_def)

lemma keeps_read_json [simp]: "keeps P (read_json sel)"
  by (simp add: keeps_def)

end
