(* ===== verification/RoomStore.thy ===== *)
theory RoomStore
  imports RoomFiles Interfaces Mentions Messages Attention
begin

text \<open>
  \<open>storage/room-store.ts\<close>: room state, participants, brief, message log and per-alias cursors.
  Every operation is an action on the room's files with the reads, checks and writes in the
  order of the source. The invariant \<open>room_inv\<close> says what the log promises: ids that strictly
  increase and stay below the next id, one room id, and at most one message per sender and
  client id.
\<close>

definition MAX_BRIEF_LENGTH :: nat where "MAX_BRIEF_LENGTH = 16000"
definition AUTO_CONTINUE_DELAY_MIN_S :: int where "AUTO_CONTINUE_DELAY_MIN_S = 30"
definition AUTO_CONTINUE_DELAY_MAX_S :: int where "AUTO_CONTINUE_DELAY_MAX_S = 300"
definition AUTO_CONTINUE_DELAY_DEFAULT_S :: int where "AUTO_CONTINUE_DELAY_DEFAULT_S = 30"

record AppendMessageResult =
  ar_message :: Message
  ar_idempotent :: bool

subsection \<open>Reading and writing\<close>

definition withRoomDefaults :: "RoomState \<Rightarrow> RoomState" where
  "withRoomDefaults state = state\<lparr> rs_attendance_policy :=
     Some (case rs_attendance_policy state of Some p \<Rightarrow> p | None \<Rightarrow> AP_manual_ok) \<rparr>"

definition roomPaths :: "string \<Rightarrow> unit room_action" where
  "roomPaths roomId = lift (assertSafeSlug roomId ''room id'')"

definition readRoomState :: "RoomState room_action" where
  "readRoomState = bindA (read_json rf_state) (\<lambda>s. ret (withRoomDefaults s))"

definition readParticipants :: "Participant list room_action" where
  "readParticipants = read_json rf_participants"

definition read_log :: "Message list room_action" where
  "read_log = read_json rf_messages"

definition write_state :: "RoomState \<Rightarrow> unit room_action" where
  "write_state st = modify (rf_state_update (\<lambda>_. File st))"

definition write_participants :: "Participant list \<Rightarrow> unit room_action" where
  "write_participants ps = modify (rf_participants_update (\<lambda>_. File ps))"

definition appendJsonLine :: "Message \<Rightarrow> unit room_action" where
  "appendJsonLine m = modify (rf_messages_update (appendLine m))"

definition assertBriefSize :: "string \<Rightarrow> unit result" where
  "assertBriefSize body =
     (if length body > MAX_BRIEF_LENGTH
      then Inl (PlainError ''brief body must be <= 16000 characters'') else Inr ())"

subsection \<open>Room lifecycle and preferences\<close>

definition createRoom ::
  "string \<Rightarrow> string \<Rightarrow> int \<Rightarrow> int option \<Rightarrow> string option \<Rightarrow> AttendancePolicy option \<Rightarrow>
   RoomState room_action" where
  "createRoom roomId hostAlias now expiresAt briefBody attendancePolicy =
     bindA (lift (assertSafeSlug roomId ''room id'')) (\<lambda>_.
     bindA (lift (assertSafeSlug hostAlias ''host alias'')) (\<lambda>_.
     let body = (case briefBody of Some b \<Rightarrow> b | None \<Rightarrow> []);
         state = \<lparr> rs_id = roomId, rs_status = RS_open,
           rs_attendance_policy = Some (case attendancePolicy of Some p \<Rightarrow> p | None \<Rightarrow> AP_manual_ok),
           rs_createdAt = Iso now, rs_updatedAt = Iso now,
           rs_expires_at = map_option Iso expiresAt, rs_next_message_id = 1, rs_brief_version = 1,
           rs_brief_updated_at = Iso now, rs_brief_updated_by = hostAlias,
           rs_active_session = None, rs_auto_continue_enabled = None,
           rs_auto_continue_delay_s = None \<rparr>
     in bindA (lift (assertBriefSize body)) (\<lambda>_.
        bindA (create_json rf_state rf_state_update state) (\<lambda>_.
        bindA (create_json rf_participants rf_participants_update []) (\<lambda>_.
        bindA (create_json rf_brief rf_brief_update body) (\<lambda>_.
        bindA (create_json rf_messages rf_messages_update []) (\<lambda>_.
        ret state)))))))"

definition updateAttendancePolicy ::
  "string \<Rightarrow> AttendancePolicy \<Rightarrow> string \<Rightarrow> int \<Rightarrow> RoomState room_action" where
  "updateAttendancePolicy roomId policy updatedBy now =
     bindA (lift (assertSafeSlug roomId ''room id'')) (\<lambda>_.
     bindA (lift (assertSafeSlug updatedBy ''updated by'')) (\<lambda>_.
     bindA readRoomState (\<lambda>st.
     let state = withRoomDefaults st;
         updatedState = state\<lparr> rs_attendance_policy := Some policy, rs_updatedAt := Iso now \<rparr>
     in bindA (write_state updatedState) (\<lambda>_. ret updatedState))))"

definition isValidAutoContinueDelay :: "jnum \<Rightarrow> bool" where
  "isValidAutoContinueDelay value \<longleftrightarrow>
     Number_isInteger value \<and> jnum_int value \<ge> AUTO_CONTINUE_DELAY_MIN_S \<and>
     jnum_int value \<le> AUTO_CONTINUE_DELAY_MAX_S"

definition updateLoopGuardPreference ::
  "string \<Rightarrow> bool \<Rightarrow> jnum option \<Rightarrow> string \<Rightarrow> int \<Rightarrow> RoomState room_action" where
  "updateLoopGuardPreference roomId enabled delaySeconds updatedBy now =
     bindA (lift (assertSafeSlug roomId ''room id'')) (\<lambda>_.
     bindA (lift (assertSafeSlug updatedBy ''updated by'')) (\<lambda>_.
     if (case delaySeconds of Some d \<Rightarrow> \<not> isValidAutoContinueDelay d | None \<Rightarrow> False)
     then throw (PlainError ''auto continue delay must be an integer between 30 and 300 seconds'')
     else bindA readRoomState (\<lambda>st.
     let state = withRoomDefaults st;
         delay = (case delaySeconds of Some d \<Rightarrow> jnum_int d
                  | None \<Rightarrow> (case rs_auto_continue_delay_s state of Some d \<Rightarrow> d
                             | None \<Rightarrow> AUTO_CONTINUE_DELAY_DEFAULT_S));
         updatedState = state\<lparr> rs_auto_continue_enabled := Some enabled,
           rs_auto_continue_delay_s := Some delay, rs_updatedAt := Iso now \<rparr>
     in bindA (write_state updatedState) (\<lambda>_. ret updatedState))))"

definition updateBrief :: "string \<Rightarrow> string \<Rightarrow> string \<Rightarrow> int \<Rightarrow> RoomBrief room_action" where
  "updateBrief roomId body updatedBy now =
     bindA (lift (assertSafeSlug roomId ''room id'')) (\<lambda>_.
     bindA (lift (assertSafeSlug updatedBy ''updated by'')) (\<lambda>_.
     bindA (lift (assertBriefSize body)) (\<lambda>_.
     bindA readRoomState (\<lambda>state.
     let updatedState = state\<lparr> rs_updatedAt := Iso now,
           rs_brief_version := rs_brief_version state + 1, rs_brief_updated_at := Iso now,
           rs_brief_updated_by := updatedBy \<rparr>
     in bindA (modify (rf_brief_update (\<lambda>_. File body))) (\<lambda>_.
        bindA (write_state updatedState) (\<lambda>_.
        ret \<lparr> rb_body = body, rb_brief_version = rs_brief_version updatedState,
              rb_brief_updated_at = rs_brief_updated_at updatedState,
              rb_brief_updated_by = rs_brief_updated_by updatedState \<rparr>))))))"

definition closeRoom :: "string \<Rightarrow> int \<Rightarrow> RoomState room_action" where
  "closeRoom roomId now =
     bindA (roomPaths roomId) (\<lambda>_.
     bindA readRoomState (\<lambda>state.
     let closed = state\<lparr> rs_active_session := None, rs_status := RS_closed, rs_updatedAt := Iso now \<rparr>
     in bindA (write_state closed) (\<lambda>_. ret closed)))"

subsection \<open>The message log\<close>

definition createMessage ::
  "ClientMessageInput \<Rightarrow> nat \<Rightarrow> string \<Rightarrow> string \<Rightarrow> string list \<Rightarrow> int \<Rightarrow> Message" where
  "createMessage input ident room frm roster now =
     buildMessage input \<lparr> bo_id = ident, bo_room = room, bo_from = frm, bo_now = now,
       bo_mentions = parseMentions (in_text input) roster, bo_type = None \<rparr>"

definition existing_message :: "string \<Rightarrow> ClientMessageInput \<Rightarrow> Message list \<Rightarrow> Message option" where
  "existing_message frm input messages =
     (if in_client_msg_id input \<noteq> None
      then find (\<lambda>m. m_from m = frm \<and> m_client_msg_id m = in_client_msg_id input) messages
      else None)"

text \<open>The two writes of an append: the log line first, then the state with the next id.\<close>

definition commit_message :: "RoomState \<Rightarrow> Message \<Rightarrow> int \<Rightarrow> unit room_action" where
  "commit_message state message now =
     bindA (appendJsonLine message) (\<lambda>_.
     write_state (state\<lparr> rs_updatedAt := Iso now, rs_next_message_id := m_id message + 1 \<rparr>))"

definition appendMessageResult ::
  "string \<Rightarrow> string \<Rightarrow> json \<Rightarrow> int \<Rightarrow> nat option \<Rightarrow> AppendMessageResult room_action" where
  "appendMessageResult roomId frm body now maxMessages =
     bindA (lift (assertSafeSlug roomId ''room id'')) (\<lambda>_.
     bindA (lift (assertSafeSlug frm ''from'')) (\<lambda>_.
     bindA (lift (clientMessageInputFromRecord body)) (\<lambda>input.
     bindA readRoomState (\<lambda>state.
     bindA readParticipants (\<lambda>participants.
     bindA read_log (\<lambda>messages.
     case existing_message frm input messages of
       Some existing \<Rightarrow> ret \<lparr> ar_message = existing, ar_idempotent = True \<rparr>
     | None \<Rightarrow>
         if (case maxMessages of Some mx \<Rightarrow> length messages \<ge> mx | None \<Rightarrow> False)
         then throw RoomLogFullError
         else let message = createMessage input (rs_next_message_id state) (rs_id state) frm
                              (map p_alias participants) now
              in bindA (commit_message state message now) (\<lambda>_.
                 ret \<lparr> ar_message = message, ar_idempotent = False \<rparr>)))))))"

definition appendServerMessage :: "string \<Rightarrow> string \<Rightarrow> string \<Rightarrow> int \<Rightarrow> Message room_action" where
  "appendServerMessage roomId frm txt now =
     bindA (lift (assertSafeSlug roomId ''room id'')) (\<lambda>_.
     bindA (lift (assertSafeSlug frm ''from'')) (\<lambda>_.
     bindA readRoomState (\<lambda>state.
     bindA readParticipants (\<lambda>participants.
     let message = buildMessage
           \<lparr> in_text = txt, in_type = None, in_reply_to = None, in_client_msg_id = None \<rparr>
           \<lparr> bo_id = rs_next_message_id state, bo_room = rs_id state, bo_from = frm, bo_now = now,
             bo_mentions = parseMentions txt (map p_alias participants), bo_type = Some MT_system \<rparr>
     in bindA (commit_message state message now) (\<lambda>_. ret message)))))"

definition readMessages :: "string \<Rightarrow> Message list room_action" where
  "readMessages roomId = bindA (roomPaths roomId) (\<lambda>_. read_log)"

definition readBrief :: "string \<Rightarrow> RoomBrief room_action" where
  "readBrief roomId =
     bindA (roomPaths roomId) (\<lambda>_.
     bindA readRoomState (\<lambda>state.
     bindA (read_json rf_brief) (\<lambda>body.
     ret \<lparr> rb_body = body, rb_brief_version = rs_brief_version state,
           rb_brief_updated_at = rs_brief_updated_at state,
           rb_brief_updated_by = rs_brief_updated_by state \<rparr>)))"

definition recoverNextMessageId :: "nat room_action" where
  "recoverNextMessageId = bindA read_log (\<lambda>messages. ret (maxOf m_id messages + 1))"

definition recoverRoomState :: "string \<Rightarrow> RoomState room_action" where
  "recoverRoomState roomId =
     bindA (roomPaths roomId) (\<lambda>_.
     bindA readRoomState (\<lambda>state.
     bindA recoverNextMessageId (\<lambda>recoveredNextId.
     if rs_next_message_id state \<ge> recoveredNextId then ret state
     else let recoveredState = state\<lparr> rs_next_message_id := recoveredNextId \<rparr>
          in bindA (write_state recoveredState) (\<lambda>_. ret recoveredState))))"

subsection \<open>Cursors\<close>

definition readCursor :: "string \<Rightarrow> string \<Rightarrow> nat room_action" where
  "readCursor roomId alias =
     bindA (lift (assertSafeSlug alias ''alias'')) (\<lambda>_.
     bindA (roomPaths roomId) (\<lambda>_.
     (\<lambda>s. case readFileR (lookup_file alias (rf_cursors s)) of
            Inr rec \<Rightarrow> (Inr (cu_sinceId rec), s)
          | Inl e \<Rightarrow> if isNotFoundError e then (Inr 0, s) else (Inl e, s))))"

definition writeCursor :: "string \<Rightarrow> string \<Rightarrow> jnum \<Rightarrow> int \<Rightarrow> CursorRecord room_action" where
  "writeCursor roomId alias sinceId now =
     bindA (lift (assertSafeSlug alias ''alias'')) (\<lambda>_.
     if \<not> Number_isSafeInteger sinceId \<or> jnum_int sinceId < 0
     then throw (PlainError ''cursor sinceId must be a non-negative safe integer'')
     else bindA (roomPaths roomId) (\<lambda>_.
     let rec = \<lparr> cu_alias = alias, cu_sinceId = nat (jnum_int sinceId), cu_updatedAt = Iso now \<rparr>
     in bindA (modify (rf_cursors_update (AList.update alias (File rec)))) (\<lambda>_. ret rec)))"

subsection \<open>Participants\<close>

definition writeParticipants :: "string \<Rightarrow> Participant list \<Rightarrow> unit room_action" where
  "writeParticipants roomId participants =
     bindA (roomPaths roomId) (\<lambda>_.
     bindA (lift (mapR (\<lambda>p. assertSafeSlug (p_alias p) ''participant alias'') participants)) (\<lambda>_.
     write_participants participants))"

definition upsertParticipant :: "string \<Rightarrow> Participant \<Rightarrow> unit room_action" where
  "upsertParticipant roomId participant =
     bindA (lift (assertSafeSlug (p_alias participant) ''participant alias'')) (\<lambda>_.
     bindA (roomPaths roomId) (\<lambda>_.
     bindA readParticipants (\<lambda>participants.
     write_participants (upsertBy p_alias participant participants))))"

definition isActivelyAttendedByOtherSession ::
  "Participant \<Rightarrow> int \<Rightarrow> int \<Rightarrow> string option \<Rightarrow> bool" where
  "isActivelyAttendedByOtherSession existing now staleAfterMs incomingSessionId =
     (if p_removed_at existing \<noteq> None then False
      else if \<not> (p_attention existing = PA_attending \<or> p_attention existing = PA_managed) then False
      else (case Date_parse (p_lastSeenAt existing) of
              None \<Rightarrow> False
            | Some lastSeen \<Rightarrow>
                if now - lastSeen > staleAfterMs then False
                else if incomingSessionId \<noteq> None \<and> p_session_id existing = incomingSessionId
                then False else True))"

text \<open>The result is \<open>duplicateActiveSession\<close>.\<close>

definition joinParticipant ::
  "string \<Rightarrow> Participant \<Rightarrow> int \<Rightarrow> int \<Rightarrow> string option \<Rightarrow> bool room_action" where
  "joinParticipant roomId participant staleAfterMs now incomingSessionId =
     bindA (lift (assertSafeSlug (p_alias participant) ''participant alias'')) (\<lambda>_.
     bindA (roomPaths roomId) (\<lambda>_.
     bindA readParticipants (\<lambda>participants.
     let existing = find (\<lambda>p. p_alias p = p_alias participant) participants;
         duplicateActiveSession = (case existing of None \<Rightarrow> False
           | Some p \<Rightarrow> isActivelyAttendedByOtherSession p now staleAfterMs incomingSessionId)
     in bindA (write_participants (upsertBy p_alias participant participants)) (\<lambda>_.
        ret duplicateActiveSession))))"

subsection \<open>The active session\<close>

definition session_running :: "RoomState \<Rightarrow> bool" where
  "session_running state \<longleftrightarrow>
     (case rs_active_session state of Some a \<Rightarrow> as_ended_at a = None | None \<Rightarrow> False)"

definition startActiveSession ::
  "string \<Rightarrow> string \<Rightarrow> string \<Rightarrow> int \<Rightarrow> AttendancePolicy option \<Rightarrow> int \<Rightarrow> ActiveSession room_action" where
  "startActiveSession roomId channelId startedBy expectedDurationM requestedMode now =
     bindA (lift (assertSafeSlug roomId ''room id'')) (\<lambda>_.
     bindA (lift (assertSafeSlug startedBy ''started by'')) (\<lambda>_.
     bindA readRoomState (\<lambda>state.
     if session_running state then throw ActiveSessionExistsError
     else let session = \<lparr> as_channel_id = channelId, as_started_at = Iso now,
                as_expected_duration_m = expectedDurationM, as_requested_mode = requestedMode,
                as_started_by = startedBy, as_ended_at = None \<rparr>
          in bindA (write_state (state\<lparr> rs_updatedAt := Iso now, rs_active_session := Some session \<rparr>))
             (\<lambda>_. ret session))))"

definition endActiveSession :: "string \<Rightarrow> int \<Rightarrow> ActiveSession option room_action" where
  "endActiveSession roomId now =
     bindA (lift (assertSafeSlug roomId ''room id'')) (\<lambda>_.
     bindA readRoomState (\<lambda>state.
     case rs_active_session state of
       None \<Rightarrow> ret None
     | Some a \<Rightarrow>
         if as_ended_at a \<noteq> None then ret None
         else bindA (write_state (state\<lparr> rs_active_session := None, rs_updatedAt := Iso now \<rparr>))
                (\<lambda>_. ret (Some (a\<lparr> as_ended_at := Some (Iso now) \<rparr>)))))"

subsection \<open>The log invariant\<close>

text \<open>Earlier entries have smaller ids, and no sender reuses a client id.\<close>

definition log_before :: "Message \<Rightarrow> Message \<Rightarrow> bool" where
  "log_before a b \<longleftrightarrow> m_id a < m_id b \<and>
     \<not> (m_client_msg_id a \<noteq> None \<and> m_client_msg_id a = m_client_msg_id b \<and> m_from a = m_from b)"

definition log_ok :: "RoomState \<Rightarrow> Message list \<Rightarrow> bool" where
  "log_ok st ms \<longleftrightarrow> sorted_wrt log_before ms \<and>
     (\<forall>m \<in> set ms. 1 \<le> m_id m \<and> m_id m < rs_next_message_id st \<and> m_room m = rs_id st) \<and>
     1 \<le> rs_next_message_id st"

definition room_log :: "RoomFiles \<Rightarrow> Message list" where
  "room_log s = (case rf_messages s of File ms \<Rightarrow> ms | _ \<Rightarrow> [])"

definition room_inv :: "RoomFiles \<Rightarrow> bool" where
  "room_inv s \<longleftrightarrow> (\<exists>st ms ps b. rf_state s = File st \<and> rf_messages s = File ms \<and>
     rf_participants s = File ps \<and> rf_brief s = File b \<and> log_ok st ms)"

lemma room_invE:
  assumes "room_inv s"
  obtains st ms ps b where "rf_state s = File st" "rf_messages s = File ms"
    "rf_participants s = File ps" "rf_brief s = File b" "log_ok st ms" "room_log s = ms"
  using assms by (auto simp: room_inv_def room_log_def)

lemma withRoomDefaults_fields [simp]:
  "rs_id (withRoomDefaults st) = rs_id st" "rs_status (withRoomDefaults st) = rs_status st"
  "rs_next_message_id (withRoomDefaults st) = rs_next_message_id st"
  "rs_brief_version (withRoomDefaults st) = rs_brief_version st"
  "rs_active_session (withRoomDefaults st) = rs_active_session st"
  "rs_auto_continue_delay_s (withRoomDefaults st) = rs_auto_continue_delay_s st"
  "withRoomDefaults (withRoomDefaults st) = withRoomDefaults st"
  by (simp_all add: withRoomDefaults_def)

text \<open>Only the room id and the next id of the state matter to the log.\<close>

lemma log_ok_cong:
  "rs_id st' = rs_id st \<Longrightarrow> rs_next_message_id st' = rs_next_message_id st \<Longrightarrow>
   log_ok st' ms \<longleftrightarrow> log_ok st ms"
  by (simp add: log_ok_def)

lemma log_ok_append:
  assumes "log_ok st ms" and "m_id m = rs_next_message_id st" and "m_room m = rs_id st"
    and "\<And>x. x \<in> set ms \<Longrightarrow> \<not> (m_client_msg_id m \<noteq> None \<and> m_from x = m_from m \<and>
           m_client_msg_id x = m_client_msg_id m)"
    and "rs_id st' = rs_id st" "rs_next_message_id st' = Suc (m_id m)"
  shows "log_ok st' (ms @ [m])"
  using assms by (fastforce simp: log_ok_def sorted_wrt_append log_before_def)

lemma readRoomState_apply [simp]:
  "readRoomState s = (case rf_state s of
     File st \<Rightarrow> (Inr (withRoomDefaults st), s) | NoFile \<Rightarrow> (Inl NotFound, s) | BadFile \<Rightarrow> (Inl SyntaxError, s))"
  by (cases "rf_state s") (simp_all add: readRoomState_def)

lemma store_reads [simp]:
  "readParticipants s = (readFileR (rf_participants s), s)" "read_log s = (readFileR (rf_messages s), s)"
  by (simp_all add: readParticipants_def read_log_def)

lemma store_writes [simp]:
  "write_state st s = (Inr (), s\<lparr> rf_state := File st \<rparr>)"
  "write_participants ps s = (Inr (), s\<lparr> rf_participants := File ps \<rparr>)"
  "appendJsonLine m s = (Inr (), rf_messages_update (appendLine m) s)"
  by (simp_all add: write_state_def write_participants_def appendJsonLine_def)

lemma commit_message_apply [simp]:
  "rf_messages s = File ms \<Longrightarrow> commit_message st m now s =
     (Inr (), s\<lparr> rf_messages := File (ms @ [m]),
       rf_state := File (st\<lparr> rs_updatedAt := Iso now, rs_next_message_id := Suc (m_id m) \<rparr>) \<rparr>)"
  by (simp add: commit_message_def)

subsection \<open>Runs of the store\<close>

text \<open>
  One step is one store operation, whatever it returns: an operation that throws leaves the files
  as they were at the throw. \<open>startRoom\<close> is a room freshly created in an empty directory.
\<close>

inductive room_step :: "RoomFiles \<Rightarrow> RoomFiles \<Rightarrow> bool" where
  create: "room_step s (snd (createRoom r h now e b p s))"
| policy: "room_step s (snd (updateAttendancePolicy r p u now s))"
| guard: "room_step s (snd (updateLoopGuardPreference r en d u now s))"
| brief: "room_step s (snd (updateBrief r b u now s))"
| append: "room_step s (snd (appendMessageResult r f body now mx s))"
| server: "room_step s (snd (appendServerMessage r f t now s))"
| cursor: "room_step s (snd (writeCursor r a n now s))"
| people: "room_step s (snd (writeParticipants r ps s))"
| upsert: "room_step s (snd (upsertParticipant r p s))"
| join: "room_step s (snd (joinParticipant r p stale now sid s))"
| close: "room_step s (snd (closeRoom r now s))"
| start: "room_step s (snd (startActiveSession r c u d q now s))"
| finish: "room_step s (snd (endActiveSession r now s))"
| recover: "room_step s (snd (recoverRoomState r s))"

inductive_cases room_stepE: "room_step s t"

definition startRoom :: "RoomFiles \<Rightarrow> bool" where
  "startRoom s \<longleftrightarrow> (\<exists>r h now e b p st. createRoom r h now e b p empty_room = (Inr st, s))"

text \<open>What an operation may do to the log: keep it, or add one entry.\<close>

definition log_grows :: "RoomFiles \<Rightarrow> RoomFiles \<Rightarrow> bool" where
  "log_grows s t \<longleftrightarrow> room_inv t \<and> prefix (room_log s) (room_log t)"

lemma log_grows_refl: "room_inv s \<Longrightarrow> log_grows s s"
  by (simp add: log_grows_def)

lemma log_grows_append:
  assumes "room_inv s" "rf_state s = File st" "rf_messages s = File ms"
    "m_id m = rs_next_message_id st" "m_room m = rs_id st"
    "\<And>x. x \<in> set ms \<Longrightarrow> \<not> (m_client_msg_id m \<noteq> None \<and> m_from x = m_from m \<and>
       m_client_msg_id x = m_client_msg_id m)"
    "rs_id st' = rs_id st" "rs_next_message_id st' = Suc (m_id m)"
  shows "log_grows s (s\<lparr> rf_messages := File (ms @ [m]), rf_state := File st' \<rparr>)"
  using assms by (auto simp: log_grows_def room_inv_def room_log_def intro!: log_ok_append)

lemmas state_ops = updateAttendancePolicy_def updateLoopGuardPreference_def updateBrief_def
  closeRoom_def startActiveSession_def endActiveSession_def roomPaths_def Let_def

lemmas people_ops = writeCursor_def writeParticipants_def upsertParticipant_def
  joinParticipant_def roomPaths_def Let_def

lemmas inv_unfold = log_grows_def room_inv_def room_log_def log_ok_def

lemma log_grows_preferences:
  assumes "room_inv s"
  shows "log_grows s (snd (updateAttendancePolicy r p u now s))"
    "log_grows s (snd (updateLoopGuardPreference r en d u now s))"
    "log_grows s (snd (updateBrief r b u now s))"
    "log_grows s (snd (closeRoom r now s))"
    "log_grows s (snd (startActiveSession r c u m q now s))"
    "log_grows s (snd (endActiveSession r now s))"
  using assms
  by (auto simp: state_ops bindA_apply inv_unfold split: option.splits sum.splits)

lemma log_grows_people:
  assumes "room_inv s"
  shows "log_grows s (snd (writeCursor r a n now s))"
    "log_grows s (snd (writeParticipants r ps s))"
    "log_grows s (snd (upsertParticipant r p s))"
    "log_grows s (snd (joinParticipant r p stale now sid s))"
  using assms
  by (auto simp: people_ops bindA_apply inv_unfold split: option.splits sum.splits)

lemma log_grows_create:
  "room_inv s \<Longrightarrow> log_grows s (snd (createRoom r h now e b p s))"
  by (auto simp: createRoom_def create_json_def bindA_apply inv_unfold Let_def split: sum.splits)

lemma existing_message_None:
  "existing_message f inp ms = None \<Longrightarrow> x \<in> set ms \<Longrightarrow>
   \<not> (in_client_msg_id inp \<noteq> None \<and> m_from x = f \<and> m_client_msg_id x = in_client_msg_id inp)"
  by (auto simp: existing_message_def find_None_iff split: if_splits)

lemma createMessage_fields [simp]:
  "m_id (createMessage inp i r f ro now) = i" "m_room (createMessage inp i r f ro now) = r"
  "m_from (createMessage inp i r f ro now) = f"
  "m_client_msg_id (createMessage inp i r f ro now) = in_client_msg_id inp"
  "m_text (createMessage inp i r f ro now) = in_text inp"
  by (simp_all add: createMessage_def buildMessage_def)

lemma log_grows_appendMessage:
  assumes "room_inv s"
  shows "log_grows s (snd (appendMessageResult r f body now mx s))"
proof -
  from assms obtain st ms ps b where files: "rf_state s = File st" "rf_messages s = File ms"
    "rf_participants s = File ps" "rf_brief s = File b" "log_ok st ms" "room_log s = ms"
    by (rule room_invE)
  show ?thesis
  proof (cases "isSafeSlug r \<and> isSafeSlug f")
    case False
    then show ?thesis
      using assms by (auto simp: appendMessageResult_def bindA_apply assertSafeSlug_def
          log_grows_refl)
  next
    case safe: True
    show ?thesis
    proof (cases "clientMessageInputFromRecord body")
      case (Inl e)
      with safe assms show ?thesis by (simp add: appendMessageResult_def log_grows_refl)
    next
      case (Inr inp)
      show ?thesis
      proof (cases "existing_message f inp ms")
        case None
        have "log_grows s (s\<lparr> rf_messages := File (ms @ [createMessage inp (rs_next_message_id st)
              (rs_id st) f (map p_alias ps) now]),
            rf_state := File (withRoomDefaults st\<lparr> rs_updatedAt := Iso now,
              rs_next_message_id := Suc (rs_next_message_id st) \<rparr>) \<rparr>)"
          using files existing_message_None [OF None] assms
          by (intro log_grows_append) auto
        with None Inr safe files assms show ?thesis
          by (auto simp: appendMessageResult_def bindA_apply Let_def log_grows_refl
              split: option.splits)
      next
        case (Some m)
        with Inr safe files assms show ?thesis
          by (simp add: appendMessageResult_def bindA_apply log_grows_refl)
      qed
    qed
  qed
qed

lemma log_grows_appendServer:
  assumes "room_inv s"
  shows "log_grows s (snd (appendServerMessage r f txt now s))"
proof -
  from assms obtain st ms ps b where files: "rf_state s = File st" "rf_messages s = File ms"
    "rf_participants s = File ps" "rf_brief s = File b" "log_ok st ms" "room_log s = ms"
    by (rule room_invE)
  define m where "m = buildMessage
    \<lparr> in_text = txt, in_type = None, in_reply_to = None, in_client_msg_id = None \<rparr>
    \<lparr> bo_id = rs_next_message_id st, bo_room = rs_id st, bo_from = f, bo_now = now,
      bo_mentions = parseMentions txt (map p_alias ps), bo_type = Some MT_system \<rparr>"
  have "log_grows s (s\<lparr> rf_messages := File (ms @ [m]),
      rf_state := File (withRoomDefaults st\<lparr> rs_updatedAt := Iso now,
        rs_next_message_id := Suc (m_id m) \<rparr>) \<rparr>)"
    using files assms by (intro log_grows_append) (auto simp: m_def buildMessage_def)
  with files assms show ?thesis
    by (auto simp: appendServerMessage_def bindA_apply assertSafeSlug_def Let_def m_def
        log_grows_refl split: option.splits)
qed

lemma recover_noop:
  assumes "room_inv s"
  shows "snd (recoverRoomState r s) = s"
  using assms
  by (auto simp: recoverRoomState_def recoverNextMessageId_def roomPaths_def assertSafeSlug_def
      bindA_apply room_inv_def log_ok_def Suc_le_eq maxOf_less)

lemma room_step_grows: "room_inv s \<Longrightarrow> room_step s t \<Longrightarrow> log_grows s t"
  by (erule room_stepE)
    (simp_all add: log_grows_create log_grows_preferences log_grows_people log_grows_appendMessage
      log_grows_appendServer recover_noop log_grows_refl)

lemma startRoom_inv: "startRoom s \<Longrightarrow> room_inv s \<and> room_log s = []"
  by (auto simp: startRoom_def createRoom_def create_json_def bindA_Inr_iff empty_room_def
      room_inv_def room_log_def log_ok_def Let_def split: sum.splits)

interpretation room: append_log startRoom room_step room_inv room_log
  by unfold_locales
    (use room_step_grows startRoom_inv in \<open>auto simp: log_grows_def\<close>)

text \<open>The room store leaves the files of the other stores alone.\<close>

definition other_files where
  "other_files s = (rf_boardroom s, rf_channelCursors s, rf_posts s, rf_comments s)"

lemma other_files_updates [simp]:
  "other_files (rf_state_update f s) = other_files s"
  "other_files (rf_participants_update g s) = other_files s"
  "other_files (rf_brief_update h s) = other_files s"
  "other_files (rf_messages_update i s) = other_files s"
  "other_files (rf_cursors_update j s) = other_files s"
  by (simp_all add: other_files_def)

lemma other_files_log:
  "other_files (snd (appendMessageResult r f body now mx s)) = other_files s"
  "other_files (snd (appendServerMessage r f txt now s)) = other_files s"
  "other_files (snd (recoverRoomState r s)) = other_files s"
  by (cases "rf_state s"; cases "rf_messages s"; cases "rf_participants s";
      auto simp: appendMessageResult_def appendServerMessage_def recoverRoomState_def
        recoverNextMessageId_def roomPaths_def bindA_apply Let_def commit_message_def
        assertSafeSlug_def split: option.splits sum.splits)+

lemma other_files_state:
  "other_files (snd (updateAttendancePolicy r p u now s)) = other_files s"
  "other_files (snd (updateLoopGuardPreference r en d u now s)) = other_files s"
  "other_files (snd (updateBrief r b u now s)) = other_files s"
  "other_files (snd (startActiveSession r c u m q now s)) = other_files s"
  "other_files (snd (closeRoom r now s)) = other_files s"
  "other_files (snd (endActiveSession r now s)) = other_files s"
  "other_files (snd (createRoom r h now e bb pol s)) = other_files s"
  by (cases "rf_state s"; auto simp: state_ops createRoom_def create_json_def bindA_apply
      assertSafeSlug_def assertBriefSize_def split: option.splits sum.splits)+

lemma other_files_people:
  "other_files (snd (writeCursor r a n now s)) = other_files s"
  "other_files (snd (writeParticipants r ps s)) = other_files s"
  "other_files (snd (upsertParticipant r p s)) = other_files s"
  "other_files (snd (joinParticipant r p stale now sid s)) = other_files s"
  by (cases "rf_participants s"; auto simp: people_ops bindA_apply
      split: option.splits sum.splits)+

lemma room_step_other_files: "room_step s t \<Longrightarrow> other_files t = other_files s"
  by (erule room_stepE) (simp_all add: other_files_log other_files_state other_files_people)

text \<open>A concrete room, for the instances below.\<close>

definition lab_room :: RoomFiles where
  "lab_room = snd (createRoom ''lab'' ''host'' 0 None None None empty_room)"

lemma lab_room_eval:
  "lab_room = empty_room\<lparr> rf_state := File \<lparr> rs_id = ''lab'', rs_status = RS_open,
       rs_attendance_policy = Some AP_manual_ok, rs_createdAt = Iso 0, rs_updatedAt = Iso 0,
       rs_expires_at = None, rs_next_message_id = 1, rs_brief_version = 1,
       rs_brief_updated_at = Iso 0, rs_brief_updated_by = ''host'', rs_active_session = None,
       rs_auto_continue_enabled = None, rs_auto_continue_delay_s = None \<rparr>,
     rf_participants := File [], rf_brief := File [], rf_messages := File [] \<rparr>"
  and lab_room_created: "startRoom lab_room"
proof -
  have safe: "isSafeSlug ''lab''" "isSafeSlug ''host''"
    by (simp_all add: isSafeSlug_iff slug_chars_def)
  have size: "assertBriefSize [] = Inr ()" by (simp add: assertBriefSize_def)
  show "lab_room = empty_room\<lparr> rf_state := File \<lparr> rs_id = ''lab'', rs_status = RS_open,
       rs_attendance_policy = Some AP_manual_ok, rs_createdAt = Iso 0, rs_updatedAt = Iso 0,
       rs_expires_at = None, rs_next_message_id = 1, rs_brief_version = 1,
       rs_brief_updated_at = Iso 0, rs_brief_updated_by = ''host'', rs_active_session = None,
       rs_auto_continue_enabled = None, rs_auto_continue_delay_s = None \<rparr>,
     rf_participants := File [], rf_brief := File [], rf_messages := File [] \<rparr>"
    using safe size
    by (simp add: lab_room_def createRoom_def create_json_def bindA_apply empty_room_def Let_def)
  have "fst (createRoom ''lab'' ''host'' 0 None None None empty_room) \<noteq> Inl e" for e
    using safe size
    by (simp add: createRoom_def create_json_def bindA_apply empty_room_def Let_def)
  then show "startRoom lab_room"
    unfolding startRoom_def lab_room_def by (metis prod.collapse sum.exhaust)
qed

lemma lab_room_inv: "room_inv lab_room"
  using startRoom_inv [OF lab_room_created] by simp

definition hello_body :: json where
  "hello_body = inputJson \<lparr> in_text = ''hi'', in_type = None, in_reply_to = None,
     in_client_msg_id = Some ''c1'' \<rparr>"

lemma hello_decodes:
  "clientMessageInputFromRecord hello_body = Inr \<lparr> in_text = ''hi'', in_type = None,
     in_reply_to = None, in_client_msg_id = Some ''c1'' \<rparr>"
  by (simp add: hello_body_def inputJson_def clientMessageInputFromRecord_def
      parseClientMessageId_def parseClientMessageType_def CLIENT_MESSAGE_TYPES_def
      MAX_MESSAGE_TEXT_LENGTH_def MAX_CLIENT_MESSAGE_ID_LENGTH_def js_trim_def js_space_def
      client_id_chars_def)

lemma slug_host [simp]: "isSafeSlug ''host''" and slug_lab [simp]: "isSafeSlug ''lab''"
  by (simp_all add: isSafeSlug_iff slug_chars_def)

subsection \<open>Properties\<close>

text \<open>Claim C1. In every room reached from a created one by any sequence of store operations,
  failed ones included, message ids are positive, strictly increase, stay below the next id and
  carry the room's id, and no sender has two messages with one client id; and whatever is done
  next, the log only grows at its end.\<close>

theorem room_log_append_only:
  assumes "startRoom s" "room_step\<^sup>*\<^sup>* s t" "room_step\<^sup>*\<^sup>* t u"
  shows "\<exists>st. rf_state t = File st \<and> rf_messages t = File (room_log t) \<and>
    sorted_wrt log_before (room_log t) \<and>
    (\<forall>m \<in> set (room_log t). 1 \<le> m_id m \<and> m_id m < rs_next_message_id st \<and> m_room m = rs_id st) \<and>
    prefix (room_log t) (room_log u)"
proof -
  have inv: "room_inv t" using assms(1,2) by (rule room.reachable_inv)
  then obtain st ms where "rf_state t = File st" "rf_messages t = File ms" "log_ok st ms"
    "room_log t = ms" by (rule room_invE)
  with room.steps_log [OF assms(3) inv] show ?thesis by (simp add: log_ok_def)
qed

lemma room_log_append_only_witness:
  "\<exists>st. rf_state lab_room = File st \<and> prefix (room_log lab_room)
     (room_log (snd (closeRoom ''lab'' 5 lab_room)))"
proof -
  have "room_step\<^sup>*\<^sup>* lab_room (snd (closeRoom ''lab'' 5 lab_room))"
    by (blast intro: room_step.close)
  from room_log_append_only [OF lab_room_created rtranclp.rtrancl_refl this] show ?thesis by blast
qed

lemma append_result_eval:
  assumes "room_inv s" "rf_state s = File st" "rf_messages s = File ms" "rf_participants s = File ps"
    and "isSafeSlug r" "isSafeSlug f" "clientMessageInputFromRecord body = Inr inp"
  shows "appendMessageResult r f body now mx s =
    (case existing_message f inp ms of
       Some m \<Rightarrow> (Inr \<lparr> ar_message = m, ar_idempotent = True \<rparr>, s)
     | None \<Rightarrow>
        if \<exists>b. mx = Some b \<and> b \<le> length ms then (Inl RoomLogFullError, s)
        else let m = createMessage inp (rs_next_message_id st) (rs_id st) f (map p_alias ps) now in
          (Inr \<lparr> ar_message = m, ar_idempotent = False \<rparr>,
           s\<lparr> rf_messages := File (ms @ [m]),
              rf_state := File (withRoomDefaults st\<lparr> rs_updatedAt := Iso now,
                rs_next_message_id := rs_next_message_id st + 1 \<rparr>) \<rparr>))"
  using assms
  by (auto simp: appendMessageResult_def bindA_apply Let_def split: option.splits)

text \<open>A client append to a sound room with valid arguments has exactly three outcomes: a
  repeat of the sender's client id returns the stored message and writes nothing; a log at the
  given bound is refused and nothing is written; otherwise the message takes the next id, is
  added at the end of the log, and the next id moves past it.\<close>

lemma appendMessageResult_outcomes:
  assumes "room_inv s" "rf_state s = File st" "rf_messages s = File ms" "rf_participants s = File ps"
    and "isSafeSlug r" "isSafeSlug f" "clientMessageInputFromRecord body = Inr inp"
  shows "appendMessageResult r f body now mx s =
    (case existing_message f inp ms of
       Some m \<Rightarrow> (Inr \<lparr> ar_message = m, ar_idempotent = True \<rparr>, s)
     | None \<Rightarrow>
        if \<exists>b. mx = Some b \<and> b \<le> length ms then (Inl RoomLogFullError, s)
        else let m = createMessage inp (rs_next_message_id st) (rs_id st) f (map p_alias ps) now in
          (Inr \<lparr> ar_message = m, ar_idempotent = False \<rparr>,
           s\<lparr> rf_messages := File (ms @ [m]),
              rf_state := File (withRoomDefaults st\<lparr> rs_updatedAt := Iso now,
                rs_next_message_id := rs_next_message_id st + 1 \<rparr>) \<rparr>))"
  using assms by (rule append_result_eval)

lemma find_log_unique:
  assumes "sorted_wrt log_before ms" "m \<in> set ms" "m_from m = f" "m_client_msg_id m = Some c"
  shows "find (\<lambda>m. m_from m = f \<and> m_client_msg_id m = Some c) ms = Some m"
  using assms by (induction ms) (auto simp: log_before_def)

lemma append_result_stored:
  assumes "room_inv s" "appendMessageResult r f body now mx s = (Inr res, t)"
    "clientMessageInputFromRecord body = Inr inp" "in_client_msg_id inp = Some c"
  shows "room_inv t \<and> ar_message res \<in> set (room_log t) \<and> m_from (ar_message res) = f \<and>
    m_client_msg_id (ar_message res) = Some c \<and> isSafeSlug r \<and> isSafeSlug f"
proof -
  from assms(1) obtain st ms ps b where files: "rf_state s = File st" "rf_messages s = File ms"
    "rf_participants s = File ps" "room_log s = ms" by (rule room_invE)
  have safe: "isSafeSlug r" "isSafeSlug f"
    using assms(2) by (auto simp: appendMessageResult_def bindA_Inr_iff)
  have inv: "room_inv t"
    using log_grows_appendMessage [OF assms(1), of r f body now mx] assms(2)
    by (simp add: log_grows_def)
  note outcome = assms(2) [unfolded append_result_eval [OF assms(1) files(1-3) safe assms(3)]]
  show ?thesis
  proof (cases "existing_message f inp ms")
    case None
    with outcome inv safe assms(4) show ?thesis
      by (auto simp: Let_def room_log_def split: if_splits)
  next
    case (Some m)
    then have "m \<in> set ms" "m_from m = f" "m_client_msg_id m = Some c"
      using assms(4) by (auto simp: existing_message_def find_Some_iff split: if_splits)
    with Some outcome inv safe files show ?thesis by auto
  qed
qed

lemma append_repeat:
  assumes "room_inv u" "m \<in> set (room_log u)" "m_from m = f" "m_client_msg_id m = Some c"
    "isSafeSlug r" "isSafeSlug f" "clientMessageInputFromRecord body = Inr inp"
    "in_client_msg_id inp = Some c"
  shows "appendMessageResult r f body now mx u = (Inr \<lparr> ar_message = m, ar_idempotent = True \<rparr>, u)"
proof -
  from assms(1) obtain st ms ps b where files: "rf_state u = File st" "rf_messages u = File ms"
    "rf_participants u = File ps" "room_log u = ms" "log_ok st ms" by (rule room_invE)
  have "existing_message f inp ms = Some m"
    using files assms find_log_unique [of ms m f c]
    by (simp add: existing_message_def log_ok_def)
  then show ?thesis
    unfolding append_result_eval [OF assms(1) files(1-3) assms(5-7)] by simp
qed

text \<open>Claim C2. Appending is idempotent per sender and client id, for good: after a successful
  append, whatever operations run in between, sending again with the same client id (even with
  another text, or when the log has reached its bound) returns the first message and changes
  no file.\<close>

theorem append_idempotent_forever:
  assumes "room_inv s" "appendMessageResult r f body now mx s = (Inr res, t)"
    "clientMessageInputFromRecord body = Inr inp" "in_client_msg_id inp = Some c"
    "room_step\<^sup>*\<^sup>* t u"
    "clientMessageInputFromRecord body' = Inr inp'" "in_client_msg_id inp' = Some c"
  shows "appendMessageResult r f body' now' mx' u =
    (Inr \<lparr> ar_message = ar_message res, ar_idempotent = True \<rparr>, u)"
proof -
  note stored = append_result_stored [OF assms(1-4)]
  have "room_inv u" using assms(5) stored by (blast intro: room.steps_inv)
  moreover have "ar_message res \<in> set (room_log u)"
    using assms(5) stored by (blast intro: room.steps_mem)
  ultimately show ?thesis using stored assms(6,7) by (intro append_repeat) auto
qed

lemma append_idempotent_forever_witness:
  "\<exists>m t. appendMessageResult ''lab'' ''host'' hello_body 9 (Some 1) t =
     (Inr \<lparr> ar_message = m, ar_idempotent = True \<rparr>, t) \<and> room_log t = [m]"
proof -
  let ?m = "createMessage \<lparr> in_text = ''hi'', in_type = None, in_reply_to = None,
      in_client_msg_id = Some ''c1'' \<rparr> 1 ''lab'' ''host'' [] 7"
  obtain t where run: "appendMessageResult ''lab'' ''host'' hello_body 7 None lab_room =
      (Inr \<lparr> ar_message = ?m, ar_idempotent = False \<rparr>, t)" and log: "room_log t = [?m]"
    by (simp add: appendMessageResult_def hello_decodes bindA_apply lab_room_eval
        existing_message_def Let_def room_log_def)
  from append_idempotent_forever [OF lab_room_inv run hello_decodes _ rtranclp.rtrancl_refl hello_decodes]
  log show ?thesis by (intro exI [of _ ?m] exI [of _ t]) simp
qed

text \<open>Claim C3. A crash between the two writes of an append leaves a line in the log whose id the
  state still calls next. Without repair the next append writes a second message with that id.
  \<open>recoverRoomState\<close> restores the invariant from the log alone, whatever prefix of the append
  reached the disk, and loses no message.\<close>

theorem crash_and_recovery:
  assumes "room_inv s" "rf_state s = File st" "rf_messages s = File ms" "isSafeSlug r" "isSafeSlug f"
    and "m = createMessage inp (rs_next_message_id st) (rs_id st) f roster now"
    and "existing_message f inp ms = None"
  shows "let crashed = snd (appendJsonLine m s);
             repaired = snd (recoverRoomState r crashed)
         in (\<exists>m2. fst (appendServerMessage r f txt now crashed) = Inr m2 \<and> m_id m2 = m_id m) \<and>
            room_inv repaired \<and> room_log repaired = ms @ [m] \<and>
            (\<exists>m3. fst (appendServerMessage r f txt now repaired) = Inr m3 \<and> m_id m < m_id m3)"
proof -
  from assms(1) obtain ps b where more: "rf_participants s = File ps" "rf_brief s = File b"
    by (rule room_invE)
  from assms(1-3) have ok: "log_ok st ms" by (auto simp: room_inv_def)
  let ?crashed = "s\<lparr> rf_messages := File (ms @ [m]) \<rparr>"
  have mid: "m_id m = rs_next_message_id st" "m_room m = rs_id st" by (simp_all add: assms(6))
  have top: "maxOf m_id (ms @ [m]) = rs_next_message_id st"
  proof (rule antisym)
    have "maxOf m_id (ms @ [m]) < Suc (rs_next_message_id st)"
      using ok mid by (intro maxOf_less) (auto simp: log_ok_def)
    then show "maxOf m_id (ms @ [m]) \<le> rs_next_message_id st" by simp
    show "rs_next_message_id st \<le> maxOf m_id (ms @ [m])"
      using maxOf_upper [of m "ms @ [m]" m_id] mid by simp
  qed
  let ?st = "withRoomDefaults st\<lparr> rs_next_message_id := Suc (rs_next_message_id st) \<rparr>"
  let ?repaired = "s\<lparr> rf_messages := File (ms @ [m]), rf_state := File ?st \<rparr>"
  have crashed: "snd (appendJsonLine m s) = ?crashed" using assms(3) by simp
  have repaired: "snd (recoverRoomState r ?crashed) = ?repaired"
    using assms(2,4) top
    by (simp add: recoverRoomState_def recoverNextMessageId_def roomPaths_def bindA_apply Let_def)
  have grown: "log_grows s ?repaired"
    using assms existing_message_None [OF assms(7)] by (intro log_grows_append) auto
  show ?thesis
    unfolding crashed Let_def repaired
    using assms(2,4,5) more mid grown
    by (auto simp: appendServerMessage_def bindA_apply Let_def buildMessage_def log_grows_def
        room_log_def)
qed

lemma crash_and_recovery_witness:
  "let m = createMessage \<lparr> in_text = ''hi'', in_type = None, in_reply_to = None,
      in_client_msg_id = None \<rparr> 1 ''lab'' ''host'' [] 7;
     crashed = snd (appendJsonLine m lab_room)
   in \<exists>m2. fst (appendServerMessage ''lab'' ''host'' ''x'' 7 crashed) = Inr m2 \<and> m_id m2 = m_id m"
proof -
  let ?inp = "\<lparr> in_text = ''hi'', in_type = None, in_reply_to = None, in_client_msg_id = None \<rparr>"
  let ?st = "projr (readFileR (rf_state lab_room))"
  have st: "rf_state lab_room = File ?st" "rf_messages lab_room = File []"
    "rs_next_message_id ?st = 1" "rs_id ?st = ''lab''"
    by (simp_all add: lab_room_eval)
  from crash_and_recovery [OF lab_room_inv st(1,2) slug_lab slug_host refl, of ?inp "[]" 7 "''x''"] st(3,4)
  show ?thesis by (simp add: existing_message_def Let_def)
qed

definition session_of :: "RoomFiles \<Rightarrow> ActiveSession option" where
  "session_of s = (case rf_state s of File st \<Rightarrow> rs_active_session st | _ \<Rightarrow> None)"

definition running_in :: "RoomFiles \<Rightarrow> bool" where
  "running_in s = (case rf_state s of File st \<Rightarrow> session_running st | _ \<Rightarrow> False)"

lemma session_kept_log:
  "session_of (snd (appendMessageResult r f body now mx s)) = session_of s"
  "session_of (snd (appendServerMessage r f txt now s)) = session_of s"
  "session_of (snd (recoverRoomState r s)) = session_of s"
  by (cases "rf_state s"; cases "rf_messages s"; cases "rf_participants s";
      auto simp: appendMessageResult_def appendServerMessage_def recoverRoomState_def
        recoverNextMessageId_def roomPaths_def bindA_apply Let_def session_of_def commit_message_def
        assertSafeSlug_def split: option.splits sum.splits)+

lemma session_kept_preferences:
  "session_of (snd (updateAttendancePolicy r p u now s)) = session_of s"
  "session_of (snd (updateLoopGuardPreference r en d u now s)) = session_of s"
  "session_of (snd (updateBrief r b u now s)) = session_of s"
  by (cases "rf_state s"; auto simp: state_ops bindA_apply session_of_def assertSafeSlug_def
      assertBriefSize_def split: option.splits)+

lemma session_kept_people:
  "session_of (snd (writeCursor r a n now s)) = session_of s"
  "session_of (snd (writeParticipants r ps s)) = session_of s"
  "session_of (snd (upsertParticipant r p s)) = session_of s"
  "session_of (snd (joinParticipant r p stale now sid s)) = session_of s"
  by (cases "rf_participants s"; auto simp: people_ops bindA_apply session_of_def
      split: option.splits sum.splits)+

lemma session_step_cases:
  assumes "running_in s"
  shows "session_of (snd (createRoom r h now e b p s)) = session_of s"
    "session_of (snd (startActiveSession r c u d q now s)) = session_of s"
    "session_of (snd (closeRoom r now s)) \<in> {session_of s, None}"
    "session_of (snd (endActiveSession r now s)) \<in> {session_of s, None}"
  using assms
  by (cases "rf_state s"; auto simp: createRoom_def create_json_def state_ops bindA_apply
      session_of_def running_in_def session_running_def assertSafeSlug_def assertBriefSize_def
      split: option.splits)+

lemma session_step:
  assumes "room_step s t" "running_in s"
  shows "session_of t = session_of s \<or> session_of t = None"
  using assms(1)
  by (cases rule: room_step.cases)
    (use session_step_cases [OF assms(2)] in
      \<open>auto simp: session_kept_log session_kept_preferences session_kept_people\<close>)

text \<open>Claim C4. A room runs at most one chat session: a start succeeds exactly when none is running
  (the caller's arguments being valid), a refused start changes nothing, and no operation of the
  store replaces a running session by another: it either stays as it is or is cleared first.\<close>

theorem single_active_session:
  assumes "rf_state s = File st" "isSafeSlug r" "isSafeSlug u"
  shows "(session_running st \<longrightarrow>
      startActiveSession r c u d q now s = (Inl ActiveSessionExistsError, s)) \<and>
    (\<not> session_running st \<longrightarrow> (\<exists>a t. startActiveSession r c u d q now s = (Inr a, t) \<and>
      session_of t = Some a \<and> running_in t \<and>
      endActiveSession r end_at t = (Inr (Some (a\<lparr> as_ended_at := Some (Iso end_at) \<rparr>)),
        snd (endActiveSession r end_at t)) \<and>
      session_of (snd (endActiveSession r end_at t)) = None)) \<and>
    (running_in s \<longrightarrow> room_step s v \<longrightarrow> session_of v = session_of s \<or> session_of v = None)"
  using assms session_step [of s v]
  by (auto simp: state_ops bindA_apply session_of_def running_in_def session_running_def
      split: option.splits)

lemma single_active_session_witness:
  "\<exists>a t. startActiveSession ''lab'' ''general'' ''host'' 30 None 1 lab_room = (Inr a, t) \<and> running_in t"
proof -
  let ?st = "projr (readFileR (rf_state lab_room))"
  have st: "rf_state lab_room = File ?st" "\<not> session_running ?st"
    by (simp_all add: lab_room_eval session_running_def)
  from single_active_session [OF st(1) slug_lab slug_host, of "''general''" 30 None 1] st(2)
  show ?thesis by blast
qed

text \<open>A join stores the participant record under its alias, in place of the old one, and
  leaves every other participant alone; it reports a duplicate session exactly when the old
  record had not left, was attending or managed, was seen within the stale window, and is not
  resumed by the same session id.\<close>

lemma joinParticipant_exact:
  assumes "rf_participants s = File ps" "isSafeSlug r" "isSafeSlug (p_alias p)"
  shows "\<exists>dup t qs. joinParticipant r p stale now sid s = (Inr dup, t) \<and> t = s\<lparr> rf_participants := File qs \<rparr> \<and>
    find (\<lambda>x. p_alias x = p_alias p) qs = Some p \<and>
    (\<forall>a. a \<noteq> p_alias p \<longrightarrow> find (\<lambda>x. p_alias x = a) qs = find (\<lambda>x. p_alias x = a) ps) \<and>
    (distinct (map p_alias ps) \<longrightarrow> distinct (map p_alias qs)) \<and>
    (dup \<longleftrightarrow> (\<exists>old ms. find (\<lambda>x. p_alias x = p_alias p) ps = Some old \<and> p_removed_at old = None \<and>
       p_attention old \<in> {PA_attending, PA_managed} \<and> p_lastSeenAt old = Iso ms \<and> now - ms \<le> stale \<and>
       \<not> (sid \<noteq> None \<and> p_session_id old = sid)))"
proof -
  have dup: "isActivelyAttendedByOtherSession old now stale sid \<longleftrightarrow>
      (\<exists>ms. p_removed_at old = None \<and> p_attention old \<in> {PA_attending, PA_managed} \<and>
        p_lastSeenAt old = Iso ms \<and> now - ms \<le> stale \<and> \<not> (sid \<noteq> None \<and> p_session_id old = sid))" for old
    by (cases "p_lastSeenAt old") (auto simp: isActivelyAttendedByOtherSession_def)
  show ?thesis
    using assms
    by (auto simp: joinParticipant_def roomPaths_def bindA_apply Let_def upsertBy_distinct dup
        split: option.splits)
qed

definition sample_participant :: Participant where
  "sample_participant =
     \<lparr> p_alias = ''host'', p_display_name = None, p_kind = K_agent, p_location = L_local,
       p_install = I_lite, p_attention = PA_attending, p_is_host = True, p_token_hash = None,
       p_removed_at = None, p_joinedAt = Iso 0, p_lastSeenAt = Iso 0, p_supported_modes = None,
       p_requested_mode = None, p_effective_mode = None, p_poll_cadence_s = None,
       p_safety_wake_s = None, p_forum_review_channel = None, p_session_id = None \<rparr>"

interpretation cursors: keyed_store
  "\<lambda>a s. case lookup_file a (rf_cursors s) of File rec \<Rightarrow> Some rec | _ \<Rightarrow> None"
  "\<lambda>a rec. rf_cursors_update (AList.update a (File rec))"
  by unfold_locales (auto split: stored.splits)

lemma readCursor_eq:
  "isSafeSlug r \<Longrightarrow> isSafeSlug a \<Longrightarrow> lookup_file a (rf_cursors s) \<noteq> BadFile \<Longrightarrow>
   readCursor r a s = (Inr (case (case lookup_file a (rf_cursors s) of File rec \<Rightarrow> Some rec | _ \<Rightarrow> None)
     of Some rec \<Rightarrow> cu_sinceId rec | None \<Rightarrow> 0), s)"
  by (cases "lookup_file a (rf_cursors s)")
    (auto simp: readCursor_def roomPaths_def isNotFoundError_def)

text \<open>A stored cursor reads back: after a write the alias reads the number written, every
  other alias reads what it read before, and an alias that never wrote reads 0; a write of
  anything but a safe non-negative integer is refused and changes nothing.\<close>

lemma cursor_roundtrip:
  assumes "isSafeSlug r" "isSafeSlug a" "isSafeSlug b"
    and "lookup_file b (rf_cursors s) \<noteq> BadFile"
  shows "(0 \<le> n \<and> n \<le> max_safe \<longrightarrow>
      fst (readCursor r b (snd (writeCursor r a (Finite (of_int n)) now s))) =
        (if a = b then Inr (nat n) else fst (readCursor r b s))) \<and>
    (\<not> (0 \<le> n \<and> n \<le> max_safe) \<longrightarrow> snd (writeCursor r a (Finite (of_int n)) now s) = s) \<and>
    (lookup_file b (rf_cursors s) = NoFile \<longrightarrow> readCursor r b s = (Inr 0, s))"
proof -
  let ?rec = "\<lparr> cu_alias = a, cu_sinceId = nat n, cu_updatedAt = Iso now \<rparr>"
  let ?t = "rf_cursors_update (AList.update a (File ?rec)) s"
  have written: "writeCursor r a (Finite (of_int n)) now s = (Inr ?rec, ?t)"
    if "0 \<le> n" "n \<le> max_safe"
    using that assms by (simp add: writeCursor_def roomPaths_def bindA_apply Let_def)
  have "lookup_file b (rf_cursors ?t) \<noteq> BadFile" using assms(4) by simp
  from readCursor_eq [OF assms(1,3) this] readCursor_eq [OF assms(1,3,4)]
  show ?thesis
    using written assms
    by (auto simp: cursors.look_put writeCursor_def bindA_apply)
qed

end
