(* ===== verification/BoardroomStore.thy ===== *)
theory BoardroomStore
  imports RoomStore
begin

text \<open>
  \<open>storage/boardroom-store.ts\<close>: the boardroom file, its projection when absent, channel creation
  and renaming, per-channel read cursors and the channel view. The lemmas show that every stored
  boardroom is well-formed, and that renaming touches one name only.
\<close>

definition persistBoardroom :: "Boardroom \<Rightarrow> Boardroom room_action" where
  "persistBoardroom boardroom =
     (let persisted = boardroom\<lparr> br_legacy := False \<rparr>
      in bindA (lift (assertValidBoardroom persisted)) (\<lambda>_.
         bindA (modify (rf_boardroom_update (\<lambda>_. File persisted))) (\<lambda>_. ret persisted)))"

definition readBoardroomUnlocked :: "Boardroom room_action" where
  "readBoardroomUnlocked =
     (\<lambda>s. case readFileR (rf_boardroom s) of
        Inr persisted \<Rightarrow> (Inr (persisted\<lparr> br_legacy := False \<rparr>), s)
      | Inl e \<Rightarrow>
          if \<not> isNotFoundError e then (Inl e, s)
          else bindA readRoomState (\<lambda>state.
               ret (deriveDefaultBoardroom (rs_id state) (rs_createdAt state) (rs_updatedAt state) None)) s)"

definition readBoardroom :: "string \<Rightarrow> Boardroom room_action" where
  "readBoardroom roomId = bindA (roomPaths roomId) (\<lambda>_. readBoardroomUnlocked)"

definition writeBoardroom :: "string \<Rightarrow> Boardroom \<Rightarrow> Boardroom room_action" where
  "writeBoardroom roomId boardroom =
     bindA (lift (assertSafeSlug roomId ''room id'')) (\<lambda>_.
     persistBoardroom (boardroom\<lparr> br_id := roomId \<rparr>))"

definition createBoardroom ::
  "string \<Rightarrow> string option \<Rightarrow> Channel list option \<Rightarrow> int \<Rightarrow> Boardroom room_action" where
  "createBoardroom roomId bname channels now =
     bindA (lift (assertSafeSlug roomId ''room id'')) (\<lambda>_.
     persistBoardroom
       \<lparr> br_id = roomId, br_name = bname,
         br_channels = (case channels of
             Some cs \<Rightarrow> if length cs > 0 then cs else [defaultChannel (Iso now)]
           | None \<Rightarrow> [defaultChannel (Iso now)]),
         br_lifecycle = ''active'', br_createdAt = Iso now, br_updatedAt = Iso now,
         br_legacy = False \<rparr>)"

definition addChannel :: "string \<Rightarrow> Channel \<Rightarrow> int \<Rightarrow> Boardroom room_action" where
  "addChannel roomId channel now =
     bindA (lift (assertSafeSlug roomId ''room id'')) (\<lambda>_.
     bindA readBoardroomUnlocked (\<lambda>current.
     if list_ex (\<lambda>c. ch_id c = ch_id channel) (br_channels current)
     then throw (PlainError (''channel already exists: '' @ ch_id channel))
     else persistBoardroom (current\<lparr> br_channels := br_channels current @ [channel],
            br_updatedAt := Iso now, br_legacy := False \<rparr>)))"

definition renameChannel :: "string \<Rightarrow> string \<Rightarrow> string \<Rightarrow> int \<Rightarrow> Boardroom room_action" where
  "renameChannel roomId channelId cname now =
     bindA (lift (assertSafeSlug roomId ''room id'')) (\<lambda>_.
     bindA (lift (assertSafeSlug channelId ''channel id'')) (\<lambda>_.
     bindA readBoardroomUnlocked (\<lambda>current.
     if \<not> list_ex (\<lambda>c. ch_id c = channelId) (br_channels current)
     then throw (PlainError (''channel not found: '' @ channelId))
     else persistBoardroom (current\<lparr>
            br_channels := map (\<lambda>c. if ch_id c = channelId then c\<lparr> ch_name := cname \<rparr> else c)
              (br_channels current),
            br_updatedAt := Iso now, br_legacy := False \<rparr>))))"

definition readChannelCursor :: "string \<Rightarrow> string \<Rightarrow> string \<Rightarrow> nat room_action" where
  "readChannelCursor roomId channelId participantId =
     bindA (lift (assertSafeSlug channelId ''channel id'')) (\<lambda>_.
     bindA (lift (assertSafeSlug participantId ''participant id'')) (\<lambda>_.
     bindA (roomPaths roomId) (\<lambda>_.
     (\<lambda>s. case readFileR (lookup_file (channelId, participantId) (rf_channelCursors s)) of
        Inr rec \<Rightarrow> (Inr (cc_sinceId rec), s)
      | Inl e \<Rightarrow>
          if \<not> isNotFoundError e then (Inl e, s)
          else if channelId = DEFAULT_CHANNEL_ID then readCursor roomId participantId s
          else (Inr 0, s)))))"

definition writeChannelCursor ::
  "string \<Rightarrow> string \<Rightarrow> string \<Rightarrow> jnum \<Rightarrow> int \<Rightarrow> ChannelReadCursor room_action" where
  "writeChannelCursor roomId channelId participantId sinceId now =
     bindA (lift (assertSafeSlug channelId ''channel id'')) (\<lambda>_.
     bindA (lift (assertSafeSlug participantId ''participant id'')) (\<lambda>_.
     bindA (lift (parsePositiveInteger sinceId ''cursor sinceId'')) (\<lambda>_.
     bindA (roomPaths roomId) (\<lambda>_.
     let rec = \<lparr> cc_participantId = participantId, cc_channelId = channelId,
                 cc_sinceId = nat (jnum_int sinceId), cc_updatedAt = Iso now \<rparr>
     in bindA (modify (rf_channelCursors_update (AList.update (channelId, participantId) (File rec))))
          (\<lambda>_. ret rec)))))"

definition readChannelView :: "string \<Rightarrow> string \<Rightarrow> string \<Rightarrow> ChannelView room_action" where
  "readChannelView roomId channelId participantId =
     bindA (lift (assertSafeSlug channelId ''channel id'')) (\<lambda>_.
     bindA (lift (assertSafeSlug participantId ''participant id'')) (\<lambda>_.
     bindA (readBoardroom roomId) (\<lambda>boardroom.
     case find (\<lambda>c. ch_id c = channelId) (br_channels boardroom) of
       None \<Rightarrow> throw (PlainError (''channel not found: '' @ channelId))
     | Some channel \<Rightarrow>
         bindA (if channelId = DEFAULT_CHANNEL_ID then readMessages roomId else ret []) (\<lambda>messages.
         bindA (readChannelCursor roomId channelId participantId) (\<lambda>lastReadId.
         let (unread, latestId) = summarizeUnread messages lastReadId
         in ret \<lparr> cv_channelId = channelId, cv_type = ch_type channel, cv_messages = messages,
                  cv_unread = unread, cv_lastReadId = lastReadId, cv_latestId = latestId \<rparr>)))))"

subsection \<open>Stored boardrooms are well-formed\<close>

definition boardroom_inv :: "RoomFiles \<Rightarrow> bool" where
  "boardroom_inv s \<longleftrightarrow> (\<forall>b. rf_boardroom s = File b \<longrightarrow> wf_boardroom b \<and> \<not> br_legacy b)"

text \<open>One operation on the boardroom file.\<close>

inductive boardroom_step :: "RoomFiles \<Rightarrow> RoomFiles \<Rightarrow> bool" where
  write_board: "boardroom_step s (snd (writeBoardroom r b s))"
| create_board: "boardroom_step s (snd (createBoardroom r n cs now s))"
| add: "boardroom_step s (snd (addChannel r c now s))"
| rename: "boardroom_step s (snd (renameChannel r cid n now s))"
| cursor: "boardroom_step s (snd (writeChannelCursor r cid pid n now s))"
| room: "room_step s t \<Longrightarrow> boardroom_step s t"

inductive_cases boardroom_stepE: "boardroom_step s t"

lemma wf_boardroom_legacy [simp]: "wf_boardroom (b\<lparr> br_legacy := l \<rparr>) = wf_boardroom b"
  by (simp add: wf_boardroom_def)

lemma persistBoardroom_apply:
  "persistBoardroom b s =
     (if wf_boardroom b
      then (Inr (b\<lparr> br_legacy := False \<rparr>), s\<lparr> rf_boardroom := File (b\<lparr> br_legacy := False \<rparr>) \<rparr>)
      else (Inl (projl (assertValidBoardroom (b\<lparr> br_legacy := False \<rparr>))), s))"
proof (cases "wf_boardroom b")
  case True
  then show ?thesis by (simp add: persistBoardroom_def Let_def bindA_apply)
next
  case False
  then obtain e where "assertValidBoardroom (b\<lparr> br_legacy := False \<rparr>) = Inl e"
    using assertValidBoardroom_Inr [of "b\<lparr> br_legacy := False \<rparr>"] by (metis sum.exhaust wf_boardroom_legacy)
  with False show ?thesis by (simp add: persistBoardroom_def Let_def bindA_apply)
qed

lemma readBoardroomUnlocked_apply:
  "readBoardroomUnlocked s =
     (case rf_boardroom s of
        File b \<Rightarrow> (Inr (b\<lparr> br_legacy := False \<rparr>), s)
      | BadFile \<Rightarrow> (Inl SyntaxError, s)
      | NoFile \<Rightarrow> (case rf_state s of
            File st \<Rightarrow> (Inr (deriveDefaultBoardroom (rs_id st) (rs_createdAt st) (rs_updatedAt st) None), s)
          | NoFile \<Rightarrow> (Inl NotFound, s) | BadFile \<Rightarrow> (Inl SyntaxError, s)))"
  by (cases "rf_boardroom s"; cases "rf_state s")
    (simp_all add: readBoardroomUnlocked_def isNotFoundError_def bindA_apply withRoomDefaults_def)

lemma persist_keeps:
  "boardroom_inv s \<Longrightarrow> boardroom_inv (snd (persistBoardroom b s))"
  by (simp add: persistBoardroom_apply boardroom_inv_def)

lemma persist_log:
  "room_inv (snd (persistBoardroom b s)) = room_inv s \<and> room_log (snd (persistBoardroom b s)) = room_log s"
  by (simp add: persistBoardroom_apply room_inv_def room_log_def)

text \<open>Every boardroom operation only writes through \<open>persistBoardroom\<close> or a cursor file.\<close>

definition board_safe :: "'a room_action \<Rightarrow> bool" where
  "board_safe act \<longleftrightarrow> (\<forall>s. (boardroom_inv s \<longrightarrow> boardroom_inv (snd (act s))) \<and>
     (room_inv s \<longrightarrow> room_inv (snd (act s))) \<and> room_log (snd (act s)) = room_log s \<and>
     rf_posts (snd (act s)) = rf_posts s \<and> rf_comments (snd (act s)) = rf_comments s)"

lemma board_safe_basic [simp]: "board_safe (ret x)" "board_safe (throw e)" "board_safe (lift r)"
    "board_safe readBoardroomUnlocked" "board_safe (roomPaths rid)"
  by (auto simp: board_safe_def readBoardroomUnlocked_apply roomPaths_def split: stored.splits)

lemma board_safe_bindA: "board_safe act \<Longrightarrow> (\<And>x. board_safe (f x)) \<Longrightarrow> board_safe (bindA act f)"
  unfolding board_safe_def bindA_apply by (auto split: prod.splits sum.splits) (metis snd_conv)+

lemma board_safe_persist [simp]: "board_safe (persistBoardroom b)"
  by (simp add: board_safe_def persist_keeps persist_log) (simp add: persistBoardroom_apply)

lemma board_safe_cursor [simp]:
  "board_safe (modify (rf_channelCursors_update f))"
  by (simp add: board_safe_def boardroom_inv_def room_inv_def room_log_def)

lemma board_safe_ops:
  "board_safe (writeBoardroom r b)" "board_safe (createBoardroom r n cs now)"
  "board_safe (addChannel r c now)" "board_safe (renameChannel r cid cn now)"
  "board_safe (writeChannelCursor r cid pid v now)"
  by (auto simp: writeBoardroom_def createBoardroom_def addChannel_def renameChannel_def
      writeChannelCursor_def Let_def intro!: board_safe_bindA)

definition board_inv :: "RoomFiles \<Rightarrow> bool" where
  "board_inv s \<longleftrightarrow> room_inv s \<and> boardroom_inv s"

lemma boardroom_step_forum:
  assumes "boardroom_step s t"
  shows "rf_posts t = rf_posts s \<and> rf_comments t = rf_comments s"
  using assms
proof (cases rule: boardroom_step.cases)
  case room
  with room_step_other_files [of s t] show ?thesis by (simp add: other_files_def)
qed (use board_safe_ops in \<open>simp_all add: board_safe_def\<close>)

lemma boardroom_step_inv:
  assumes "board_inv s" "boardroom_step s t"
  shows "board_inv t \<and> prefix (room_log s) (room_log t)"
  using assms(2)
proof (cases rule: boardroom_step.cases)
  case room
  with assms(1) room_step_grows [of s t] room_step_other_files [of s t] show ?thesis
    by (simp add: board_inv_def log_grows_def boardroom_inv_def other_files_def)
qed (use assms(1) board_safe_ops in \<open>simp_all add: board_safe_def board_inv_def\<close>)

lemma startRoom_board: "startRoom s \<Longrightarrow> rf_boardroom s = NoFile"
proof -
  assume "startRoom s"
  then obtain r h now e b p st where "createRoom r h now e b p empty_room = (Inr st, s)"
    by (auto simp: startRoom_def)
  with other_files_state(7) [of r h now e b p empty_room] show ?thesis
    by (simp add: other_files_def empty_room_def)
qed

lemma startRoom_board_inv: "startRoom s \<Longrightarrow> board_inv s"
  by (simp add: board_inv_def startRoom_inv boardroom_inv_def startRoom_board)

interpretation board: append_log startRoom boardroom_step board_inv room_log
proof
  show "board_inv s" if "startRoom s" for s using that by (rule startRoom_board_inv)
  show "board_inv t" if "board_inv s" "boardroom_step s t" for s t
    using boardroom_step_inv that by blast
  show "prefix (room_log s) (room_log t)" if "board_inv s" "boardroom_step s t" for s t
    using boardroom_step_inv that by blast
qed

subsection \<open>Properties\<close>

definition stored_channels :: "RoomFiles \<Rightarrow> Channel list" where
  "stored_channels s = (case fst (readBoardroomUnlocked s) of Inr b \<Rightarrow> br_channels b | Inl _ \<Rightarrow> [])"

lemma stored_channels_wf:
  assumes "board_inv s" "fst (readBoardroomUnlocked s) = Inr b"
  shows "distinct (map ch_id (br_channels b)) \<and> br_channels b \<noteq> []"
  using assms
  by (auto simp: readBoardroomUnlocked_apply board_inv_def boardroom_inv_def wf_boardroom_def
      deriveDefaultBoardroom_def split: stored.splits)

text \<open>Claim C8. In every room reached from a created one by any sequence of room and boardroom
  operations, a stored boardroom is well-formed: valid channels, at least one, all ids different,
  not marked legacy; and boardroom operations never touch the message log.\<close>

theorem stored_boardroom_wf:
  assumes "startRoom s" "boardroom_step\<^sup>*\<^sup>* s t"
  shows "(\<forall>b. rf_boardroom t = File b \<longrightarrow> assertValidBoardroom b = Inr () \<and> \<not> br_legacy b) \<and>
    room_inv t \<and> room_log (snd (addChannel r c now t)) = room_log t \<and>
    room_log (snd (renameChannel r cid cn now t)) = room_log t"
proof -
  have "board_inv t" using assms by (rule board.reachable_inv)
  moreover have "room_log (snd (addChannel r c now t)) = room_log t"
    "room_log (snd (renameChannel r cid cn now t)) = room_log t"
    using board_safe_ops(3,4) by (simp_all add: board_safe_def)
  ultimately show ?thesis by (auto simp: board_inv_def boardroom_inv_def)
qed

lemma stored_boardroom_wf_witness:
  "rf_boardroom (snd (createBoardroom ''lab'' None None 1 lab_room)) =
     File (deriveDefaultBoardroom ''lab'' (Iso 1) (Iso 1) None\<lparr> br_legacy := False \<rparr>) \<and>
   room_inv (snd (createBoardroom ''lab'' None None 1 lab_room))"
proof -
  have "boardroom_step\<^sup>*\<^sup>* lab_room (snd (createBoardroom ''lab'' None None 1 lab_room))"
    by (blast intro: boardroom_step.create_board)
  from stored_boardroom_wf [OF lab_room_created this]
  show ?thesis
    by (simp add: createBoardroom_def persistBoardroom_apply deriveDefaultBoardroom_def
        wf_boardroom_def)
qed

lemma read_wf:
  assumes "board_inv s" "fst (readBoardroomUnlocked s) = Inr b" "isSafeSlug (br_id b)"
  shows "readBoardroomUnlocked s = (Inr b, s) \<and> wf_boardroom b"
  using assms by (auto simp: readBoardroomUnlocked_apply board_inv_def boardroom_inv_def
      split: stored.splits) (simp add: deriveDefaultBoardroom_def)

lemma list_ex_id: "list_ex (\<lambda>x. ch_id x = i) cs \<longleftrightarrow> i \<in> ch_id ` set cs"
  by (auto simp: list_ex_iff)

lemma addChannel_read:
  assumes "readBoardroomUnlocked s = (Inr b, s)" "isSafeSlug r"
  shows "addChannel r c now s =
    (if ch_id c \<in> ch_id ` set (br_channels b)
     then (Inl (PlainError (''channel already exists: '' @ ch_id c)), s)
     else persistBoardroom (b\<lparr> br_channels := br_channels b @ [c], br_updatedAt := Iso now,
       br_legacy := False \<rparr>) s)"
  using assms by (simp add: addChannel_def bindA_apply list_ex_id)

lemma renameChannel_read:
  assumes "readBoardroomUnlocked s = (Inr b, s)" "isSafeSlug r" "isSafeSlug cid"
  shows "renameChannel r cid cn now s =
    (if cid \<notin> ch_id ` set (br_channels b)
     then (Inl (PlainError (''channel not found: '' @ cid)), s)
     else persistBoardroom (b\<lparr> br_channels := map (\<lambda>x. if ch_id x = cid then x\<lparr> ch_name := cn \<rparr> else x)
       (br_channels b), br_updatedAt := Iso now, br_legacy := False \<rparr>) s)"
  using assms by (simp add: renameChannel_def bindA_apply list_ex_id)

lemma stored_persisted:
  "stored_channels (snd (persistBoardroom b s)) =
     (if wf_boardroom b then br_channels b else stored_channels s)"
  by (cases "wf_boardroom b")
    (simp_all add: persistBoardroom_apply stored_channels_def readBoardroomUnlocked_apply)

lemma wf_added:
  "wf_boardroom b \<Longrightarrow> ch_id c \<notin> ch_id ` set (br_channels b) \<Longrightarrow>
   wf_boardroom (b\<lparr> br_channels := br_channels b @ [c], br_updatedAt := u, br_legacy := l \<rparr>) \<longleftrightarrow> wf_channel c"
  by (auto simp: wf_boardroom_def)

lemma wf_renamed:
  assumes "wf_boardroom b"
  shows "wf_boardroom (b\<lparr> br_channels := map (\<lambda>x. if ch_id x = cid then x\<lparr> ch_name := cn \<rparr> else x)
    (br_channels b), br_updatedAt := u, br_legacy := l \<rparr>)"
proof -
  have chan: "wf_channel (x\<lparr> ch_name := cn \<rparr>) = wf_channel x" for x
    by (simp add: wf_channel_def)
  have "ch_id \<circ> (\<lambda>x :: Channel. if ch_id x = cid then x\<lparr> ch_name := cn \<rparr> else x) = ch_id" by auto
  with assms show ?thesis by (auto simp: wf_boardroom_def chan)
qed

text \<open>Adding a channel with a new, valid id to a readable boardroom appends exactly that
  channel (a legacy room's general channel is materialised first); an id already present is
  refused. Renaming gives the named channel its new name and leaves ids, types, lifecycles and
  the other names as they are. A refused operation writes nothing.\<close>

lemma channel_operations:
  assumes "board_inv s" "fst (readBoardroomUnlocked s) = Inr b" "isSafeSlug r" "isSafeSlug (br_id b)"
  shows "(ch_id c \<in> ch_id ` set (br_channels b) \<longrightarrow>
      addChannel r c now s = (Inl (PlainError (''channel already exists: '' @ ch_id c)), s)) \<and>
    (ch_id c \<notin> ch_id ` set (br_channels b) \<and> wf_channel c \<longrightarrow>
      stored_channels (snd (addChannel r c now s)) = br_channels b @ [c]) \<and>
    (\<not> wf_channel c \<longrightarrow> snd (addChannel r c now s) = s) \<and>
    (isSafeSlug cid \<and> cid \<in> ch_id ` set (br_channels b) \<longrightarrow>
      stored_channels (snd (renameChannel r cid cn now s)) =
        map (\<lambda>x. if ch_id x = cid then x\<lparr> ch_name := cn \<rparr> else x) (br_channels b)) \<and>
    (cid \<notin> ch_id ` set (br_channels b) \<longrightarrow> snd (renameChannel r cid cn now s) = s)"
proof -
  have read: "readBoardroomUnlocked s = (Inr b, s)" and wf: "wf_boardroom b"
    using read_wf [OF assms(1,2,4)] by auto
  note add = addChannel_read [OF read assms(3)] and rename = renameChannel_read [OF read assms(3)]
  have "snd (addChannel r c now s) = s" if "\<not> wf_channel c"
    using that wf wf_added [OF wf, of c] by (auto simp: add persistBoardroom_apply)
  moreover have "snd (renameChannel r cid cn now s) = s" if "cid \<notin> ch_id ` set (br_channels b)"
    using that rename [of cid]
    by (cases "isSafeSlug cid") (simp_all add: renameChannel_def assertSafeSlug_def assms(3))
  ultimately show ?thesis
    using wf_added [OF wf, of c] wf_renamed [OF wf, where cid = cid and cn = cn]
    by (auto simp: add rename stored_persisted)
qed

end
