(* ===== verification/ForumStore.thy ===== *)
theory ForumStore
  imports BoardroomStore
begin

text \<open>
  \<open>storage/forum-store.ts\<close>: posts and append-only comments under forum channels. A post id drawn
  by \<open>randomBytes\<close> is the argument \<open>fresh\<close>. \<open>rf_posts\<close> lists the post files in the order in which
  \<open>readdir\<close> returns them; \<open>locale_key\<close> stands for the order of \<open>localeCompare\<close> on time stamps.
\<close>

record CreateForumPostInput =
  fi_author :: string
  fi_title :: string
  fi_body :: string
  fi_id :: "string option"
  fi_status :: "string option"
  fi_tags :: "string list option"

definition assertForumChannel :: "string \<Rightarrow> string \<Rightarrow> unit room_action" where
  "assertForumChannel roomId channelId =
     bindA (readBoardroom roomId) (\<lambda>boardroom.
     case find (\<lambda>c. ch_id c = channelId) (br_channels boardroom) of
       None \<Rightarrow> throw (PlainError (''channel not found: '' @ channelId))
     | Some channel \<Rightarrow>
         if ch_type channel \<noteq> ''forum''
         then throw (PlainError (''channel '' @ channelId @ '' is not a forum channel''))
         else ret ())"

definition post_file :: "string \<Rightarrow> string \<Rightarrow> RoomFiles \<Rightarrow> ForumPost stored" where
  "post_file channelId postId s = lookup_file (channelId, postId) (rf_posts s)"

definition comments_file :: "string \<Rightarrow> string \<Rightarrow> RoomFiles \<Rightarrow> ForumComment list stored" where
  "comments_file channelId postId s = lookup_file (channelId, postId) (rf_comments s)"

definition readCommentsLog :: "string \<Rightarrow> string \<Rightarrow> ForumComment list room_action" where
  "readCommentsLog channelId postId =
     (\<lambda>s. case readFileR (comments_file channelId postId s) of
        Inl e \<Rightarrow> if isNotFoundError e then (Inr [], s) else (Inl e, s)
      | Inr cs \<Rightarrow> (bindR (mapR assertValidForumComment cs) (\<lambda>_. Inr cs), s))"

text \<open>\<open>writeJsonNew(postFile(...), post)\<close>: exclusive, so an existing post is never replaced.\<close>

definition write_new_post :: "string \<Rightarrow> string \<Rightarrow> ForumPost \<Rightarrow> unit room_action" where
  "write_new_post channelId postId post =
     (\<lambda>s. case createFileR post (post_file channelId postId s) of
        Inl e \<Rightarrow> (Inl e, s)
      | Inr f \<Rightarrow> (Inr (), rf_posts_update (AList.update (channelId, postId) f) s))"

definition createForumPost ::
  "string \<Rightarrow> string \<Rightarrow> CreateForumPostInput \<Rightarrow> string \<Rightarrow> int \<Rightarrow> ForumPost room_action" where
  "createForumPost roomId channelId input fresh now =
     bindA (lift (assertSafeSlug channelId ''channel id'')) (\<lambda>_.
     bindA (lift (assertSafeSlug (fi_author input) ''forum post author'')) (\<lambda>_.
     bindA (lift (assertForumTitle (fi_title input))) (\<lambda>_.
     bindA (lift (assertForumBody (fi_body input))) (\<lambda>_.
     bindA (assertForumChannel roomId channelId) (\<lambda>_.
     let ident = (case fi_id input of Some i \<Rightarrow> i | None \<Rightarrow> ''post-'' @ fresh)
     in bindA (lift (assertSafeSlug ident ''forum post id'')) (\<lambda>_.
        bindA (lift (normalizeForumTags (case fi_tags input of Some ts \<Rightarrow> ts | None \<Rightarrow> []))) (\<lambda>tags.
        let post = \<lparr> fp_schema_version = FORUM_SCHEMA_VERSION, fp_id = ident,
              fp_channel_id = channelId, fp_author = fi_author input, fp_title = fi_title input,
              fp_body = fi_body input,
              fp_status = (case fi_status input of Some st \<Rightarrow> st | None \<Rightarrow> DEFAULT_FORUM_POST_STATUS),
              fp_tags = tags, fp_created_at = Iso now, fp_updated_at = Iso now \<rparr>
        in bindA (lift (assertValidForumPost post)) (\<lambda>_.
        bindA (write_new_post channelId ident post) (\<lambda>_. ret post)))))))))"

definition readForumPost ::
  "string \<Rightarrow> string \<Rightarrow> string \<Rightarrow> (ForumPost \<times> ForumComment list) room_action" where
  "readForumPost roomId channelId postId =
     bindA (lift (assertSafeSlug channelId ''channel id'')) (\<lambda>_.
     bindA (lift (assertSafeSlug postId ''forum post id'')) (\<lambda>_.
     bindA (assertForumChannel roomId channelId) (\<lambda>_.
     bindA (read_json (post_file channelId postId)) (\<lambda>post.
     bindA (lift (assertValidForumPost post)) (\<lambda>_.
     bindA (readCommentsLog channelId postId) (\<lambda>comments.
     ret (post, comments)))))))"

text \<open>The loop of \<open>listForumPosts\<close>: a missing post file is skipped, any other failure is thrown.\<close>

fun list_loop :: "ForumPost list \<Rightarrow> ForumPost stored list \<Rightarrow> ForumPost list result" where
  "list_loop posts [] = Inr posts"
| "list_loop posts (f # fs) =
     (case bindR (readFileR f) (\<lambda>post. bindR (assertValidForumPost post) (\<lambda>_. Inr post)) of
        Inr post \<Rightarrow> list_loop (posts @ [post]) fs
      | Inl e \<Rightarrow> if \<not> isNotFoundError e then Inl e else list_loop posts fs)"

definition listForumPosts :: "(tstamp \<Rightarrow> int) \<Rightarrow> string \<Rightarrow> string \<Rightarrow> ForumPost list room_action" where
  "listForumPosts locale_key roomId channelId =
     bindA (lift (assertSafeSlug channelId ''channel id'')) (\<lambda>_.
     bindA (assertForumChannel roomId channelId) (\<lambda>_.
     bindA (gets (\<lambda>s. map snd (filter (\<lambda>kf. fst (fst kf) = channelId) (rf_posts s)))) (\<lambda>entries.
     bindA (lift (list_loop [] entries)) (\<lambda>posts.
     ret (sort_key (\<lambda>p. locale_key (fp_created_at p)) posts)))))"

definition addForumComment ::
  "string \<Rightarrow> string \<Rightarrow> string \<Rightarrow> string \<Rightarrow> string \<Rightarrow> int \<Rightarrow> ForumComment room_action" where
  "addForumComment roomId channelId postId author body now =
     bindA (lift (assertSafeSlug channelId ''channel id'')) (\<lambda>_.
     bindA (lift (assertSafeSlug postId ''forum post id'')) (\<lambda>_.
     bindA (lift (assertSafeSlug author ''forum comment author'')) (\<lambda>_.
     bindA (lift (assertForumBody body)) (\<lambda>_.
     bindA (assertForumChannel roomId channelId) (\<lambda>_.
     bindA (read_json (post_file channelId postId)) (\<lambda>post.
     bindA (lift (assertValidForumPost post)) (\<lambda>_.
     bindA (readCommentsLog channelId postId) (\<lambda>existing.
     let comment = \<lparr> fc_schema_version = FORUM_SCHEMA_VERSION,
           fc_id = CHR ''c'' # nat_str (length existing + 1), fc_post_id = postId,
           fc_channel_id = channelId, fc_author = author, fc_body = body, fc_created_at = Iso now \<rparr>
     in bindA (lift (assertValidForumComment comment)) (\<lambda>_.
        bindA (modify (\<lambda>s. rf_comments_update (AList.update (channelId, postId)
                 (appendLine comment (comments_file channelId postId s))) s)) (\<lambda>_.
        ret comment))))))))))"

definition setForumPostStatus ::
  "string \<Rightarrow> string \<Rightarrow> string \<Rightarrow> string \<Rightarrow> int \<Rightarrow> ForumPost room_action" where
  "setForumPostStatus roomId channelId postId status now =
     bindA (lift (assertSafeSlug channelId ''channel id'')) (\<lambda>_.
     bindA (lift (assertSafeSlug postId ''forum post id'')) (\<lambda>_.
     bindA (lift (parseForumStatus status)) (\<lambda>_.
     bindA (roomPaths roomId) (\<lambda>_.
     bindA (read_json (post_file channelId postId)) (\<lambda>post.
     bindA (lift (assertValidForumPost post)) (\<lambda>_.
     let updated = post\<lparr> fp_status := status, fp_updated_at := Iso now \<rparr>
     in bindA (lift (assertValidForumPost updated)) (\<lambda>_.
        bindA (modify (rf_posts_update (AList.update (channelId, postId) (File updated)))) (\<lambda>_.
        ret updated))))))))"

subsection \<open>What is stored\<close>

definition thread_log :: "string \<Rightarrow> string \<Rightarrow> RoomFiles \<Rightarrow> ForumComment list" where
  "thread_log c p s = (case comments_file c p s of File cs \<Rightarrow> cs | _ \<Rightarrow> [])"

text \<open>A thread's comments are valid, belong to their post and are numbered from one.\<close>

definition thread_ok :: "string \<Rightarrow> string \<Rightarrow> ForumComment list \<Rightarrow> bool" where
  "thread_ok c p cs \<longleftrightarrow> (\<forall>i < length cs. assertValidForumComment (cs ! i) = Inr () \<and>
     fc_channel_id (cs ! i) = c \<and> fc_post_id (cs ! i) = p \<and>
     fc_id (cs ! i) = CHR ''c'' # nat_str (i + 1))"

definition forum_inv :: "RoomFiles \<Rightarrow> bool" where
  "forum_inv s \<longleftrightarrow>
     (\<forall>c p post. post_file c p s = File post \<longrightarrow>
        wf_post post \<and> fp_channel_id post = c \<and> fp_id post = p) \<and>
     (\<forall>c p cs. comments_file c p s = File cs \<longrightarrow>
        thread_ok c p cs \<and> (\<exists>post. post_file c p s = File post)) \<and>
     (\<forall>c p. post_file c p s \<noteq> BadFile \<and> comments_file c p s \<noteq> BadFile)"

lemma readBoardroom_state: "snd (readBoardroom r s) = s"
  using board_safe_basic
  by (cases "assertSafeSlug r ''room id''")
    (auto simp: readBoardroom_def roomPaths_def readBoardroomUnlocked_apply split: stored.splits)

lemma assertForumChannel_state: "assertForumChannel r c s = (x, u) \<Longrightarrow> u = s"
  using readBoardroom_state [of r s]
  by (auto simp: assertForumChannel_def bindA_apply split: prod.splits sum.splits option.splits if_splits)

lemma readCommentsLog_state: "readCommentsLog c p s = (x, u) \<Longrightarrow> u = s"
  by (auto simp: readCommentsLog_def split: sum.splits if_splits)

lemma mapR_all_valid:
  "(\<And>x. x \<in> set xs \<Longrightarrow> f x = Inr ()) \<Longrightarrow> \<exists>us. mapR f xs = Inr us"
  by (induction xs) auto

lemma readCommentsLog_inv:
  assumes "forum_inv s"
  shows "readCommentsLog c p s = (Inr (thread_log c p s), s)"
proof (cases "comments_file c p s")
  case (File cs)
  with assms have "\<forall>x \<in> set cs. assertValidForumComment x = Inr ()"
    by (fastforce simp: forum_inv_def thread_ok_def in_set_conv_nth)
  then obtain us where "mapR assertValidForumComment cs = Inr us"
    using mapR_all_valid [of cs] by blast
  with File show ?thesis by (simp add: readCommentsLog_def thread_log_def)
qed (use assms in \<open>auto simp: readCommentsLog_def thread_log_def isNotFoundError_def forum_inv_def\<close>)

lemma write_new_post_iff:
  "write_new_post c p post s = (Inr u, t) \<longleftrightarrow>
     post_file c p s = NoFile \<and> t = rf_posts_update (AList.update (c, p) (File post)) s"
  "write_new_post c p post s = (Inl e, t) \<longleftrightarrow> post_file c p s \<noteq> NoFile \<and> e = FileExists \<and> t = s"
  by (cases "post_file c p s"; auto simp: write_new_post_def)+

lemma createForumPost_Inr:
  assumes "createForumPost r c input fresh now s = (Inr post, t)"
  shows "post_file c (fp_id post) s = NoFile \<and>
    t = rf_posts_update (AList.update (c, fp_id post) (File post)) s \<and> wf_post post \<and>
    fp_channel_id post = c \<and> fp_author post = fi_author input \<and> fp_title post = fi_title input \<and>
    fp_body post = fi_body input \<and> fst (assertForumChannel r c s) = Inr ()"
  using assms
  by (auto simp: createForumPost_def bindA_Inr_iff Let_def wf_post_def assertValidForumPost_Inr
      FORUM_SCHEMA_VERSION_def
      write_new_post_iff dest: assertForumChannel_state normalizeForumTags_idem)

lemma createForumPost_Inl:
  "createForumPost r c input fresh now s = (Inl e, t) \<Longrightarrow> t = s"
  by (auto simp: createForumPost_def bindA_Inl_iff Let_def write_new_post_iff
      dest: assertForumChannel_state)

lemma setForumPostStatus_Inr:
  assumes "setForumPostStatus r c p st now s = (Inr post, t)"
  shows "\<exists>old. post_file c p s = File old \<and> post = old\<lparr> fp_status := st, fp_updated_at := Iso now \<rparr> \<and>
    st \<in> set FORUM_POST_STATUSES \<and> t = rf_posts_update (AList.update (c, p) (File post)) s"
  using assms
  by (auto simp: setForumPostStatus_def bindA_Inr_iff Let_def roomPaths_def)

lemma setForumPostStatus_Inl:
  "setForumPostStatus r c p st now s = (Inl e, t) \<Longrightarrow> t = s"
  by (auto simp: setForumPostStatus_def bindA_Inl_iff Let_def roomPaths_def)

lemma addForumComment_Inr:
  assumes "addForumComment r c p a body now s = (Inr cm, t)" "forum_inv s"
  shows "(\<exists>post. post_file c p s = File post) \<and> assertValidForumComment cm = Inr () \<and>
    fc_channel_id cm = c \<and> fc_post_id cm = p \<and> fc_body cm = body \<and> fc_author cm = a \<and>
    fc_id cm = CHR ''c'' # nat_str (length (thread_log c p s) + 1) \<and>
    t = rf_comments_update (AList.update (c, p) (appendLine cm (comments_file c p s))) s"
  using assms readCommentsLog_inv [OF assms(2), of c p]
  by (auto simp: addForumComment_def bindA_Inr_iff Let_def dest!: assertForumChannel_state)

lemma addForumComment_Inl:
  "addForumComment r c p a body now s = (Inl e, t) \<Longrightarrow> t = s"
  by (auto simp: addForumComment_def bindA_Inl_iff Let_def
      dest: assertForumChannel_state readCommentsLog_state)

subsection \<open>Runs of the stores\<close>

inductive store_step :: "RoomFiles \<Rightarrow> RoomFiles \<Rightarrow> bool" where
  post: "store_step s (snd (createForumPost r c input fresh now s))"
| comment: "store_step s (snd (addForumComment r c p a body now s))"
| status: "store_step s (snd (setForumPostStatus r c p st now s))"
| board: "boardroom_step s t \<Longrightarrow> store_step s t"

definition store_inv :: "RoomFiles \<Rightarrow> bool" where
  "store_inv s \<longleftrightarrow> board_inv s \<and> forum_inv s"

text \<open>What may become of a post: only its status and its time of update change.\<close>

definition same_post :: "ForumPost \<Rightarrow> ForumPost \<Rightarrow> bool" where
  "same_post a b \<longleftrightarrow> b = a\<lparr> fp_status := fp_status b, fp_updated_at := fp_updated_at b \<rparr>"

definition posts_kept :: "RoomFiles \<Rightarrow> RoomFiles \<Rightarrow> bool" where
  "posts_kept s t \<longleftrightarrow> (\<forall>c p post. post_file c p s = File post \<longrightarrow>
     (\<exists>post'. post_file c p t = File post' \<and> same_post post post'))"

definition forum_grows :: "RoomFiles \<Rightarrow> RoomFiles \<Rightarrow> bool" where
  "forum_grows s t \<longleftrightarrow> forum_inv t \<and> posts_kept s t \<and>
     (\<forall>c p. prefix (thread_log c p s) (thread_log c p t))"

lemma same_post_refl [simp]: "same_post a a"
  by (simp add: same_post_def)

lemma same_post_trans: "same_post a b \<Longrightarrow> same_post b c \<Longrightarrow> same_post a c"
  by (cases a; cases b; cases c) (simp add: same_post_def)

lemma forum_grows_refl: "forum_inv s \<Longrightarrow> forum_grows s s"
  by (simp add: forum_grows_def posts_kept_def)

lemma post_file_updates [simp]:
  "post_file c p (rf_posts_update (AList.update (c', p') f) s) =
     (if (c', p') = (c, p) then f else post_file c p s)"
  "post_file c p (rf_comments_update h s) = post_file c p s"
  "comments_file c p (rf_posts_update g s) = comments_file c p s"
  "comments_file c p (rf_comments_update (AList.update (c', p') fc) s) =
     (if (c', p') = (c, p) then fc else comments_file c p s)"
  by (simp_all add: post_file_def comments_file_def)

lemma thread_log_posts [simp]: "thread_log c p (rf_posts_update g s) = thread_log c p s"
  by (simp add: thread_log_def)

lemma wf_post_status:
  "wf_post post \<Longrightarrow> st \<in> set FORUM_POST_STATUSES \<Longrightarrow>
   wf_post (post\<lparr> fp_status := st, fp_updated_at := u \<rparr>)"
  by (simp add: wf_post_def)

lemma thread_ok_snoc:
  "thread_ok c p cs \<Longrightarrow> assertValidForumComment cm = Inr () \<Longrightarrow> fc_channel_id cm = c \<Longrightarrow>
   fc_post_id cm = p \<Longrightarrow> fc_id cm = CHR ''c'' # nat_str (length cs + 1) \<Longrightarrow> thread_ok c p (cs @ [cm])"
  by (auto simp: thread_ok_def nth_append less_Suc_eq)

lemma appendLine_thread:
  "comments_file c p s \<noteq> BadFile \<Longrightarrow> appendLine cm (comments_file c p s) = File (thread_log c p s @ [cm])"
  by (cases "comments_file c p s") (simp_all add: thread_log_def)

lemma thread_log_ok: "forum_inv s \<Longrightarrow> thread_ok c p (thread_log c p s)"
  by (cases "comments_file c p s") (auto simp: thread_log_def forum_inv_def thread_ok_def)

lemma forum_grows_create:
  assumes "forum_inv s"
  shows "forum_grows s (snd (createForumPost r c input fresh now s))"
proof (cases "createForumPost r c input fresh now s")
  case (Pair x t)
  show ?thesis
  proof (cases x)
    case (Inl e)
    with Pair assms createForumPost_Inl [of r c input fresh now s e t] show ?thesis
      by (simp add: forum_grows_refl)
  next
    case (Inr post)
    from createForumPost_Inr [OF Pair [unfolded Inr]] assms show ?thesis
      by (auto simp: Pair forum_grows_def posts_kept_def forum_inv_def)
  qed
qed

lemma forum_grows_status:
  assumes "forum_inv s"
  shows "forum_grows s (snd (setForumPostStatus r c p st now s))"
proof (cases "setForumPostStatus r c p st now s")
  case (Pair x t)
  show ?thesis
  proof (cases x)
    case (Inl e)
    with Pair assms setForumPostStatus_Inl [of r c p st now s e t] show ?thesis
      by (simp add: forum_grows_refl)
  next
    case (Inr post)
    from setForumPostStatus_Inr [OF Pair [unfolded Inr]] obtain old where
      old: "post_file c p s = File old" "post = old\<lparr> fp_status := st, fp_updated_at := Iso now \<rparr>"
      "st \<in> set FORUM_POST_STATUSES" and t: "t = rf_posts_update (AList.update (c, p) (File post)) s"
      by blast
    have "wf_post post" using assms old by (auto simp: forum_inv_def intro: wf_post_status)
    with assms old show ?thesis
      by (auto simp: Pair t forum_grows_def posts_kept_def forum_inv_def same_post_def)
  qed
qed

lemma forum_grows_comment:
  assumes "forum_inv s"
  shows "forum_grows s (snd (addForumComment r c p a body now s))"
proof (cases "addForumComment r c p a body now s")
  case (Pair x t)
  show ?thesis
  proof (cases x)
    case (Inl e)
    with Pair assms addForumComment_Inl [of r c p a body now s e t] show ?thesis
      by (simp add: forum_grows_refl)
  next
    case (Inr cm)
    from addForumComment_Inr [OF Pair [unfolded Inr] assms] obtain post where
      cm: "post_file c p s = File post" "assertValidForumComment cm = Inr ()" "fc_channel_id cm = c"
        "fc_post_id cm = p" "fc_id cm = CHR ''c'' # nat_str (length (thread_log c p s) + 1)"
      and t: "t = rf_comments_update (AList.update (c, p) (appendLine cm (comments_file c p s))) s"
      by blast
    have line: "appendLine cm (comments_file c p s) = File (thread_log c p s @ [cm])"
      using assms by (intro appendLine_thread) (simp add: forum_inv_def)
    have "thread_ok c p (thread_log c p s @ [cm])"
      using thread_ok_snoc [OF thread_log_ok [OF assms]] cm by blast
    with assms cm(1) have "forum_inv t" by (auto simp: t line forum_inv_def)
    moreover have "prefix (thread_log c' p' s) (thread_log c' p' t)" for c' p'
      by (simp add: t line thread_log_def)
    ultimately show ?thesis by (simp add: Pair t forum_grows_def posts_kept_def)
  qed
qed

text \<open>The forum writes leave the room and boardroom files alone.\<close>

lemma board_inv_forum [simp]:
  "board_inv (rf_posts_update g s) = board_inv s" "room_log (rf_posts_update g s) = room_log s"
  "board_inv (rf_comments_update h s) = board_inv s" "room_log (rf_comments_update h s) = room_log s"
  by (simp_all add: board_inv_def boardroom_inv_def room_inv_def room_log_def)

lemma forum_step_board:
  assumes "forum_inv s"
  shows "board_inv (snd (createForumPost r c input fresh now s)) = board_inv s"
    "board_inv (snd (setForumPostStatus r c p st now s)) = board_inv s"
    "board_inv (snd (addForumComment r c p a body now s)) = board_inv s"
    "room_log (snd (createForumPost r c input fresh now s)) = room_log s"
    "room_log (snd (setForumPostStatus r c p st now s)) = room_log s"
    "room_log (snd (addForumComment r c p a body now s)) = room_log s"
  using assms
  by (cases "createForumPost r c input fresh now s"; cases "fst (createForumPost r c input fresh now s)";
      cases "setForumPostStatus r c p st now s"; cases "fst (setForumPostStatus r c p st now s)";
      cases "addForumComment r c p a body now s"; cases "fst (addForumComment r c p a body now s)";
      auto dest!: createForumPost_Inl createForumPost_Inr setForumPostStatus_Inl setForumPostStatus_Inr
        addForumComment_Inl addForumComment_Inr)+

lemma store_step_grows:
  assumes "store_inv s" "store_step s t"
  shows "store_inv t \<and> forum_grows s t \<and> prefix (room_log s) (room_log t)"
  using assms(2)
proof (cases rule: store_step.cases)
  case board
  have same: "rf_posts t = rf_posts s" "rf_comments t = rf_comments s"
    using boardroom_step_forum [OF board] by simp_all
  then have "post_file c p t = post_file c p s" "comments_file c p t = comments_file c p s" for c p
    by (simp_all add: post_file_def comments_file_def)
  then have "forum_grows s t"
    using assms(1) by (simp add: forum_grows_def forum_inv_def posts_kept_def thread_log_def store_inv_def)
  with assms(1) boardroom_step_inv [OF _ board] show ?thesis
    by (simp add: store_inv_def forum_grows_def)
qed (use assms(1) forum_grows_create forum_grows_comment forum_grows_status forum_step_board
      in \<open>auto simp: store_inv_def forum_grows_def\<close>)

lemma startRoom_store_inv: "startRoom s \<Longrightarrow> store_inv s"
proof -
  assume start: "startRoom s"
  then obtain r h now e b p st where "createRoom r h now e b p empty_room = (Inr st, s)"
    by (auto simp: startRoom_def)
  with other_files_state(7) [of r h now e b p empty_room]
  have "rf_posts s = []" "rf_comments s = []" by (simp_all add: other_files_def empty_room_def)
  then show ?thesis
    using startRoom_board_inv [OF start]
    by (simp add: store_inv_def forum_inv_def post_file_def comments_file_def lookup_file_def)
qed

interpretation store: append_log startRoom store_step store_inv room_log
  by unfold_locales (use store_step_grows startRoom_store_inv in auto)

interpretation threads: append_log startRoom store_step store_inv "thread_log c p" for c p
  by unfold_locales
    (use store_step_grows startRoom_store_inv in \<open>auto simp: forum_grows_def\<close>)

lemma steps_posts_kept:
  "store_step\<^sup>*\<^sup>* s t \<Longrightarrow> store_inv s \<Longrightarrow> posts_kept s t"
proof (induction rule: rtranclp_induct)
  case (step t u)
  have "store_inv t" using step.hyps(1) step.prems by (rule store.steps_inv)
  then have "posts_kept t u"
    using store_step_grows [OF _ step.hyps(2)] by (simp add: forum_grows_def)
  with step.IH [OF step.prems] show ?case
    unfolding posts_kept_def by (meson same_post_trans)
qed (simp add: posts_kept_def)

subsection \<open>Properties\<close>

text \<open>Claim C7. In every room reached by any sequence of room, boardroom and forum operations each
  stored post is valid, in normal form and lies under its own channel and id, and each thread
  numbers its valid comments c1, c2, ... without repetition. Whatever happens later, a post
  keeps its id, author, title, body, tags and creation time (only status and time of update can
  change), and its thread only grows at the end.\<close>

theorem forum_append_only:
  assumes "startRoom s" "store_step\<^sup>*\<^sup>* s t" "store_step\<^sup>*\<^sup>* t u"
  shows "(\<forall>post. post_file c p t = File post \<longrightarrow>
      assertValidForumPost post = Inr () \<and> fp_channel_id post = c \<and> fp_id post = p \<and>
      (\<exists>post'. post_file c p u = File post' \<and>
         post' = post\<lparr> fp_status := fp_status post', fp_updated_at := fp_updated_at post' \<rparr>)) \<and>
    map fc_id (thread_log c p t) = map (\<lambda>i. CHR ''c'' # nat_str (i + 1)) [0..<length (thread_log c p t)] \<and>
    distinct (map fc_id (thread_log c p t)) \<and>
    (\<forall>cm \<in> set (thread_log c p t). assertValidForumComment cm = Inr () \<and> fc_post_id cm = p) \<and>
    prefix (thread_log c p t) (thread_log c p u)"
proof -
  have inv: "store_inv t" using assms(1,2) by (rule store.reachable_inv)
  then have finv: "forum_inv t" by (simp add: store_inv_def)
  have ok: "thread_ok c p (thread_log c p t)" using finv by (rule thread_log_ok)
  have ids: "map fc_id (thread_log c p t) =
      map (\<lambda>i. CHR ''c'' # nat_str (i + 1)) [0..<length (thread_log c p t)]"
    using ok by (intro nth_equalityI) (auto simp: thread_ok_def)
  have "distinct (map (\<lambda>i. CHR ''c'' # nat_str (i + 1)) [0..<length (thread_log c p t)])"
    by (simp add: distinct_map inj_on_def)
  with ids have "distinct (map fc_id (thread_log c p t))" by simp
  moreover have "posts_kept t u" using assms(3) inv by (rule steps_posts_kept)
  moreover have "prefix (thread_log c p t) (thread_log c p u)"
    using assms(3) inv by (rule threads.steps_log)
  ultimately show ?thesis
    using ids ok finv
    by (auto simp: posts_kept_def same_post_def forum_inv_def thread_ok_def in_set_conv_nth
        wf_post_valid)
qed

definition forum_room :: RoomFiles where
  "forum_room = snd (addChannel ''lab'' \<lparr> ch_id = ''host'', ch_name = ''Board'', ch_type = ''forum'',
     ch_lifecycle = ''active'', ch_createdAt = Iso 0 \<rparr> 1 lab_room)"

lemma forum_room_eval:
  "readBoardroomUnlocked forum_room = (Inr (projr (fst (readBoardroomUnlocked forum_room))), forum_room)"
  "find (\<lambda>c. ch_id c = ''host'') (br_channels (projr (fst (readBoardroomUnlocked forum_room)))) =
     Some \<lparr> ch_id = ''host'', ch_name = ''Board'', ch_type = ''forum'', ch_lifecycle = ''active'',
            ch_createdAt = Iso 0 \<rparr>"
  "rf_posts forum_room = []" "rf_comments forum_room = []"
proof -
  let ?c = "\<lparr> ch_id = ''host'', ch_name = ''Board'', ch_type = ''forum'', ch_lifecycle = ''active'',
     ch_createdAt = Iso 0 \<rparr>"
  let ?b = "deriveDefaultBoardroom ''lab'' (Iso 0) (Iso 0) None"
  have read: "readBoardroomUnlocked lab_room = (Inr ?b, lab_room)"
    by (simp add: readBoardroomUnlocked_apply lab_room_eval empty_room_def)
  have fresh: "ch_id ?c \<notin> ch_id ` set (br_channels ?b)"
    by (simp add: deriveDefaultBoardroom_def defaultChannel_def DEFAULT_CHANNEL_ID_def)
  have wf: "wf_boardroom ?b" "wf_channel ?c" by (simp_all add: wf_channel_def)
  have room: "forum_room = lab_room\<lparr> rf_boardroom := File (?b\<lparr> br_channels := br_channels ?b @ [?c],
      br_updatedAt := Iso 1, br_legacy := False \<rparr>) \<rparr>"
    using wf_added [OF wf(1) fresh, where u = "Iso 1" and l = False] wf(2) fresh
    by (simp add: forum_room_def addChannel_read [OF read slug_lab] persistBoardroom_apply)
  show "readBoardroomUnlocked forum_room = (Inr (projr (fst (readBoardroomUnlocked forum_room))), forum_room)"
    "find (\<lambda>c. ch_id c = ''host'') (br_channels (projr (fst (readBoardroomUnlocked forum_room)))) = Some ?c"
    "rf_posts forum_room = []" "rf_comments forum_room = []"
    by (simp_all add: room readBoardroomUnlocked_apply deriveDefaultBoardroom_def defaultChannel_def
        DEFAULT_CHANNEL_ID_def lab_room_eval empty_room_def)
qed

lemma forum_room_reached: "store_step\<^sup>*\<^sup>* lab_room forum_room"
  unfolding forum_room_def by (blast intro: store_step.board boardroom_step.add)

lemma forum_append_only_witness:
  "prefix (thread_log ''host'' ''p'' forum_room)
     (thread_log ''host'' ''p'' (snd (addForumComment ''lab'' ''host'' ''p'' ''host'' ''x'' 4 forum_room)))"
proof -
  have "store_step\<^sup>*\<^sup>* forum_room (snd (addForumComment ''lab'' ''host'' ''p'' ''host'' ''x'' 4 forum_room))"
    by (blast intro: store_step.comment)
  from forum_append_only [OF lab_room_created forum_room_reached this] show ?thesis by blast
qed

text \<open>A created post reads back with an empty thread; creating another post under the same
  id fails with EEXIST and leaves every file as it was; a refused creation never writes; and
  posts are created only in channels of type forum.\<close>

lemma createForumPost_roundtrip:
  assumes "store_inv s" "createForumPost r c input fresh now s = (Inr post, t)"
  shows "readForumPost r c (fp_id post) t = (Inr (post, []), t) \<and>
    (fi_id input' = Some (fp_id post) \<longrightarrow> snd (createForumPost r c input' fresh' now' t) = t) \<and>
    (\<exists>b ch. readBoardroom r s = (Inr b, s) \<and> find (\<lambda>x. ch_id x = c) (br_channels b) = Some ch \<and>
       ch_type ch = ''forum'')"
proof -
  note made = createForumPost_Inr [OF assms(2)]
  then have t: "t = rf_posts_update (AList.update (c, fp_id post) (File post)) s"
    and wf: "wf_post post" and ch: "fp_channel_id post = c" by auto
  have none: "comments_file c (fp_id post) s = NoFile"
  proof (cases "comments_file c (fp_id post) s")
    case (File cs)
    then have "\<exists>p. post_file c (fp_id post) s = File p"
      using assms(1) unfolding store_inv_def forum_inv_def by blast
    with made show ?thesis by simp
  qed (use assms(1) in \<open>auto simp: store_inv_def forum_inv_def\<close>)
  have board: "readBoardroomUnlocked t = (fst (readBoardroomUnlocked s), t)"
    by (simp add: t readBoardroomUnlocked_apply split: stored.splits)
  have safe: "isSafeSlug r"
    using made by (auto simp: assertForumChannel_def readBoardroom_def roomPaths_def bindA_apply
        split: sum.splits prod.splits)
  from made obtain b cx where read: "fst (readBoardroomUnlocked s) = Inr b"
    "find (\<lambda>x. ch_id x = c) (br_channels b) = Some cx" "ch_type cx = ''forum''"
    using safe by (auto simp: assertForumChannel_def readBoardroom_def roomPaths_def bindA_apply
        split: sum.splits prod.splits option.splits if_splits)
  have readable: "readBoardroom r x = readBoardroomUnlocked x" for x
    using safe by (simp add: readBoardroom_def roomPaths_def)
  have chan: "assertForumChannel r c t = (Inr (), t)"
    using read by (simp add: assertForumChannel_def readable board bindA_apply)
  have slugs: "isSafeSlug c" "isSafeSlug (fp_id post)" using wf ch by (auto simp: wf_post_def)
  have "readForumPost r c (fp_id post) t = (Inr (post, []), t)"
    using chan slugs wf_post_valid [OF wf] none
    by (simp add: readForumPost_def bindA_apply t readCommentsLog_def isNotFoundError_def)
  moreover have "snd (createForumPost r c input' fresh' now' t) = t" if "fi_id input' = Some (fp_id post)"
  proof (cases "createForumPost r c input' fresh' now' t")
    case (Pair x v)
    show ?thesis
    proof (cases x)
      case (Inl e)
      with Pair createForumPost_Inl [of r c input' fresh' now' t e v] show ?thesis by simp
    next
      case (Inr other)
      have "fp_id other = fp_id post"
        using Pair Inr that by (auto simp: createForumPost_def bindA_Inr_iff Let_def)
      with createForumPost_Inr [OF Pair [unfolded Inr]] show ?thesis by (simp add: t)
    qed
  qed
  moreover have "readBoardroom r s = (Inr b, s)"
    using read(1) readBoardroom_state [of r s] by (simp add: readable prod_eq_iff)
  ultimately show ?thesis using read by blast
qed

end
