(* ===== verification/Tunnel.thy ===== *)
theory Tunnel
  imports Types Interfaces
begin

text \<open>
  \<open>tunnel/protocol.ts\<close>, \<open>tunnel/limits.ts\<close> and \<open>tunnel/logging.ts\<close>: the wire shapes of the routing
  broker, its request guards (concurrency and rate) and the fields it may log. Time stamps of a
  route are written by \<open>isoFrom\<close> and read by \<open>Date.parse\<close> only, so the model keeps the
  milliseconds. The hash of a slug is not modelled.
\<close>

datatype RouteStatus = Route_active | Route_expired | Route_closed

datatype TunnelErrorCode =
    TE_invalid_registration | TE_route_slug_taken | TE_invalid_heartbeat | TE_route_not_found
  | TE_route_expired | TE_route_closed | TE_broker_unreachable | TE_unsupported_route
  | TE_route_request_limit | TE_wait_limit | TE_rate_limited | TE_request_too_large
  | TE_response_too_large | TE_host_unavailable | TE_unknown_request | TE_quota_exceeded
  | TE_internal_error

record TunnelError =
  te_code :: TunnelErrorCode
  te_status :: nat
  te_message :: string

definition tunnel_error :: "TunnelErrorCode \<Rightarrow> nat \<Rightarrow> string \<Rightarrow> TunnelError" where
  "tunnel_error code status message = \<lparr> te_code = code, te_status = status, te_message = message \<rparr>"

record RouteMetadata =
  rm_route_slug :: string
  rm_route_id :: string
  rm_host_connection_id :: string
  rm_created_at :: int
  rm_last_seen_at :: int
  rm_last_heartbeat_at :: int
  rm_expires_at :: int
  rm_status :: RouteStatus
  rm_host_connected :: bool

record HostRegistration =
  hr_route_slug :: "json option"
  hr_target :: "string option"

record ForwardedRequest =
  fq_request_id :: string
  fq_route_slug :: string
  fq_method :: string
  fq_path :: string
  fq_headers :: "(string \<times> string) list"
  fq_body :: "string option"

record ForwardedResponse =
  fr_status :: nat
  fr_headers :: "(string \<times> string) list"
  fr_body :: "string option"

definition SENSITIVE_HEADERS :: "string list" where
  "SENSITIVE_HEADERS = [''authorization'', ''cookie'', ''set-cookie'', ''proxy-authorization'']"

definition FORWARDED_RESPONSE_HEADERS :: "string list" where
  "FORWARDED_RESPONSE_HEADERS =
     [''content-type'', ''content-security-policy'', ''x-content-type-options'', ''referrer-policy'']"

definition redactHeaders :: "(string \<times> string) list \<Rightarrow> (string \<times> string) list" where
  "redactHeaders headers =
     filter (\<lambda>(nm, v). js_toLowerCase nm \<notin> set SENSITIVE_HEADERS) headers"

subsection \<open>Logging\<close>

definition ALLOWED_FIELDS :: "string list" where
  "ALLOWED_FIELDS = [''event'', ''route_hash'', ''method'', ''path_class'', ''status'',
     ''duration_ms'', ''bytes_in'', ''bytes_out'', ''wait_held_ms'', ''error'']"

text \<open>The record \<open>BrokerLogger.log\<close> hands to its sink.\<close>

definition logger_record :: "(string \<times> json) list \<Rightarrow> (string \<times> json) list" where
  "logger_record flds =
     foldl (\<lambda>rec key. case map_of flds key of Some v \<Rightarrow> rec @ [(key, v)] | None \<Rightarrow> rec)
       [] ALLOWED_FIELDS"

definition ASSET_PATHS :: "string list" where
  "ASSET_PATHS = [''room.css'', ''room.js'', ''markdown.js'', ''forum.html'', ''forum.css'',
     ''forum.js'', ''theme.css'', ''kit.css'', ''agentgather-logo.png'', ''favicon.png'',
     ''manifest.webmanifest'']"

definition PATH_CLASSES :: "string list" where
  "PATH_CLASSES = ASSET_PATHS @ [''brief'', ''attendance'', ''status'', ''messages'', ''wait'',
     ''card'', ''profile'', ''join'', ''leave'', ''close'']"

definition classifyPath :: "string \<Rightarrow> string" where
  "classifyPath pathname =
     (let withoutQuery = hd (js_split CHR ''?'' pathname)
      in case filter (\<lambda>x. x \<noteq> []) (js_split CHR ''/'' withoutQuery) of
           [] \<Rightarrow> ''shell''
         | seg # _ \<Rightarrow>
             if seg \<in> set ASSET_PATHS then ''asset''
             else if seg \<in> set PATH_CLASSES then seg else ''other'')"

subsection \<open>Guards\<close>

record BrokerLimits =
  bl_hostConnectionsPerRoute :: nat
  bl_concurrentRequestsPerRoute :: nat
  bl_concurrentWaitsPerRoute :: nat
  bl_requestBodyBytes :: nat
  bl_responseBodyBytes :: nat
  bl_idleTimeoutMs :: int
  bl_maxRouteLifetimeMs :: int
  bl_unauthenticatedPerIpPerMinute :: nat
  bl_requestsPerRoutePerMinute :: nat

definition BROKER_LIMITS :: BrokerLimits where
  "BROKER_LIMITS = \<lparr> bl_hostConnectionsPerRoute = 1, bl_concurrentRequestsPerRoute = 64,
     bl_concurrentWaitsPerRoute = 32, bl_requestBodyBytes = 64 * 1024,
     bl_responseBodyBytes = 1024 * 1024, bl_idleTimeoutMs = 15 * 60000,
     bl_maxRouteLifetimeMs = 8 * 60 * 60000, bl_unauthenticatedPerIpPerMinute = 60,
     bl_requestsPerRoutePerMinute = 600 \<rparr>"

definition RATE_WINDOW_MS :: int where
  "RATE_WINDOW_MS = 60000"

record InFlight =
  if_total :: nat
  if_waits :: nat

record RateWindow =
  rw_resetAt :: int
  rw_count :: nat

record RequestGuardInput =
  gi_routeSlug :: string
  gi_clientIp :: string
  gi_isWait :: bool
  gi_authenticated :: bool

text \<open>
  The guards with the release handles they gave out: a handle is its route, whether it is a wait,
  and the \<open>released\<close> flag of its closure. Its index is its identity.
\<close>

record BrokerGuards =
  bg_inflight :: "(string \<times> InFlight) list"
  bg_routeRate :: "(string \<times> RateWindow) list"
  bg_ipRate :: "(string \<times> RateWindow) list"
  bg_handles :: "(string \<times> bool \<times> bool) list"

type_synonym 'a guard_action = "(BrokerGuards, TunnelError, 'a) action"

definition limitError :: "TunnelErrorCode \<Rightarrow> string \<Rightarrow> TunnelError" where
  "limitError code message =
     tunnel_error code (if code = TE_request_too_large then 413 else 429) message"

definition admitRate ::
  "(string \<times> RateWindow) list \<Rightarrow> string \<Rightarrow> nat \<Rightarrow> TunnelErrorCode \<Rightarrow> int \<Rightarrow>
   (TunnelError + unit) \<times> (string \<times> RateWindow) list" where
  "admitRate windows key perMinute code nowMs =
     (case map_of windows key of
        None \<Rightarrow> (Inr (), AList.update key \<lparr> rw_resetAt = nowMs + RATE_WINDOW_MS, rw_count = 1 \<rparr> windows)
      | Some w \<Rightarrow>
          if nowMs \<ge> rw_resetAt w
          then (Inr (), AList.update key \<lparr> rw_resetAt = nowMs + RATE_WINDOW_MS, rw_count = 1 \<rparr> windows)
          else if rw_count w \<ge> perMinute
          then (Inl (limitError code ''request rate limit exceeded''), windows)
          else (Inr (), AList.update key (w\<lparr> rw_count := rw_count w + 1 \<rparr>) windows))"

definition admit_route :: "BrokerLimits \<Rightarrow> int \<Rightarrow> RequestGuardInput \<Rightarrow> unit guard_action" where
  "admit_route limits nowMs input = (\<lambda>g.
     case admitRate (bg_routeRate g) (gi_routeSlug input) (bl_requestsPerRoutePerMinute limits)
            TE_rate_limited nowMs of
       (r, ws) \<Rightarrow> (r, g\<lparr> bg_routeRate := ws \<rparr>))"

definition admit_ip :: "BrokerLimits \<Rightarrow> int \<Rightarrow> RequestGuardInput \<Rightarrow> unit guard_action" where
  "admit_ip limits nowMs input = (\<lambda>g.
     if gi_authenticated input then (Inr (), g)
     else case admitRate (bg_ipRate g) (gi_clientIp input) (bl_unauthenticatedPerIpPerMinute limits)
            TE_rate_limited nowMs of
       (r, ws) \<Rightarrow> (r, g\<lparr> bg_ipRate := ws \<rparr>))"

definition counts_of :: "string \<Rightarrow> BrokerGuards \<Rightarrow> InFlight" where
  "counts_of slug g = (case map_of (bg_inflight g) slug of
     Some c \<Rightarrow> c | None \<Rightarrow> \<lparr> if_total = 0, if_waits = 0 \<rparr>)"

text \<open>\<open>enter\<close> returns the index of the release handle it creates.\<close>

definition enter :: "BrokerLimits \<Rightarrow> int \<Rightarrow> RequestGuardInput \<Rightarrow> nat guard_action" where
  "enter limits nowMs input =
     bindA (admit_route limits nowMs input) (\<lambda>_.
     bindA (admit_ip limits nowMs input) (\<lambda>_.
     bindA (gets (counts_of (gi_routeSlug input))) (\<lambda>counts.
     if if_total counts \<ge> bl_concurrentRequestsPerRoute limits
     then throw (limitError TE_route_request_limit ''too many concurrent requests for this route'')
     else if gi_isWait input \<and> if_waits counts \<ge> bl_concurrentWaitsPerRoute limits
     then throw (limitError TE_wait_limit ''too many concurrent wait requests for this route'')
     else (\<lambda>g. (Inr (length (bg_handles g)),
            g\<lparr> bg_inflight := AList.update (gi_routeSlug input)
                  (counts\<lparr> if_total := if_total counts + 1,
                          if_waits := if_waits counts + (if gi_isWait input then 1 else 0) \<rparr>)
                  (bg_inflight g),
               bg_handles := bg_handles g @ [(gi_routeSlug input, gi_isWait input, False)] \<rparr>)))))"

definition release :: "nat \<Rightarrow> BrokerGuards \<Rightarrow> BrokerGuards" where
  "release h g =
     (if h \<ge> length (bg_handles g) then g
      else case bg_handles g ! h of (slug, isWait, released) \<Rightarrow>
        if released then g
        else let g' = g\<lparr> bg_handles := (bg_handles g)[h := (slug, isWait, True)] \<rparr>
             in case map_of (bg_inflight g) slug of
                  None \<Rightarrow> g'
                | Some current \<Rightarrow>
                    let total = if_total current - 1;
                        waits = (if isWait then if_waits current - 1 else if_waits current)
                    in if total = 0 \<and> waits = 0
                       then g'\<lparr> bg_inflight := AList.delete slug (bg_inflight g) \<rparr>
                       else g'\<lparr> bg_inflight :=
                              AList.update slug \<lparr> if_total = total, if_waits = waits \<rparr> (bg_inflight g) \<rparr>)"

definition new_guards :: BrokerGuards where
  "new_guards = \<lparr> bg_inflight = [], bg_routeRate = [], bg_ipRate = [], bg_handles = [] \<rparr>"

subsection \<open>Rates\<close>

definition rate_admit :: "nat \<Rightarrow> int \<Rightarrow> string \<Rightarrow> (string \<times> RateWindow) list \<Rightarrow> bool \<times> (string \<times> RateWindow) list" where
  "rate_admit mx now key ws =
     (case admitRate ws key mx TE_rate_limited now of (r, ws') \<Rightarrow> (r = Inr (), ws'))"

definition rate_win :: "string \<Rightarrow> (string \<times> RateWindow) list \<Rightarrow> (int \<times> nat) option" where
  "rate_win key ws = map_option (\<lambda>w. (rw_resetAt w, rw_count w)) (map_of ws key)"

interpretation broker_rate: request_limiter rate_admit rate_win RATE_WINDOW_MS "\<lambda>_. True"
  by unfold_locales
    (auto simp: rate_admit_def admitRate_def rate_win_def live_window_def update_conv'
      split: option.splits)

text \<open>Events at the guards of a broker: a request entering at a time, or a handle released.\<close>

datatype guard_event = Enter int RequestGuardInput | Release nat

fun guard_step :: "BrokerLimits \<Rightarrow> guard_event \<Rightarrow> BrokerGuards \<Rightarrow> bool \<times> BrokerGuards" where
  "guard_step L (Enter now input) g = (case enter L now input g of
     (Inr h, g') \<Rightarrow> (True, g') | (Inl e, g') \<Rightarrow> (False, g'))"
| "guard_step L (Release h) g = (False, release h g)"

text \<open>How many requests for a route a run of events lets through.\<close>

fun entered :: "BrokerLimits \<Rightarrow> string \<Rightarrow> guard_event list \<Rightarrow> BrokerGuards \<Rightarrow> nat" where
  "entered L slug [] g = 0"
| "entered L slug (e # es) g =
     (case guard_step L e g of (ok, g') \<Rightarrow>
       (if ok \<and> (case e of Enter now input \<Rightarrow> gi_routeSlug input = slug | Release h \<Rightarrow> False)
        then 1 else 0) + entered L slug es g')"

fun route_requests :: "guard_event list \<Rightarrow> (int \<times> string) list" where
  "route_requests [] = []"
| "route_requests (Enter now input # es) = (now, gi_routeSlug input) # route_requests es"
| "route_requests (Release h # es) = route_requests es"

lemma enter_rate:
  "bg_routeRate (snd (enter L now input g)) =
     snd (rate_admit (bl_requestsPerRoutePerMinute L) now (gi_routeSlug input) (bg_routeRate g))"
  "fst (enter L now input g) = Inr h \<Longrightarrow>
     fst (rate_admit (bl_requestsPerRoutePerMinute L) now (gi_routeSlug input) (bg_routeRate g))"
  by (auto simp: enter_def bindA_apply admit_route_def admit_ip_def rate_admit_def
      split: prod.splits sum.splits if_splits)

lemma release_rate [simp]: "bg_routeRate (release h g) = bg_routeRate g"
  by (simp add: release_def Let_def split: prod.splits option.splits)

lemma entered_le_admitted:
  "entered L slug es g \<le>
     broker_rate.admitted (\<lambda>_. bl_requestsPerRoutePerMinute L) slug (route_requests es) (bg_routeRate g)"
proof (induction es arbitrary: g)
  case (Cons e es)
  show ?case
  proof (cases e)
    case (Enter now input)
    obtain r g' where run: "enter L now input g = (r, g')" by (cases "enter L now input g")
    have rate: "bg_routeRate g' = snd (rate_admit (bl_requestsPerRoutePerMinute L) now
        (gi_routeSlug input) (bg_routeRate g))"
      using enter_rate(1) [of L now input g] run by simp
    show ?thesis
      using Cons [of g'] enter_rate(2) [of L now input g] run rate
      by (cases r) (auto simp: Enter)
  next
    case (Release h)
    with Cons [of "release h g"] show ?thesis by simp
  qed
qed simp

subsection \<open>Concurrency\<close>

definition outstanding :: "string \<Rightarrow> BrokerGuards \<Rightarrow> nat" where
  "outstanding slug g = length (filter (\<lambda>(s, w, rel). s = slug \<and> \<not> rel) (bg_handles g))"

definition waiting :: "string \<Rightarrow> BrokerGuards \<Rightarrow> nat" where
  "waiting slug g = length (filter (\<lambda>(s, w, rel). s = slug \<and> w \<and> \<not> rel) (bg_handles g))"

definition guards_inv :: "BrokerLimits \<Rightarrow> BrokerGuards \<Rightarrow> bool" where
  "guards_inv L g \<longleftrightarrow> (\<forall>slug.
     counts_of slug g = \<lparr> if_total = outstanding slug g, if_waits = waiting slug g \<rparr> \<and>
     (slug \<in> fst ` set (bg_inflight g) \<longrightarrow> 0 < outstanding slug g) \<and>
     outstanding slug g \<le> bl_concurrentRequestsPerRoute L \<and>
     waiting slug g \<le> bl_concurrentWaitsPerRoute L)"

lemma new_guards_inv: "guards_inv L new_guards"
  by (simp add: guards_inv_def new_guards_def counts_of_def outstanding_def waiting_def)

lemma admit_frames:
  "snd (admit_route L now input g) = g\<lparr> bg_routeRate := bg_routeRate (snd (admit_route L now input g)) \<rparr>"
  "snd (admit_ip L now input g) = g\<lparr> bg_ipRate := bg_ipRate (snd (admit_ip L now input g)) \<rparr>"
  by (simp_all add: admit_route_def admit_ip_def split: prod.splits)

lemma guards_inv_rates [simp]:
  "guards_inv L (g\<lparr> bg_routeRate := r \<rparr>) = guards_inv L g"
  "guards_inv L (g\<lparr> bg_ipRate := i \<rparr>) = guards_inv L g"
  by (simp_all add: guards_inv_def counts_of_def outstanding_def waiting_def)

lemma enter_outcome:
  obtains rr ir e where "enter L now input g = (Inl e, g\<lparr> bg_routeRate := rr, bg_ipRate := ir \<rparr>)"
  | rr ir where
    "if_total (counts_of (gi_routeSlug input) g) < bl_concurrentRequestsPerRoute L"
    "gi_isWait input \<Longrightarrow> if_waits (counts_of (gi_routeSlug input) g) < bl_concurrentWaitsPerRoute L"
    "enter L now input g = (Inr (length (bg_handles g)),
       g\<lparr> bg_routeRate := rr, bg_ipRate := ir,
          bg_inflight := AList.update (gi_routeSlug input)
            (let c = counts_of (gi_routeSlug input) g in
             c\<lparr> if_total := if_total c + 1, if_waits := if_waits c + (if gi_isWait input then 1 else 0) \<rparr>)
            (bg_inflight g),
          bg_handles := bg_handles g @ [(gi_routeSlug input, gi_isWait input, False)] \<rparr>)"
proof -
  obtain r1 g1 where 1: "admit_route L now input g = (r1, g1)" by (cases "admit_route L now input g")
  obtain r2 g2 where 2: "admit_ip L now input g1 = (r2, g2)" by (cases "admit_ip L now input g1")
  have g1: "g1 = g\<lparr> bg_routeRate := bg_routeRate g1 \<rparr>"
    using admit_frames(1) [of L now input g] 1 by simp
  have g2: "g2 = g1\<lparr> bg_ipRate := bg_ipRate g2 \<rparr>"
    using admit_frames(2) [of L now input g1] 2 by simp
  have g2': "g2 = g\<lparr> bg_routeRate := bg_routeRate g1, bg_ipRate := bg_ipRate g2 \<rparr>"
    using g1 g2 by (metis)
  have same: "counts_of s (g\<lparr> bg_routeRate := a, bg_ipRate := b \<rparr>) = counts_of s g" for s a b
    by (simp add: counts_of_def)
  show thesis
  proof (cases r1)
    case (Inl e)
    have "bg_ipRate g1 = bg_ipRate g" by (subst g1) simp
    then have "g1\<lparr> bg_ipRate := bg_ipRate g \<rparr> = g1" by simp
    with g1 have frame: "g1 = g\<lparr> bg_routeRate := bg_routeRate g1, bg_ipRate := bg_ipRate g \<rparr>" by metis
    have "enter L now input g = (Inl e, g1)" using Inl 1 by (simp add: enter_def)
    then show thesis using frame by (metis that(1))
  next
    case first: (Inr u)
    show thesis
    proof (cases r2)
      case (Inl e)
      with first 1 2 g2' that(1) show thesis by (simp add: enter_def)
    next
      case (Inr v)
      with first 1 2 have run: "enter L now input g =
        (let counts = counts_of (gi_routeSlug input) g2 in
         if if_total counts \<ge> bl_concurrentRequestsPerRoute L
         then (Inl (limitError TE_route_request_limit ''too many concurrent requests for this route''), g2)
         else if gi_isWait input \<and> if_waits counts \<ge> bl_concurrentWaitsPerRoute L
         then (Inl (limitError TE_wait_limit ''too many concurrent wait requests for this route''), g2)
         else (Inr (length (bg_handles g2)),
            g2\<lparr> bg_inflight := AList.update (gi_routeSlug input)
                  (counts\<lparr> if_total := if_total counts + 1,
                          if_waits := if_waits counts + (if gi_isWait input then 1 else 0) \<rparr>)
                  (bg_inflight g2),
               bg_handles := bg_handles g2 @ [(gi_routeSlug input, gi_isWait input, False)] \<rparr>))"
        by (simp add: enter_def Let_def)
      have same2: "counts_of s g2 = counts_of s g" for s
        by (subst g2') (rule same)
      consider e where "enter L now input g = (Inl e, g2)"
        | "if_total (counts_of (gi_routeSlug input) g) < bl_concurrentRequestsPerRoute L"
          "gi_isWait input \<Longrightarrow> if_waits (counts_of (gi_routeSlug input) g) < bl_concurrentWaitsPerRoute L"
          "enter L now input g = (Inr (length (bg_handles g2)),
            g2\<lparr> bg_inflight := AList.update (gi_routeSlug input)
              (let c = counts_of (gi_routeSlug input) g in c\<lparr> if_total := if_total c + 1,
                if_waits := if_waits c + (if gi_isWait input then 1 else 0) \<rparr>) (bg_inflight g2),
              bg_handles := bg_handles g2 @ [(gi_routeSlug input, gi_isWait input, False)] \<rparr>)"
        using run by (fastforce simp: Let_def same2 not_le split: if_splits)
      then show thesis
      proof cases
        case (1 e)
        with g2' show thesis by (metis that(1))
      next
        case 2
        have "bg_handles g2 = bg_handles g" "bg_inflight g2 = bg_inflight g"
          by (subst g2', simp)+
        with 2(3) g2' have "enter L now input g = (Inr (length (bg_handles g)),
            g\<lparr> bg_routeRate := bg_routeRate g1, bg_ipRate := bg_ipRate g2,
              bg_inflight := AList.update (gi_routeSlug input)
              (let c = counts_of (gi_routeSlug input) g in c\<lparr> if_total := if_total c + 1,
                if_waits := if_waits c + (if gi_isWait input then 1 else 0) \<rparr>) (bg_inflight g),
              bg_handles := bg_handles g @ [(gi_routeSlug input, gi_isWait input, False)] \<rparr>)"
          by metis
        with 2(1,2) show thesis by (rule that(2))
      qed
    qed
  qed
qed

lemma counts_of_update:
  "counts_of s (g\<lparr> bg_inflight := AList.update k c m, bg_handles := hs \<rparr>) =
     (if s = k then c else counts_of s (g\<lparr> bg_inflight := m \<rparr>))"
  by (simp add: counts_of_def update_conv')

lemma guards_inv_enter:
  assumes "guards_inv L g"
  shows "guards_inv L (snd (enter L now input g))"
proof (cases rule: enter_outcome [of L now input g])
  case (1 rr ir e)
  with assms show ?thesis by simp
next
  case (2 rr ir)
  have inv: "counts_of s g = \<lparr> if_total = outstanding s g, if_waits = waiting s g \<rparr>"
    "s \<in> fst ` set (bg_inflight g) \<Longrightarrow> 0 < outstanding s g"
    "outstanding s g \<le> bl_concurrentRequestsPerRoute L" "waiting s g \<le> bl_concurrentWaitsPerRoute L" for s
    using assms by (auto simp: guards_inv_def)
  have lim: "outstanding (gi_routeSlug input) g < bl_concurrentRequestsPerRoute L"
    "gi_isWait input \<Longrightarrow> waiting (gi_routeSlug input) g < bl_concurrentWaitsPerRoute L"
    using 2(1,2) inv(1) by simp_all
  let ?g = "snd (enter L now input g)"
  have out: "outstanding s ?g = outstanding s g + (if s = gi_routeSlug input then 1 else 0)"
    "waiting s ?g = waiting s g + (if s = gi_routeSlug input \<and> gi_isWait input then 1 else 0)" for s
    by (auto simp: 2(3) outstanding_def waiting_def)
  have cnt: "counts_of s ?g = (if s = gi_routeSlug input
      then \<lparr> if_total = outstanding s g + 1, if_waits = waiting s g + (if gi_isWait input then 1 else 0) \<rparr>
      else \<lparr> if_total = outstanding s g, if_waits = waiting s g \<rparr>)" for s
    using inv(1) [of s] inv(1) [of "gi_routeSlug input"]
    by (simp add: 2(3) counts_of_def update_conv' Let_def split: option.splits)
  have dom: "s \<in> fst ` set (bg_inflight ?g) \<longleftrightarrow> s = gi_routeSlug input \<or> s \<in> fst ` set (bg_inflight g)" for s
    by (simp add: 2(3) dom_update)
  show ?thesis
    unfolding guards_inv_def out cnt dom using inv lim by (auto simp: Suc_le_eq)
qed

lemma filter_update_length:
  assumes "h < length xs"
  shows "length (filter P (xs[h := y])) + (if P (xs ! h) then 1 else 0) =
    length (filter P xs) + (if P y then 1 else 0)"
proof -
  have "length (filter P xs) =
      length (filter P (take h xs @ xs ! h # drop (Suc h) xs))"
    using id_take_nth_drop [OF assms] by simp
  then show ?thesis by (simp add: upd_conv_take_nth_drop [OF assms])
qed

lemma delete_fst: "fst ` set (AList.delete k al) = fst ` set al - {k}"
  by (metis delete_keys set_map set_removeAll)

lemma guards_inv_release:
  assumes "guards_inv L g"
  shows "guards_inv L (release h g)"
proof (cases "h < length (bg_handles g) \<and> \<not> snd (snd (bg_handles g ! h))")
  case False
  with assms show ?thesis by (auto simp: release_def not_less split: prod.splits)
next
  case True
  then obtain slug w where h: "h < length (bg_handles g)" "bg_handles g ! h = (slug, w, False)"
    by (metis (full_types) prod.collapse)
  let ?g = "release h g"
  have inv: "counts_of s g = \<lparr> if_total = outstanding s g, if_waits = waiting s g \<rparr>"
    "s \<in> fst ` set (bg_inflight g) \<Longrightarrow> 0 < outstanding s g"
    "outstanding s g \<le> bl_concurrentRequestsPerRoute L" "waiting s g \<le> bl_concurrentWaitsPerRoute L" for s
    using assms by (auto simp: guards_inv_def)
  have hs: "bg_handles ?g = (bg_handles g)[h := (slug, w, True)]"
    using h by (simp add: release_def Let_def split: option.splits)
  have out: "outstanding s ?g + (if s = slug then 1 else 0) = outstanding s g"
    "waiting s ?g + (if s = slug \<and> w then 1 else 0) = waiting s g" for s
    using filter_update_length [OF h(1), of "\<lambda>(s', w, rel). s' = s \<and> \<not> rel" "(slug, w, True)"]
      filter_update_length [OF h(1), of "\<lambda>(s', w, rel). s' = s \<and> w \<and> \<not> rel" "(slug, w, True)"]
    by (auto simp: outstanding_def waiting_def hs h(2) split: if_splits)
  have pos: "0 < outstanding slug g" using out(1) [of slug] by simp
  then obtain c where c: "map_of (bg_inflight g) slug = Some c"
      "c = \<lparr> if_total = outstanding slug g, if_waits = waiting slug g \<rparr>"
    using inv(1) [of slug] by (auto simp: counts_of_def split: option.splits)
  have wle: "waiting slug ?g \<le> outstanding slug ?g"
  proof -
    let ?out = "filter (\<lambda>(s, w, rel). s = slug \<and> \<not> rel) (bg_handles ?g)"
    have "filter (\<lambda>(s, w, rel). s = slug \<and> w \<and> \<not> rel) (bg_handles ?g) = filter (\<lambda>(s, w, rel). w) ?out"
      unfolding filter_filter by (rule filter_cong) auto
    then have "waiting slug ?g = length (filter (\<lambda>(s, w, rel). w) ?out)"
      unfolding waiting_def by (rule arg_cong)
    also have "\<dots> \<le> length ?out" by (rule length_filter_le)
    finally show ?thesis by (simp add: outstanding_def)
  qed
  have tot: "if_total c - 1 = outstanding slug ?g"
    "(if w then if_waits c - 1 else if_waits c) = waiting slug ?g"
    using out [of slug] by (auto simp: c(2))
  have "bg_inflight ?g =
      (if if_total c - 1 = 0 \<and> (if w then if_waits c - 1 else if_waits c) = 0
       then AList.delete slug (bg_inflight g)
       else AList.update slug \<lparr> if_total = if_total c - 1,
         if_waits = (if w then if_waits c - 1 else if_waits c) \<rparr> (bg_inflight g))"
    using h c(1) by (simp add: release_def Let_def)
  then have inflight: "bg_inflight ?g = (if outstanding slug ?g = 0 then AList.delete slug (bg_inflight g)
      else AList.update slug \<lparr> if_total = outstanding slug ?g, if_waits = waiting slug ?g \<rparr> (bg_inflight g))"
    unfolding tot using wle by (simp split: if_splits)
  have cnt: "counts_of s ?g = \<lparr> if_total = outstanding s ?g, if_waits = waiting s ?g \<rparr>" for s
    using inv(1) [of s] out [of s] wle
    by (auto simp: counts_of_def inflight update_conv' delete_conv' split: if_splits)
  have dom: "s \<in> fst ` set (bg_inflight ?g) \<Longrightarrow> 0 < outstanding s ?g" for s
    using inv(2) [of s] out(1) [of s]
    by (cases "outstanding slug ?g = 0") (auto simp: inflight dom_update delete_fst simp del: delete_conv' split: if_splits)
  show ?thesis
    unfolding guards_inv_def using cnt dom inv(3,4) out by (metis le_add1 le_trans)
qed

definition guard_next :: "BrokerLimits \<Rightarrow> BrokerGuards \<Rightarrow> BrokerGuards \<Rightarrow> bool" where
  "guard_next L g g' \<longleftrightarrow> (\<exists>e. g' = snd (guard_step L e g))"

lemma guard_next_inv: "guards_inv L g \<Longrightarrow> guard_next L g g' \<Longrightarrow> guards_inv L g'"
proof -
  assume inv: "guards_inv L g" and "guard_next L g g'"
  then obtain e where g': "g' = snd (guard_step L e g)" by (auto simp: guard_next_def)
  show ?thesis
  proof (cases e)
    case (Enter now input)
    with g' guards_inv_enter [OF inv, of now input] show ?thesis
      by (simp split: prod.splits sum.splits)
  next
    case (Release h)
    with g' guards_inv_release [OF inv, of h] show ?thesis by simp
  qed
qed

interpretation guards: transition_system "\<lambda>g. g = new_guards" "guard_next L" "guards_inv L" for L
  by unfold_locales (use new_guards_inv guard_next_inv in auto)

definition guard_run :: "BrokerLimits \<Rightarrow> guard_event list \<Rightarrow> BrokerGuards" where
  "guard_run L es = foldl (\<lambda>g e. snd (guard_step L e g)) new_guards es"

lemma guard_run_reaches: "(guard_next L)\<^sup>*\<^sup>* new_guards (guard_run L es)"
proof (induction es rule: rev_induct)
  case (snoc e es)
  have "guard_next L (guard_run L es) (guard_run L (es @ [e]))"
    by (auto simp: guard_next_def guard_run_def)
  with snoc show ?case by (rule rtranclp.rtrancl_into_rtrancl)
qed (simp add: guard_run_def)

subsection \<open>Properties\<close>

text \<open>Claim C10. After any sequence of requests entering and handles being released, in any order and
  however often, the counters of a route are exactly its unreleased handles, never more than the
  limits allow; and when every handle of the route has been released the route leaves no entry
  in the map.\<close>

theorem guards_count_outstanding:
  "counts_of slug (guard_run L es) =
     \<lparr> if_total = outstanding slug (guard_run L es), if_waits = waiting slug (guard_run L es) \<rparr> \<and>
   outstanding slug (guard_run L es) \<le> bl_concurrentRequestsPerRoute L \<and>
   waiting slug (guard_run L es) \<le> bl_concurrentWaitsPerRoute L \<and>
   (outstanding slug (guard_run L es) = 0 \<longrightarrow> slug \<notin> fst ` set (bg_inflight (guard_run L es)))"
proof -
  have "guards_inv L (guard_run L es)"
    using guards.reachable_inv [OF refl guard_run_reaches] .
  then show ?thesis by (simp add: guards_inv_def) (metis less_irrefl)
qed

definition sample_request :: "bool \<Rightarrow> RequestGuardInput" where
  "sample_request w = \<lparr> gi_routeSlug = ''lab'', gi_clientIp = ''ip'', gi_isWait = w, gi_authenticated = True \<rparr>"

lemma guards_count_outstanding_witness:
  "''lab'' \<notin> fst ` set (bg_inflight
     (guard_run BROKER_LIMITS [Enter 0 (sample_request True), Release 0, Release 0]))"
proof -
  have "outstanding ''lab'' (guard_run BROKER_LIMITS [Enter 0 (sample_request True), Release 0, Release 0]) = 0"
    by (simp add: guard_run_def new_guards_def enter_def bindA_apply admit_route_def admit_ip_def
        admitRate_def sample_request_def BROKER_LIMITS_def counts_of_def release_def outstanding_def)
  with guards_count_outstanding [of "''lab''" BROKER_LIMITS] show ?thesis by blast
qed

text \<open>Whatever mix of requests and releases the guards see within one minute, a route gets at
  most twice its per-minute limit through (the worst case of a fixed window), and at most the
  limit when it had no open window at the start of that minute.\<close>

lemma route_rate_bound:
  assumes "0 < bl_requestsPerRoutePerMinute L" "sorted (map fst (route_requests es))"
    and "\<forall>q \<in> set (route_requests es). t \<le> fst q \<and> fst q < t + RATE_WINDOW_MS"
  shows "entered L slug es g \<le> 2 * bl_requestsPerRoutePerMinute L \<and>
    (map_of (bg_routeRate g) slug = None \<longrightarrow> entered L slug es g \<le> bl_requestsPerRoutePerMinute L)"
proof -
  have "\<not> live_window (rate_win slug (bg_routeRate g)) t" if "map_of (bg_routeRate g) slug = None"
    using that by (simp add: rate_win_def live_window_def)
  with broker_rate.admitted_bound [where mx = "\<lambda>_. bl_requestsPerRoutePerMinute L", OF assms TrueI, of slug "bg_routeRate g"] entered_le_admitted [of L slug es g]
  show ?thesis by auto
qed

lemma logger_fold:
  "foldl (\<lambda>rec key. case map_of flds key of Some v \<Rightarrow> rec @ [(key, v)] | None \<Rightarrow> rec) acc ks =
     acc @ map (\<lambda>k. (k, the (map_of flds k))) (filter (\<lambda>k. map_of flds k \<noteq> None) ks)"
  by (induction ks arbitrary: acc) (auto split: option.splits)

lemma js_split_head: "c \<notin> set p \<Longrightarrow> hd (js_split c (p @ c # q)) = p \<and> hd (js_split c p) = p"
proof (induction p)
  case (Cons x p)
  then show ?case
    using js_split_nonempty [of c p] js_split_nonempty [of c "p @ c # q"]
    by (cases "js_split c p"; cases "js_split c (p @ c # q)") auto
qed simp

text \<open>Logs are deny-by-default: whatever fields a caller attaches, a record holds only
  allowed keys, each once and with the caller's value, and the path class of a request is one of
  a fixed set of words that does not depend on the query string.\<close>

lemma logging_is_coarse:
  "set (map fst (logger_record flds)) = set ALLOWED_FIELDS \<inter> set (map fst flds) \<and>
   distinct (map fst (logger_record flds)) \<and>
   (\<forall>k v. (k, v) \<in> set (logger_record flds) \<longrightarrow> map_of flds k = Some v) \<and>
   classifyPath path \<in> set (''shell'' # ''asset'' # ''other'' # PATH_CLASSES) \<and>
   (CHR ''?'' \<notin> set path \<longrightarrow> classifyPath (path @ CHR ''?'' # query) = classifyPath path)"
proof -
  have rec: "logger_record flds =
      map (\<lambda>k. (k, the (map_of flds k))) (filter (\<lambda>k. map_of flds k \<noteq> None) ALLOWED_FIELDS)"
    unfolding logger_record_def by (subst logger_fold) simp
  have keys: "map fst (logger_record flds) = filter (\<lambda>k. map_of flds k \<noteq> None) ALLOWED_FIELDS"
    by (simp add: rec comp_def)
  have "distinct ALLOWED_FIELDS" by (simp add: ALLOWED_FIELDS_def)
  then have "distinct (map fst (logger_record flds))" by (simp add: keys)
  moreover have "set (map fst (logger_record flds)) = set ALLOWED_FIELDS \<inter> set (map fst flds)"
    unfolding keys by (auto simp: map_of_eq_None_iff image_iff)
  moreover have "map_of flds k = Some v" if "(k, v) \<in> set (logger_record flds)" for k v
    using that by (auto simp: rec)
  moreover have "classifyPath path \<in> set (''shell'' # ''asset'' # ''other'' # PATH_CLASSES)"
    by (auto simp: classifyPath_def Let_def split: list.splits)
  moreover have "classifyPath (path @ CHR ''?'' # query) = classifyPath path" if "CHR ''?'' \<notin> set path"
    using js_split_head [OF that] by (simp add: classifyPath_def)
  ultimately show ?thesis by blast
qed

end
