(* ===== verification/Relay.thy ===== *)
theory Relay
  imports Tunnel
begin

text \<open>
  \<open>tunnel/relay.ts\<close>: the queue of participant requests that wait for the host of their route. A
  promise is its request id; \<open>rh_settled\<close> records how each promise ended, in order. The two
  timers of a request are the events that may fire while it is unclaimed, respectively claimed.
  The id a request gets from \<open>mintId\<close> is an argument.
\<close>

record RelayItem =
  ri_envelope :: ForwardedRequest
  ri_slug :: string
  ri_claimed :: bool

record RelayHub =
  rh_pending :: "(string \<times> string list) list"
  rh_inflight :: "(string \<times> RelayItem) list"
  rh_settled :: "(string \<times> (TunnelError + ForwardedResponse)) list"

definition new_hub :: RelayHub where
  "new_hub = \<lparr> rh_pending = [], rh_inflight = [], rh_settled = [] \<rparr>"

definition queue_of :: "string \<Rightarrow> RelayHub \<Rightarrow> string list" where
  "queue_of slug hub = (case map_of (rh_pending hub) slug of Some q \<Rightarrow> q | None \<Rightarrow> [])"

definition enqueue :: "string \<Rightarrow> ForwardedRequest \<Rightarrow> string \<Rightarrow> RelayHub \<Rightarrow> RelayHub" where
  "enqueue slug envelope requestId hub =
     hub\<lparr> rh_inflight := AList.update requestId
            \<lparr> ri_envelope = envelope\<lparr> fq_request_id := requestId \<rparr>, ri_slug = slug, ri_claimed = False \<rparr>
            (rh_inflight hub),
          rh_pending := AList.update slug (queue_of slug hub @ [requestId]) (rh_pending hub) \<rparr>"

text \<open>Writing a queue back: an empty one is deleted from the map.\<close>

definition set_queue :: "string \<Rightarrow> string list \<Rightarrow> (string \<times> string list) list \<Rightarrow> (string \<times> string list) list" where
  "set_queue slug q pending = (if length q = 0 then AList.delete slug pending else AList.update slug q pending)"

text \<open>The loop of \<open>claim\<close>: shift ids until one is in flight and unclaimed.\<close>

fun claim_loop :: "(string \<times> RelayItem) list \<Rightarrow> string list \<Rightarrow> (string \<times> RelayItem) option \<times> string list" where
  "claim_loop inflight [] = (None, [])"
| "claim_loop inflight (requestId # queue) =
     (case map_of inflight requestId of
        None \<Rightarrow> claim_loop inflight queue
      | Some item \<Rightarrow> if ri_claimed item then claim_loop inflight queue
                     else (Some (requestId, item), queue))"

definition claim :: "string \<Rightarrow> RelayHub \<Rightarrow> ForwardedRequest option \<times> RelayHub" where
  "claim slug hub =
     (case map_of (rh_pending hub) slug of
        None \<Rightarrow> (None, hub)
      | Some queue \<Rightarrow>
          (case claim_loop (rh_inflight hub) queue of
             (Some (requestId, item), rest) \<Rightarrow>
               (Some (ri_envelope item),
                hub\<lparr> rh_inflight := AList.update requestId (item\<lparr> ri_claimed := True \<rparr>) (rh_inflight hub),
                     rh_pending := set_queue slug rest (rh_pending hub) \<rparr>)
           | (None, rest) \<Rightarrow> (None, hub\<lparr> rh_pending := set_queue slug rest (rh_pending hub) \<rparr>)))"

definition remove_request :: "string \<Rightarrow> RelayHub \<Rightarrow> RelayHub" where
  "remove_request requestId hub =
     (case map_of (rh_inflight hub) requestId of
        None \<Rightarrow> hub
      | Some item \<Rightarrow>
          let hub' = hub\<lparr> rh_inflight := AList.delete requestId (rh_inflight hub) \<rparr>
          in case map_of (rh_pending hub) (ri_slug item) of
               None \<Rightarrow> hub'
             | Some queue \<Rightarrow>
                 hub'\<lparr> rh_pending := set_queue (ri_slug item) (remove1 requestId queue) (rh_pending hub) \<rparr>)"

definition fail_request :: "string \<Rightarrow> TunnelError \<Rightarrow> RelayHub \<Rightarrow> RelayHub" where
  "fail_request requestId error hub =
     (case map_of (rh_inflight hub) requestId of
        None \<Rightarrow> hub
      | Some item \<Rightarrow>
          (remove_request requestId hub)\<lparr> rh_settled := rh_settled hub @ [(requestId, Inl error)] \<rparr>)"

text \<open>\<open>Buffer.byteLength(s, "base64")\<close>.\<close>

definition base64_byteLength :: "string \<Rightarrow> nat" where
  "base64_byteLength s =
     (let n = length s;
          n1 = (if n > 0 \<and> s ! (n - 1) = CHR ''='' then n - 1 else n);
          n2 = (if n1 > 1 \<and> s ! (n1 - 1) = CHR ''='' then n1 - 1 else n1)
      in n2 * 3 div 4)"

definition respond :: "nat \<Rightarrow> string \<Rightarrow> ForwardedResponse \<Rightarrow> RelayHub \<Rightarrow> (TunnelError + unit) \<times> RelayHub" where
  "respond responseBodyBytes requestId response hub =
     (case map_of (rh_inflight hub) requestId of
        None \<Rightarrow> (Inl (tunnel_error TE_unknown_request 404 ''no in-flight request for this id''), hub)
      | Some item \<Rightarrow>
          let bodyBytes = (case fr_body response of Some b \<Rightarrow> base64_byteLength b | None \<Rightarrow> 0);
              too_large = tunnel_error TE_response_too_large 502 ''forwarded response exceeds the broker limit''
          in if bodyBytes > responseBodyBytes
             then (Inl too_large, fail_request requestId too_large hub)
             else (Inr (), (remove_request requestId hub)\<lparr>
                    rh_settled := rh_settled hub @ [(requestId, Inr response)] \<rparr>))"

definition closed_error :: TunnelError where
  "closed_error = tunnel_error TE_route_closed 410 ''this route has been closed''"

definition close_one :: "string \<Rightarrow> RelayHub \<Rightarrow> string \<times> RelayItem \<Rightarrow> RelayHub" where
  "close_one slug hub entry =
     (if ri_slug (snd entry) = slug then fail_request (fst entry) closed_error hub else hub)"

definition closeRoute :: "string \<Rightarrow> RelayHub \<Rightarrow> RelayHub" where
  "closeRoute slug hub = foldl (close_one slug) hub (rh_inflight hub)"

definition claim_timeout :: "string \<Rightarrow> RelayHub \<Rightarrow> RelayHub" where
  "claim_timeout requestId hub =
     (case map_of (rh_inflight hub) requestId of
        Some item \<Rightarrow> if ri_claimed item then hub
          else fail_request requestId
                 (tunnel_error TE_host_unavailable 504 ''host tunnel did not attend the request'') hub
      | None \<Rightarrow> hub)"

definition response_timeout :: "string \<Rightarrow> RelayHub \<Rightarrow> RelayHub" where
  "response_timeout requestId hub =
     (case map_of (rh_inflight hub) requestId of
        Some item \<Rightarrow> if \<not> ri_claimed item then hub
          else fail_request requestId
                 (tunnel_error TE_host_unavailable 504 ''host tunnel did not respond in time'') hub
      | None \<Rightarrow> hub)"

subsection \<open>The invariant\<close>

definition unclaimed :: "string \<Rightarrow> (string \<times> RelayItem) list \<Rightarrow> string list" where
  "unclaimed slug inflight = map fst (filter (\<lambda>(i, item). ri_slug item = slug \<and> \<not> ri_claimed item) inflight)"

definition relay_inv :: "RelayHub \<Rightarrow> bool" where
  "relay_inv hub \<longleftrightarrow>
     distinct (map fst (rh_inflight hub)) \<and> distinct (map fst (rh_settled hub)) \<and>
     fst ` set (rh_inflight hub) \<inter> fst ` set (rh_settled hub) = {} \<and>
     (\<forall>slug. queue_of slug hub = unclaimed slug (rh_inflight hub)) \<and>
     (\<forall>i item. map_of (rh_inflight hub) i = Some item \<longrightarrow> fq_request_id (ri_envelope item) = i)"

inductive relay_step :: "RelayHub \<Rightarrow> RelayHub \<Rightarrow> bool" where
  enqueue: "requestId \<notin> fst ` set (rh_inflight hub) \<union> fst ` set (rh_settled hub) \<Longrightarrow>
     relay_step hub (enqueue slug envelope requestId hub)"
| claim: "relay_step hub (snd (claim slug hub))"
| respond: "relay_step hub (snd (respond n requestId response hub))"
| close: "relay_step hub (closeRoute slug hub)"
| claim_timeout: "relay_step hub (claim_timeout requestId hub)"
| response_timeout: "relay_step hub (response_timeout requestId hub)"

lemma queue_set [simp]:
  "queue_of s (hub\<lparr> rh_pending := set_queue slug q (rh_pending hub) \<rparr>) = (if s = slug then q else queue_of s hub)"
  by (simp add: queue_of_def set_queue_def update_conv' delete_conv')

lemma unclaimed_delete:
  assumes "distinct (map fst fl)" "map_of fl i = Some item"
  shows "unclaimed s (AList.delete i fl) = remove1 i (unclaimed s fl)"
proof -
  have "distinct (unclaimed s fl)"
    using assms(1) unfolding unclaimed_def by (rule distinct_map_filter)
  then have "remove1 i (unclaimed s fl) = filter (\<lambda>x. x \<noteq> i) (unclaimed s fl)"
    by (rule distinct_remove1_removeAll [THEN trans]) (auto simp: removeAll_filter_not_eq intro: filter_cong)
  then show ?thesis
    by (simp add: unclaimed_def delete_filter filter_map comp_def conj_commute case_prod_unfold)
qed

lemma unclaimed_other:
  assumes "distinct (map fst fl)" "map_of fl i = Some item" "ri_slug item \<noteq> s \<or> ri_claimed item"
  shows "i \<notin> set (unclaimed s fl)"
proof
  assume "i \<in> set (unclaimed s fl)"
  then obtain b where "(i, b) \<in> set fl" "ri_slug b = s" "\<not> ri_claimed b" by (auto simp: unclaimed_def)
  moreover from this(1) assms(1,2) have "b = item" by (metis map_of_is_SomeI option.inject)
  ultimately show False using assms(3) by simp
qed

lemma unclaimed_claim:
  assumes "distinct (map fst fl)" "map_of fl i = Some item"
  shows "unclaimed s (AList.update i (item\<lparr> ri_claimed := True \<rparr>) fl) = remove1 i (unclaimed s fl)"
  using assms
proof (induction fl)
  case (Cons kv fl)
  obtain k v where kv: "kv = (k, v)" by (cases kv)
  show ?case
  proof (cases "k = i")
    case True
    with Cons.prems kv have "i \<notin> set (unclaimed s fl)" by (auto simp: unclaimed_def)
    with True Cons.prems kv show ?thesis by (auto simp: unclaimed_def remove1_idem)
  next
    case False
    with Cons kv show ?thesis by (auto simp: unclaimed_def)
  qed
qed simp

lemma relay_inv_parts:
  assumes "relay_inv hub"
  shows "distinct (map fst (rh_inflight hub))" "distinct (map fst (rh_settled hub))"
    "fst ` set (rh_inflight hub) \<inter> fst ` set (rh_settled hub) = {}"
    "queue_of slug hub = unclaimed slug (rh_inflight hub)"
    "map_of (rh_inflight hub) i = Some item \<Longrightarrow> fq_request_id (ri_envelope item) = i"
  using assms by (auto simp: relay_inv_def)

lemma remove_request_parts:
  assumes "relay_inv hub" "map_of (rh_inflight hub) i = Some item"
  shows "rh_inflight (remove_request i hub) = AList.delete i (rh_inflight hub)"
    "rh_settled (remove_request i hub) = rh_settled hub"
    "queue_of s (remove_request i hub) = unclaimed s (AList.delete i (rh_inflight hub))"
proof -
  note inv = relay_inv_parts [OF assms(1)]
  show "rh_inflight (remove_request i hub) = AList.delete i (rh_inflight hub)"
    "rh_settled (remove_request i hub) = rh_settled hub"
    using assms(2) by (simp_all add: remove_request_def Let_def split: option.splits)
  have del: "unclaimed x (AList.delete i (rh_inflight hub)) = remove1 i (queue_of x hub)" for x
    using unclaimed_delete [OF inv(1) assms(2)] inv(4) by simp
  have other: "remove1 i (queue_of s hub) = queue_of s hub" if "s \<noteq> ri_slug item"
    using unclaimed_other [OF inv(1) assms(2)] that inv(4) by (simp add: remove1_idem)
  show "queue_of s (remove_request i hub) = unclaimed s (AList.delete i (rh_inflight hub))"
  proof (cases "map_of (rh_pending hub) (ri_slug item)")
    case None
    then have "queue_of s (remove_request i hub) = queue_of s hub" "queue_of (ri_slug item) hub = []"
      using assms(2) by (simp_all add: remove_request_def Let_def queue_of_def)
    then show ?thesis unfolding del using other by (cases "s = ri_slug item") simp_all
  next
    case (Some q)
    then have q: "queue_of (ri_slug item) hub = q" by (simp add: queue_of_def)
    have "queue_of s (remove_request i hub) = (if s = ri_slug item then remove1 i q else queue_of s hub)"
      using assms(2) Some by (simp add: remove_request_def Let_def queue_of_def set_queue_def update_conv' delete_conv')
    then show ?thesis unfolding del using other q by simp
  qed
qed

text \<open>Settling an in-flight request: it leaves the map and the queue, and its outcome is recorded.\<close>

definition settle :: "string \<Rightarrow> (TunnelError + ForwardedResponse) \<Rightarrow> RelayHub \<Rightarrow> RelayHub" where
  "settle i out hub = (remove_request i hub)\<lparr> rh_settled := rh_settled hub @ [(i, out)] \<rparr>"

lemma settle_inv:
  assumes "relay_inv hub" "map_of (rh_inflight hub) i = Some item"
  shows "relay_inv (settle i out hub)"
proof -
  note inv = relay_inv_parts [OF assms(1)] and rem = remove_request_parts [OF assms]
  have "i \<in> fst ` set (rh_inflight hub)" using assms(2) by (metis domI dom_map_of_conv_image_fst)
  then have "i \<notin> fst ` set (rh_settled hub)" using inv(3) by blast
  moreover have "queue_of s (settle i out hub) = queue_of s (remove_request i hub)" for s
    by (simp add: settle_def queue_of_def)
  ultimately show ?thesis
    using inv rem by (auto simp: relay_inv_def settle_def delete_keys distinct_removeAll delete_fst
        delete_conv' split: if_splits)
qed

lemma settle_parts:
  assumes "relay_inv hub" "map_of (rh_inflight hub) i = Some item"
  shows "rh_inflight (settle i out hub) = AList.delete i (rh_inflight hub)"
    "rh_settled (settle i out hub) = rh_settled hub @ [(i, out)]"
  using remove_request_parts [OF assms] by (simp_all add: settle_def)

lemma fail_settle:
  "fail_request i e hub = (case map_of (rh_inflight hub) i of None \<Rightarrow> hub | Some _ \<Rightarrow> settle i (Inl e) hub)"
  by (simp add: fail_request_def settle_def split: option.splits)

lemma fail_inv: "relay_inv hub \<Longrightarrow> relay_inv (fail_request i e hub)"
  by (auto simp: fail_settle settle_inv split: option.splits)

lemma fail_inflight:
  "relay_inv hub \<Longrightarrow> rh_inflight (fail_request i e hub) = filter (\<lambda>kv. fst kv \<noteq> i) (rh_inflight hub)"
  by (auto simp: fail_settle settle_parts delete_filter map_of_eq_None_iff
      split: option.splits intro!: filter_True [symmetric])

lemma fail_settled_prefix:
  "relay_inv hub \<Longrightarrow> prefix (rh_settled hub) (rh_settled (fail_request i e hub))"
  by (auto simp: fail_settle settle_parts split: option.splits)

lemma close_one_parts:
  assumes "relay_inv hub"
  shows "relay_inv (close_one slug hub x)" "prefix (rh_settled hub) (rh_settled (close_one slug hub x))"
    "rh_inflight (close_one slug hub x) =
       filter (\<lambda>kv. ri_slug (snd x) = slug \<longrightarrow> fst x \<noteq> fst kv) (rh_inflight hub)"
    "\<forall>i out. (i, out) \<in> set (rh_settled (close_one slug hub x)) \<longrightarrow>
       (i, out) \<in> set (rh_settled hub) \<or> out = Inl closed_error"
proof -
  show "relay_inv (close_one slug hub x)" "prefix (rh_settled hub) (rh_settled (close_one slug hub x))"
    using assms fail_inv fail_settled_prefix by (auto simp: close_one_def)
  show "rh_inflight (close_one slug hub x) =
       filter (\<lambda>kv. ri_slug (snd x) = slug \<longrightarrow> fst x \<noteq> fst kv) (rh_inflight hub)"
    using fail_inflight [OF assms] by (auto simp: close_one_def intro: filter_cong)
  show "\<forall>i out. (i, out) \<in> set (rh_settled (close_one slug hub x)) \<longrightarrow>
       (i, out) \<in> set (rh_settled hub) \<or> out = Inl closed_error"
    using assms by (auto simp: close_one_def fail_settle settle_parts split: option.splits)
qed

lemma close_fold:
  assumes "relay_inv hub"
  shows "relay_inv (foldl (close_one slug) hub xs) \<and>
    prefix (rh_settled hub) (rh_settled (foldl (close_one slug) hub xs)) \<and>
    rh_inflight (foldl (close_one slug) hub xs) =
      filter (\<lambda>kv. \<forall>x \<in> set xs. ri_slug (snd x) = slug \<longrightarrow> fst x \<noteq> fst kv) (rh_inflight hub) \<and>
    (\<forall>i out. (i, out) \<in> set (rh_settled (foldl (close_one slug) hub xs)) \<longrightarrow>
      (i, out) \<in> set (rh_settled hub) \<or> out = Inl closed_error)"
  using assms
proof (induction xs arbitrary: hub)
  case (Cons x xs)
  note one = close_one_parts [OF Cons.prems, of slug x]
  note rest = Cons.IH [OF one(1)]
  have "prefix (rh_settled hub) (rh_settled (foldl (close_one slug) (close_one slug hub x) xs))"
    using one(2) rest by (blast intro: prefix_order.trans)
  moreover have "rh_inflight (foldl (close_one slug) (close_one slug hub x) xs) =
      filter (\<lambda>kv. \<forall>y \<in> set (x # xs). ri_slug (snd y) = slug \<longrightarrow> fst y \<noteq> fst kv) (rh_inflight hub)"
  proof -
    have "rh_inflight (foldl (close_one slug) (close_one slug hub x) xs) =
        filter (\<lambda>kv. \<forall>x \<in> set xs. ri_slug (snd x) = slug \<longrightarrow> fst x \<noteq> fst kv)
          (filter (\<lambda>kv. ri_slug (snd x) = slug \<longrightarrow> fst x \<noteq> fst kv) (rh_inflight hub))"
      using rest one(3) by simp
    also have "\<dots> = filter (\<lambda>kv. \<forall>y \<in> set (x # xs). ri_slug (snd y) = slug \<longrightarrow> fst y \<noteq> fst kv)
        (rh_inflight hub)"
      unfolding filter_filter by (rule filter_cong) auto
    finally show ?thesis .
  qed
  moreover have "\<forall>i out. (i, out) \<in> set (rh_settled (foldl (close_one slug) (close_one slug hub x) xs)) \<longrightarrow>
      (i, out) \<in> set (rh_settled hub) \<or> out = Inl closed_error"
    using one(4) rest by blast
  ultimately show ?case using rest by simp
qed simp

lemma closeRoute_parts:
  assumes "relay_inv hub"
  shows "relay_inv (closeRoute slug hub)" "prefix (rh_settled hub) (rh_settled (closeRoute slug hub))"
    "rh_inflight (closeRoute slug hub) = filter (\<lambda>kv. ri_slug (snd kv) \<noteq> slug) (rh_inflight hub)"
    "(i, out) \<in> set (rh_settled (closeRoute slug hub)) \<Longrightarrow>
       (i, out) \<in> set (rh_settled hub) \<or> out = Inl closed_error"
proof -
  note fold = close_fold [OF assms, of slug "rh_inflight hub", folded closeRoute_def]
  then show "relay_inv (closeRoute slug hub)" "prefix (rh_settled hub) (rh_settled (closeRoute slug hub))"
    "(i, out) \<in> set (rh_settled (closeRoute slug hub)) \<Longrightarrow>
       (i, out) \<in> set (rh_settled hub) \<or> out = Inl closed_error"
    by blast+
  have "(\<forall>x \<in> set (rh_inflight hub). ri_slug (snd x) = slug \<longrightarrow> fst x \<noteq> fst kv) \<longleftrightarrow> ri_slug (snd kv) \<noteq> slug"
    if "kv \<in> set (rh_inflight hub)" for kv
    using that relay_inv_parts(1) [OF assms] by (metis distinct_map inj_on_def)
  then have "filter (\<lambda>kv. \<forall>x \<in> set (rh_inflight hub). ri_slug (snd x) = slug \<longrightarrow> fst x \<noteq> fst kv)
      (rh_inflight hub) = filter (\<lambda>kv. ri_slug (snd kv) \<noteq> slug) (rh_inflight hub)"
    by (intro filter_cong) auto
  then show "rh_inflight (closeRoute slug hub) = filter (\<lambda>kv. ri_slug (snd kv) \<noteq> slug) (rh_inflight hub)"
    using fold by simp
qed

lemma relay_inv_pending:
  assumes "relay_inv hub" "\<And>s. queue_of s (hub\<lparr> rh_pending := p \<rparr>) = queue_of s hub"
  shows "relay_inv (hub\<lparr> rh_pending := p \<rparr>)"
  using assms by (simp add: relay_inv_def)

lemma claim_none:
  assumes "relay_inv hub" "unclaimed slug (rh_inflight hub) = []"
  shows "\<exists>p. claim slug hub = (None, hub\<lparr> rh_pending := p \<rparr>) \<and> (\<forall>s. queue_of s (hub\<lparr> rh_pending := p \<rparr>) = queue_of s hub)"
proof (cases "map_of (rh_pending hub) slug")
  case None
  then show ?thesis by (intro exI [of _ "rh_pending hub"]) (simp add: claim_def)
next
  case (Some q)
  then have "q = []" using relay_inv_parts(4) [OF assms(1), of slug] assms(2) by (simp add: queue_of_def)
  with Some show ?thesis
    by (intro exI [of _ "set_queue slug [] (rh_pending hub)"]) (auto simp: claim_def queue_of_def set_queue_def delete_conv')
qed

lemma claim_some:
  assumes "relay_inv hub" "unclaimed slug (rh_inflight hub) = i # rest"
  shows "\<exists>item. map_of (rh_inflight hub) i = Some item \<and> ri_slug item = slug \<and> \<not> ri_claimed item \<and>
    claim slug hub = (Some (ri_envelope item),
      hub\<lparr> rh_inflight := AList.update i (item\<lparr> ri_claimed := True \<rparr>) (rh_inflight hub),
           rh_pending := set_queue slug rest (rh_pending hub) \<rparr>)"
proof -
  note inv = relay_inv_parts [OF assms(1)]
  have "i \<in> set (unclaimed slug (rh_inflight hub))" by (simp add: assms(2))
  then obtain item where "(i, item) \<in> set (rh_inflight hub)" "ri_slug item = slug" "\<not> ri_claimed item"
    by (auto simp: unclaimed_def)
  moreover from this(1) inv(1) have "map_of (rh_inflight hub) i = Some item" by simp
  moreover have "map_of (rh_pending hub) slug = Some (i # rest)"
    using inv(4) [of slug] assms(2) by (simp add: queue_of_def split: option.splits)
  ultimately show ?thesis by (auto simp: claim_def)
qed

lemma claim_inv:
  assumes "relay_inv hub"
  shows "relay_inv (snd (claim slug hub)) \<and> rh_settled (snd (claim slug hub)) = rh_settled hub"
proof (cases "unclaimed slug (rh_inflight hub)")
  case Nil
  then show ?thesis using claim_none [OF assms Nil] relay_inv_pending [OF assms] by auto
next
  case (Cons i rest)
  note inv = relay_inv_parts [OF assms]
  from claim_some [OF assms Cons] obtain item where item: "map_of (rh_inflight hub) i = Some item"
      "ri_slug item = slug"
    and run: "claim slug hub = (Some (ri_envelope item),
      hub\<lparr> rh_inflight := AList.update i (item\<lparr> ri_claimed := True \<rparr>) (rh_inflight hub),
           rh_pending := set_queue slug rest (rh_pending hub) \<rparr>)" by blast
  have known: "i \<in> set (map fst (rh_inflight hub))" using item(1)
    by (metis domI dom_map_of_conv_image_fst set_map)
  have keys: "map fst (AList.update i (item\<lparr> ri_claimed := True \<rparr>) (rh_inflight hub)) = map fst (rh_inflight hub)"
    using known by (simp add: update_keys)
  have un: "unclaimed s (AList.update i (item\<lparr> ri_claimed := True \<rparr>) (rh_inflight hub)) =
      (if s = slug then rest else queue_of s hub)" for s
    using unclaimed_claim [OF inv(1) item(1), of s] unclaimed_other [OF inv(1) item(1), of s] inv(4) [of s]
      Cons item(2)
    by (auto simp: remove1_idem)
  have fsts: "fst ` set (AList.update i (item\<lparr> ri_claimed := True \<rparr>) (rh_inflight hub)) = fst ` set (rh_inflight hub)"
    using arg_cong [OF keys, of set] by simp
  show ?thesis
    using inv(1-3,5) item keys un fsts
    by (auto simp: run relay_inv_def queue_of_def set_queue_def update_conv' delete_conv' split: if_splits)
qed

lemma enqueue_inv:
  assumes "relay_inv hub" "i \<notin> fst ` set (rh_inflight hub) \<union> fst ` set (rh_settled hub)"
  shows "relay_inv (enqueue slug env i hub)"
proof -
  note inv = relay_inv_parts [OF assms(1)]
  let ?item = "\<lparr> ri_envelope = env\<lparr> fq_request_id := i \<rparr>, ri_slug = slug, ri_claimed = False \<rparr>"
  have app: "AList.update i ?item (rh_inflight hub) = rh_inflight hub @ [(i, ?item)]"
    using assms(2) by (intro update_new) auto
  have "unclaimed s (rh_inflight hub @ [(i, ?item)]) =
      unclaimed s (rh_inflight hub) @ (if s = slug then [i] else [])" for s
    by (simp add: unclaimed_def)
  then show ?thesis
    using inv assms(2)
    by (auto simp: relay_inv_def enqueue_def app queue_of_def update_conv' split: if_splits option.splits)
qed

lemma respond_settle:
  "respond n i r hub = (case map_of (rh_inflight hub) i of
     None \<Rightarrow> (Inl (tunnel_error TE_unknown_request 404 ''no in-flight request for this id''), hub)
   | Some item \<Rightarrow>
       let e = tunnel_error TE_response_too_large 502 ''forwarded response exceeds the broker limit''
       in if (case fr_body r of Some b \<Rightarrow> base64_byteLength b | None \<Rightarrow> 0) > n
          then (Inl e, settle i (Inl e) hub) else (Inr (), settle i (Inr r) hub))"
  by (simp add: respond_def fail_settle settle_def Let_def split: option.splits)

lemma relay_step_inv:
  assumes "relay_inv hub" "relay_step hub hub'"
  shows "relay_inv hub' \<and> prefix (rh_settled hub) (rh_settled hub')"
  using assms(2)
proof (cases rule: relay_step.cases)
  case (enqueue i slug env)
  with enqueue_inv [OF assms(1)] show ?thesis by (simp add: enqueue_def)
next
  case (claim slug)
  with claim_inv [OF assms(1), of slug] show ?thesis by simp
next
  case (respond n i r)
  then show ?thesis using assms(1)
    by (auto simp: respond_settle Let_def settle_inv settle_parts split: option.splits if_splits)
next
  case (close slug)
  with closeRoute_parts [OF assms(1)] show ?thesis by simp
next
  case (claim_timeout i)
  then show ?thesis using assms(1) fail_inv fail_settled_prefix
    by (auto simp: claim_timeout_def split: option.splits)
next
  case (response_timeout i)
  then show ?thesis using assms(1) fail_inv fail_settled_prefix
    by (auto simp: response_timeout_def split: option.splits)
qed

lemma new_hub_inv: "relay_inv new_hub"
  by (simp add: relay_inv_def new_hub_def queue_of_def unclaimed_def)

interpretation relay: append_log "\<lambda>h. h = new_hub" relay_step relay_inv rh_settled
  by unfold_locales (use relay_step_inv new_hub_inv in auto)

subsection \<open>Properties\<close>

text \<open>Claim C9. Whatever interleaving of participants, hosts, timers and route closings a relay sees
  (request ids being fresh), every request is settled at most once, is never both in flight and
  settled, and its outcome never changes; and each route's queue is exactly its unclaimed
  in-flight requests in order of arrival.\<close>

theorem relay_settles_once:
  assumes "relay_step\<^sup>*\<^sup>* new_hub h" "relay_step\<^sup>*\<^sup>* h h'"
  shows "distinct (map fst (rh_settled h)) \<and> distinct (map fst (rh_inflight h)) \<and>
    fst ` set (rh_inflight h) \<inter> fst ` set (rh_settled h) = {} \<and>
    queue_of slug h = map fst (filter (\<lambda>(i, item). ri_slug item = slug \<and> \<not> ri_claimed item) (rh_inflight h)) \<and>
    prefix (rh_settled h) (rh_settled h')"
proof -
  have inv: "relay_inv h" using relay.reachable_inv [OF refl assms(1)] .
  with relay.steps_log [OF assms(2) inv] show ?thesis
    by (simp add: relay_inv_def unclaimed_def)
qed

definition sample_envelope :: ForwardedRequest where
  "sample_envelope = \<lparr> fq_request_id = [], fq_route_slug = ''lab'', fq_method = ''GET'', fq_path = ''/status'',
     fq_headers = [], fq_body = None \<rparr>"

lemma relay_settles_once_witness:
  "queue_of ''lab'' (enqueue ''lab'' sample_envelope ''r1'' new_hub) = [''r1'']"
proof -
  have "relay_step\<^sup>*\<^sup>* new_hub (enqueue ''lab'' sample_envelope ''r1'' new_hub)"
    by (rule r_into_rtranclp, rule relay_step.enqueue) (simp add: new_hub_def)
  from relay_settles_once [OF this rtranclp.rtrancl_refl, of "''lab''"] show ?thesis
    by (simp add: enqueue_def new_hub_def)
qed

text \<open>A host poll is first-in first-out and hands out each request once: it returns the
  oldest unclaimed in-flight request of its route, or null exactly when there is none, and after
  it that request is claimed and no later poll returns it; polls of one route never take a
  request of another.\<close>

lemma claim_fifo_once:
  assumes "relay_inv h" "claim slug h = (r, h')"
  shows "(r = None \<longleftrightarrow> unclaimed slug (rh_inflight h) = []) \<and>
    (\<forall>env. r = Some env \<longrightarrow>
       fq_request_id env = hd (unclaimed slug (rh_inflight h)) \<and>
       (\<exists>item. map_of (rh_inflight h) (fq_request_id env) = Some item \<and> ri_envelope item = env \<and> ri_slug item = slug) \<and>
       (\<forall>s. fq_request_id env \<notin> set (unclaimed s (rh_inflight h')))) \<and>
    (\<forall>s. s \<noteq> slug \<longrightarrow> queue_of s h' = queue_of s h) \<and> relay_inv h'"
proof (cases "unclaimed slug (rh_inflight h)")
  case Nil
  from claim_none [OF assms(1) Nil] assms claim_inv [OF assms(1), of slug] Nil show ?thesis by auto
next
  case (Cons i rest)
  note inv = relay_inv_parts [OF assms(1)]
  from claim_some [OF assms(1) Cons] assms(2) obtain item where
    item: "map_of (rh_inflight h) i = Some item" "ri_slug item = slug" "r = Some (ri_envelope item)" and
    h': "h' = h\<lparr> rh_inflight := AList.update i (item\<lparr> ri_claimed := True \<rparr>) (rh_inflight h),
           rh_pending := set_queue slug rest (rh_pending h) \<rparr>" by auto
  have ident: "fq_request_id (ri_envelope item) = i" using inv(5) item(1) by blast
  have gone: "i \<notin> set (unclaimed s (rh_inflight h'))" for s
  proof -
    have "distinct (unclaimed s (rh_inflight h))"
      using inv(1) unfolding unclaimed_def by (rule distinct_map_filter)
    then show ?thesis using unclaimed_claim [OF inv(1) item(1), of s] by (simp add: h')
  qed
  have "relay_inv h'" using claim_inv [OF assms(1), of slug] assms(2) by simp
  moreover have "queue_of s h' = queue_of s h" if "s \<noteq> slug" for s
    using that by (simp add: h' queue_of_def set_queue_def update_conv' delete_conv')
  ultimately show ?thesis using item ident gone Cons by auto
qed

text \<open>Closing a route rejects exactly its in-flight requests, each with \<open>route_closed\<close>, and
  leaves the requests of other routes in flight as they were; earlier outcomes stay.\<close>

lemma closeRoute_rejects_own:
  assumes "relay_inv h"
  shows "rh_inflight (closeRoute slug h) = filter (\<lambda>kv. ri_slug (snd kv) \<noteq> slug) (rh_inflight h) \<and>
    prefix (rh_settled h) (rh_settled (closeRoute slug h)) \<and>
    (\<forall>i out. (i, out) \<in> set (rh_settled (closeRoute slug h)) \<longrightarrow>
       (i, out) \<in> set (rh_settled h) \<or> out = Inl closed_error) \<and>
    queue_of slug (closeRoute slug h) = []"
proof -
  note parts = closeRoute_parts [OF assms]
  have "unclaimed slug (rh_inflight (closeRoute slug h)) = []"
    by (auto simp: parts(3) unclaimed_def filter_empty_conv)
  with relay_inv_parts(4) [OF parts(1)] have "queue_of slug (closeRoute slug h) = []" by simp
  with parts show ?thesis by blast
qed

end
