(* ===== verification/Broker.thy ===== *)
theory Broker
  imports Relay
begin

text \<open>
  \<open>tunnel/broker.ts\<close>: the in-memory broker. One route per slug; a route is active until it idles
  out, outlives the lifetime cap or is closed, and counts as host-connected within a grace window
  of its last heartbeat or poll. A forwarded participant request is modelled as its start (guards,
  admission, queueing) and its finish (the settled outcome, metering, release). The ids drawn by
  \<open>mintId\<close>, the URL parser, base64 encoding and the meter's admission answer are arguments;
  \<open>tb_meter\<close> records the calls made to the optional meter.
\<close>

record BrokerOptions =
  opt_limits :: BrokerLimits
  opt_routeTtlMs :: int
  opt_maxRouteLifetimeMs :: int
  opt_hostGraceMs :: int

definition default_options :: BrokerOptions where
  "default_options = \<lparr> opt_limits = BROKER_LIMITS, opt_routeTtlMs = bl_idleTimeoutMs BROKER_LIMITS,
     opt_maxRouteLifetimeMs = bl_maxRouteLifetimeMs BROKER_LIMITS, opt_hostGraceMs = 30000 \<rparr>"

datatype meter_call =
    RouteRegistered string
  | RouteClosed string int
  | PublicForward string string nat nat

record Broker =
  tb_routes :: "(string \<times> RouteMetadata) list"
  tb_targets :: "(string \<times> string) list"
  tb_guards :: BrokerGuards
  tb_relay :: RelayHub
  tb_meter :: "meter_call list"

type_synonym 'a broker_action = "(Broker, TunnelError, 'a) action"

definition new_broker :: Broker where
  "new_broker = \<lparr> tb_routes = [], tb_targets = [], tb_guards = new_guards, tb_relay = new_hub, tb_meter = [] \<rparr>"

text \<open>\<open>SLUG_PATTERN\<close>: \<open>/^[a-z0-9](?:[a-z0-9-]{0,61}[a-z0-9])?$/\<close>.\<close>

definition valid_route_slug :: "string \<Rightarrow> bool" where
  "valid_route_slug s \<longleftrightarrow>
     0 < length s \<and> length s \<le> 63 \<and> list_all (\<lambda>c. c \<in> set slug_chars) s \<and>
     hd s \<noteq> CHR ''-'' \<and> last s \<noteq> CHR ''-''"

definition LOCAL_TARGET_HOSTS :: "string list" where
  "LOCAL_TARGET_HOSTS = [''127.0.0.1'', ''localhost'', ''::1'', ''[::1]'']"

text \<open>\<open>parse_url\<close> is the URL constructor: protocol and host name, or None when it throws.\<close>

definition assertLocalTarget :: "(string \<Rightarrow> (string \<times> string) option) \<Rightarrow> string \<Rightarrow> TunnelError + unit" where
  "assertLocalTarget parse_url target =
     (case parse_url target of
        None \<Rightarrow> Inl (tunnel_error TE_invalid_registration 400 ''target is not a valid URL'')
      | Some (protocol, hostname) \<Rightarrow>
          if protocol \<noteq> ''http:'' \<and> protocol \<noteq> ''https:''
          then Inl (tunnel_error TE_invalid_registration 400 ''target must use http or https'')
          else if hostname \<notin> set LOCAL_TARGET_HOSTS
          then Inl (tunnel_error TE_invalid_registration 400 ''target must be a local address'')
          else Inr ())"

subsection \<open>Routes\<close>

definition refresh :: "BrokerOptions \<Rightarrow> int \<Rightarrow> RouteMetadata \<Rightarrow> RouteMetadata" where
  "refresh opts nowMs route =
     (let route' = (if rm_status route = Route_active \<and>
                       (rm_expires_at route \<le> nowMs \<or>
                        rm_created_at route + opt_maxRouteLifetimeMs opts \<le> nowMs)
                    then route\<lparr> rm_status := Route_expired \<rparr> else route)
      in route'\<lparr> rm_host_connected := (rm_status route' = Route_active \<and>
                   nowMs - rm_last_heartbeat_at route' \<le> opt_hostGraceMs opts) \<rparr>)"

text \<open>A route object is mutated in place under its slug.\<close>

definition store_route :: "RouteMetadata \<Rightarrow> unit broker_action" where
  "store_route route = modify (tb_routes_update (AList.update (rm_route_slug route) route))"

definition currentRoute :: "BrokerOptions \<Rightarrow> int \<Rightarrow> string \<Rightarrow> RouteMetadata option broker_action" where
  "currentRoute opts nowMs slug =
     bindA (gets (\<lambda>b. map_of (tb_routes b) slug)) (\<lambda>found.
     case found of
       None \<Rightarrow> ret None
     | Some route \<Rightarrow> bindA (store_route (refresh opts nowMs route)) (\<lambda>_.
         ret (Some (refresh opts nowMs route))))"

definition findByConnection ::
  "BrokerOptions \<Rightarrow> int \<Rightarrow> json option \<Rightarrow> json option \<Rightarrow> RouteMetadata broker_action" where
  "findByConnection opts nowMs routeId connectionId =
     bindA (gets (\<lambda>b. find (\<lambda>kr. Some (JStr (rm_route_id (snd kr))) = routeId \<and>
                             Some (JStr (rm_host_connection_id (snd kr))) = connectionId) (tb_routes b)))
     (\<lambda>found. case found of
        None \<Rightarrow> throw (tunnel_error TE_route_not_found 404 ''no route matches these identifiers'')
      | Some (k, route) \<Rightarrow> bindA (store_route (refresh opts nowMs route)) (\<lambda>_.
          ret (refresh opts nowMs route)))"

definition touch :: "BrokerOptions \<Rightarrow> int \<Rightarrow> string \<Rightarrow> unit broker_action" where
  "touch opts nowMs slug = (\<lambda>b.
     case map_of (tb_routes b) slug of
       Some route \<Rightarrow>
         if rm_status route = Route_active
         then store_route (route\<lparr> rm_last_seen_at := nowMs,
                rm_expires_at := nowMs + opt_routeTtlMs opts \<rparr>) b
         else (Inr (), b)
     | None \<Rightarrow> (Inr (), b))"

definition register ::
  "BrokerOptions \<Rightarrow> (string \<Rightarrow> (string \<times> string) option) \<Rightarrow> string \<Rightarrow> string \<Rightarrow> int \<Rightarrow>
   HostRegistration \<Rightarrow> RouteMetadata broker_action" where
  "register opts parse_url rteId connId nowMs registration =
     (case hr_route_slug registration of
        Some (JStr slug) \<Rightarrow>
          if \<not> valid_route_slug slug
          then throw (tunnel_error TE_invalid_registration 400 ''route slug is missing or malformed'')
          else bindA (lift (case hr_target registration of
                 Some t \<Rightarrow> assertLocalTarget parse_url t | None \<Rightarrow> Inr ())) (\<lambda>_.
               bindA (currentRoute opts nowMs slug) (\<lambda>existing.
               if (case existing of Some r \<Rightarrow> rm_status r = Route_active \<and> rm_host_connected r | None \<Rightarrow> False)
               then throw (tunnel_error TE_route_slug_taken 409 ''an active host already holds this slug'')
               else bindA (if existing \<noteq> None then modify (tb_relay_update (Relay.closeRoute slug)) else ret ()) (\<lambda>_.
               let route = \<lparr> rm_route_slug = slug, rm_route_id = rteId, rm_host_connection_id = connId,
                     rm_created_at = nowMs, rm_last_seen_at = nowMs, rm_last_heartbeat_at = nowMs,
                     rm_expires_at = nowMs + opt_routeTtlMs opts, rm_status = Route_active,
                     rm_host_connected = True \<rparr>
               in bindA (store_route route) (\<lambda>_.
                  bindA (modify (case hr_target registration of
                      Some t \<Rightarrow> tb_targets_update (AList.update slug t)
                    | None \<Rightarrow> (\<lambda>b. b\<lparr> tb_targets := AList.delete slug (tb_targets b),
                                      tb_meter := tb_meter b @ [RouteRegistered slug] \<rparr>))) (\<lambda>_.
                  ret route)))))
      | _ \<Rightarrow> throw (tunnel_error TE_invalid_registration 400 ''route slug is missing or malformed''))"

fun is_string :: "json option \<Rightarrow> bool" where
  "is_string (Some (JStr _)) \<longleftrightarrow> True"
| "is_string _ \<longleftrightarrow> False"

definition heartbeat :: "BrokerOptions \<Rightarrow> int \<Rightarrow> json option \<Rightarrow> json option \<Rightarrow> RouteMetadata broker_action" where
  "heartbeat opts nowMs routeId connectionId =
     (if \<not> is_string routeId \<or> \<not> is_string connectionId
      then throw (tunnel_error TE_invalid_heartbeat 400 ''heartbeat is missing route identifiers'')
      else bindA (findByConnection opts nowMs routeId connectionId) (\<lambda>route.
      if rm_status route = Route_closed
      then throw (tunnel_error TE_route_closed 410 ''this route has been closed'')
      else if rm_status route = Route_expired
      then throw (tunnel_error TE_route_expired 410 ''this route has expired'')
      else let beaten = refresh opts nowMs (route\<lparr> rm_last_seen_at := nowMs,
                 rm_expires_at := nowMs + opt_routeTtlMs opts, rm_last_heartbeat_at := nowMs \<rparr>)
           in bindA (store_route beaten) (\<lambda>_. ret beaten)))"

definition broker_closeRoute :: "BrokerOptions \<Rightarrow> int \<Rightarrow> json option \<Rightarrow> json option \<Rightarrow> string broker_action" where
  "broker_closeRoute opts nowMs routeId connectionId =
     bindA (findByConnection opts nowMs routeId connectionId) (\<lambda>route.
     bindA (gets (\<lambda>b. map_of (tb_targets b) (rm_route_slug route) = None)) (\<lambda>wasPublic.
     bindA (store_route (route\<lparr> rm_status := Route_closed \<rparr>)) (\<lambda>_.
     bindA (modify (\<lambda>b. b\<lparr> tb_targets := AList.delete (rm_route_slug route) (tb_targets b),
                           tb_relay := Relay.closeRoute (rm_route_slug route) (tb_relay b) \<rparr>)) (\<lambda>_.
     bindA (modify (\<lambda>b. if wasPublic
               then b\<lparr> tb_meter := tb_meter b @ [RouteClosed (rm_route_slug route)
                        (max 0 (nowMs - rm_created_at route))] \<rparr>
               else b)) (\<lambda>_.
     ret (rm_route_slug route))))))"

definition resolve :: "BrokerOptions \<Rightarrow> int \<Rightarrow> string \<Rightarrow> RouteMetadata broker_action" where
  "resolve opts nowMs slug =
     bindA (currentRoute opts nowMs slug) (\<lambda>found.
     case found of
       None \<Rightarrow> throw (tunnel_error TE_route_not_found 404 ''no route is registered for this slug'')
     | Some route \<Rightarrow>
         if rm_status route = Route_closed
         then throw (tunnel_error TE_route_closed 410 ''this route has been closed'')
         else if rm_status route = Route_expired
         then throw (tunnel_error TE_route_expired 410 ''this route has expired'')
         else ret route)"

definition snapshot :: "BrokerOptions \<Rightarrow> int \<Rightarrow> RouteMetadata list broker_action" where
  "snapshot opts nowMs = (\<lambda>b.
     (Inr (map (refresh opts nowMs \<circ> snd) (tb_routes b)),
      b\<lparr> tb_routes := map (\<lambda>(k, r). (k, refresh opts nowMs r)) (tb_routes b) \<rparr>))"

definition claimRelay ::
  "BrokerOptions \<Rightarrow> int \<Rightarrow> json option \<Rightarrow> json option \<Rightarrow> ForwardedRequest option broker_action" where
  "claimRelay opts nowMs routeId connectionId =
     bindA (findByConnection opts nowMs routeId connectionId) (\<lambda>route.
     if rm_status route \<noteq> Route_active
     then throw (tunnel_error (if rm_status route = Route_closed then TE_route_closed else TE_route_expired)
            410 ''route is not active'')
     else bindA (store_route (route\<lparr> rm_last_heartbeat_at := nowMs \<rparr>)) (\<lambda>_.
          bindA (touch opts nowMs (rm_route_slug route)) (\<lambda>_.
          (\<lambda>b. case claim (rm_route_slug route) (tb_relay b) of
                 (r, h) \<Rightarrow> (Inr r, b\<lparr> tb_relay := h \<rparr>)))))"

definition respondRelay ::
  "BrokerOptions \<Rightarrow> int \<Rightarrow> json option \<Rightarrow> json option \<Rightarrow> string \<Rightarrow> ForwardedResponse \<Rightarrow> unit broker_action" where
  "respondRelay opts nowMs routeId connectionId requestId response =
     bindA (findByConnection opts nowMs routeId connectionId) (\<lambda>_.
     (\<lambda>b. case respond (bl_responseBodyBytes (opt_limits opts)) requestId response (tb_relay b) of
            (r, h) \<Rightarrow> (r, b\<lparr> tb_relay := h \<rparr>)))"

subsection \<open>Forwarding\<close>

record ForwardInput =
  fw_path :: string
  fw_search :: string
  fw_method :: string
  fw_clientIp :: string
  fw_headers :: "(string \<times> string) list"
  fw_body :: string

text \<open>What the start of a forward leaves to be awaited: a direct fetch or a relayed request.\<close>

datatype forward_wait = Direct string | Relayed string "string option"

definition ENVELOPE_HEADERS :: "string list" where
  "ENVELOPE_HEADERS = [''authorization'', ''content-type'', ''accept'', ''origin'', ''referer'']"

definition selectEnvelopeHeaders :: "(string \<times> string) list \<Rightarrow> (string \<times> string) list" where
  "selectEnvelopeHeaders headers =
     foldl (\<lambda>hs (nm, v). if js_toLowerCase nm \<in> set ENVELOPE_HEADERS
              then AList.update (js_toLowerCase nm) v hs else hs) [] headers"

definition readBody :: "string \<Rightarrow> string \<Rightarrow> nat \<Rightarrow> TunnelError + string option" where
  "readBody httpMethod body limitBytes =
     (if httpMethod = ''GET'' \<or> httpMethod = ''HEAD'' then Inr None
      else if length body > limitBytes
      then Inl (tunnel_error TE_request_too_large 413 ''request body exceeds the broker limit'')
      else if body = [] then Inr None else Inr (Some body))"

definition guard_enter :: "BrokerOptions \<Rightarrow> int \<Rightarrow> RequestGuardInput \<Rightarrow> nat broker_action" where
  "guard_enter opts nowMs input = (\<lambda>b. case enter (opt_limits opts) nowMs input (tb_guards b) of
     (r, g) \<Rightarrow> (r, b\<lparr> tb_guards := g \<rparr>))"

definition guard_release :: "nat \<Rightarrow> unit broker_action" where
  "guard_release h = modify (\<lambda>b. b\<lparr> tb_guards := release h (tb_guards b) \<rparr>)"

text \<open>\<open>forwardViaRelay\<close> up to the promise; \<open>b64\<close> is \<open>toString("base64")\<close>.\<close>

definition relay_start ::
  "BrokerOptions \<Rightarrow> (string \<Rightarrow> string) \<Rightarrow> string \<Rightarrow> int \<Rightarrow> string \<Rightarrow> ForwardInput \<Rightarrow> forward_wait broker_action" where
  "relay_start opts b64 reqId nowMs slug input =
     bindA (currentRoute opts nowMs slug) (\<lambda>route.
     if (case route of None \<Rightarrow> True | Some r \<Rightarrow> \<not> rm_host_connected r)
     then throw (tunnel_error TE_host_unavailable 504 ''host tunnel is not attending this route'')
     else bindA (lift (readBody (fw_method input) (fw_body input) (bl_requestBodyBytes (opt_limits opts)))) (\<lambda>body.
     bindA (modify (tb_relay_update (enqueue slug
        \<lparr> fq_request_id = [], fq_route_slug = slug, fq_method = fw_method input,
          fq_path = fw_path input @ fw_search input,
          fq_headers = selectEnvelopeHeaders (fw_headers input),
          fq_body = map_option b64 body \<rparr> reqId))) (\<lambda>_.
     ret (Relayed reqId body))))"

text \<open>\<open>finally { release() }\<close> when the awaited part throws.\<close>

definition or_release :: "nat \<Rightarrow> 'a broker_action \<Rightarrow> 'a broker_action" where
  "or_release h act = (\<lambda>b. case act b of
     (Inr x, b') \<Rightarrow> (Inr x, b') | (Inl e, b') \<Rightarrow> (Inl e, snd (guard_release h b')))"

definition forward_start ::
  "BrokerOptions \<Rightarrow> (string \<Rightarrow> string) \<Rightarrow> (TunnelError + unit) \<Rightarrow> string \<Rightarrow> int \<Rightarrow> string \<Rightarrow> ForwardInput \<Rightarrow>
   (nat \<times> forward_wait) broker_action" where
  "forward_start opts b64 admission reqId nowMs slug input =
     bindA (guard_enter opts nowMs
        \<lparr> gi_routeSlug = slug, gi_clientIp = fw_clientIp input,
          gi_isWait = (classifyPath (fw_path input) = ''wait''),
          gi_authenticated = (map_of (fw_headers input) ''authorization'' \<noteq> None) \<rparr>) (\<lambda>h.
     bindA (touch opts nowMs slug) (\<lambda>_.
     bindA (gets (\<lambda>b. map_of (tb_targets b) slug)) (\<lambda>target.
     or_release h
       (case target of
          Some t \<Rightarrow> ret (h, Direct t)
        | None \<Rightarrow> bindA (lift admission) (\<lambda>_.
            bindA (relay_start opts b64 reqId nowMs slug input) (\<lambda>w. ret (h, w)))))))"

text \<open>
  The end of a relayed forward: the promise's outcome, the headers let through, the meter call,
  the release. \<open>unb64\<close> decodes a response body.
\<close>

definition relay_finish ::
  "(string \<Rightarrow> string) \<Rightarrow> string \<Rightarrow> string \<Rightarrow> nat \<Rightarrow> string option \<Rightarrow> (TunnelError + ForwardedResponse) \<Rightarrow>
   (nat \<times> (string \<times> string) list \<times> string) broker_action" where
  "relay_finish unb64 slug path h body outcome =
     (case outcome of
        Inl e \<Rightarrow> bindA (guard_release h) (\<lambda>_. throw e)
      | Inr response \<Rightarrow>
          let responseBody = (case fr_body response of Some s \<Rightarrow> unb64 s | None \<Rightarrow> []);
              headers = foldl (\<lambda>hs (nm, v). if js_toLowerCase nm \<in> set FORWARDED_RESPONSE_HEADERS
                          then AList.update (js_toLowerCase nm) v hs else hs) [] (fr_headers response)
          in bindA (modify (\<lambda>b. b\<lparr> tb_meter := tb_meter b @ [PublicForward slug path
                       (case body of Some s \<Rightarrow> length s | None \<Rightarrow> 0) (length responseBody)] \<rparr>)) (\<lambda>_.
             bindA (guard_release h) (\<lambda>_.
             ret (fr_status response, headers, responseBody))))"

text \<open>
  \<open>handleParticipantRequest\<close>: the first path segment is the slug; a bare \<open>/slug\<close> is a status probe,
  anything else is forwarded with the slug cut off.
\<close>

definition handleParticipantRequest ::
  "BrokerOptions \<Rightarrow> (string \<Rightarrow> string) \<Rightarrow> (TunnelError + unit) \<Rightarrow> string \<Rightarrow> int \<Rightarrow> string \<Rightarrow> ForwardInput \<Rightarrow>
   (RouteMetadata + nat \<times> forward_wait) broker_action" where
  "handleParticipantRequest opts b64 admission reqId nowMs pathname input =
     (case filter (\<lambda>x. x \<noteq> []) (js_split CHR ''/'' pathname) of
        [] \<Rightarrow> throw (tunnel_error TE_unsupported_route 404 ''request path does not name a route'')
      | slug # _ \<Rightarrow>
          bindA (resolve opts nowMs slug) (\<lambda>route.
          if pathname = CHR ''/'' # slug then ret (Inl route)
          else let cut = drop (length slug + 1) pathname
               in bindA (forward_start opts b64 admission reqId nowMs slug
                    (input\<lparr> fw_path := if cut = [] then ''/'' else cut \<rparr>)) (\<lambda>w. ret (Inr w))))"

subsection \<open>Runs of the broker\<close>

inductive broker_step :: "BrokerOptions \<Rightarrow> int \<Rightarrow> Broker \<Rightarrow> Broker \<Rightarrow> bool" for opts where
  register: "broker_step opts now b (snd (register opts parse_url rte conn now reg b))"
| heartbeat: "broker_step opts now b (snd (heartbeat opts now rid cid b))"
| close: "broker_step opts now b (snd (broker_closeRoute opts now rid cid b))"
| snapshot: "broker_step opts now b (snd (snapshot opts now b))"
| poll: "broker_step opts now b (snd (claimRelay opts now rid cid b))"
| respond: "broker_step opts now b (snd (respondRelay opts now rid cid req resp b))"
| request: "req \<notin> fst ` set (rh_inflight (tb_relay b)) \<union> fst ` set (rh_settled (tb_relay b)) \<Longrightarrow>
    broker_step opts now b (snd (handleParticipantRequest opts b64 adm req now path input b))"
| finish: "broker_step opts now b (snd (relay_finish unb64 slug path h body outcome b))"
| timer_claim: "broker_step opts now b (b\<lparr> tb_relay := claim_timeout i (tb_relay b) \<rparr>)"
| timer_response: "broker_step opts now b (b\<lparr> tb_relay := response_timeout i (tb_relay b) \<rparr>)"

definition broker_inv :: "BrokerOptions \<Rightarrow> Broker \<Rightarrow> bool" where
  "broker_inv opts b \<longleftrightarrow>
     distinct (map fst (tb_routes b)) \<and>
     (\<forall>(k, r) \<in> set (tb_routes b). rm_route_slug r = k \<and> valid_route_slug k) \<and>
     relay_inv (tb_relay b) \<and> guards_inv (opt_limits opts) (tb_guards b)"

lemma refresh_fields [simp]:
  "rm_route_slug (refresh opts now r) = rm_route_slug r"
  "rm_route_id (refresh opts now r) = rm_route_id r"
  "rm_host_connection_id (refresh opts now r) = rm_host_connection_id r"
  "rm_created_at (refresh opts now r) = rm_created_at r"
  "rm_expires_at (refresh opts now r) = rm_expires_at r"
  "rm_last_heartbeat_at (refresh opts now r) = rm_last_heartbeat_at r"
  by (simp_all add: refresh_def Let_def)

lemma refresh_status:
  "rm_status (refresh opts now r) =
     (if rm_status r = Route_active \<and>
         (rm_expires_at r \<le> now \<or> rm_created_at r + opt_maxRouteLifetimeMs opts \<le> now)
      then Route_expired else rm_status r)"
  "rm_host_connected (refresh opts now r) \<longleftrightarrow>
     rm_status (refresh opts now r) = Route_active \<and> now - rm_last_heartbeat_at r \<le> opt_hostGraceMs opts"
  by (simp_all add: refresh_def Let_def)

lemma store_route_apply [simp]:
  "store_route r b = (Inr (), b\<lparr> tb_routes := AList.update (rm_route_slug r) r (tb_routes b) \<rparr>)"
  by (simp add: store_route_def)

lemma currentRoute_apply:
  "currentRoute opts now slug b = (case map_of (tb_routes b) slug of
     None \<Rightarrow> (Inr None, b)
   | Some r \<Rightarrow> (Inr (Some (refresh opts now r)),
       b\<lparr> tb_routes := AList.update (rm_route_slug r) (refresh opts now r) (tb_routes b) \<rparr>))"
  by (simp add: currentRoute_def split: option.splits)

text \<open>What a step may do to a route: it stays under its slug, and either it is the same registration,
  not revived and, when still active, within its lifetime, or it was replaced, which needs the old
  one to be no longer active and connected.\<close>

definition route_evolves :: "BrokerOptions \<Rightarrow> int \<Rightarrow> RouteMetadata \<Rightarrow> RouteMetadata \<Rightarrow> bool" where
  "route_evolves opts now r r' \<longleftrightarrow>
     (rm_route_id r' = rm_route_id r \<and> rm_host_connection_id r' = rm_host_connection_id r \<and>
      rm_created_at r' = rm_created_at r \<and>
      (rm_status r' = Route_active \<longrightarrow>
         r' = r \<or> rm_status r = Route_active \<and> now < rm_created_at r + opt_maxRouteLifetimeMs opts)) \<or>
     \<not> rm_host_connected (refresh opts now r)"

definition routes_evolve :: "BrokerOptions \<Rightarrow> int \<Rightarrow> Broker \<Rightarrow> Broker \<Rightarrow> bool" where
  "routes_evolve opts now b b' \<longleftrightarrow> (\<forall>slug r. map_of (tb_routes b) slug = Some r \<longrightarrow>
     (\<exists>r'. map_of (tb_routes b') slug = Some r' \<and> route_evolves opts now r r'))"

lemma broker_inv_parts:
  assumes "broker_inv opts b"
  shows "map_of (tb_routes b) k = Some r \<Longrightarrow> rm_route_slug r = k \<and> valid_route_slug k"
    "relay_inv (tb_relay b)" "guards_inv (opt_limits opts) (tb_guards b)" "distinct (map fst (tb_routes b))"
  using assms by (auto simp: broker_inv_def dest: map_of_SomeD)

text \<open>Storing a route under its valid slug, with whatever else changes soundly.\<close>

lemma broker_inv_store:
  assumes "broker_inv opts b" "valid_route_slug (rm_route_slug r)"
    "tb_routes b' = AList.update (rm_route_slug r) r (tb_routes b)"
    "relay_inv (tb_relay b')" "guards_inv (opt_limits opts) (tb_guards b')"
  shows "broker_inv opts b'"
proof -
  have "set (AList.update k v al) \<subseteq> insert (k, v) (set al)" for k and v :: RouteMetadata and al
    by (induction al) auto
  with assms show ?thesis
    by (fastforce simp: broker_inv_def distinct_update)
qed

lemma broker_inv_frame:
  assumes "broker_inv opts b" "tb_routes b' = tb_routes b"
    "relay_inv (tb_relay b')" "guards_inv (opt_limits opts) (tb_guards b')"
  shows "broker_inv opts b'"
  using assms by (simp add: broker_inv_def)

lemma currentRoute_found:
  assumes "broker_inv opts b" "currentRoute opts now slug b = (x, b')"
  shows "broker_inv opts b' \<and> tb_relay b' = tb_relay b \<and> tb_guards b' = tb_guards b \<and>
    tb_targets b' = tb_targets b \<and> tb_meter b' = tb_meter b \<and>
    x = Inr (map_option (refresh opts now) (map_of (tb_routes b) slug)) \<and>
    map_of (tb_routes b') = (map_of (tb_routes b))(slug := map_option (refresh opts now) (map_of (tb_routes b) slug))"
proof (cases "map_of (tb_routes b) slug")
  case None
  with assms show ?thesis by (simp add: currentRoute_apply fun_upd_idem)
next
  case (Some r)
  note inv = broker_inv_parts [OF assms(1)]
  from inv(1) [OF Some] have r: "rm_route_slug r = slug" "valid_route_slug slug" by simp_all
  have b': "b' = b\<lparr> tb_routes := AList.update slug (refresh opts now r) (tb_routes b) \<rparr>"
    "x = Inr (Some (refresh opts now r))"
    using assms(2) Some r by (simp_all add: currentRoute_apply)
  have "broker_inv opts b'"
    using r inv b' by (intro broker_inv_store [OF assms(1), of "refresh opts now r"]) simp_all
  with b' Some show ?thesis by (simp add: update_conv')
qed

lemma findByConnection_Inl:
  "findByConnection opts now rid cid b = (Inl e, b') \<Longrightarrow>
   b' = b \<and> e = tunnel_error TE_route_not_found 404 ''no route matches these identifiers''"
  by (auto simp: findByConnection_def bindA_Inl_iff split: option.splits)

lemma findByConnection_Inr:
  assumes "broker_inv opts b" "findByConnection opts now rid cid b = (Inr r', b')"
  obtains slug r where "map_of (tb_routes b) slug = Some r" "r' = refresh opts now r"
    "rm_route_slug r = slug" "valid_route_slug slug" "rid = Some (JStr (rm_route_id r))"
    "cid = Some (JStr (rm_host_connection_id r))"
    "b' = b\<lparr> tb_routes := AList.update slug r' (tb_routes b) \<rparr>" "broker_inv opts b'"
proof -
  note inv = broker_inv_parts [OF assms(1)]
  from assms(2) obtain k r where found: "find (\<lambda>kr. Some (JStr (rm_route_id (snd kr))) = rid \<and>
      Some (JStr (rm_host_connection_id (snd kr))) = cid) (tb_routes b) = Some (k, r)"
    and r': "r' = refresh opts now r" and b': "b' = b\<lparr> tb_routes := AList.update (rm_route_slug r) r' (tb_routes b) \<rparr>"
    by (auto simp: findByConnection_def bindA_Inr_iff split: option.splits prod.splits)
  have mem: "(k, r) \<in> set (tb_routes b)" and ids: "rid = Some (JStr (rm_route_id r))"
    "cid = Some (JStr (rm_host_connection_id r))"
    using found by (auto simp: find_Some_iff) (metis nth_mem snd_conv)+
  have map: "map_of (tb_routes b) k = Some r" using mem inv(4) by simp
  with inv(1) have slug: "rm_route_slug r = k" "valid_route_slug k" by auto
  have "broker_inv opts b'"
    using slug inv r' b' by (intro broker_inv_store [OF assms(1), of r']) simp_all
  with map r' slug ids b' that show thesis by simp
qed

lemma evolves_refl [simp]: "route_evolves opts now r r"
  by (simp add: route_evolves_def)

lemma evolves_refresh [simp]: "route_evolves opts now r (refresh opts now r)"
  by (auto simp: route_evolves_def refresh_status)

lemma routes_evolve_refl [simp]: "tb_routes b' = tb_routes b \<Longrightarrow> routes_evolve opts now b b'"
  by (simp add: routes_evolve_def)

lemma routes_evolve_store:
  assumes "map_of (tb_routes b') = (map_of (tb_routes b))(slug \<mapsto> r')"
    and "\<And>r. map_of (tb_routes b) slug = Some r \<Longrightarrow> route_evolves opts now r r'"
  shows "routes_evolve opts now b b'"
  using assms by (auto simp: routes_evolve_def)

definition step_ok :: "BrokerOptions \<Rightarrow> int \<Rightarrow> Broker \<Rightarrow> Broker \<Rightarrow> bool" where
  "step_ok opts now b b' \<longleftrightarrow> broker_inv opts b' \<and> routes_evolve opts now b b' \<and>
     prefix (rh_settled (tb_relay b)) (rh_settled (tb_relay b'))"

lemma step_ok_refl: "broker_inv opts b \<Longrightarrow> step_ok opts now b b"
  by (simp add: step_ok_def)

text \<open>The common shape: one route rewritten, the relay moved on, the guards kept sound.\<close>

lemma step_okI:
  assumes "broker_inv opts b" "tb_routes b' = AList.update slug r' (tb_routes b)"
    "rm_route_slug r' = slug" "valid_route_slug slug"
    "\<And>r. map_of (tb_routes b) slug = Some r \<Longrightarrow> route_evolves opts now r r'"
    "relay_inv (tb_relay b')" "prefix (rh_settled (tb_relay b)) (rh_settled (tb_relay b'))"
    "guards_inv (opt_limits opts) (tb_guards b')"
  shows "step_ok opts now b b'"
  unfolding step_ok_def
proof (intro conjI)
  show "broker_inv opts b'" using assms by (intro broker_inv_store [OF assms(1), of r']) simp_all
  show "routes_evolve opts now b b'" using assms by (intro routes_evolve_store [of b' b slug r']) (auto simp: update_conv')
  show "prefix (rh_settled (tb_relay b)) (rh_settled (tb_relay b'))" by (rule assms(7))
qed

lemma find_cases:
  assumes "broker_inv opts b"
  obtains e where "findByConnection opts now rid cid b = (Inl e, b)"
    "e = tunnel_error TE_route_not_found 404 ''no route matches these identifiers''"
  | slug r where "map_of (tb_routes b) slug = Some r" "rm_route_slug r = slug" "valid_route_slug slug"
    "rid = Some (JStr (rm_route_id r))" "cid = Some (JStr (rm_host_connection_id r))"
    "findByConnection opts now rid cid b =
       (Inr (refresh opts now r), b\<lparr> tb_routes := AList.update slug (refresh opts now r) (tb_routes b) \<rparr>)"
proof -
  obtain x b1 where find: "findByConnection opts now rid cid b = (x, b1)"
    by (cases "findByConnection opts now rid cid b")
  show thesis
  proof (cases x)
    case (Inl e)
    with find findByConnection_Inl [of opts now rid cid b e b1] that(1) show thesis by simp
  next
    case (Inr r')
    with find have "findByConnection opts now rid cid b = (Inr r', b1)" by simp
    then show thesis
      by (rule findByConnection_Inr [OF assms]) (use that(2) find Inr in blast)
  qed
qed

text \<open>Rewriting the found route: what a host action does to its own route.\<close>

lemma host_action_ok:
  assumes "broker_inv opts b" "map_of (tb_routes b) slug = Some r" "rm_route_slug r = slug"
    "valid_route_slug slug" "tb_routes b' = AList.update slug r' (tb_routes b)"
    "rm_route_slug r' = slug" "rm_route_id r' = rm_route_id r"
    "rm_host_connection_id r' = rm_host_connection_id r" "rm_created_at r' = rm_created_at r"
    "rm_status r' = Route_active \<Longrightarrow> rm_status (refresh opts now r) = Route_active"
    "relay_inv (tb_relay b')" "prefix (rh_settled (tb_relay b)) (rh_settled (tb_relay b'))"
    "guards_inv (opt_limits opts) (tb_guards b')"
  shows "step_ok opts now b b'"
  using assms
  by (intro step_okI [OF assms(1), of b' slug r'])
    (auto simp: route_evolves_def refresh_status split: if_splits)

lemma heartbeat_ok:
  assumes "broker_inv opts b"
  shows "step_ok opts now b (snd (heartbeat opts now rid cid b))"
proof (cases rule: find_cases [OF assms, of now rid cid])
  case (1 e)
  with assms show ?thesis by (simp add: heartbeat_def step_ok_refl)
next
  case (2 slug r)
  note inv = broker_inv_parts [OF assms]
  let ?r = "refresh opts now r"
  let ?beaten = "refresh opts now (?r\<lparr> rm_last_seen_at := now, rm_expires_at := now + opt_routeTtlMs opts,
      rm_last_heartbeat_at := now \<rparr>)"
  let ?b = "snd (heartbeat opts now rid cid b)"
  have parts: "tb_routes ?b = AList.update slug (if rm_status ?r = Route_active then ?beaten else ?r) (tb_routes b)"
    "tb_relay ?b = tb_relay b" "tb_guards ?b = tb_guards b"
    using 2 by (cases "rm_status ?r"; simp add: heartbeat_def Let_def)+
  then show ?thesis
    using 2(2,3) inv(2,3)
    by (intro host_action_ok [OF assms 2(1-3) parts(1)]) (auto simp: refresh_status split: if_splits)
qed

lemma close_ok:
  assumes "broker_inv opts b"
  shows "step_ok opts now b (snd (broker_closeRoute opts now rid cid b))"
proof (cases rule: find_cases [OF assms, of now rid cid])
  case (1 e)
  with assms show ?thesis by (simp add: broker_closeRoute_def step_ok_refl)
next
  case (2 slug r)
  note inv = broker_inv_parts [OF assms]
  let ?b = "snd (broker_closeRoute opts now rid cid b)"
  have parts: "tb_routes ?b = AList.update slug (refresh opts now r\<lparr> rm_status := Route_closed \<rparr>) (tb_routes b)"
    "tb_relay ?b = Relay.closeRoute slug (tb_relay b)" "tb_guards ?b = tb_guards b"
    using 2 by (simp_all add: broker_closeRoute_def bindA_apply)
  then show ?thesis
    using 2 inv closeRoute_parts [OF inv(2)]
    by (intro host_action_ok [OF assms 2(1-3) parts(1)]) auto
qed

lemma poll_ok:
  assumes "broker_inv opts b"
  shows "step_ok opts now b (snd (claimRelay opts now rid cid b))"
proof (cases rule: find_cases [OF assms, of now rid cid])
  case (1 e)
  with assms show ?thesis by (simp add: claimRelay_def step_ok_refl)
next
  case (2 slug r)
  note inv = broker_inv_parts [OF assms]
  let ?r = "refresh opts now r" and ?b = "snd (claimRelay opts now rid cid b)"
  show ?thesis
  proof (cases "rm_status ?r = Route_active")
    case False
    with 2 have "?b = b\<lparr> tb_routes := AList.update slug ?r (tb_routes b) \<rparr>"
      by (simp add: claimRelay_def)
    then show ?thesis using 2 inv by (intro host_action_ok [OF assms 2(1-3), of _ ?r]) auto
  next
    case True
    with 2 have parts: "tb_routes ?b = AList.update slug (?r\<lparr> rm_last_heartbeat_at := now, rm_last_seen_at := now,
        rm_expires_at := now + opt_routeTtlMs opts \<rparr>) (tb_routes b)"
      "tb_relay ?b = snd (claim slug (tb_relay b))" "tb_guards ?b = tb_guards b"
      by (auto simp: claimRelay_def touch_def bindA_apply update_conv' split: prod.splits)
    then show ?thesis using 2 inv True claim_inv [OF inv(2), of slug]
      by (intro host_action_ok [OF assms 2(1-3) parts(1)]) auto
  qed
qed

lemma respond_ok:
  assumes "broker_inv opts b"
  shows "step_ok opts now b (snd (respondRelay opts now rid cid req resp b))"
proof (cases rule: find_cases [OF assms, of now rid cid])
  case (1 e)
  with assms show ?thesis by (simp add: respondRelay_def step_ok_refl)
next
  case (2 slug r)
  note inv = broker_inv_parts [OF assms]
  let ?b = "snd (respondRelay opts now rid cid req resp b)"
  let ?n = "bl_responseBodyBytes (opt_limits opts)"
  have parts: "tb_routes ?b = AList.update slug (refresh opts now r) (tb_routes b)"
    "tb_relay ?b = snd (respond ?n req resp (tb_relay b))" "tb_guards ?b = tb_guards b"
    using 2 by (simp_all add: respondRelay_def split: prod.splits)
  have "relay_inv (snd (respond ?n req resp (tb_relay b))) \<and>
      prefix (rh_settled (tb_relay b)) (rh_settled (snd (respond ?n req resp (tb_relay b))))"
    by (rule relay_step_inv [OF inv(2) relay_step.respond])
  with parts 2 inv show ?thesis
    by (intro host_action_ok [OF assms 2(1-3) parts(1)]) auto
qed

lemma snapshot_ok:
  assumes "broker_inv opts b"
  shows "step_ok opts now b (snd (snapshot opts now b))"
proof -
  note inv = broker_inv_parts [OF assms]
  have map: "map_of (map (\<lambda>(k, r). (k, refresh opts now r)) rs) k = map_option (refresh opts now) (map_of rs k)"
    for rs and k :: string
    by (induction rs) auto
  have keys: "map fst (map (\<lambda>(k, r). (k, refresh opts now r)) rs) = map fst rs" for rs :: "(string \<times> RouteMetadata) list"
    by (induction rs) auto
  show ?thesis
    using assms keys [of "tb_routes b"]
    by (auto simp: step_ok_def snapshot_def broker_inv_def routes_evolve_def map simp del: map_map)
qed

lemma register_ok:
  assumes "broker_inv opts b"
  shows "step_ok opts now b (snd (register opts parse_url rte conn now reg b))"
proof -
  note inv = broker_inv_parts [OF assms]
  show ?thesis
  proof (cases "\<exists>slug. hr_route_slug reg = Some (JStr slug) \<and> valid_route_slug slug \<and>
      (case hr_target reg of Some t \<Rightarrow> assertLocalTarget parse_url t | None \<Rightarrow> Inr ()) = Inr ()")
    case False
    then have "snd (register opts parse_url rte conn now reg b) = b"
      by (auto simp: register_def bindA_apply split: option.splits json.splits sum.splits)
    with assms show ?thesis by (simp add: step_ok_refl)
  next
    case True
    then obtain slug where slug: "hr_route_slug reg = Some (JStr slug)" "valid_route_slug slug"
      and target: "(case hr_target reg of Some t \<Rightarrow> assertLocalTarget parse_url t | None \<Rightarrow> Inr ()) = Inr ()"
      by blast
    obtain x b1 where cur: "currentRoute opts now slug b = (x, b1)" by (cases "currentRoute opts now slug b")
    note found = currentRoute_found [OF assms cur]
    let ?existing = "map_option (refresh opts now) (map_of (tb_routes b) slug)"
    let ?taken = "case ?existing of Some r \<Rightarrow> rm_status r = Route_active \<and> rm_host_connected r | None \<Rightarrow> False"
    let ?b = "snd (register opts parse_url rte conn now reg b)"
    let ?route = "\<lparr> rm_route_slug = slug, rm_route_id = rte, rm_host_connection_id = conn,
       rm_created_at = now, rm_last_seen_at = now, rm_last_heartbeat_at = now,
       rm_expires_at = now + opt_routeTtlMs opts, rm_status = Route_active, rm_host_connected = True \<rparr>"
    show ?thesis
    proof (cases ?taken)
      case True
      then obtain r where r: "map_of (tb_routes b) slug = Some r" by (cases "map_of (tb_routes b) slug") auto
      have "?b = b1" using True slug target cur found by (simp add: register_def)
      moreover have "b1 = b\<lparr> tb_routes := AList.update slug (refresh opts now r) (tb_routes b) \<rparr>"
        using cur r inv(1) [OF r] by (simp add: currentRoute_apply)
      ultimately show ?thesis
        using r inv by (intro host_action_ok [OF assms r, of _ "refresh opts now r"]) auto
    next
      case False
      have b1: "tb_routes b1 = (case map_of (tb_routes b) slug of None \<Rightarrow> tb_routes b
          | Some r \<Rightarrow> AList.update slug (refresh opts now r) (tb_routes b))"
        using cur inv(1) [of slug] by (auto simp: currentRoute_apply split: option.splits)
      have parts: "tb_routes ?b = AList.update slug ?route (tb_routes b)"
        "tb_guards ?b = tb_guards b"
        "tb_relay ?b = (if map_of (tb_routes b) slug = None then tb_relay b else Relay.closeRoute slug (tb_relay b))"
        using False slug target cur found b1
        by (auto simp: register_def bindA_apply Let_def split: option.splits)
      show ?thesis
      proof (rule step_okI [OF assms parts(1)])
        show "route_evolves opts now r ?route" if "map_of (tb_routes b) slug = Some r" for r
          using False that by (auto simp: route_evolves_def refresh_status)
        show "relay_inv (tb_relay ?b)" "prefix (rh_settled (tb_relay b)) (rh_settled (tb_relay ?b))"
          "guards_inv (opt_limits opts) (tb_guards ?b)"
          using parts inv closeRoute_parts [OF inv(2), of slug] by auto
      qed (use slug in auto)
    qed
  qed
qed

lemma guard_ops [simp]:
  "guard_release h b = (Inr (), b\<lparr> tb_guards := release h (tb_guards b) \<rparr>)"
  by (simp add: guard_release_def)

definition touched :: "BrokerOptions \<Rightarrow> int \<Rightarrow> RouteMetadata \<Rightarrow> RouteMetadata" where
  "touched opts now r = r\<lparr> rm_last_seen_at := now, rm_expires_at := now + opt_routeTtlMs opts \<rparr>"

lemma touch_apply:
  "map_of (tb_routes b) slug = Some r \<Longrightarrow> rm_route_slug r = slug \<Longrightarrow> rm_status r = Route_active \<Longrightarrow>
   touch opts now slug b = (Inr (), b\<lparr> tb_routes := AList.update slug (touched opts now r) (tb_routes b) \<rparr>)"
  by (simp add: touch_def touched_def)

text \<open>What a forward may have changed when it is under way or has failed.\<close>

lemma relay_start_parts:
  assumes "map_of (tb_routes b) slug = Some r" "rm_route_slug r = slug"
    "relay_start opts b64 reqId now slug input b = (x, b')"
  shows "tb_routes b' = AList.update slug (refresh opts now r) (tb_routes b)"
    "tb_guards b' = tb_guards b" "tb_targets b' = tb_targets b" "tb_meter b' = tb_meter b"
    "tb_relay b' = tb_relay b \<or> (\<exists>env. tb_relay b' = enqueue slug env reqId (tb_relay b))"
  using assms
  by (auto simp: relay_start_def bindA_apply currentRoute_apply split: sum.splits if_splits)

lemma forward_start_parts:
  assumes "map_of (tb_routes b) slug = Some r" "rm_route_slug r = slug" "rm_status r = Route_active"
    "forward_start opts b64 adm reqId now slug input b = (x, b')"
  shows "\<exists>r'. (tb_routes b' = tb_routes b \<or> tb_routes b' = AList.update slug r' (tb_routes b)) \<and>
      r' \<in> {touched opts now r, refresh opts now (touched opts now r)}"
    "guards_inv (opt_limits opts) (tb_guards b) \<Longrightarrow> guards_inv (opt_limits opts) (tb_guards b')"
    "tb_relay b' = tb_relay b \<or> (\<exists>env. tb_relay b' = enqueue slug env reqId (tb_relay b))"
proof -
  let ?gi = "\<lparr> gi_routeSlug = slug, gi_clientIp = fw_clientIp input,
      gi_isWait = (classifyPath (fw_path input) = ''wait''),
      gi_authenticated = (map_of (fw_headers input) ''authorization'' \<noteq> None) \<rparr>"
  obtain e g where ent: "enter (opt_limits opts) now ?gi (tb_guards b) = (e, g)"
    by (cases "enter (opt_limits opts) now ?gi (tb_guards b)")
  have ginv: "guards_inv (opt_limits opts) (tb_guards b) \<Longrightarrow> guards_inv (opt_limits opts) g"
    using guards_inv_enter [of "opt_limits opts" "tb_guards b" now ?gi] ent by simp
  let ?b1 = "b\<lparr> tb_guards := g \<rparr>"
  let ?b2 = "?b1\<lparr> tb_routes := AList.update slug (touched opts now r) (tb_routes b) \<rparr>"
  have t: "touch opts now slug ?b1 = (Inr (), ?b2)"
    using touch_apply [of ?b1 slug r opts now] assms(1-3) by simp
  have slug2: "map_of (tb_routes ?b2) slug = Some (touched opts now r)" "rm_route_slug (touched opts now r) = slug"
    using assms(2) by (simp_all add: update_conv' touched_def)
  have "(\<exists>r'. (tb_routes b' = tb_routes b \<or> tb_routes b' = AList.update slug r' (tb_routes b)) \<and>
      r' \<in> {touched opts now r, refresh opts now (touched opts now r)}) \<and>
    (\<exists>h. tb_guards b' = g \<or> tb_guards b' = release h g) \<and>
    (tb_relay b' = tb_relay b \<or> (\<exists>env. tb_relay b' = enqueue slug env reqId (tb_relay b)))"
  proof (cases e)
    case (Inl err)
    with ent assms(4) have "b' = ?b1" by (simp add: forward_start_def guard_enter_def)
    then show ?thesis by auto
  next
    case (Inr h)
    let ?tail = "or_release h (case map_of (tb_targets b) slug of Some t \<Rightarrow> ret (h, Direct t)
        | None \<Rightarrow> bindA (lift adm) (\<lambda>_. bindA (relay_start opts b64 reqId now slug input) (\<lambda>w. ret (h, w))))"
    have run: "?tail ?b2 = (x, b')"
      using ent Inr assms(4) t by (simp add: forward_start_def guard_enter_def)
    obtain y b3 where rs: "relay_start opts b64 reqId now slug input ?b2 = (y, b3)"
      by (cases "relay_start opts b64 reqId now slug input ?b2")
    note parts = relay_start_parts [OF slug2 rs]
    have "b' \<in> {?b2, ?b2\<lparr> tb_guards := release h g \<rparr>, b3, b3\<lparr> tb_guards := release h (tb_guards b3) \<rparr>}"
      using run rs by (cases "map_of (tb_targets b) slug"; cases adm; cases y)
        (auto simp: or_release_def)
    then show ?thesis using parts by auto
  qed
  then show "\<exists>r'. (tb_routes b' = tb_routes b \<or> tb_routes b' = AList.update slug r' (tb_routes b)) \<and>
      r' \<in> {touched opts now r, refresh opts now (touched opts now r)}"
    "guards_inv (opt_limits opts) (tb_guards b) \<Longrightarrow> guards_inv (opt_limits opts) (tb_guards b')"
    "tb_relay b' = tb_relay b \<or> (\<exists>env. tb_relay b' = enqueue slug env reqId (tb_relay b))"
    using ginv guards_inv_release by auto
qed

lemma request_ok:
  assumes "broker_inv opts b"
    and fresh: "reqId \<notin> fst ` set (rh_inflight (tb_relay b)) \<union> fst ` set (rh_settled (tb_relay b))"
  shows "step_ok opts now b (snd (handleParticipantRequest opts b64 adm reqId now path input b))"
proof (cases "filter (\<lambda>x. x \<noteq> []) (js_split CHR ''/'' path)")
  case Nil
  with assms show ?thesis by (simp add: handleParticipantRequest_def step_ok_refl)
next
  case (Cons slug rest)
  note inv = broker_inv_parts [OF assms(1)]
  show ?thesis
  proof (cases "map_of (tb_routes b) slug")
    case None
    with Cons assms show ?thesis
      by (simp add: handleParticipantRequest_def resolve_def currentRoute_apply bindA_apply step_ok_refl)
  next
    case (Some r)
    from inv(1) [OF Some] have slug: "rm_route_slug r = slug" "valid_route_slug slug" by simp_all
    let ?r = "refresh opts now r"
    let ?b1 = "b\<lparr> tb_routes := AList.update slug ?r (tb_routes b) \<rparr>"
    let ?b = "snd (handleParticipantRequest opts b64 adm reqId now path input b)"
    have ok1: "step_ok opts now b ?b1"
      using slug inv by (intro host_action_ok [OF assms(1) Some, of _ ?r]) auto
    have cur: "currentRoute opts now slug b = (Inr (Some ?r), ?b1)"
      using Some slug by (simp add: currentRoute_apply)
    show ?thesis
    proof (cases "rm_status ?r = Route_active \<and> path \<noteq> CHR ''/'' # slug")
      case False
      then have "?b = ?b1"
        using Cons cur by (cases "rm_status ?r") (auto simp: handleParticipantRequest_def resolve_def)
      with ok1 show ?thesis by simp
    next
      case True
      define input' where "input' = input\<lparr> fw_path :=
        (if drop (length slug + 1) path = [] then ''/'' else drop (length slug + 1) path) \<rparr>"
      obtain x b' where run: "forward_start opts b64 adm reqId now slug input' ?b1 = (x, b')"
        by (cases "forward_start opts b64 adm reqId now slug input' ?b1")
      have "handleParticipantRequest opts b64 adm reqId now path input b =
          bindA (forward_start opts b64 adm reqId now slug input') (\<lambda>w. ret (Inr w)) ?b1"
        using True Cons cur by (simp add: handleParticipantRequest_def resolve_def Let_def input'_def bindA_apply)
      then have b': "?b = b'"
        using run by (cases x) (simp_all add: bindA_apply)
      have at: "map_of (tb_routes ?b1) slug = Some ?r" "rm_route_slug ?r = slug" "rm_status ?r = Route_active"
        using slug True by (simp_all add: update_conv')
      note parts = forward_start_parts [OF at run]
      from parts(1) obtain r' where r': "tb_routes b' = AList.update slug ?r (tb_routes b) \<or>
          tb_routes b' = AList.update slug r' (tb_routes b)"
        "r' \<in> {touched opts now ?r, refresh opts now (touched opts now ?r)}" by auto
      then obtain r'' where routes: "tb_routes b' = AList.update slug r'' (tb_routes b)"
        and same: "rm_route_slug r'' = slug" "rm_route_id r'' = rm_route_id r"
          "rm_host_connection_id r'' = rm_host_connection_id r" "rm_created_at r'' = rm_created_at r"
        using slug by (auto simp: touched_def)
      have "relay_inv (tb_relay b') \<and> prefix (rh_settled (tb_relay b)) (rh_settled (tb_relay b'))"
        using parts(3) enqueue_inv [OF inv(2) fresh] inv(2) by (auto simp: enqueue_def)
      then show ?thesis
        unfolding b' using same True inv parts(2)
        by (intro host_action_ok [OF assms(1) Some slug routes]) auto
    qed
  qed
qed

lemma broker_step_ok:
  assumes "broker_inv opts b" "broker_step opts now b b'"
  shows "step_ok opts now b b'"
  using assms(2)
proof (cases rule: broker_step.cases)
  case (finish unb64 slug path h body outcome)
  then show ?thesis using assms(1)
    by (auto simp: relay_finish_def bindA_apply Let_def step_ok_def broker_inv_def routes_evolve_def
        guards_inv_release split: sum.splits)
next
  case (timer_claim i)
  with relay_step_inv [OF _ relay_step.claim_timeout, of "tb_relay b" i] assms(1) show ?thesis
    by (auto simp: step_ok_def broker_inv_def)
next
  case (timer_response i)
  with relay_step_inv [OF _ relay_step.response_timeout, of "tb_relay b" i] assms(1) show ?thesis
    by (auto simp: step_ok_def broker_inv_def)
qed (use register_ok heartbeat_ok close_ok snapshot_ok poll_ok respond_ok request_ok assms(1) in auto)

lemma new_broker_inv: "broker_inv opts new_broker"
  using new_hub_inv new_guards_inv by (simp add: broker_inv_def new_broker_def)

interpretation broker: append_log "\<lambda>b. b = new_broker" "\<lambda>b b'. \<exists>now. broker_step opts now b b'"
    "broker_inv opts" "\<lambda>b. rh_settled (tb_relay b)" for opts
proof
  show "broker_inv opts b" if "b = new_broker" for b using that new_broker_inv by simp
  show "broker_inv opts b'" if "broker_inv opts b" "\<exists>now. broker_step opts now b b'" for b b'
    using that broker_step_ok unfolding step_ok_def by blast
  show "prefix (rh_settled (tb_relay b)) (rh_settled (tb_relay b'))"
    if "broker_inv opts b" "\<exists>now. broker_step opts now b b'" for b b'
    using that broker_step_ok unfolding step_ok_def by blast
qed

text \<open>A found route is found again after it was rewritten with the same identifiers.\<close>

lemma find_SomeD: "find P xs = Some x \<Longrightarrow> x \<in> set xs \<and> P x"
  by (induction xs) (auto split: if_splits)

lemma find_update:
  "find P al = Some (k, r) \<Longrightarrow> P (k, r') \<Longrightarrow> distinct (map fst al) \<Longrightarrow>
   find P (AList.update k r' al) = Some (k, r')"
  by (induction al) (force dest: find_SomeD split: if_splits)+

lemma find_again:
  assumes "broker_inv opts b" "findByConnection opts now rid cid b = (Inr r1, b1)"
    "tb_routes b' = AList.update (rm_route_slug r1) r' (tb_routes b)"
    "rm_route_slug r' = rm_route_slug r1" "rm_route_id r' = rm_route_id r1"
    "rm_host_connection_id r' = rm_host_connection_id r1"
  shows "findByConnection opts t rid cid b' = (Inr (refresh opts t r'),
      b'\<lparr> tb_routes := AList.update (rm_route_slug r1) (refresh opts t r') (tb_routes b') \<rparr>)"
proof -
  note inv = broker_inv_parts [OF assms(1)]
  let ?P = "\<lambda>kr. Some (JStr (rm_route_id (snd kr))) = rid \<and> Some (JStr (rm_host_connection_id (snd kr))) = cid"
  from assms(2) obtain k r where f: "find ?P (tb_routes b) = Some (k, r)" "r1 = refresh opts now r"
    by (auto simp: findByConnection_def bindA_Inr_iff split: option.splits prod.splits)
  then have kr: "(k, r) \<in> set (tb_routes b)" "?P (k, r)"
    using find_SomeD [OF f(1)] by auto
  then have k: "rm_route_slug r = k" using inv(1,4) by simp
  have "find ?P (AList.update k r' (tb_routes b)) = Some (k, r')"
    by (rule find_update [OF f(1) _ inv(4)]) (use kr(2) f(2) assms(5,6) in simp)
  with assms(3,4) f(2) k show ?thesis by (simp add: findByConnection_def)
qed

text \<open>Slots: what entering and releasing do to the outstanding requests of a route.\<close>

lemma enter_outstanding:
  assumes "enter L now input g = (x, g')"
  shows "case x of Inl e \<Rightarrow> bg_handles g' = bg_handles g
    | Inr h \<Rightarrow> h = length (bg_handles g) \<and>
        bg_handles g' = bg_handles g @ [(gi_routeSlug input, gi_isWait input, False)]"
proof (cases rule: enter_outcome [of L now input g])
  case (1 rr ir e)
  with assms show ?thesis by (cases x) auto
next
  case (2 rr ir)
  from assms [unfolded 2(3)] have "x = Inr (length (bg_handles g))"
    "bg_handles g' = bg_handles g @ [(gi_routeSlug input, gi_isWait input, False)]" by auto
  then show ?thesis by simp
qed

lemma release_handles:
  "bg_handles (release h g) = (if h < length (bg_handles g)
     then (bg_handles g)[h := (fst (bg_handles g ! h), fst (snd (bg_handles g ! h)), True)] else bg_handles g)"
  using list_update_id [of "bg_handles g" h]
  by (cases "bg_handles g ! h"; cases "snd (snd (bg_handles g ! h))")
    (auto simp: release_def Let_def split: option.splits)

lemma release_new:
  "bg_handles g = hs @ [(s, w, False)] \<Longrightarrow> outstanding slug (release (length hs) g) =
     length (filter (\<lambda>(s, w, rel). s = slug \<and> \<not> rel) hs)"
  by (simp add: outstanding_def release_handles)

lemma or_release_Inr: "or_release h act b = (Inr x, b') \<longleftrightarrow> act b = (Inr x, b')"
  by (auto simp: or_release_def split: prod.splits sum.splits)

lemma or_release_Inl:
  "or_release h act b = (Inl e, b') \<longleftrightarrow>
     (\<exists>b1. act b = (Inl e, b1) \<and> b' = b1\<lparr> tb_guards := release h (tb_guards b1) \<rparr>)"
  by (auto simp: or_release_def split: prod.splits sum.splits)

lemma relay_start_outcome:
  assumes "relay_start opts b64 reqId now slug input b = (x, b')"
  shows "tb_guards b' = tb_guards b \<and> tb_meter b' = tb_meter b \<and>
    (case x of Inl e \<Rightarrow> tb_relay b' = tb_relay b
     | Inr w \<Rightarrow> \<exists>body. w = Relayed reqId body \<and> tb_relay b' = enqueue slug
         \<lparr> fq_request_id = [], fq_route_slug = slug, fq_method = fw_method input,
           fq_path = fw_path input @ fw_search input,
           fq_headers = selectEnvelopeHeaders (fw_headers input),
           fq_body = map_option b64 body \<rparr> reqId (tb_relay b))"
proof -
  obtain y b1 where cur: "currentRoute opts now slug b = (y, b1)" by (cases "currentRoute opts now slug b")
  then have frame: "tb_guards b1 = tb_guards b" "tb_meter b1 = tb_meter b" "tb_relay b1 = tb_relay b"
    by (auto simp: currentRoute_apply split: option.splits)
  from cur obtain ro where y: "y = Inr ro" by (auto simp: currentRoute_apply split: option.splits)
  show ?thesis
    using assms frame
    by (cases "readBody (fw_method input) (fw_body input) (bl_requestBodyBytes (opt_limits opts))")
      (auto simp: relay_start_def cur y split: if_splits)
qed

lemma selected_fold:
  "fst ` set acc \<subseteq> A \<Longrightarrow> fst ` set (foldl (\<lambda>hs (nm, v). if js_toLowerCase nm \<in> A
     then AList.update (js_toLowerCase nm) v hs else hs) acc hs) \<subseteq> A"
proof (induction hs arbitrary: acc)
  case (Cons p hs)
  have "fst ` set (case p of (nm, v) \<Rightarrow> if js_toLowerCase nm \<in> A
      then AList.update (js_toLowerCase nm) v acc else acc) \<subseteq> A"
    using Cons.prems by (cases p) (simp add: dom_update)
  then show ?case unfolding foldl_Cons by (rule Cons.IH)
qed simp

lemma selected_headers: "fst ` set (selectEnvelopeHeaders hs) \<subseteq> set ENVELOPE_HEADERS"
  by (simp add: selectEnvelopeHeaders_def selected_fold)

lemma touch_frame:
  "touch opts now slug b = (x, b') \<Longrightarrow> x = Inr () \<and> tb_guards b' = tb_guards b \<and>
     tb_relay b' = tb_relay b \<and> tb_meter b' = tb_meter b \<and> tb_targets b' = tb_targets b"
  by (auto simp: touch_def split: option.splits if_splits)

subsection \<open>Properties\<close>

abbreviation broker_reachable :: "BrokerOptions \<Rightarrow> Broker \<Rightarrow> bool" where
  "broker_reachable opts \<equiv> (\<lambda>b b'. \<exists>now. broker_step opts now b b')\<^sup>*\<^sup>* new_broker"


definition lab_route :: RouteMetadata where
  "lab_route = \<lparr> rm_route_slug = ''lab'', rm_route_id = ''rte1'', rm_host_connection_id = ''c1'',
     rm_created_at = 0, rm_last_seen_at = 0, rm_last_heartbeat_at = 0,
     rm_expires_at = opt_routeTtlMs default_options, rm_status = Route_active, rm_host_connected = True \<rparr>"

definition lab_registration :: HostRegistration where
  "lab_registration = \<lparr> hr_route_slug = Some (JStr ''lab''), hr_target = None \<rparr>"

definition lab_broker :: Broker where
  "lab_broker = snd (register default_options (\<lambda>_. None) ''rte1'' ''c1'' 0 lab_registration new_broker)"

lemma lab_slug: "valid_route_slug ''lab''"
  by (simp add: valid_route_slug_def slug_chars_def)

lemma lab_broker_routes: "tb_routes lab_broker = [(''lab'', lab_route)]" "tb_targets lab_broker = []"
  using lab_slug
  by (simp_all add: lab_broker_def register_def lab_registration_def currentRoute_apply new_broker_def
      lab_route_def Let_def)

lemma lab_broker_step: "broker_step default_options 0 new_broker lab_broker"
  unfolding lab_broker_def by (rule broker_step.register)

lemma lab_broker_reachable: "broker_reachable default_options lab_broker"
  by (rule r_into_rtranclp) (use lab_broker_step in blast)

lemma lab_broker_inv: "broker_inv default_options lab_broker"
  using broker.reachable_inv [OF refl lab_broker_reachable] .

lemma lab_route_connected: "rm_host_connected (refresh default_options 1000 lab_route)"
  by (simp add: refresh_status lab_route_def default_options_def BROKER_LIMITS_def)


text \<open>Registration is exclusive and starts afresh. With an acceptable slug and target, it is
  refused with \<open>route_slug_taken\<close> exactly when the slug's route is active and attended; otherwise
  the slug gets the new ids, an active attended route that idles out one TTL later, its target or
  none, an empty relay queue if there was a route before, and every other slug keeps its route. A bad slug is
  \<open>invalid_registration\<close> and changes nothing.\<close>

lemma register_exclusive:
  assumes "broker_inv opts b" "register opts parse_url rte conn now reg b = (x, b')"
    and target: "(case hr_target reg of Some t \<Rightarrow> assertLocalTarget parse_url t | None \<Rightarrow> Inr ()) = Inr ()"
  shows "case hr_route_slug reg of
      Some (JStr slug) \<Rightarrow>
        if \<not> valid_route_slug slug
        then x = Inl (tunnel_error TE_invalid_registration 400 ''route slug is missing or malformed'') \<and> b' = b
        else if (\<exists>r. map_of (tb_routes b) slug = Some r \<and> rm_host_connected (refresh opts now r))
        then x = Inl (tunnel_error TE_route_slug_taken 409 ''an active host already holds this slug'') \<and>
          map_of (tb_routes b') = (map_of (tb_routes b))(slug := map_option (refresh opts now) (map_of (tb_routes b) slug)) \<and>
          tb_targets b' = tb_targets b \<and> tb_relay b' = tb_relay b
        else (\<exists>route. x = Inr route \<and> rm_route_id route = rte \<and> rm_host_connection_id route = conn \<and>
          rm_status route = Route_active \<and> rm_host_connected (refresh opts now route) =
             (now < rm_expires_at route \<and> 0 < opt_maxRouteLifetimeMs opts \<and> 0 \<le> opt_hostGraceMs opts) \<and>
          rm_expires_at route = now + opt_routeTtlMs opts \<and>
          map_of (tb_routes b') = (map_of (tb_routes b))(slug \<mapsto> route) \<and>
          map_of (tb_targets b') = (map_of (tb_targets b))(slug := hr_target reg) \<and>
          (map_of (tb_routes b) slug \<noteq> None \<longrightarrow> queue_of slug (tb_relay b') = []))
    | _ \<Rightarrow> x = Inl (tunnel_error TE_invalid_registration 400 ''route slug is missing or malformed'') \<and> b' = b"
proof (cases "\<exists>slug. hr_route_slug reg = Some (JStr slug) \<and> valid_route_slug slug")
  case False
  with assms(2) show ?thesis by (auto simp: register_def split: option.splits json.splits)
next
  case True
  then obtain slug where slug: "hr_route_slug reg = Some (JStr slug)" "valid_route_slug slug" by blast
  note inv = broker_inv_parts [OF assms(1)]
  obtain y b1 where cur: "currentRoute opts now slug b = (y, b1)" by (cases "currentRoute opts now slug b")
  note found = currentRoute_found [OF assms(1) cur]
  have conn: "rm_host_connected (refresh opts now r) \<Longrightarrow> rm_status (refresh opts now r) = Route_active" for r
    by (simp add: refresh_status)
  have empty: "queue_of slug (Relay.closeRoute slug (tb_relay b)) = []"
    using closeRoute_parts [OF inv(2), of slug] relay_inv_parts(4)
    by (auto simp: unclaimed_def filter_empty_conv)
  show ?thesis
  proof (cases "\<exists>r. map_of (tb_routes b) slug = Some r \<and> rm_host_connected (refresh opts now r)")
    case True
    then obtain r where r: "map_of (tb_routes b) slug = Some r" "rm_host_connected (refresh opts now r)" by blast
    have "x = Inl (tunnel_error TE_route_slug_taken 409 ''an active host already holds this slug'')" "b' = b1"
      using assms(2) r slug target cur found conn [OF r(2)] by (simp_all add: register_def)
    with r slug found show ?thesis by simp
  next
    case False
    let ?route = "\<lparr> rm_route_slug = slug, rm_route_id = rte, rm_host_connection_id = conn,
       rm_created_at = now, rm_last_seen_at = now, rm_last_heartbeat_at = now,
       rm_expires_at = now + opt_routeTtlMs opts, rm_status = Route_active, rm_host_connected = True \<rparr>"
    have run: "x = Inr ?route" "map_of (tb_routes b') = (map_of (tb_routes b))(slug \<mapsto> ?route)"
      "map_of (tb_targets b') = (map_of (tb_targets b))(slug := hr_target reg)"
      "tb_relay b' = (if map_of (tb_routes b) slug = None then tb_relay b else Relay.closeRoute slug (tb_relay b))"
      using assms(2) False slug target cur found
      by (auto simp: register_def Let_def update_conv' delete_conv' bindA_apply split: option.splits if_splits)
    with False slug empty show ?thesis by (auto simp: refresh_status)
  qed
qed

text \<open>A forwarded request holds exactly one concurrency slot, and only while it is under
  way. If the forward is refused, whatever refused it (a limit, the meter's admission, an
  unattended host, an oversized body), no slot of any route stays taken, nothing was queued and
  nothing metered. If it starts, exactly one slot of its route is taken, a relayed request is
  queued under its id with only the allowed headers, and its finish, with a response or an error,
  gives the slot back.\<close>

lemma forward_slot_balanced:
  assumes "forward_start opts b64 admission reqId now slug input b = (x, b')"
  shows "case x of
      Inl e \<Rightarrow> (\<forall>s. outstanding s (tb_guards b') = outstanding s (tb_guards b)) \<and>
        tb_relay b' = tb_relay b \<and> tb_meter b' = tb_meter b
    | Inr (h, w) \<Rightarrow> tb_meter b' = tb_meter b \<and>
        (\<forall>s. outstanding s (tb_guards b') = outstanding s (tb_guards b) + (if s = slug then 1 else 0)) \<and>
        (case w of Direct t \<Rightarrow> map_of (tb_targets b) slug = Some t \<and> tb_relay b' = tb_relay b
         | Relayed i body \<Rightarrow> i = reqId \<and> map_of (tb_targets b) slug = None \<and> admission = Inr () \<and>
             (\<exists>env. tb_relay b' = enqueue slug env reqId (tb_relay b) \<and>
                fst ` set (fq_headers env) \<subseteq> set ENVELOPE_HEADERS)) \<and>
        (\<forall>unb64 path body outcome s.
           outstanding s (tb_guards (snd (relay_finish unb64 slug path h body outcome b'))) =
           outstanding s (tb_guards b))"
proof -
  let ?gi = "\<lparr> gi_routeSlug = slug, gi_clientIp = fw_clientIp input,
      gi_isWait = (classifyPath (fw_path input) = ''wait''),
      gi_authenticated = (map_of (fw_headers input) ''authorization'' \<noteq> None) \<rparr>"
  obtain y g where ent: "enter (opt_limits opts) now ?gi (tb_guards b) = (y, g)"
    by (cases "enter (opt_limits opts) now ?gi (tb_guards b)")
  note hs = enter_outstanding [OF ent]
  show ?thesis
  proof (cases y)
    case (Inl e)
    with ent assms have "x = Inl e" "b' = b\<lparr> tb_guards := g \<rparr>" by (simp_all add: forward_start_def guard_enter_def)
    with hs Inl show ?thesis by (simp add: outstanding_def)
  next
    case (Inr h)
    let ?b1 = "b\<lparr> tb_guards := g \<rparr>"
    obtain u b2 where tch: "touch opts now slug ?b1 = (u, b2)" by (cases "touch opts now slug ?b1")
    note t = touch_frame [OF tch]
    have g: "bg_handles g = bg_handles (tb_guards b) @ [(slug, classifyPath (fw_path input) = ''wait'', False)]"
      "h = length (bg_handles (tb_guards b))"
      using hs Inr by simp_all
    have taken: "outstanding s g = outstanding s (tb_guards b) + (if s = slug then 1 else 0)" for s
      using g by (simp add: outstanding_def)
    have freed: "outstanding s (release h g) = outstanding s (tb_guards b)" for s
      using release_new [OF g(1), of s] g(2) by (simp add: outstanding_def)
    have fin: "tb_guards (snd (relay_finish unb64 slug path h body outcome b')) = release h (tb_guards b')"
      for unb64 path body outcome
      by (simp add: relay_finish_def Let_def bindA_apply split: sum.splits)
    have run: "or_release h (case map_of (tb_targets b) slug of Some t \<Rightarrow> ret (h, Direct t)
        | None \<Rightarrow> bindA (lift admission) (\<lambda>_. bindA (relay_start opts b64 reqId now slug input) (\<lambda>w. ret (h, w)))) b2
        = (x, b')"
      using assms ent Inr tch t by (simp add: forward_start_def guard_enter_def)
    show ?thesis
    proof (cases "map_of (tb_targets b) slug")
      case (Some tgt)
      with run have "x = Inr (h, Direct tgt)" "b' = b2" by (simp_all add: or_release_def)
      with Some t taken freed fin show ?thesis by simp
    next
      case None
      show ?thesis
      proof (cases admission)
        case (Inl e)
        with run None have "x = Inl e" "b' = b2\<lparr> tb_guards := release h (tb_guards b2) \<rparr>"
          by (simp_all add: or_release_def)
        with t freed show ?thesis by simp
      next
        case (Inr adm)
        obtain w b3 where rs: "relay_start opts b64 reqId now slug input b2 = (w, b3)"
          by (cases "relay_start opts b64 reqId now slug input b2")
        note o = relay_start_outcome [OF rs]
        show ?thesis
        proof (cases w)
          case (Inl e)
          with run None Inr rs have "x = Inl e" "b' = b3\<lparr> tb_guards := release h (tb_guards b3) \<rparr>"
            by (simp_all add: or_release_def)
          with o Inl t freed show ?thesis by simp
        next
          case started: (Inr w')
          with run None Inr rs have "x = Inr (h, w')" "b' = b3" by (simp_all add: or_release_def)
          with o started obtain body where w': "w' = Relayed reqId body" "tb_relay b' = enqueue slug
             \<lparr> fq_request_id = [], fq_route_slug = slug, fq_method = fw_method input,
               fq_path = fw_path input @ fw_search input,
               fq_headers = selectEnvelopeHeaders (fw_headers input),
               fq_body = map_option b64 body \<rparr> reqId (tb_relay b2)" by auto
          then have "\<exists>env. tb_relay b' = enqueue slug env reqId (tb_relay b) \<and>
              fst ` set (fq_headers env) \<subseteq> set ENVELOPE_HEADERS"
            using t selected_headers [of "fw_headers input"] by (intro exI conjI, simp, simp)
          with o \<open>x = Inr (h, w')\<close> \<open>b' = b3\<close> w' t taken freed fin None Inr show ?thesis by simp
        qed
      qed
    qed
  qed
qed

text \<open>What a participant sees of a route is decided by its status at that moment: a slug
  resolves exactly when its route is active, was seen within the TTL and has not reached the
  lifetime cap; an unknown, a closed and an expired route have their own errors.\<close>

lemma resolve_exact:
  assumes "broker_inv opts b" "resolve opts now slug b = (x, b')"
  shows "(case map_of (tb_routes b) slug of
      None \<Rightarrow> x = Inl (tunnel_error TE_route_not_found 404 ''no route is registered for this slug'') \<and> b' = b
    | Some r \<Rightarrow>
        if rm_status r = Route_closed
        then x = Inl (tunnel_error TE_route_closed 410 ''this route has been closed'')
        else if rm_status r = Route_active \<and> now < rm_expires_at r \<and>
                now < rm_created_at r + opt_maxRouteLifetimeMs opts
        then x = Inr (r\<lparr> rm_host_connected := (now - rm_last_heartbeat_at r \<le> opt_hostGraceMs opts) \<rparr>)
        else x = Inl (tunnel_error TE_route_expired 410 ''this route has expired'') \<and>
          (\<exists>r'. map_of (tb_routes b') slug = Some r' \<and> rm_status r' = Route_expired)) \<and>
    tb_relay b' = tb_relay b \<and> tb_guards b' = tb_guards b \<and>
    (\<forall>s. s \<noteq> slug \<longrightarrow> map_of (tb_routes b') s = map_of (tb_routes b) s)"
proof -
  obtain y b1 where cur: "currentRoute opts now slug b = (y, b1)" by (cases "currentRoute opts now slug b")
  note found = currentRoute_found [OF assms(1) cur]
  show ?thesis
  proof (cases "map_of (tb_routes b) slug")
    case None
    with cur have "b1 = b" by (simp add: currentRoute_apply)
    with None cur found assms(2) show ?thesis by (auto simp: resolve_def)
  next
    case (Some r)
    let ?r = "refresh opts now r"
    have b': "b' = b1" "x = (if rm_status ?r = Route_closed
        then Inl (tunnel_error TE_route_closed 410 ''this route has been closed'')
        else if rm_status ?r = Route_expired
        then Inl (tunnel_error TE_route_expired 410 ''this route has expired'') else Inr ?r)"
      using Some cur found assms(2) by (auto simp: resolve_def split: if_splits)
    have act: "rm_status r = Route_active \<Longrightarrow> now < rm_expires_at r \<Longrightarrow>
        now < rm_created_at r + opt_maxRouteLifetimeMs opts \<Longrightarrow>
        ?r = r\<lparr> rm_host_connected := (now - rm_last_heartbeat_at r \<le> opt_hostGraceMs opts) \<rparr>"
      by (simp add: refresh_def Let_def)
    show ?thesis
      using b' Some found act by (cases "rm_status r") (auto simp: refresh_status)
  qed
qed

text \<open>Closing with the route's identifiers is final for the registration: it rejects the
  requests in flight for the slug, and from then on, whatever the time, the slug resolves to
  \<open>route_closed\<close> and the host's heartbeats and polls get \<open>route_closed\<close>. It drops the
  local target, so a second close of a route that had one counts it as a public route: the first
  close meters nothing, the second a \<open>RouteClosed\<close>.\<close>

lemma closed_route_terminal:
  assumes "broker_inv opts b" "broker_closeRoute opts now rid cid b = (Inr slug, b')"
  shows "fst (resolve opts t slug b') = Inl (tunnel_error TE_route_closed 410 ''this route has been closed'') \<and>
    rh_inflight (tb_relay b') = filter (\<lambda>kv. ri_slug (snd kv) \<noteq> slug) (rh_inflight (tb_relay b)) \<and>
    map_of (tb_targets b') slug = None \<and>
    (\<exists>r. map_of (tb_routes b) slug = Some r \<and> rid = Some (JStr (rm_route_id r)) \<and>
       cid = Some (JStr (rm_host_connection_id r)) \<and>
       tb_meter b' = tb_meter b @ (if map_of (tb_targets b) slug = None
         then [RouteClosed slug (max 0 (now - rm_created_at r))] else []) \<and>
       fst (heartbeat opts t rid cid b') = Inl (tunnel_error TE_route_closed 410 ''this route has been closed'') \<and>
       fst (claimRelay opts t rid cid b') = Inl (tunnel_error TE_route_closed 410 ''route is not active'') \<and>
       tb_meter (snd (broker_closeRoute opts t rid cid b')) =
         tb_meter b' @ [RouteClosed slug (max 0 (t - rm_created_at r))])"
proof -
  note inv = broker_inv_parts [OF assms(1)]
  show ?thesis
  proof (cases rule: find_cases [OF assms(1), of now rid cid])
    case (1 e)
    with assms(2) show ?thesis by (simp add: broker_closeRoute_def)
  next
    case (2 slug' r)
    let ?c = "refresh opts now r\<lparr> rm_status := Route_closed \<rparr>"
    have parts: "slug' = slug" "tb_routes b' = AList.update slug ?c (tb_routes b)"
      "tb_relay b' = Relay.closeRoute slug (tb_relay b)"
      "tb_targets b' = AList.delete slug (tb_targets b)"
      "tb_meter b' = tb_meter b @ (if map_of (tb_targets b) slug = None
         then [RouteClosed slug (max 0 (now - rm_created_at r))] else [])"
      using 2 assms(2) by (auto simp: broker_closeRoute_def bindA_apply update_conv' delete_conv')
    have at: "map_of (tb_routes b') slug = Some ?c" "map_of (tb_targets b') slug = None"
      using parts by (simp_all add: update_conv' delete_conv')
    have closed: "rm_status (refresh opts t ?c) = Route_closed" by (simp add: refresh_status)
    have "fst (resolve opts t slug b') = Inl (tunnel_error TE_route_closed 410 ''this route has been closed'')"
      using at closed 2 parts(1) by (simp add: resolve_def currentRoute_apply bindA_apply)
    moreover have "rh_inflight (tb_relay b') = filter (\<lambda>kv. ri_slug (snd kv) \<noteq> slug) (rh_inflight (tb_relay b))"
      using closeRoute_parts(3) [OF inv(2)] parts(3) by simp
    moreover have "fst (heartbeat opts t rid cid b') = Inl (tunnel_error TE_route_closed 410 ''this route has been closed'') \<and>
          fst (claimRelay opts t rid cid b') = Inl (tunnel_error TE_route_closed 410 ''route is not active'') \<and>
          tb_meter (snd (broker_closeRoute opts t rid cid b')) =
            tb_meter b' @ [RouteClosed slug (max 0 (t - rm_created_at r))]"
    proof -
      have "is_string rid \<and> is_string cid" using 2 by simp
      moreover have "findByConnection opts t rid cid b' = (Inr (refresh opts t ?c),
            b'\<lparr> tb_routes := AList.update slug (refresh opts t ?c) (tb_routes b') \<rparr>)"
        using find_again [OF assms(1) 2(6), of b' ?c t] 2 parts by simp
      ultimately show ?thesis using closed 2 at parts(1)
        by (simp add: heartbeat_def claimRelay_def broker_closeRoute_def bindA_apply)
    qed
    ultimately show ?thesis using 2 parts at by blast
  qed
qed

text \<open>A host's answer settles the request it names and no other, at most once, and only
  with identifiers of some registered route; but which route is not compared with the request's:
  the request may belong to any slug, and the answering route may be closed or expired.\<close>

lemma respondRelay_settles:
  assumes "broker_inv opts b" "respondRelay opts now rid cid req resp b = (x, b')"
  shows "(case map_of (rh_inflight (tb_relay b)) req of
      Some item \<Rightarrow>
        if (\<exists>slug r. (slug, r) \<in> set (tb_routes b) \<and> rid = Some (JStr (rm_route_id r)) \<and>
              cid = Some (JStr (rm_host_connection_id r)))
        then (\<exists>out. rh_settled (tb_relay b') = rh_settled (tb_relay b) @ [(req, out)] \<and>
            (x = Inr () \<longrightarrow> out = Inr resp)) \<and>
          rh_inflight (tb_relay b') = AList.delete req (rh_inflight (tb_relay b)) \<and>
          fst (respondRelay opts t rid cid req resp b') =
            Inl (tunnel_error TE_unknown_request 404 ''no in-flight request for this id'')
        else x = Inl (tunnel_error TE_route_not_found 404 ''no route matches these identifiers'') \<and> b' = b
    | None \<Rightarrow> (\<exists>e. x = Inl e) \<and> tb_relay b' = tb_relay b)"
proof (cases rule: find_cases [OF assms(1), of now rid cid])
  case (1 e)
  have none: "find (\<lambda>kr. Some (JStr (rm_route_id (snd kr))) = rid \<and>
      Some (JStr (rm_host_connection_id (snd kr))) = cid) (tb_routes b) = None"
    using 1(1) by (auto simp: findByConnection_def bindA_apply split: option.splits prod.splits)
  then have "\<not> (\<exists>slug r. (slug, r) \<in> set (tb_routes b) \<and> rid = Some (JStr (rm_route_id r)) \<and>
              cid = Some (JStr (rm_host_connection_id r)))"
    by (auto simp: find_None_iff)
  with 1 assms(2) show ?thesis by (auto simp: respondRelay_def split: option.split)
next
  case (2 slug r)
  note inv = broker_inv_parts [OF assms(1)]
  let ?n = "bl_responseBodyBytes (opt_limits opts)"
  have run: "x = fst (respond ?n req resp (tb_relay b))" "tb_relay b' = snd (respond ?n req resp (tb_relay b))"
    "tb_routes b' = AList.update slug (refresh opts now r) (tb_routes b)"
    using assms(2) 2(6) by (auto simp: respondRelay_def split: prod.splits)
  show ?thesis
  proof (cases "map_of (rh_inflight (tb_relay b)) req")
    case None
    with run show ?thesis by (simp add: respond_def)
  next
    case (Some item)
    have ex: "\<exists>slug r. (slug, r) \<in> set (tb_routes b) \<and> rid = Some (JStr (rm_route_id r)) \<and>
              cid = Some (JStr (rm_host_connection_id r))"
      using 2 map_of_SomeD by fastforce
    have sett: "\<exists>out. tb_relay b' = settle req out (tb_relay b) \<and> (x = Inr () \<longrightarrow> out = Inr resp)"
      using run Some by (auto simp: respond_settle Let_def split: if_splits)
    then have parts: "rh_inflight (tb_relay b') = AList.delete req (rh_inflight (tb_relay b))"
      "\<exists>out. rh_settled (tb_relay b') = rh_settled (tb_relay b) @ [(req, out)] \<and> (x = Inr () \<longrightarrow> out = Inr resp)"
      using settle_parts [OF inv(2) Some] by auto
    have gone: "map_of (rh_inflight (tb_relay b')) req = None"
      by (simp add: parts(1) delete_conv')
    have "findByConnection opts t rid cid b' = (Inr (refresh opts t (refresh opts now r)),
        b'\<lparr> tb_routes := AList.update slug (refresh opts t (refresh opts now r)) (tb_routes b') \<rparr>)"
      using find_again [OF assms(1) 2(6), of b' "refresh opts now r" t] 2(2) run(3) by simp
    then have "fst (respondRelay opts t rid cid req resp b') =
            Inl (tunnel_error TE_unknown_request 404 ''no in-flight request for this id'')"
      using gone by (simp add: respondRelay_def respond_def)
    with Some ex parts show ?thesis by simp
  qed
qed

end
