(* ===== verification/Redaction.thy ===== *)
theory Redaction
  imports JsLib
begin

text \<open>
  \<open>redactSnapshotText\<close> of \<open>storage/joined-history-store.ts\<close>: four global regular-expression
  replacements and a cut. Each expression is a matcher that returns the length of its match at the
  head of a string; \<open>replace_all\<close> is \<open>String.replace\<close> with the \<open>g\<close> flag. The lemmas show that what
  is left holds no \<open>tgl_\<close> token and no bearer credential.
\<close>

subsection \<open>The expressions\<close>

fun replace_all :: "(string \<Rightarrow> nat option) \<Rightarrow> string \<Rightarrow> string \<Rightarrow> string" where
  "replace_all m r [] = []"
| "replace_all m r (c # cs) =
     (case m (c # cs) of
        Some n \<Rightarrow> r @ replace_all m r (drop (n - 1) cs)
      | None \<Rightarrow> c # replace_all m r cs)"

text \<open>A literal under the \<open>i\<close> flag.\<close>

definition ci_starts :: "string \<Rightarrow> string \<Rightarrow> bool" where
  "ci_starts p s \<longleftrightarrow> starts_with p (js_toLowerCase s)"

text \<open>\<open>/https?:\/\/(?=\S*(?:token=|snapshot=|tgl_|\/card))\S+/gi\<close>.\<close>

definition url_match :: "string \<Rightarrow> nat option" where
  "url_match s =
     (let p = (if ci_starts ''http://'' s then 7 else if ci_starts ''https://'' s then 8 else 0);
          run = takeWhile (\<lambda>c. \<not> js_space c) (drop p s)
      in if p \<noteq> 0 \<and> run \<noteq> [] \<and>
            list_ex (str_includes (js_toLowerCase run)) [''token='', ''snapshot='', ''tgl_'', ''/card'']
         then Some (p + length run) else None)"

text \<open>\<open>/Bearer\s+\S+/gi\<close>.\<close>

definition bearer_match :: "string \<Rightarrow> nat option" where
  "bearer_match s =
     (let sp = takeWhile js_space (drop 6 s);
          cred = takeWhile (\<lambda>c. \<not> js_space c) (drop (6 + length sp) s)
      in if ci_starts ''bearer'' s \<and> sp \<noteq> [] \<and> cred \<noteq> []
         then Some (6 + length sp + length cred) else None)"

text \<open>\<open>/[#?&]?(?:token|snapshot)=[^\s&#"']+/gi\<close>.\<close>

definition param_match :: "string \<Rightarrow> nat option" where
  "param_match s =
     (let o1 = (case s of c # _ \<Rightarrow> if c \<in> set ''#?&'' then 1 else 0 | [] \<Rightarrow> 0);
          s1 = drop o1 s;
          p = (if ci_starts ''token='' s1 then 6 else if ci_starts ''snapshot='' s1 then 9 else 0);
          run = takeWhile (\<lambda>c. \<not> js_space c \<and> c \<notin> set [CHR ''&'', CHR ''#'', CHR 0x22, CHR 0x27]) (drop p s1)
      in if p \<noteq> 0 \<and> run \<noteq> [] then Some (o1 + p + length run) else None)"

text \<open>\<open>/tgl_[A-Za-z0-9_-]+/g\<close>.\<close>

definition token_char :: "char \<Rightarrow> bool" where
  "token_char c \<longleftrightarrow> c \<in> set ''ABCDEFGHIJKLMNOPQRSTUVWXYZabcdefghijklmnopqrstuvwxyz0123456789_-''"

definition tgl_match :: "string \<Rightarrow> nat option" where
  "tgl_match s =
     (let run = takeWhile token_char (drop 4 s)
      in if starts_with ''tgl_'' s \<and> run \<noteq> [] then Some (4 + length run) else None)"

definition SNAPSHOT_MAX_TEXT_CHARS :: nat where
  "SNAPSHOT_MAX_TEXT_CHARS = 4000"

definition redactSnapshotText :: "string \<Rightarrow> string" where
  "redactSnapshotText value =
     take SNAPSHOT_MAX_TEXT_CHARS
       (replace_all tgl_match ''[redacted-token]''
       (replace_all param_match ''[redacted-token]''
       (replace_all bearer_match ''[redacted-credential]''
       (replace_all url_match ''[redacted-url]'' value))))"

subsection \<open>What a match looks like\<close>

definition matches_nowhere :: "(string \<Rightarrow> nat option) \<Rightarrow> string \<Rightarrow> bool" where
  "matches_nowhere m s \<longleftrightarrow> (\<forall>i. m (drop i s) = None)"

lemma starts_with_append: "starts_with p s \<longleftrightarrow> (\<exists>t. s = p @ t)"
  by (metis append_take_drop_id starts_with_def append_eq_conv_conj)

lemma takeWhile_nonempty: "takeWhile P s \<noteq> [] \<longleftrightarrow> (\<exists>c t. s = c # t \<and> P c)"
  by (cases s) auto

lemma tgl_match_iff: "tgl_match s \<noteq> None \<longleftrightarrow> (\<exists>c t. s = ''tgl_'' @ c # t \<and> token_char c)"
  by (auto simp: tgl_match_def Let_def starts_with_append takeWhile_nonempty)

lemma bearer_match_iff:
  "bearer_match s \<noteq> None \<longleftrightarrow>
     (\<exists>w sp c t. s = w @ sp @ c # t \<and> js_toLowerCase w = ''bearer'' \<and> sp \<noteq> [] \<and>
        (\<forall>x \<in> set sp. js_space x) \<and> \<not> js_space c)"
  (is "?l \<longleftrightarrow> ?r")
proof
  assume ?l
  let ?sp = "takeWhile js_space (drop 6 s)"
  from \<open>?l\<close> have ci: "ci_starts ''bearer'' s" and sp: "?sp \<noteq> []"
    and cred: "takeWhile (\<lambda>c. \<not> js_space c) (drop (6 + length ?sp) s) \<noteq> []"
    by (auto simp: bearer_match_def Let_def split: if_splits)
  from cred obtain c t where c: "drop (6 + length ?sp) s = c # t" "\<not> js_space c"
    by (auto simp: takeWhile_nonempty)
  have w: "js_toLowerCase (take 6 s) = ''bearer''"
  proof -
    have "length ''bearer'' = 6" by simp
    with ci show ?thesis unfolding ci_starts_def starts_with_def js_toLowerCase_def take_map by metis
  qed
  have "drop 6 s = ?sp @ drop (length ?sp) (drop 6 s)"
    by (metis append_eq_conv_conj takeWhile_dropWhile_id)
  then have "drop 6 s = ?sp @ c # t" using c(1) by (simp add: add.commute)
  then have "s = take 6 s @ ?sp @ c # t" by (metis append_take_drop_id)
  with w sp c(2) show ?r by (metis set_takeWhileD)
next
  assume ?r
  then obtain w sp c t where s: "s = w @ sp @ c # t" "js_toLowerCase w = ''bearer''" "sp \<noteq> []"
    "\<forall>x \<in> set sp. js_space x" "\<not> js_space c" by blast
  have len: "length w = 6" using arg_cong [OF s(2), of length] by (simp add: js_toLowerCase_def)
  have "takeWhile js_space (sp @ c # t) = sp" using s by (simp add: takeWhile_append2)
  then show ?l using s len
    by (auto simp: bearer_match_def Let_def ci_starts_def starts_with_def js_toLowerCase_def take_map
        eval_nat_numeral)
qed

subsection \<open>What a replacement keeps away\<close>

text \<open>The output follows the input up to the first marker.\<close>

lemma replace_all_agrees:
  assumes "\<forall>s n. m s = Some n \<longrightarrow> s \<noteq> [] \<and> \<not> js_space (hd s)" and "r = CHR ''['' # r'"
  shows "\<exists>p u v. s = p @ u \<and> replace_all m r s = p @ v \<and>
    (u = [] \<and> v = [] \<or> u \<noteq> [] \<and> \<not> js_space (hd u) \<and> (\<exists>v'. v = CHR ''['' # v'))"
proof (induction s)
  case (Cons c cs)
  show ?case
  proof (cases "m (c # cs)")
    case None
    from Cons.IH obtain p u v where "cs = p @ u" "replace_all m r cs = p @ v"
      "u = [] \<and> v = [] \<or> u \<noteq> [] \<and> \<not> js_space (hd u) \<and> (\<exists>v'. v = CHR ''['' # v')" by blast
    with None show ?thesis by (intro exI [of _ "c # p"] exI [of _ u] exI [of _ v]) simp
  next
    case (Some n)
    with assms(1) [rule_format, OF Some] assms(2) show ?thesis
      by (intro exI [of _ "[]"] exI [of _ "c # cs"] exI [of _ "r @ replace_all m r (drop (n - 1) cs)"]) simp
  qed
qed simp

text \<open>
  A pattern that no marker can complete stays away once it is away, or once the replacement looks
  for it.
\<close>

lemma replace_all_keeps_away:
  assumes m: "\<forall>s n. m s = Some n \<longrightarrow> s \<noteq> [] \<and> \<not> js_space (hd s)" and r: "r = CHR ''['' # r'"
    and resume: "\<And>p u v. Q (p @ CHR ''['' # v) \<Longrightarrow> u \<noteq> [] \<Longrightarrow> \<not> js_space (hd u) \<Longrightarrow> Q (p @ u)"
    and marker: "\<And>i x. i < length r \<Longrightarrow> \<not> Q (drop i r @ x)"
    and "\<not> Q []" and "\<And>i. m (drop i s) = None \<Longrightarrow> \<not> Q (drop i s)"
  shows "\<not> Q (drop i (replace_all m r s))"
  using assms(6)
proof (induction s arbitrary: i rule: measure_induct_rule [where f = length])
  case (less s)
  show ?case
  proof (cases s)
    case Nil
    with \<open>\<not> Q []\<close> show ?thesis by simp
  next
    case (Cons c cs)
    have IH: "\<not> Q (drop i (replace_all m r (drop k cs)))" for i k
    proof (rule less.IH)
      show "length (drop k cs) < length s" using Cons by simp
      have "drop j (drop k cs) = drop (j + Suc k) s" for j using Cons by simp
      then show "m (drop j (drop k cs)) = None \<Longrightarrow> \<not> Q (drop j (drop k cs))" for j
        using less.prems by metis
    qed
    show ?thesis
    proof (cases "m s")
      case (Some n)
      then have out: "replace_all m r s = r @ replace_all m r (drop (n - 1) cs)" using Cons by simp
      show ?thesis
      proof (cases "i < length r")
        case True
        with marker show ?thesis by (simp add: out)
      next
        case False
        with IH [of "i - length r"] show ?thesis by (simp add: out)
      qed
    next
      case None
      then have out: "replace_all m r s = c # replace_all m r cs" using Cons by simp
      show ?thesis
      proof (cases i)
        case 0
        have no: "\<not> Q (c # cs)" using less.prems [of 0] None Cons by simp
        obtain p u v where agree: "cs = p @ u" "replace_all m r cs = p @ v"
          "u = [] \<and> v = [] \<or> u \<noteq> [] \<and> \<not> js_space (hd u) \<and> (\<exists>v'. v = CHR ''['' # v')"
          using replace_all_agrees [where m = m and r = r and r' = r' and s = cs, OF m r]
          by - (elim exE conjE, rule that, assumption+)
        from agree(3) have "\<not> Q (c # replace_all m r cs)"
        proof (elim disjE conjE exE)
          show "u = [] \<Longrightarrow> v = [] \<Longrightarrow> ?thesis" using no agree by simp
          show "u \<noteq> [] \<Longrightarrow> \<not> js_space (hd u) \<Longrightarrow> v = CHR ''['' # v' \<Longrightarrow> ?thesis" for v'
            using no agree(1,2) resume [of "c # p" v' u] by auto
        qed
        then show ?thesis by (simp add: out 0)
      next
        case (Suc j)
        with IH [of j 0] show ?thesis by (simp add: out)
      qed
    qed
  qed
qed

lemma matches_nowhere_take: 
  assumes "\<And>a b. m a \<noteq> None \<Longrightarrow> m (a @ b) \<noteq> None" "matches_nowhere m s"
  shows "matches_nowhere m (take n s)"
  unfolding matches_nowhere_def
proof
  fix i
  have "drop i s = drop i (take n s) @ drop (n - i) (drop i s)"
    unfolding drop_take by (metis append_take_drop_id)
  with assms show "m (drop i (take n s)) = None" unfolding matches_nowhere_def by metis
qed

subsection \<open>Tokens and bearer credentials\<close>

lemma tgl_match_conv:
  "tgl_match s \<noteq> None \<longleftrightarrow> 5 \<le> length s \<and> take 4 s = ''tgl_'' \<and> token_char (s ! 4)"
proof -
  have "takeWhile token_char (drop 4 s) \<noteq> [] \<longleftrightarrow> 5 \<le> length s \<and> token_char (s ! 4)"
  proof (cases "5 \<le> length s")
    case True
    then have "drop 4 s = s ! 4 # drop 5 s" using Cons_nth_drop_Suc [of 4 s] by simp
    with True show ?thesis by simp
  qed simp
  moreover have "length ''tgl_'' = 4" by simp
  then have "starts_with ''tgl_'' s \<longleftrightarrow> take 4 s = ''tgl_''" unfolding starts_with_def by metis
  ultimately show ?thesis by (auto simp: tgl_match_def Let_def)
qed

lemma starts_hd:
  "starts_with (c # p) s \<Longrightarrow> s \<noteq> [] \<and> hd s = c"
  "ci_starts (c # p) s \<Longrightarrow> s \<noteq> [] \<and> js_lower (hd s) = c"
  by (cases s; simp add: starts_with_def ci_starts_def js_toLowerCase_def)+

lemma space_lower: "js_space c \<Longrightarrow> js_lower c = c"
  by (auto simp: js_space_def js_lower_def)

lemma matches_start:
  "bearer_match s = Some n \<Longrightarrow> s \<noteq> [] \<and> \<not> js_space (hd s)"
  "tgl_match s = Some n \<Longrightarrow> s \<noteq> [] \<and> \<not> js_space (hd s)"
  "param_match s = Some n \<Longrightarrow> s \<noteq> [] \<and> \<not> js_space (hd s)"
proof -
  have low: "js_lower c \<in> {CHR ''b'', CHR ''t'', CHR ''s''} \<Longrightarrow> \<not> js_space c" for c
    using space_lower [of c] by (auto simp: js_space_def)
  show "bearer_match s = Some n \<Longrightarrow> s \<noteq> [] \<and> \<not> js_space (hd s)"
    using starts_hd(2) [of _ _ s] low by (auto simp: bearer_match_def Let_def split: if_splits)
  show "tgl_match s = Some n \<Longrightarrow> s \<noteq> [] \<and> \<not> js_space (hd s)"
    using starts_hd(1) [of _ _ s] by (auto simp: tgl_match_def Let_def js_space_def split: if_splits)
  show "param_match s = Some n \<Longrightarrow> s \<noteq> [] \<and> \<not> js_space (hd s)"
    using starts_hd(2) [of _ _ s] low
    by (cases s) (auto simp: param_match_def Let_def js_space_def split: if_splits)
qed

lemma redacted_token_marker:
  "i < length ''[redacted-token]'' \<Longrightarrow> tgl_match (drop i ''[redacted-token]'' @ x) = None"
  by (auto simp: tgl_match_def Let_def starts_with_def less_Suc_eq)

lemma tgl_resume:
  assumes "tgl_match (p @ CHR ''['' # v) \<noteq> None"
  shows "tgl_match (p @ u) \<noteq> None"
proof -
  let ?s = "p @ CHR ''['' # v"
  have s: "5 \<le> length ?s" "take 4 ?s = ''tgl_''" "token_char (?s ! 4)"
    using assms unfolding tgl_match_conv by auto
  have "\<not> length p < 4"
  proof
    assume "length p < 4"
    then have "CHR ''['' \<in> set (take 4 ?s)" by (auto simp: take_Cons' split: nat.splits)
    with s(2) show False by simp
  qed
  moreover have "length p \<noteq> 4" using s(3) by (auto simp: nth_append token_char_def)
  ultimately have "5 \<le> length p" by simp
  with s show ?thesis unfolding tgl_match_conv by (simp add: nth_append)
qed

lemma bearer_marker:
  assumes "\<forall>c \<in> set r. js_lower c \<noteq> CHR ''b''" "i < length r"
  shows "bearer_match (drop i r @ x) = None"
proof (rule ccontr)
  assume "bearer_match (drop i r @ x) \<noteq> None"
  then have "js_lower (hd (drop i r @ x)) = CHR ''b''"
    using starts_hd(2) [of "CHR ''b''" "''earer''" "drop i r @ x"]
    by (auto simp: bearer_match_def Let_def split: if_splits)
  moreover have "hd (drop i r @ x) \<in> set r" using assms(2) by (simp add: hd_append hd_drop_conv_nth)
  ultimately show False using assms(1) by blast
qed

lemma bearer_resume:
  assumes "bearer_match (p @ CHR ''['' # v) \<noteq> None" "u \<noteq> []" "\<not> js_space (hd u)"
  shows "bearer_match (p @ u) \<noteq> None"
proof -
  from assms(1) obtain w sp c t where eq: "p @ CHR ''['' # v = (w @ sp) @ c # t"
    and w: "js_toLowerCase w = ''bearer''" and sp: "sp \<noteq> []" "\<forall>x \<in> set sp. js_space x" and c: "\<not> js_space c"
    unfolding bearer_match_iff by auto
  have nb: "CHR ''['' \<notin> set (w @ sp)"
  proof
    assume "CHR ''['' \<in> set (w @ sp)"
    moreover have "\<not> js_space (CHR ''['')" by (simp add: js_space_def)
    ultimately have "js_lower (CHR ''['') \<in> js_lower ` set w" using sp by auto
    moreover have "js_lower ` set w = set ''bearer''" using arg_cong [OF w, of set] by (simp add: js_toLowerCase_def)
    ultimately show False by (simp add: js_lower_def)
  qed
  from eq consider us where "p = (w @ sp) @ us" "us @ CHR ''['' # v = c # t"
    | us where "p @ us = w @ sp" "CHR ''['' # v = us @ c # t"
    unfolding append_eq_append_conv2 by metis
  then show ?thesis
  proof cases
    case (1 us)
    obtain d x where "us @ u = d # x" "\<not> js_space d"
      using 1(2) c assms(2,3) by (cases us; cases u) auto
    with 1(1) w sp show ?thesis unfolding bearer_match_iff by (metis append.assoc)
  next
    case (2 us)
    show ?thesis
    proof (cases us)
      case Nil
      with 2 have "p @ u = w @ sp @ hd u # tl u" using assms(2) by simp
      with w sp assms(3) show ?thesis unfolding bearer_match_iff by blast
    next
      case (Cons a as)
      with 2(2) have "CHR ''['' \<in> set us" by simp
      with arg_cong [OF 2(1), of set] nb show ?thesis by auto
    qed
  qed
qed

lemma tgl_more: "tgl_match a \<noteq> None \<Longrightarrow> tgl_match (a @ b) \<noteq> None"
  unfolding tgl_match_conv by (auto simp: nth_append)

lemma bearer_more: "bearer_match a \<noteq> None \<Longrightarrow> bearer_match (a @ b) \<noteq> None"
  unfolding bearer_match_iff by (elim exE conjE, intro exI conjI, erule subst, simp_all)

lemma redacted_no_token: "matches_nowhere tgl_match (redactSnapshotText s)"
proof -
  have "\<not> tgl_match (drop i (replace_all tgl_match ''[redacted-token]'' t)) \<noteq> None" for i t
  proof (rule replace_all_keeps_away [where Q = "\<lambda>s. tgl_match s \<noteq> None" and r' = "''redacted-token]''"])
    show "\<forall>s n. tgl_match s = Some n \<longrightarrow> s \<noteq> [] \<and> \<not> js_space (hd s)" using matches_start(2) by blast
    show "tgl_match (p @ CHR ''['' # v) \<noteq> None \<Longrightarrow> tgl_match (p @ u) \<noteq> None" for p u v by (rule tgl_resume)
    show "j < length ''[redacted-token]'' \<Longrightarrow> \<not> tgl_match (drop j ''[redacted-token]'' @ x) \<noteq> None" for j x
      using redacted_token_marker [of j x] by simp
    show "\<not> tgl_match [] \<noteq> None" by (simp add: tgl_match_def)
  qed simp_all
  then have "matches_nowhere tgl_match (replace_all tgl_match ''[redacted-token]'' t)" for t
    unfolding matches_nowhere_def by blast
  then show ?thesis unfolding redactSnapshotText_def by (intro matches_nowhere_take tgl_more)
qed

lemma bearer_kept_away:
  assumes "\<forall>s n. m s = Some n \<longrightarrow> s \<noteq> [] \<and> \<not> js_space (hd s)" "r = CHR ''['' # r'"
    "\<forall>c \<in> set r. js_lower c \<noteq> CHR ''b''" "m = bearer_match \<or> matches_nowhere bearer_match s"
  shows "matches_nowhere bearer_match (replace_all m r s)"
proof -
  have "\<not> bearer_match (drop i (replace_all m r s)) \<noteq> None" for i
  proof (rule replace_all_keeps_away [where Q = "\<lambda>s. bearer_match s \<noteq> None", OF assms(1,2)])
    show "bearer_match (p @ CHR ''['' # v) \<noteq> None \<Longrightarrow> u \<noteq> [] \<Longrightarrow> \<not> js_space (hd u) \<Longrightarrow>
        bearer_match (p @ u) \<noteq> None" for p u v by (rule bearer_resume)
    show "j < length r \<Longrightarrow> \<not> bearer_match (drop j r @ x) \<noteq> None" for j x
      using bearer_marker [OF assms(3)] by metis
    show "\<not> bearer_match [] \<noteq> None" by (simp add: bearer_match_def)
    show "m (drop j s) = None \<Longrightarrow> \<not> bearer_match (drop j s) \<noteq> None" for j
      using assms(4) unfolding matches_nowhere_def by metis
  qed
  then show ?thesis unfolding matches_nowhere_def by blast
qed

lemma redacted_no_bearer: "matches_nowhere bearer_match (redactSnapshotText s)"
proof -
  have marks: "\<forall>c \<in> set ''[redacted-token]''. js_lower c \<noteq> CHR ''b''"
    "\<forall>c \<in> set ''[redacted-credential]''. js_lower c \<noteq> CHR ''b''"
    by (simp_all add: js_lower_def)
  have 1: "matches_nowhere bearer_match (replace_all bearer_match ''[redacted-credential]'' t)" for t
    by (rule bearer_kept_away [OF _ refl marks(2)]) (use matches_start(1) in blast)+
  have 2: "matches_nowhere bearer_match t \<Longrightarrow>
      matches_nowhere bearer_match (replace_all param_match ''[redacted-token]'' t)" for t
    by (rule bearer_kept_away [OF _ refl marks(1)]) (use matches_start(3) in blast)+
  have 3: "matches_nowhere bearer_match t \<Longrightarrow>
      matches_nowhere bearer_match (replace_all tgl_match ''[redacted-token]'' t)" for t
    by (rule bearer_kept_away [OF _ refl marks(1)]) (use matches_start(2) in blast)+
  show ?thesis unfolding redactSnapshotText_def by (intro matches_nowhere_take bearer_more 1 2 3)
qed

lemma redact_length: "length (redactSnapshotText s) \<le> SNAPSHOT_MAX_TEXT_CHARS"
  by (simp add: redactSnapshotText_def)

end
