(* ===== verification/JoinedHistory.thy ===== *)
theory JoinedHistory
  imports Redaction Interfaces
begin

text \<open>
  \<open>storage/joined-history-store.ts\<close>: the device-local snapshot of a joined room. \<open>dh_history\<close> maps
  the file name of a snapshot to its file; \<open>digest\<close> is SHA-256. A stored file decodes to
  \<open>None\<close> (null, or no object) or to the fields the reader looks at, each present when it has
  the type the reader asks for. The joined rooms of the same device (\<open>joined-rooms-store.ts\<close>) are
  in the same record. The JSON text of a snapshot is modelled because the byte cap measures it.
\<close>

record SnapshotMessage =
  sm_id :: nat
  sm_from :: string
  sm_ts :: string
  sm_type :: "string option"
  sm_text :: string

record SnapshotForumComment =
  sc_id :: string
  sc_author :: string
  sc_ts :: string
  sc_body :: string

record SnapshotForumPost =
  sp_id :: string
  sp_channel :: string
  sp_title :: string
  sp_author :: string
  sp_ts :: string
  sp_status :: string
  sp_body :: string
  sp_comments :: "SnapshotForumComment list"

record JoinedHistorySnapshot =
  js_roomId :: string
  js_baseUrl :: string
  js_cursor :: nat
  js_savedAt :: string
  js_messages :: "SnapshotMessage list"
  js_forumPosts :: "SnapshotForumPost list"

record HistoryFile =
  hf_roomId :: "string option"
  hf_baseUrl :: "string option"
  hf_cursor :: "nat option"
  hf_savedAt :: "string option"
  hf_messages :: "SnapshotMessage list option"
  hf_forumPosts :: "SnapshotForumPost list option"

definition SNAPSHOT_MAX_MESSAGES :: nat where "SNAPSHOT_MAX_MESSAGES = 250"
definition SNAPSHOT_MAX_FORUM_POSTS :: nat where "SNAPSHOT_MAX_FORUM_POSTS = 50"
definition SNAPSHOT_MAX_COMMENTS_PER_POST :: nat where "SNAPSHOT_MAX_COMMENTS_PER_POST = 100"
definition SNAPSHOT_MAX_BYTES :: nat where "SNAPSHOT_MAX_BYTES = 200000"

subsection \<open>File names\<close>

text \<open>The text that is hashed: both parts prefixed with their lengths.\<close>

definition history_key :: "string \<times> string \<Rightarrow> string" where
  "history_key key = nat_str (length (fst key)) @ '':'' @ fst key @ [CHR 0x0A] @
     nat_str (length (snd key)) @ '':'' @ snd key"

definition joinedHistoryPath :: "(string \<Rightarrow> string) \<Rightarrow> string \<times> string \<Rightarrow> string" where
  "joinedHistoryPath digest key = digest (history_key key) @ ''.json''"

subsection \<open>JSON text\<close>

datatype jtext = TNum nat | TStr string | TArr "jtext list" | TObj "(string \<times> jtext) list"

definition hex_digit :: "nat \<Rightarrow> char" where
  "hex_digit n = ''0123456789abcdef'' ! n"

definition json_escape :: "char \<Rightarrow> string" where
  "json_escape c =
     (if c = CHR 0x22 then [CHR 0x5C, CHR 0x22] else if c = CHR 0x5C then [CHR 0x5C, CHR 0x5C]
      else if c = CHR 0x08 then [CHR 0x5C, CHR ''b''] else if c = CHR 0x0C then [CHR 0x5C, CHR ''f'']
      else if c = CHR 0x0A then [CHR 0x5C, CHR ''n''] else if c = CHR 0x0D then [CHR 0x5C, CHR ''r'']
      else if c = CHR 0x09 then [CHR 0x5C, CHR ''t'']
      else if (of_char c :: nat) < 32
      then CHR 0x5C # ''u00'' @ [hex_digit (of_char c div 16), hex_digit (of_char c mod 16)]
      else [c])"

definition json_quote :: "string \<Rightarrow> string" where
  "json_quote s = [CHR 0x22] @ concat (map json_escape s) @ [CHR 0x22]"

text \<open>\<open>JSON.stringify(v, null, 2)\<close> at an indentation.\<close>

fun stringify :: "nat \<Rightarrow> jtext \<Rightarrow> string" where
  "stringify ind (TNum n) = nat_str n"
| "stringify ind (TStr s) = json_quote s"
| "stringify ind (TArr xs) =
     (if xs = [] then ''[]''
      else ''['' @ [CHR 0x0A] @ replicate (ind + 2) CHR '' '' @
           js_join_str ('','' @ [CHR 0x0A] @ replicate (ind + 2) CHR '' '') (map (stringify (ind + 2)) xs) @
           [CHR 0x0A] @ replicate ind CHR '' '' @ '']'')"
| "stringify ind (TObj ps) =
     (if ps = [] then ''{}''
      else ''{'' @ [CHR 0x0A] @ replicate (ind + 2) CHR '' '' @
           js_join_str ('','' @ [CHR 0x0A] @ replicate (ind + 2) CHR '' '')
             (map (\<lambda>(k, v). json_quote k @ '': '' @ stringify (ind + 2) v) ps) @
           [CHR 0x0A] @ replicate ind CHR '' '' @ ''}'')"

text \<open>\<open>Buffer.byteLength(text, "utf8")\<close>.\<close>

definition byteLength :: "string \<Rightarrow> nat" where
  "byteLength s = sum_list (map (\<lambda>c. if (of_char c :: nat) < 128 then 1 else 2) s)"

definition message_json :: "SnapshotMessage \<Rightarrow> jtext" where
  "message_json m = TObj ([(''id'', TNum (sm_id m)), (''from'', TStr (sm_from m)), (''ts'', TStr (sm_ts m))] @
     (case sm_type m of Some t \<Rightarrow> [(''type'', TStr t)] | None \<Rightarrow> []) @ [(''text'', TStr (sm_text m))])"

definition comment_json :: "SnapshotForumComment \<Rightarrow> jtext" where
  "comment_json c = TObj [(''id'', TStr (sc_id c)), (''author'', TStr (sc_author c)),
     (''ts'', TStr (sc_ts c)), (''body'', TStr (sc_body c))]"

definition post_json :: "SnapshotForumPost \<Rightarrow> jtext" where
  "post_json p = TObj [(''id'', TStr (sp_id p)), (''channel'', TStr (sp_channel p)),
     (''title'', TStr (sp_title p)), (''author'', TStr (sp_author p)), (''ts'', TStr (sp_ts p)),
     (''status'', TStr (sp_status p)), (''body'', TStr (sp_body p)),
     (''comments'', TArr (map comment_json (sp_comments p)))]"

definition serializeSnapshot :: "JoinedHistorySnapshot \<Rightarrow> string" where
  "serializeSnapshot s = stringify 0 (TObj [(''roomId'', TStr (js_roomId s)), (''baseUrl'', TStr (js_baseUrl s)),
     (''cursor'', TNum (js_cursor s)), (''savedAt'', TStr (js_savedAt s)),
     (''messages'', TArr (map message_json (js_messages s))),
     (''forumPosts'', TArr (map post_json (js_forumPosts s)))]) @ [CHR 0x0A]"

definition serializedBytes :: "JoinedHistorySnapshot \<Rightarrow> nat" where
  "serializedBytes s = byteLength (serializeSnapshot s)"

subsection \<open>Reading\<close>

datatype JoinedHistoryRead = Absent | Unreadable | ReadOk JoinedHistorySnapshot

type_synonym history_files = "(string \<times> HistoryFile option stored) list"

definition history_file :: "string \<Rightarrow> history_files \<Rightarrow> HistoryFile option stored" where
  "history_file path fs = (case map_of fs path of Some f \<Rightarrow> f | None \<Rightarrow> NoFile)"

definition readJoinedHistory :: "(string \<Rightarrow> string) \<Rightarrow> string \<times> string \<Rightarrow> history_files \<Rightarrow> JoinedHistoryRead" where
  "readJoinedHistory digest key fs =
     (case history_file (joinedHistoryPath digest key) fs of
        NoFile \<Rightarrow> Absent
      | BadFile \<Rightarrow> Unreadable
      | File None \<Rightarrow> Unreadable
      | File (Some parsed) \<Rightarrow>
          if hf_roomId parsed \<noteq> Some (fst key) \<or> hf_baseUrl parsed \<noteq> Some (snd key) then Unreadable
          else ReadOk \<lparr> js_roomId = fst key, js_baseUrl = snd key,
                 js_cursor = (case hf_cursor parsed of Some c \<Rightarrow> c | None \<Rightarrow> 0),
                 js_savedAt = (case hf_savedAt parsed of Some t \<Rightarrow> t | None \<Rightarrow> []),
                 js_messages = (case hf_messages parsed of Some ms \<Rightarrow> ms | None \<Rightarrow> []),
                 js_forumPosts = (case hf_forumPosts parsed of Some ps \<Rightarrow> ps | None \<Rightarrow> []) \<rparr>)"

definition history_snapshot :: "JoinedHistoryRead \<Rightarrow> JoinedHistorySnapshot option" where
  "history_snapshot r = (case r of ReadOk s \<Rightarrow> Some s | _ \<Rightarrow> None)"

text \<open>What \<open>JSON.parse\<close> gives for a file written from a snapshot.\<close>

definition stored_snapshot :: "JoinedHistorySnapshot \<Rightarrow> HistoryFile" where
  "stored_snapshot s = \<lparr> hf_roomId = Some (js_roomId s), hf_baseUrl = Some (js_baseUrl s),
     hf_cursor = Some (js_cursor s), hf_savedAt = Some (js_savedAt s),
     hf_messages = Some (js_messages s), hf_forumPosts = Some (js_forumPosts s) \<rparr>"

subsection \<open>Merging and bounding\<close>

definition redact_message :: "SnapshotMessage \<Rightarrow> SnapshotMessage" where
  "redact_message m = \<lparr> sm_id = sm_id m, sm_from = redactSnapshotText (sm_from m),
     sm_ts = redactSnapshotText (sm_ts m),
     sm_type = Some (redactSnapshotText (case sm_type m of Some t \<Rightarrow> t | None \<Rightarrow> ''chat'')),
     sm_text = redactSnapshotText (sm_text m) \<rparr>"

definition mergeMessages :: "SnapshotMessage list \<Rightarrow> SnapshotMessage list \<Rightarrow> SnapshotMessage list" where
  "mergeMessages current incoming =
     sort_key sm_id (map snd
       (foldl (\<lambda>byId m. AList.update (sm_id m) (redact_message m) byId) [] (current @ incoming)))"

definition redact_comment :: "SnapshotForumComment \<Rightarrow> SnapshotForumComment" where
  "redact_comment c = \<lparr> sc_id = redactSnapshotText (sc_id c), sc_author = redactSnapshotText (sc_author c),
     sc_ts = redactSnapshotText (sc_ts c), sc_body = redactSnapshotText (sc_body c) \<rparr>"

definition merge_post ::
  "(string \<times> SnapshotForumPost) list \<Rightarrow> SnapshotForumPost \<Rightarrow> (string \<times> SnapshotForumPost) list" where
  "merge_post byId post =
     (let ident = redactSnapshotText (sp_id post);
          comments = (if sp_comments post \<noteq> [] then sp_comments post
            else case map_of byId ident of Some existing \<Rightarrow> sp_comments existing | None \<Rightarrow> [])
      in AList.update ident
           \<lparr> sp_id = ident, sp_channel = redactSnapshotText (sp_channel post),
             sp_title = redactSnapshotText (sp_title post), sp_author = redactSnapshotText (sp_author post),
             sp_ts = redactSnapshotText (sp_ts post), sp_status = redactSnapshotText (sp_status post),
             sp_body = redactSnapshotText (sp_body post),
             sp_comments = map redact_comment (lastN SNAPSHOT_MAX_COMMENTS_PER_POST comments) \<rparr> byId)"

definition mergeForumPosts :: "SnapshotForumPost list \<Rightarrow> SnapshotForumPost list \<Rightarrow> SnapshotForumPost list" where
  "mergeForumPosts current incoming =
     map snd (foldl merge_post (foldl (\<lambda>byId p. AList.update (sp_id p) p byId) [] current) incoming)"

function bound_loop :: "JoinedHistorySnapshot \<Rightarrow> JoinedHistorySnapshot" where
  "bound_loop s =
     (if serializedBytes s > SNAPSHOT_MAX_BYTES \<and> (length (js_messages s) > 1 \<or> js_forumPosts s \<noteq> [])
      then if js_forumPosts s \<noteq> []
           then bound_loop (s\<lparr> js_forumPosts := drop 1 (js_forumPosts s) \<rparr>)
           else bound_loop (s\<lparr> js_messages := drop 1 (js_messages s) \<rparr>)
      else s)"
  by pat_completeness auto

termination
  by (relation "measure (\<lambda>s. length (js_forumPosts s) + length (js_messages s))")
    (auto simp: neq_Nil_conv)

declare bound_loop.simps [simp del]

definition bound :: "JoinedHistorySnapshot \<Rightarrow> JoinedHistorySnapshot" where
  "bound s =
     (let s1 = (if length (js_messages s) > SNAPSHOT_MAX_MESSAGES
                then s\<lparr> js_messages := lastN SNAPSHOT_MAX_MESSAGES (js_messages s) \<rparr> else s);
          s2 = (if length (js_forumPosts s1) > SNAPSHOT_MAX_FORUM_POSTS
                then s1\<lparr> js_forumPosts := lastN SNAPSHOT_MAX_FORUM_POSTS (js_forumPosts s1) \<rparr> else s1);
          s3 = bound_loop s2
      in s3\<lparr> js_cursor := maxOf sm_id (js_messages s3) \<rparr>)"

subsection \<open>Operations\<close>

type_synonym 'a history_action = "(history_files, js_error, 'a) action"

record HistoryEntry =
  he_roomId :: string
  he_baseUrl :: string
  he_messages :: "SnapshotMessage list option"
  he_forumPosts :: "SnapshotForumPost list option"
  he_savedAt :: string

definition or_empty :: "'a list option \<Rightarrow> 'a list" where
  "or_empty xs = (case xs of Some ys \<Rightarrow> ys | None \<Rightarrow> [])"

text \<open>The snapshot \<open>recordJoinedHistory\<close> writes, from what it read.\<close>

definition next_snapshot :: "JoinedHistoryRead \<Rightarrow> HistoryEntry \<Rightarrow> JoinedHistorySnapshot" where
  "next_snapshot found entry =
     (let current = (case history_snapshot found of Some s \<Rightarrow> s
            | None \<Rightarrow> \<lparr> js_roomId = he_roomId entry, js_baseUrl = he_baseUrl entry, js_cursor = 0,
                 js_savedAt = he_savedAt entry, js_messages = [], js_forumPosts = [] \<rparr>);
          messages = mergeMessages (js_messages current) (or_empty (he_messages entry))
      in bound \<lparr> js_roomId = he_roomId entry, js_baseUrl = he_baseUrl entry,
           js_cursor = maxOf sm_id messages, js_savedAt = he_savedAt entry, js_messages = messages,
           js_forumPosts = mergeForumPosts (js_forumPosts current) (or_empty (he_forumPosts entry)) \<rparr>)"

text \<open>\<open>tracked\<close> is the answer of \<open>isStillTracked\<close>, None when no guard is given.\<close>

definition recordJoinedHistory ::
  "(string \<Rightarrow> string) \<Rightarrow> HistoryEntry \<Rightarrow> bool option \<Rightarrow> JoinedHistorySnapshot option history_action" where
  "recordJoinedHistory digest entry tracked =
     (if tracked = Some False then ret None
      else bindA (gets (readJoinedHistory digest (he_roomId entry, he_baseUrl entry))) (\<lambda>found.
           bindA (modify (AList.update (joinedHistoryPath digest (he_roomId entry, he_baseUrl entry))
                    (File (Some (stored_snapshot (next_snapshot found entry)))))) (\<lambda>_.
           ret (Some (next_snapshot found entry)))))"

text \<open>\<open>rm_error path\<close> is the failure of \<open>rm\<close> other than ENOENT, if it fails.\<close>

definition deleteJoinedHistory ::
  "(string \<Rightarrow> string) \<Rightarrow> (string \<Rightarrow> js_error option) \<Rightarrow> string \<times> string \<Rightarrow> bool history_action" where
  "deleteJoinedHistory digest rm_error key =
     (let path = joinedHistoryPath digest key
      in (\<lambda>fs. if history_file path fs = NoFile then (Inr False, fs)
          else case rm_error path of
            Some e \<Rightarrow> (Inl e, fs)
          | None \<Rightarrow> (Inr True, AList.delete path fs)))"

subsection \<open>What is stored\<close>

definition clean_text :: "string \<Rightarrow> bool" where
  "clean_text t \<longleftrightarrow> length t \<le> SNAPSHOT_MAX_TEXT_CHARS \<and>
     matches_nowhere tgl_match t \<and> matches_nowhere bearer_match t"

lemma clean_redacted [simp]: "clean_text (redactSnapshotText t)"
  by (simp add: clean_text_def redact_length redacted_no_token redacted_no_bearer)

definition clean_message :: "SnapshotMessage \<Rightarrow> bool" where
  "clean_message m \<longleftrightarrow> clean_text (sm_from m) \<and> clean_text (sm_ts m) \<and>
     (\<exists>t. sm_type m = Some t \<and> clean_text t) \<and> clean_text (sm_text m)"

definition clean_comment :: "SnapshotForumComment \<Rightarrow> bool" where
  "clean_comment c \<longleftrightarrow> clean_text (sc_id c) \<and> clean_text (sc_author c) \<and>
     clean_text (sc_ts c) \<and> clean_text (sc_body c)"

definition clean_post :: "SnapshotForumPost \<Rightarrow> bool" where
  "clean_post p \<longleftrightarrow> clean_text (sp_id p) \<and> clean_text (sp_channel p) \<and> clean_text (sp_title p) \<and>
     clean_text (sp_author p) \<and> clean_text (sp_ts p) \<and> clean_text (sp_status p) \<and> clean_text (sp_body p) \<and>
     length (sp_comments p) \<le> SNAPSHOT_MAX_COMMENTS_PER_POST \<and> (\<forall>c \<in> set (sp_comments p). clean_comment c)"

definition snapshot_ok :: "JoinedHistorySnapshot \<Rightarrow> bool" where
  "snapshot_ok s \<longleftrightarrow>
     length (js_messages s) \<le> SNAPSHOT_MAX_MESSAGES \<and> sorted_wrt (<) (map sm_id (js_messages s)) \<and>
     (\<forall>m \<in> set (js_messages s). clean_message m) \<and>
     length (js_forumPosts s) \<le> SNAPSHOT_MAX_FORUM_POSTS \<and> distinct (map sp_id (js_forumPosts s)) \<and>
     (\<forall>p \<in> set (js_forumPosts s). clean_post p) \<and>
     js_cursor s = maxOf sm_id (js_messages s) \<and>
     (serializedBytes s \<le> SNAPSHOT_MAX_BYTES \<or> length (js_messages s) \<le> 1 \<and> js_forumPosts s = [])"

definition history_inv :: "history_files \<Rightarrow> bool" where
  "history_inv fs \<longleftrightarrow> (\<forall>path f. history_file path fs = File f \<longrightarrow>
     (\<exists>s. f = Some (stored_snapshot s) \<and> snapshot_ok s))"

lemma merged_messages:
  "sorted_wrt (<) (map sm_id (mergeMessages current incoming)) \<and>
   (\<forall>m \<in> set (mergeMessages current incoming). clean_message m) \<and>
   sm_id ` set (mergeMessages current incoming) = sm_id ` set current \<union> sm_id ` set incoming"
proof -
  let ?f = "\<lambda>byId m. AList.update (sm_id m) (redact_message m) byId"
  have fold: "distinct (map fst acc) \<and> (\<forall>(k, m) \<in> set acc. sm_id m = k \<and> clean_message m) \<Longrightarrow>
      distinct (map fst (foldl ?f acc ms)) \<and>
      (\<forall>(k, m) \<in> set (foldl ?f acc ms). sm_id m = k \<and> clean_message m) \<and>
      fst ` set (foldl ?f acc ms) = fst ` set acc \<union> sm_id ` set ms" for acc ms
  proof (induction ms arbitrary: acc)
    case (Cons m ms)
    have "clean_message (redact_message m)" "sm_id (redact_message m) = sm_id m"
      by (simp_all add: clean_message_def redact_message_def)
    then have "\<forall>(k, m) \<in> set (?f acc m). sm_id m = k \<and> clean_message m"
      by (intro update_entries [OF conjunct2 [OF Cons.prems]] conjI)
    moreover have "distinct (map fst (?f acc m))"
      by (rule distinct_update [OF conjunct1 [OF Cons.prems]])
    ultimately have "distinct (map fst (?f acc m)) \<and> (\<forall>(k, m) \<in> set (?f acc m). sm_id m = k \<and> clean_message m)"
      by (intro conjI)
    note IH = Cons.IH [OF this]
    have "fst ` set (foldl ?f (?f acc m) ms) = fst ` set acc \<union> sm_id ` set (m # ms)"
      unfolding conjunct2 [OF conjunct2 [OF IH]] dom_update by (simp add: Un_assoc)
    then show ?case unfolding foldl_Cons
      by (intro conjI conjunct1 [OF IH] conjunct1 [OF conjunct2 [OF IH]])
  qed simp
  let ?al = "foldl ?f [] (current @ incoming)"
  have al: "distinct (map fst ?al)" "\<forall>(k, m) \<in> set ?al. sm_id m = k \<and> clean_message m"
    "fst ` set ?al = sm_id ` set current \<union> sm_id ` set incoming"
    using fold [of "[]" "current @ incoming"] by auto
  have ids: "map sm_id (map snd ?al) = map fst ?al" using al(2) by auto
  have "distinct (map sm_id (map snd ?al))" unfolding ids by (rule al(1))
  then have "distinct (map sm_id (mergeMessages current incoming))"
    unfolding mergeMessages_def by (simp only: distinct_map_sort)
  then have "sorted_wrt (<) (map sm_id (mergeMessages current incoming))"
    by (simp add: strict_sorted_iff mergeMessages_def)
  moreover have "sm_id ` set (mergeMessages current incoming) = fst ` set ?al"
    using arg_cong [OF ids, of set] by (simp add: mergeMessages_def image_image)
  ultimately show ?thesis using al(2,3) by (auto simp: mergeMessages_def)
qed

lemma merged_posts:
  assumes "distinct (map sp_id current)" "\<forall>p \<in> set current. clean_post p"
  shows "distinct (map sp_id (mergeForumPosts current incoming))"
    "\<forall>p \<in> set (mergeForumPosts current incoming). clean_post p"
proof -
  let ?ok = "\<lambda>al. distinct (map fst al) \<and> (\<forall>(k, p) \<in> set al. sp_id p = k \<and> clean_post p)"
  have start: "foldl (\<lambda>byId p. AList.update (sp_id p) p byId) acc ps = acc @ map (\<lambda>p. (sp_id p, p)) ps"
    if "distinct (map fst acc @ map sp_id ps)" for acc and ps :: "SnapshotForumPost list"
    using that
  proof (induction ps arbitrary: acc)
    case (Cons p ps)
    then have "AList.update (sp_id p) p acc = acc @ [(sp_id p, p)]"
      by (intro update_new) auto
    with Cons show ?case by simp
  qed simp
  have comments: "c \<in> set xs \<Longrightarrow> clean_comment (redact_comment c)" for c xs
    by (simp add: clean_comment_def redact_comment_def)
  have step: "?ok (merge_post al p)" if ok: "?ok al" for al p
  proof -
    let ?ident = "redactSnapshotText (sp_id p)"
    obtain q where q: "merge_post al p = AList.update ?ident q al" "sp_id q = ?ident" "clean_post q"
      by (auto simp: merge_post_def Let_def clean_post_def comments)
    have "distinct (map fst (merge_post al p))"
      unfolding q(1) by (rule distinct_update [OF conjunct1 [OF ok]])
    moreover have "\<forall>(k, p) \<in> set (merge_post al p). sp_id p = k \<and> clean_post p"
      unfolding q(1) using q(2,3) by (intro update_entries [OF conjunct2 [OF ok]] conjI)
    ultimately show ?thesis by (intro conjI)
  qed
  have fold: "?ok al \<Longrightarrow> ?ok (foldl merge_post al ps)" for al ps
  proof (induction ps arbitrary: al)
    case (Cons p ps)
    from Cons.IH [OF step [OF Cons.prems]] show ?case unfolding foldl_Cons .
  qed simp
  let ?al = "foldl merge_post (foldl (\<lambda>byId p. AList.update (sp_id p) p byId) [] current) incoming"
  have "foldl (\<lambda>byId p. AList.update (sp_id p) p byId) [] current = map (\<lambda>p. (sp_id p, p)) current"
    using start [of "[]" current] assms(1) by simp
  then have "?ok (foldl (\<lambda>byId p. AList.update (sp_id p) p byId) [] current)"
    using assms by (auto simp: comp_def)
  from fold [OF this, of incoming] have al: "distinct (map fst ?al)" "\<forall>(k, p) \<in> set ?al. sp_id p = k \<and> clean_post p"
    by (rule conjunct1, rule conjunct2)
  have "map sp_id (map snd ?al) = map fst ?al" using al(2) by auto
  with al(1) show "distinct (map sp_id (mergeForumPosts current incoming))"
    unfolding mergeForumPosts_def by metis
  show "\<forall>p \<in> set (mergeForumPosts current incoming). clean_post p"
    using al(2) unfolding mergeForumPosts_def by auto
qed

text \<open>What the trimming loop drops: oldest posts first, then oldest messages, never more than needed.\<close>

definition fits :: "JoinedHistorySnapshot \<Rightarrow> bool" where
  "fits s \<longleftrightarrow> serializedBytes s \<le> SNAPSHOT_MAX_BYTES"

definition trimmed :: "JoinedHistorySnapshot \<Rightarrow> JoinedHistorySnapshot \<Rightarrow> bool" where
  "trimmed s t \<longleftrightarrow> (\<exists>k j.
     t = s\<lparr> js_forumPosts := drop k (js_forumPosts s), js_messages := drop j (js_messages s) \<rparr> \<and>
     (fits t \<or> length (js_messages t) \<le> 1 \<and> js_forumPosts t = []) \<and>
     k \<le> length (js_forumPosts s) \<and> (0 < j \<longrightarrow> k = length (js_forumPosts s) \<and> j < length (js_messages s)) \<and>
     (\<forall>k' < k. \<not> fits (s\<lparr> js_forumPosts := drop k' (js_forumPosts s) \<rparr>)) \<and>
     (\<forall>j' < j. \<not> fits (s\<lparr> js_forumPosts := [], js_messages := drop j' (js_messages s) \<rparr>)))"

lemma trimmed_post:
  assumes "\<not> fits s" "js_forumPosts s = p # ps" "trimmed (s\<lparr> js_forumPosts := ps \<rparr>) t"
  shows "trimmed s t"
proof -
  let ?s = "s\<lparr> js_forumPosts := ps \<rparr>"
  from assms(3) obtain k j where raw:
    "t = ?s\<lparr> js_forumPosts := drop k (js_forumPosts ?s), js_messages := drop j (js_messages ?s) \<rparr>"
    "fits t \<or> length (js_messages t) \<le> 1 \<and> js_forumPosts t = []"
    "k \<le> length (js_forumPosts ?s)" "0 < j \<longrightarrow> k = length (js_forumPosts ?s) \<and> j < length (js_messages ?s)"
    "\<forall>k' < k. \<not> fits (?s\<lparr> js_forumPosts := drop k' (js_forumPosts ?s) \<rparr>)"
    "\<forall>j' < j. \<not> fits (?s\<lparr> js_forumPosts := [], js_messages := drop j' (js_messages ?s) \<rparr>)"
    unfolding trimmed_def by - (elim exE conjE, rule that)
  have t: "t = s\<lparr> js_forumPosts := drop k ps, js_messages := drop j (js_messages s) \<rparr>"
    using raw(1) by simp
  have rest: "fits t \<or> length (js_messages t) \<le> 1 \<and> js_forumPosts t = []"
      "k \<le> length ps" "0 < j \<longrightarrow> k = length ps \<and> j < length (js_messages s)"
      "\<forall>k' < k. \<not> fits (s\<lparr> js_forumPosts := drop k' ps \<rparr>)"
      "\<forall>j' < j. \<not> fits (s\<lparr> js_forumPosts := [], js_messages := drop j' (js_messages s) \<rparr>)"
    using raw(2-6) by simp_all
  have eq: "s\<lparr> js_forumPosts := p # ps \<rparr> = s" using assms(2) by simp
  have "\<not> fits (s\<lparr> js_forumPosts := p # ps \<rparr>)" unfolding eq by (rule assms(1))
  then have "\<forall>k' < Suc k. \<not> fits (s\<lparr> js_forumPosts := drop k' (js_forumPosts s) \<rparr>)"
    using rest(4) assms(2) by (simp add: All_less_Suc2)
  then show ?thesis unfolding trimmed_def using t rest assms(2)
    by (intro exI [of _ "Suc k"] exI [of _ j]) simp
qed

lemma trimmed_message:
  assumes "\<not> fits s" "js_forumPosts s = []" "length (js_messages s) > 1" "trimmed (s\<lparr> js_messages := drop 1 (js_messages s) \<rparr>) t"
  shows "trimmed s t"
proof -
  let ?s = "s\<lparr> js_messages := drop 1 (js_messages s) \<rparr>"
  from assms(4) obtain k j where raw:
    "t = ?s\<lparr> js_forumPosts := drop k (js_forumPosts ?s), js_messages := drop j (js_messages ?s) \<rparr>"
    "fits t \<or> length (js_messages t) \<le> 1 \<and> js_forumPosts t = []"
    "0 < j \<longrightarrow> k = length (js_forumPosts ?s) \<and> j < length (js_messages ?s)"
    "\<forall>j' < j. \<not> fits (?s\<lparr> js_forumPosts := [], js_messages := drop j' (js_messages ?s) \<rparr>)"
    unfolding trimmed_def by - (elim exE conjE, rule that)
  have t: "t = s\<lparr> js_forumPosts := [], js_messages := drop (Suc j) (js_messages s) \<rparr>"
    using raw(1) assms(2) by simp
  have rest: "fits t \<or> length (js_messages t) \<le> 1 \<and> js_forumPosts t = []"
    "\<forall>j' < j. \<not> fits (s\<lparr> js_forumPosts := [], js_messages := drop (Suc j') (js_messages s) \<rparr>)"
    "Suc j < length (js_messages s)"
    using raw(2-) assms(3) by (cases j; simp)+
  have eq: "s\<lparr> js_forumPosts := [] \<rparr> = s" using assms(2) by simp
  have "\<not> fits (s\<lparr> js_forumPosts := [] \<rparr>)" unfolding eq by (rule assms(1))
  then have "\<forall>j' < Suc j. \<not> fits (s\<lparr> js_forumPosts := [], js_messages := drop j' (js_messages s) \<rparr>)"
    using rest(2) by (simp add: All_less_Suc2)
  then show ?thesis unfolding trimmed_def using t rest assms(2)
    by (intro exI [of _ 0] exI [of _ "Suc j"]) simp
qed

lemma trimmed_refl:
  "fits s \<or> length (js_messages s) \<le> 1 \<and> js_forumPosts s = [] \<Longrightarrow> trimmed s s"
  unfolding trimmed_def by (intro exI [of _ 0]) simp

lemma bound_loop_trimmed: "trimmed s (bound_loop s)"
proof (induction s rule: bound_loop.induct)
  case (1 s)
  consider (stop) "fits s \<or> length (js_messages s) \<le> 1 \<and> js_forumPosts s = []"
    | (post) p ps where "\<not> fits s" "js_forumPosts s = p # ps"
    | (msg) "\<not> fits s" "js_forumPosts s = []" "length (js_messages s) > 1"
    by (cases "js_forumPosts s"; cases "length (js_messages s) \<le> 1") auto
  then show ?case
  proof cases
    case stop
    then have "bound_loop s = s" by (subst bound_loop.simps) (auto simp: fits_def)
    with stop show ?thesis by (simp add: trimmed_refl)
  next
    case (post p ps)
    then have "trimmed (s\<lparr> js_forumPosts := ps \<rparr>) (bound_loop (s\<lparr> js_forumPosts := ps \<rparr>))"
      using 1(1) by (simp add: fits_def)
    with trimmed_post [OF post] post show ?thesis by (subst bound_loop.simps) (simp add: fits_def)
  next
    case msg
    then have "trimmed (s\<lparr> js_messages := drop 1 (js_messages s) \<rparr>)
        (bound_loop (s\<lparr> js_messages := drop 1 (js_messages s) \<rparr>))"
      using 1(2) by (simp add: fits_def)
    with trimmed_message [OF msg] msg show ?thesis by (subst bound_loop.simps) (simp add: fits_def)
  qed
qed

lemma history_key_inj: "history_key k = history_key k' \<longleftrightarrow> k = k'"
proof
  assume "history_key k = history_key k'"
  then have eq: "nat_str (length (fst k)) @ '':'' @ fst k @ [CHR 0x0A] @ nat_str (length (snd k)) @ '':'' @ snd k =
      nat_str (length (fst k')) @ '':'' @ fst k' @ [CHR 0x0A] @ nat_str (length (snd k')) @ '':'' @ snd k'"
    by (simp add: history_key_def)
  from length_prefixed_inj [OF this] have "fst k = fst k'"
    "nat_str (length (snd k)) @ '':'' @ snd k @ [] = nat_str (length (snd k')) @ '':'' @ snd k' @ []" by simp_all
  with length_prefixed_inj [OF this(2)] show "k = k'" by (simp add: prod_eq_iff)
qed simp

lemma history_path_inj: "inj digest \<Longrightarrow> joinedHistoryPath digest k = joinedHistoryPath digest k' \<longleftrightarrow> k = k'"
  by (auto simp: joinedHistoryPath_def inj_eq history_key_inj)

lemma maxOf_last:
  "sorted_wrt (<) (map f xs) \<Longrightarrow> xs \<noteq> [] \<Longrightarrow> maxOf f xs = f (last xs)"
proof (cases xs rule: rev_cases)
  case (snoc ys y)
  assume "sorted_wrt (<) (map f xs)"
  then have "x \<in> set ys \<Longrightarrow> f x < Suc (f y)" for x by (auto simp: snoc sorted_wrt_append)
  then have "maxOf f ys < Suc (f y)" by (intro maxOf_less) auto
  then show ?thesis by (simp add: snoc maxOf_def)
qed simp

lemma bound_ok:
  assumes "sorted_wrt (<) (map sm_id (js_messages s))" "\<forall>m \<in> set (js_messages s). clean_message m"
    "distinct (map sp_id (js_forumPosts s))" "\<forall>p \<in> set (js_forumPosts s). clean_post p"
    "js_cursor s = maxOf sm_id (js_messages s)"
  shows "snapshot_ok (bound s)" 
    "trimmed (s\<lparr> js_messages := lastN SNAPSHOT_MAX_MESSAGES (js_messages s),
      js_forumPosts := lastN SNAPSHOT_MAX_FORUM_POSTS (js_forumPosts s) \<rparr>) (bound s)"
proof -
  let ?capped = "s\<lparr> js_messages := lastN SNAPSHOT_MAX_MESSAGES (js_messages s),
      js_forumPosts := lastN SNAPSHOT_MAX_FORUM_POSTS (js_forumPosts s) \<rparr>"
  define s1 where "s1 = (if length (js_messages s) > SNAPSHOT_MAX_MESSAGES
      then s\<lparr> js_messages := lastN SNAPSHOT_MAX_MESSAGES (js_messages s) \<rparr> else s)"
  define s2 where "s2 = (if length (js_forumPosts s1) > SNAPSHOT_MAX_FORUM_POSTS
      then s1\<lparr> js_forumPosts := lastN SNAPSHOT_MAX_FORUM_POSTS (js_forumPosts s1) \<rparr> else s1)"
  have s2: "s2 = ?capped"
    by (simp add: s2_def s1_def lastN_def)
  define t where "t = bound_loop s2"
  have run: "bound s = t\<lparr> js_cursor := maxOf sm_id (js_messages t) \<rparr>"
    by (simp add: bound_def s1_def s2_def t_def Let_def)
  have trim: "trimmed ?capped t" unfolding s2 t_def by (rule bound_loop_trimmed)
  then obtain k j where
    t: "t = ?capped\<lparr> js_forumPosts := drop k (js_forumPosts ?capped), js_messages := drop j (js_messages ?capped) \<rparr>"
    and fit: "fits t \<or> length (js_messages t) \<le> 1 \<and> js_forumPosts t = []"
    and j: "0 < j \<longrightarrow> k = length (js_forumPosts ?capped) \<and> j < length (js_messages ?capped)"
    unfolding trimmed_def by - (elim exE conjE, rule that)
  define n where "n = j + (length (js_messages s) - SNAPSHOT_MAX_MESSAGES)"
  have "js_messages s \<noteq> [] \<Longrightarrow> n < length (js_messages s)"
    using j by (cases j) (auto simp: lastN_def SNAPSHOT_MAX_MESSAGES_def n_def)
  then have msgs: "js_messages t = drop n (js_messages s)" "js_messages s \<noteq> [] \<longrightarrow> js_messages t \<noteq> []"
    using t by (auto simp: lastN_def n_def)
  obtain n' where posts: "js_forumPosts t = drop n' (js_forumPosts s)"
    using t by (simp add: lastN_def)
  have sorted: "sorted_wrt (<) (map sm_id (js_messages t))"
    using assms(1) unfolding msgs(1) by (metis append_take_drop_id map_append sorted_wrt_append)
  have "maxOf sm_id (js_messages t) = maxOf sm_id (js_messages s)"
  proof (cases "js_messages s = []")
    case False
    with msgs maxOf_last [OF sorted] maxOf_last [OF assms(1)] show ?thesis by (simp add: last_drop)
  qed (use msgs in simp)
  moreover have "js_cursor t = js_cursor s" using t by simp
  ultimately have cur: "js_cursor t = maxOf sm_id (js_messages t)" using assms(5) by simp
  then have same: "bound s = t" unfolding run by simp
  with trim show "trimmed ?capped (bound s)" by simp
  have lens: "length (js_messages t) \<le> SNAPSHOT_MAX_MESSAGES" "length (js_forumPosts t) \<le> SNAPSHOT_MAX_FORUM_POSTS"
    using t by (simp_all add: le_diff_conv min_def)
  show "snapshot_ok (bound s)"
    unfolding same snapshot_ok_def using lens sorted cur fit assms(2-4) posts msgs
    by (auto simp: fits_def drop_map [symmetric] dest!: in_set_dropD intro: distinct_drop)
qed

lemma history_file_update [simp]:
  "history_file p (AList.update q f fs) = (if p = q then f else history_file p fs)"
  "history_file p (AList.delete q fs) = (if p = q then NoFile else history_file p fs)"
  by (simp_all add: history_file_def update_conv' delete_conv')

lemma read_inv:
  assumes "history_inv fs" "readJoinedHistory digest key fs = ReadOk s"
  shows "snapshot_ok s \<and> js_roomId s = fst key \<and> js_baseUrl s = snd key"
proof -
  from assms(2) obtain f where f: "history_file (joinedHistoryPath digest key) fs = File (Some f)"
    "hf_roomId f = Some (fst key)" "hf_baseUrl f = Some (snd key)"
    by (auto simp: readJoinedHistory_def split: stored.splits option.splits if_splits)
  with assms(1) obtain s0 where s0: "f = stored_snapshot s0" "snapshot_ok s0"
    unfolding history_inv_def by blast
  with f assms(2) have "s = s0"
    by (cases s0) (simp add: readJoinedHistory_def stored_snapshot_def)
  with s0 f show ?thesis by (simp add: stored_snapshot_def)
qed

definition merged_snapshot :: "JoinedHistoryRead \<Rightarrow> HistoryEntry \<Rightarrow> JoinedHistorySnapshot" where
  "merged_snapshot found entry =
     (let messages = mergeMessages (case history_snapshot found of Some s \<Rightarrow> js_messages s | None \<Rightarrow> [])
            (or_empty (he_messages entry))
      in \<lparr> js_roomId = he_roomId entry, js_baseUrl = he_baseUrl entry,
           js_cursor = maxOf sm_id messages, js_savedAt = he_savedAt entry, js_messages = messages,
           js_forumPosts = mergeForumPosts (case history_snapshot found of Some s \<Rightarrow> js_forumPosts s | None \<Rightarrow> [])
             (or_empty (he_forumPosts entry)) \<rparr>)"

lemma next_snapshot_bound: "next_snapshot found entry = bound (merged_snapshot found entry)"
  by (simp add: next_snapshot_def merged_snapshot_def Let_def split: option.splits)

lemma next_snapshot_ok:
  assumes "history_inv fs"
  shows "snapshot_ok (next_snapshot (readJoinedHistory digest key fs) entry)"
    "trimmed ((merged_snapshot (readJoinedHistory digest key fs) entry)
       \<lparr> js_messages := lastN SNAPSHOT_MAX_MESSAGES (js_messages (merged_snapshot (readJoinedHistory digest key fs) entry)),
         js_forumPosts := lastN SNAPSHOT_MAX_FORUM_POSTS (js_forumPosts (merged_snapshot (readJoinedHistory digest key fs) entry)) \<rparr>)
       (next_snapshot (readJoinedHistory digest key fs) entry)"
proof -
  let ?found = "readJoinedHistory digest key fs"
  let ?posts = "case history_snapshot ?found of Some s \<Rightarrow> js_forumPosts s | None \<Rightarrow> []"
  have "distinct (map sp_id ?posts) \<and> (\<forall>p \<in> set ?posts. clean_post p)"
    using read_inv [OF assms, of digest key]
    by (cases ?found) (auto simp: history_snapshot_def snapshot_ok_def)
  note posts = merged_posts [OF conjunct1 [OF this] conjunct2 [OF this]]
  let ?m = "merged_snapshot ?found entry"
  have parts: "sorted_wrt (<) (map sm_id (js_messages ?m))" "\<forall>m \<in> set (js_messages ?m). clean_message m"
    "distinct (map sp_id (js_forumPosts ?m))" "\<forall>p \<in> set (js_forumPosts ?m). clean_post p"
    "js_cursor ?m = maxOf sm_id (js_messages ?m)"
    using merged_messages posts by (simp_all add: merged_snapshot_def Let_def)
  show "snapshot_ok (next_snapshot ?found entry)"
    "trimmed (?m\<lparr> js_messages := lastN SNAPSHOT_MAX_MESSAGES (js_messages ?m),
         js_forumPosts := lastN SNAPSHOT_MAX_FORUM_POSTS (js_forumPosts ?m) \<rparr>) (next_snapshot ?found entry)"
    unfolding next_snapshot_bound by (rule bound_ok [OF parts])+
qed

subsection \<open>Runs\<close>

inductive history_step :: "(string \<Rightarrow> string) \<Rightarrow> history_files \<Rightarrow> history_files \<Rightarrow> bool" for digest where
  keep: "history_step digest fs (snd (recordJoinedHistory digest entry tracked fs))"
| drop: "history_step digest fs (snd (deleteJoinedHistory digest rm_error key fs))"

lemma record_apply:
  "recordJoinedHistory digest entry tracked fs =
     (if tracked = Some False then (Inr None, fs)
      else let s = next_snapshot (readJoinedHistory digest (he_roomId entry, he_baseUrl entry) fs) entry
           in (Inr (Some s), AList.update (joinedHistoryPath digest (he_roomId entry, he_baseUrl entry))
                 (File (Some (stored_snapshot s))) fs))"
  by (simp add: recordJoinedHistory_def Let_def)

lemma history_step_inv: "history_inv fs \<Longrightarrow> history_step digest fs fs' \<Longrightarrow> history_inv fs'"
proof (erule history_step.cases)
  fix fs0 entry tracked
  assume "history_inv fs" "fs = fs0" "fs' = snd (recordJoinedHistory digest entry tracked fs0)"
  then show "history_inv fs'"
    using next_snapshot_ok(1) [of fs digest "(he_roomId entry, he_baseUrl entry)" entry]
    by (auto simp: history_inv_def record_apply Let_def split: if_splits)
next
  fix fs0 rm_error key
  assume "history_inv fs" "fs = fs0" "fs' = snd (deleteJoinedHistory digest rm_error key fs0)"
  then show "history_inv fs'"
    by (auto simp: history_inv_def deleteJoinedHistory_def Let_def split: if_splits option.splits)
qed

interpretation history: transition_system "\<lambda>fs. fs = []" "history_step digest" history_inv for digest
  by unfold_locales (use history_step_inv in \<open>auto simp: history_inv_def history_file_def\<close>)

text \<open>Which copy of a message survives a merge: the last one received with its id.\<close>

lemma merge_fold:
  "map_of (foldl (\<lambda>byId m. AList.update (sm_id m) (redact_message m) byId) [] ms) i =
     map_option redact_message (find (\<lambda>m. sm_id m = i) (rev ms))"
  by (induction ms rule: rev_induct) (auto simp: update_conv')

lemma merged_latest:
  assumes "m \<in> set (mergeMessages current incoming)"
  shows "find (\<lambda>m'. sm_id m' = sm_id m) (rev (current @ incoming)) \<noteq> None \<and>
    m = redact_message (the (find (\<lambda>m'. sm_id m' = sm_id m) (rev (current @ incoming))))"
proof -
  let ?al = "foldl (\<lambda>byId m. AList.update (sm_id m) (redact_message m) byId) [] (current @ incoming)"
  from assms obtain k where k: "(k, m) \<in> set ?al" by (auto simp: mergeMessages_def)
  have d: "distinct (map fst (foldl (\<lambda>byId m. AList.update (sm_id m) (redact_message m) byId) [] ms))" for ms
    by (induction ms rule: rev_induct) (simp_all add: distinct_update)
  have "map_of ?al k = Some m" by (rule map_of_is_SomeI [OF d k])
  then have "map_option redact_message (find (\<lambda>m. sm_id m = k) (rev (current @ incoming))) = Some m"
    unfolding merge_fold .
  then obtain m0 where m0: "find (\<lambda>m. sm_id m = k) (rev (current @ incoming)) = Some m0" "redact_message m0 = m"
    by auto
  have "sm_id m0 = k" using m0(1) by (auto simp: find_Some_iff)
  then have "sm_id m = k" using m0(2) by (auto simp: redact_message_def)
  with m0 show ?thesis by simp
qed

lemma bound_key: "js_roomId (bound s) = js_roomId s" "js_baseUrl (bound s) = js_baseUrl s"
proof -
  have "js_roomId (bound_loop t) = js_roomId t \<and> js_baseUrl (bound_loop t) = js_baseUrl t" for t
    using bound_loop_trimmed [of t] unfolding trimmed_def by auto
  then show "js_roomId (bound s) = js_roomId s" "js_baseUrl (bound s) = js_baseUrl s"
    by (simp_all add: bound_def Let_def)
qed

lemma read_stored:
  "history_file (joinedHistoryPath digest key) fs = File (Some (stored_snapshot s)) \<Longrightarrow>
   js_roomId s = fst key \<Longrightarrow> js_baseUrl s = snd key \<Longrightarrow> readJoinedHistory digest key fs = ReadOk s"
  by (cases s) (simp add: readJoinedHistory_def stored_snapshot_def)

lemma next_snapshot_key:
  "js_roomId (next_snapshot found entry) = he_roomId entry"
  "js_baseUrl (next_snapshot found entry) = he_baseUrl entry"
  by (simp_all add: next_snapshot_bound bound_key merged_snapshot_def Let_def)

lemma record_reads_back:
  "tracked \<noteq> Some False \<Longrightarrow> key = (he_roomId entry, he_baseUrl entry) \<Longrightarrow>
   readJoinedHistory digest key (snd (recordJoinedHistory digest entry tracked fs)) =
     ReadOk (next_snapshot (readJoinedHistory digest key fs) entry)"
  by (intro read_stored) (simp_all add: record_apply Let_def next_snapshot_key)

text \<open>Every string of the messages and posts of a snapshot.\<close>

definition message_texts :: "SnapshotMessage \<Rightarrow> string list" where
  "message_texts m = [sm_from m, sm_ts m, sm_text m] @ (case sm_type m of Some t \<Rightarrow> [t] | None \<Rightarrow> [])"

definition post_texts :: "SnapshotForumPost \<Rightarrow> string list" where
  "post_texts p = [sp_id p, sp_channel p, sp_title p, sp_author p, sp_ts p, sp_status p, sp_body p] @
     concat (map (\<lambda>c. [sc_id c, sc_author c, sc_ts c, sc_body c]) (sp_comments p))"

definition snapshot_texts :: "JoinedHistorySnapshot \<Rightarrow> string list" where
  "snapshot_texts s = concat (map message_texts (js_messages s)) @ concat (map post_texts (js_forumPosts s))"

lemma clean_texts: "snapshot_ok s \<Longrightarrow> t \<in> set (snapshot_texts s) \<Longrightarrow> clean_text t"
  by (auto simp: snapshot_texts_def message_texts_def post_texts_def snapshot_ok_def clean_message_def
      clean_post_def clean_comment_def)

subsection \<open>Properties\<close>


definition lab_entry :: HistoryEntry where
  "lab_entry = \<lparr> he_roomId = ''lab'', he_baseUrl = ''http://h'', he_messages = Some
     [\<lparr> sm_id = 2, sm_from = ''bo'', sm_ts = ''t2'', sm_type = None, sm_text = ''hi tgl_abc'' \<rparr>],
     he_forumPosts = None, he_savedAt = ''now'' \<rparr>"


text \<open>Claim C15. Saving reads back, and keeps as much as the caps allow. A save whose guard refuses
  changes nothing. Any other returns and stores the same snapshot: the merge of what was readable
  with what came in, each id once with the copy received last, cut to the newest 250 messages and
  50 posts, from which the trimming loop, which ends, has dropped oldest posts, and then oldest
  messages, exactly as long as the file was over the byte cap. The files of other rooms are
  as before (for a digest without collisions).\<close>

theorem record_roundtrip:
  assumes "(history_step digest)\<^sup>*\<^sup>* [] fs" "inj digest"
    "recordJoinedHistory digest entry tracked fs = (x, fs')"
    "key = (he_roomId entry, he_baseUrl entry)"
  shows "if tracked = Some False then x = Inr None \<and> fs' = fs
    else (\<exists>s merged. x = Inr (Some s) \<and> readJoinedHistory digest key fs' = ReadOk s \<and>
      merged = merged_snapshot (readJoinedHistory digest key fs) entry \<and>
      trimmed (merged\<lparr> js_messages := lastN 250 (js_messages merged), js_forumPosts := lastN 50 (js_forumPosts merged) \<rparr>) s \<and>
      (\<forall>m \<in> set (js_messages merged). \<exists>m0. m = redact_message m0 \<and>
         find (\<lambda>m'. sm_id m' = sm_id m) (rev ((case readJoinedHistory digest key fs of ReadOk s \<Rightarrow> js_messages s | _ \<Rightarrow> []) @
           or_empty (he_messages entry))) = Some m0) \<and>
      (\<forall>key'. key' \<noteq> key \<longrightarrow> readJoinedHistory digest key' fs' = readJoinedHistory digest key' fs))"
proof -
  have inv: "history_inv fs" using history.reachable_inv [OF refl assms(1)] .
  show ?thesis
  proof (cases "tracked = Some False")
    case True
    with assms(3) show ?thesis by (simp add: record_apply)
  next
    case False
    let ?found = "readJoinedHistory digest key fs"
    let ?s = "next_snapshot ?found entry" and ?m = "merged_snapshot ?found entry"
    have run: "x = Inr (Some ?s)" "fs' = AList.update (joinedHistoryPath digest key) (File (Some (stored_snapshot ?s))) fs"
      using assms(3,4) False by (simp_all add: record_apply Let_def)
    have back_read: "readJoinedHistory digest key fs' = ReadOk ?s"
      using record_reads_back [OF False assms(4), of digest fs] assms(3) by simp
    have msgs: "js_messages ?m = mergeMessages (case ?found of ReadOk s \<Rightarrow> js_messages s | _ \<Rightarrow> []) (or_empty (he_messages entry))"
      by (simp add: merged_snapshot_def Let_def history_snapshot_def split: JoinedHistoryRead.splits)
    have others: "readJoinedHistory digest key' fs' = readJoinedHistory digest key' fs" if "key' \<noteq> key" for key'
      using that history_path_inj [OF assms(2), of key' key] by (simp add: run readJoinedHistory_def)
    have latest: "\<forall>m \<in> set (js_messages ?m). \<exists>m0. m = redact_message m0 \<and>
         find (\<lambda>m'. sm_id m' = sm_id m) (rev ((case ?found of ReadOk s \<Rightarrow> js_messages s | _ \<Rightarrow> []) @
           or_empty (he_messages entry))) = Some m0"
      unfolding msgs using merged_latest by (metis option.collapse)
    show ?thesis
      using False run(1) back_read latest others next_snapshot_ok(2) [OF inv, of digest key entry]
      unfolding SNAPSHOT_MAX_MESSAGES_def SNAPSHOT_MAX_FORUM_POSTS_def by auto
  qed
qed

lemma record_roundtrip_witness:
  "\<exists>s. recordJoinedHistory (\<lambda>x. x) lab_entry None [] = (Inr (Some s), snd (recordJoinedHistory (\<lambda>x. x) lab_entry None [])) \<and>
     readJoinedHistory (\<lambda>x. x) (''lab'', ''http://h'') (snd (recordJoinedHistory (\<lambda>x. x) lab_entry None [])) = ReadOk s"
proof -
  obtain x fs' where run: "recordJoinedHistory (\<lambda>x. x) lab_entry None [] = (x, fs')"
    by (cases "recordJoinedHistory (\<lambda>x. x) lab_entry None []")
  have key: "(''lab'', ''http://h'') = (he_roomId lab_entry, he_baseUrl lab_entry)" by (simp add: lab_entry_def)
  from record_roundtrip [OF rtranclp.rtrancl_refl _ run key] show ?thesis by (auto simp: run)
qed

text \<open>Redacting again may change a text: keys and bodies are not always stable, as a comment of
  \<open>mergeMessages\<close> says they are.\<close>

lemma redaction_not_idempotent:
  "redactSnapshotText ''token=&token=x'' = ''token=[redacted-token]''"
  "redactSnapshotText ''token=[redacted-token]'' = ''[redacted-token]''"
  by code_simp+

end
