(* ===== verification/JoinedRooms.thy ===== *)
theory JoinedRooms
  imports JoinedHistory
begin

text \<open>
  \<open>storage/joined-rooms-store.ts\<close>: the device-local list of joined rooms, keyed by room id and base
  URL, and the removal of a room's snapshot with its row. Every read-modify-write runs under the
  writer lock and is one action. The stored file decodes to \<open>None\<close> when \<open>rooms\<close> is no array.
\<close>

datatype JoinedRoomKind = Seat_human | Seat_agent

record JoinedRoomSeat =
  se_alias :: string
  se_kind :: "JoinedRoomKind option"

record JoinedRoom =
  jr_roomId :: string
  jr_title :: string
  jr_alias :: string
  jr_baseUrl :: string
  jr_joinedAt :: string
  jr_lastSeen :: string
  jr_kind :: "JoinedRoomKind option"
  jr_seats :: "JoinedRoomSeat list option"
  jr_archived :: "bool option"

record DeviceHome =
  dh_rooms :: "JoinedRoom list option stored"
  dh_history :: history_files

type_synonym 'a home_action = "(DeviceHome, js_error, 'a) action"

definition readJoinedRooms :: "JoinedRoom list home_action" where
  "readJoinedRooms = (\<lambda>h. case readFileR (dh_rooms h) of
     Inl e \<Rightarrow> if isNotFoundError e then (Inr [], h) else (Inl e, h)
   | Inr None \<Rightarrow> (Inr [], h)
   | Inr (Some rooms) \<Rightarrow> (Inr rooms, h))"

definition write_rooms :: "JoinedRoom list \<Rightarrow> unit home_action" where
  "write_rooms rooms = modify (\<lambda>h. h\<lparr> dh_rooms := File (Some rooms) \<rparr>)"

subsection \<open>Seats\<close>

definition seat :: "string \<Rightarrow> JoinedRoomKind option \<Rightarrow> JoinedRoomSeat" where
  "seat a k = \<lparr> se_alias = a, se_kind = k \<rparr>"

definition known_seat :: "(string \<times> JoinedRoomSeat) list \<Rightarrow> JoinedRoomSeat \<Rightarrow> (string \<times> JoinedRoomSeat) list" where
  "known_seat merged st =
     (if se_alias st \<noteq> [] then AList.update (se_alias st) (seat (se_alias st) (se_kind st)) merged else merged)"

definition learn_seat :: "(string \<times> JoinedRoomSeat) list \<Rightarrow> JoinedRoomSeat \<Rightarrow> (string \<times> JoinedRoomSeat) list" where
  "learn_seat merged st =
     (if se_alias st = [] then merged
      else let kind = (case se_kind st of Some k \<Rightarrow> Some k
             | None \<Rightarrow> (case map_of merged (se_alias st) of Some old \<Rightarrow> se_kind old | None \<Rightarrow> None))
           in AList.update (se_alias st) (seat (se_alias st) kind) merged)"

definition mergeSeats ::
  "JoinedRoomSeat list option \<Rightarrow> JoinedRoomSeat list option \<Rightarrow> string \<Rightarrow> JoinedRoomKind option \<Rightarrow>
   JoinedRoomSeat list" where
  "mergeSeats existing incoming selectedAlias selectedKind =
     (let merged = foldl known_seat [] (or_empty existing);
          learned = or_empty incoming @ (if selectedAlias \<noteq> [] then [seat selectedAlias selectedKind] else [])
      in map snd (foldl learn_seat merged learned))"

subsection \<open>One row\<close>

definition same_row :: "JoinedRoom \<Rightarrow> string \<times> string \<Rightarrow> bool" where
  "same_row room target \<longleftrightarrow> jr_roomId room = fst target \<and> jr_baseUrl room = snd target"

definition isRealTitle :: "string \<Rightarrow> string option \<Rightarrow> bool" where
  "isRealTitle roomId value = (case value of None \<Rightarrow> False | Some t \<Rightarrow> t \<noteq> [] \<and> t \<noteq> roomId)"

text \<open>The record \<open>upsertJoinedRoomLocked\<close> builds from the stored row, if any, and the entry.\<close>

definition upsert_record :: "JoinedRoom option \<Rightarrow> JoinedRoom \<Rightarrow> bool \<Rightarrow> JoinedRoom" where
  "upsert_record existing entry keepSelectedAlias =
     (let existingTitle = map_option jr_title existing;
          existingAlias = map_option jr_alias existing;
          keptAlias = (keepSelectedAlias \<and> (case existingAlias of Some a \<Rightarrow> a \<noteq> [] | None \<Rightarrow> False));
          alias1 = (if keptAlias then the existingAlias else jr_alias entry);
          aliasUnchanged = (existingAlias = Some alias1);
          kind = (case jr_kind entry of Some k \<Rightarrow> Some k
             | None \<Rightarrow> if aliasUnchanged then (case existing of Some r \<Rightarrow> jr_kind r | None \<Rightarrow> None) else None);
          seats = mergeSeats (case existing of Some r \<Rightarrow> jr_seats r | None \<Rightarrow> None) (jr_seats entry) alias1 kind;
          archived = (case jr_archived entry of Some a \<Rightarrow> Some a
             | None \<Rightarrow> (case existing of Some r \<Rightarrow> jr_archived r | None \<Rightarrow> None))
      in \<lparr> jr_roomId = jr_roomId entry,
           jr_title = (if isRealTitle (jr_roomId entry) (Some (jr_title entry)) then jr_title entry
             else if isRealTitle (jr_roomId entry) existingTitle then the existingTitle
             else if jr_title entry \<noteq> [] then jr_title entry else jr_roomId entry),
           jr_alias = alias1, jr_baseUrl = jr_baseUrl entry,
           jr_joinedAt = (case existing of Some r \<Rightarrow> jr_joinedAt r | None \<Rightarrow> jr_joinedAt entry),
           jr_lastSeen = jr_lastSeen entry, jr_kind = kind,
           jr_seats = (if seats \<noteq> [] then Some seats else None),
           jr_archived = (if archived = Some True then Some True else None) \<rparr>)"

definition upsertJoinedRoomLocked :: "JoinedRoom \<Rightarrow> bool \<Rightarrow> unit home_action" where
  "upsertJoinedRoomLocked entry keepSelectedAlias =
     bindA readJoinedRooms (\<lambda>rooms.
     case findIndex (\<lambda>room. same_row room (jr_roomId entry, jr_baseUrl entry)) rooms of
       None \<Rightarrow> write_rooms (rooms @ [upsert_record None entry keepSelectedAlias])
     | Some i \<Rightarrow> write_rooms (rooms[i := upsert_record (Some (rooms ! i)) entry keepSelectedAlias]))"

definition recordJoinedRoom :: "JoinedRoom \<Rightarrow> unit home_action" where
  "recordJoinedRoom entry = upsertJoinedRoomLocked entry False"

definition refreshJoinedRoomMetadata :: "JoinedRoom \<Rightarrow> unit home_action" where
  "refreshJoinedRoomMetadata entry = upsertJoinedRoomLocked entry True"

definition setJoinedRoomArchived :: "string \<times> string \<Rightarrow> bool \<Rightarrow> bool home_action" where
  "setJoinedRoomArchived target archived =
     bindA readJoinedRooms (\<lambda>rooms.
     case findIndex (\<lambda>room. same_row room target) rooms of
       None \<Rightarrow> ret False
     | Some i \<Rightarrow> bindA (write_rooms (rooms[i := (rooms ! i)\<lparr> jr_archived := if archived then Some True else None \<rparr>]))
         (\<lambda>_. ret True))"

subsection \<open>Many rows\<close>

record BulkJoinedRoomResult =
  bk_requested :: nat
  bk_matched :: nat
  bk_changed :: nat
  bk_missing :: int

definition joinedRoomKey :: "string \<times> string \<Rightarrow> string" where
  "joinedRoomKey target = nat_str (length (fst target)) @ '':'' @ fst target @ ''|'' @ snd target"

definition dedupeTargets :: "(string \<times> string) list \<Rightarrow> (string \<times> (string \<times> string)) list" where
  "dedupeTargets targets = foldl (\<lambda>unique t. AList.update (joinedRoomKey t) t unique) [] targets"

definition row_key :: "JoinedRoom \<Rightarrow> string" where
  "row_key room = joinedRoomKey (jr_roomId room, jr_baseUrl room)"

text \<open>The loop of \<open>setJoinedRoomsArchived\<close>: the rows, how many matched and how many changed.\<close>

fun archive_loop ::
  "(string \<times> (string \<times> string)) list \<Rightarrow> bool \<Rightarrow> JoinedRoom list \<Rightarrow> JoinedRoom list \<times> nat \<times> nat" where
  "archive_loop unique archived [] = ([], 0, 0)"
| "archive_loop unique archived (room # rooms) =
     (case archive_loop unique archived rooms of (rest, matched, changed) \<Rightarrow>
        if map_of unique (row_key room) = None then (room # rest, matched, changed)
        else if (jr_archived room = Some True) = archived then (room # rest, matched + 1, changed)
        else (room\<lparr> jr_archived := if archived then Some True else None \<rparr> # rest, matched + 1, changed + 1))"

definition setJoinedRoomsArchived :: "(string \<times> string) list \<Rightarrow> bool \<Rightarrow> BulkJoinedRoomResult home_action" where
  "setJoinedRoomsArchived targets archived =
     (let unique = dedupeTargets targets
      in if unique = [] then ret \<lparr> bk_requested = 0, bk_matched = 0, bk_changed = 0, bk_missing = 0 \<rparr>
         else bindA readJoinedRooms (\<lambda>rooms.
           case archive_loop unique archived rooms of (rooms', matched, changed) \<Rightarrow>
             bindA (if changed > 0 then write_rooms rooms' else ret ()) (\<lambda>_.
             ret \<lparr> bk_requested = length unique, bk_matched = matched, bk_changed = changed,
                   bk_missing = int (length unique) - int matched \<rparr>)))"

definition on_history :: "'a history_action \<Rightarrow> 'a home_action" where
  "on_history act = (\<lambda>h. case act (dh_history h) of (r, fs) \<Rightarrow> (r, h\<lparr> dh_history := fs \<rparr>))"

text \<open>The snapshots of the targets are removed one by one; failures are counted.\<close>

fun clear_snapshots ::
  "(string \<Rightarrow> string) \<Rightarrow> (string \<Rightarrow> js_error option) \<Rightarrow> (string \<times> string) list \<Rightarrow> history_files \<Rightarrow> nat \<times> history_files" where
  "clear_snapshots digest rm_error [] fs = (0, fs)"
| "clear_snapshots digest rm_error (t # ts) fs =
     (case deleteJoinedHistory digest rm_error t fs of (r, fs') \<Rightarrow>
      case clear_snapshots digest rm_error ts fs' of (n, fs'') \<Rightarrow>
        (case r of Inl _ \<Rightarrow> n + 1 | Inr _ \<Rightarrow> n, fs''))"

definition remove_rows :: "(JoinedRoom \<Rightarrow> bool) \<Rightarrow> nat home_action" where
  "remove_rows gone =
     bindA readJoinedRooms (\<lambda>rooms.
     let next_rooms = filter (\<lambda>room. \<not> gone room) rooms;
         count = length rooms - length next_rooms
     in bindA (if count > 0 then write_rooms next_rooms else ret ()) (\<lambda>_. ret count))"

definition deleteJoinedRooms ::
  "(string \<Rightarrow> string) \<Rightarrow> (string \<Rightarrow> js_error option) \<Rightarrow> (string \<times> string) list \<Rightarrow> BulkJoinedRoomResult home_action" where
  "deleteJoinedRooms digest rm_error targets =
     (let unique = dedupeTargets targets
      in if unique = [] then ret \<lparr> bk_requested = 0, bk_matched = 0, bk_changed = 0, bk_missing = 0 \<rparr>
         else bindA (remove_rows (\<lambda>room. map_of unique (row_key room) \<noteq> None)) (\<lambda>removed.
           bindA (\<lambda>h. case clear_snapshots digest rm_error (map snd unique) (dh_history h) of
                (n, fs) \<Rightarrow> (Inr n, h\<lparr> dh_history := fs \<rparr>)) (\<lambda>snapshotFailures.
           if snapshotFailures > 0
           then throw (PlainError (nat_str removed @ '' joined-room '' @
                  (if removed = 1 then ''row was'' else ''rows were'') @ '' removed, but '' @
                  nat_str snapshotFailures @ '' offline '' @
                  (if snapshotFailures = 1 then ''snapshot'' else ''snapshots'') @ '' could not be cleared''))
           else ret \<lparr> bk_requested = length unique, bk_matched = removed, bk_changed = removed,
                      bk_missing = int (length unique) - int removed \<rparr>)))"

definition deleteJoinedRoom ::
  "(string \<Rightarrow> string) \<Rightarrow> (string \<Rightarrow> js_error option) \<Rightarrow> string \<times> string \<Rightarrow> bool home_action" where
  "deleteJoinedRoom digest rm_error target =
     bindA (remove_rows (\<lambda>room. same_row room target)) (\<lambda>count.
     bindA (on_history (deleteJoinedHistory digest rm_error target)) (\<lambda>_.
     ret (count > 0)))"

subsection \<open>Rows as a map\<close>

definition rooms_of :: "DeviceHome \<Rightarrow> JoinedRoom list" where
  "rooms_of h = (case dh_rooms h of File (Some rooms) \<Rightarrow> rooms | _ \<Rightarrow> [])"

definition room_id :: "JoinedRoom \<Rightarrow> string \<times> string" where
  "room_id room = (jr_roomId room, jr_baseUrl room)"

definition rows_view :: "DeviceHome \<Rightarrow> string \<times> string \<Rightarrow> JoinedRoom option" where
  "rows_view h k = find (\<lambda>room. room_id room = k) (rooms_of h)"

definition archive_row :: "bool \<Rightarrow> JoinedRoom \<Rightarrow> JoinedRoom" where
  "archive_row archived room = room\<lparr> jr_archived := if archived then Some True else None \<rparr>"

definition device_inv :: "DeviceHome \<Rightarrow> bool" where
  "device_inv h \<longleftrightarrow> dh_rooms h \<noteq> BadFile \<and> distinct (map room_id (rooms_of h)) \<and>
     (\<forall>room \<in> set (rooms_of h). jr_archived room \<noteq> Some False) \<and> history_inv (dh_history h)"

lemma same_row_id: "same_row room k \<longleftrightarrow> room_id room = k"
  by (cases k) (simp add: same_row_def room_id_def)

lemma joinedRoomKey_inj [simp]: "joinedRoomKey k = joinedRoomKey k' \<longleftrightarrow> k = k'"
proof
  assume "joinedRoomKey k = joinedRoomKey k'"
  then have "nat_str (length (fst k)) @ '':'' @ fst k @ ''|'' @ snd k =
      nat_str (length (fst k')) @ '':'' @ fst k' @ ''|'' @ snd k'" by (simp add: joinedRoomKey_def)
  from length_prefixed_inj [OF this] show "k = k'" by (simp add: prod_eq_iff)
qed simp

lemma row_key_id: "row_key room = joinedRoomKey (room_id room)"
  by (simp add: row_key_def room_id_def)

lemma dedupe_map: "map_of (dedupeTargets ts) (joinedRoomKey k) = (if k \<in> set ts then Some k else None)"
  by (induction ts rule: rev_induct) (auto simp: dedupeTargets_def update_conv')

lemma dedupe_values: "snd ` set (dedupeTargets ts) = set ts \<and> distinct (map fst (dedupeTargets ts)) \<and>
    (\<forall>(k, t) \<in> set (dedupeTargets ts). k = joinedRoomKey t)"
proof (induction ts rule: rev_induct)
  case (snoc t ts)
  have ent: "\<forall>(k, t') \<in> set (dedupeTargets (ts @ [t])). k = joinedRoomKey t'"
    using snoc update_entries [of "dedupeTargets ts" "\<lambda>k t. k = joinedRoomKey t" "joinedRoomKey t" t]
    by (simp add: dedupeTargets_def)
  have d: "distinct (map fst (dedupeTargets (ts @ [t])))"
    using snoc by (simp add: dedupeTargets_def distinct_update)
  have "x \<in> snd ` set (dedupeTargets us) \<longleftrightarrow> x \<in> set us" if "distinct (map fst (dedupeTargets us))"
    "\<forall>(k, t') \<in> set (dedupeTargets us). k = joinedRoomKey t'" for x us
  proof
    assume "x \<in> snd ` set (dedupeTargets us)"
    then obtain k where "(k, x) \<in> set (dedupeTargets us)" by auto
    with that have "map_of (dedupeTargets us) (joinedRoomKey x) = Some x" by auto
    then show "x \<in> set us" unfolding dedupe_map by (simp split: if_splits)
  next
    assume "x \<in> set us"
    then have "map_of (dedupeTargets us) (joinedRoomKey x) = Some x" unfolding dedupe_map by simp
    then show "x \<in> snd ` set (dedupeTargets us)" by (force dest: map_of_SomeD)
  qed
  with ent d show ?case by blast
qed (simp add: dedupeTargets_def)

lemma dedupe_length: "length (dedupeTargets ts) = card (set ts)"
proof -
  have "length (dedupeTargets ts) = card (set (map snd (dedupeTargets ts)))"
  proof (rule distinct_card [symmetric, of "map snd (dedupeTargets ts)", unfolded length_map])
    have "x \<in> set (dedupeTargets ts) \<Longrightarrow> fst x = joinedRoomKey (snd x)" for x
      using dedupe_values [of ts, THEN conjunct2, THEN conjunct2] by (cases x) auto
    then have "inj_on snd (set (dedupeTargets ts))"
      by (intro inj_onI prod_eqI) simp_all
    then show "distinct (map snd (dedupeTargets ts))"
      using dedupe_values [of ts] by (auto simp: distinct_map)
  qed
  then show ?thesis using dedupe_values [of ts] by simp
qed

lemma readJoinedRooms_apply:
  "device_inv h \<Longrightarrow> readJoinedRooms h = (Inr (rooms_of h), h)"
  by (auto simp: readJoinedRooms_def rooms_of_def device_inv_def isNotFoundError_def
      split: option.splits sum.splits) (cases "dh_rooms h"; auto)+

lemma rooms_of_write [simp]: "rooms_of (h\<lparr> dh_rooms := File (Some rooms) \<rparr>) = rooms"
  by (simp add: rooms_of_def)

lemma rooms_of_history [simp]: "rooms_of (h\<lparr> dh_history := fs \<rparr>) = rooms_of h"
  by (simp add: rooms_of_def)

lemma archive_row_id [simp]: "room_id (archive_row a room) = room_id room"
  by (simp add: archive_row_def room_id_def)

lemma archive_row_same: "jr_archived room \<noteq> Some False \<Longrightarrow> (jr_archived room = Some True) = a \<Longrightarrow> archive_row a room = room"
  by (cases a; cases "jr_archived room") (auto simp: archive_row_def)

lemma upsert_record_id [simp]: "room_id (upsert_record old entry keep) = room_id entry"
  "jr_archived (upsert_record old entry keep) \<noteq> Some False"
  by (simp_all add: upsert_record_def room_id_def Let_def)

text \<open>\<open>findIndex\<close> and replacement in place are \<open>upsertBy\<close>.\<close>

lemma upsertBy_findIndex:
  "key x = k \<Longrightarrow> (case findIndex (\<lambda>y. key y = k) xs of None \<Rightarrow> xs @ [x] | Some i \<Rightarrow> xs[i := x]) = upsertBy key x xs"
  by (auto simp: upsertBy_def)

lemma find_findIndex: "find P xs = map_option (nth xs) (findIndex P xs)"
  by (induction xs) (auto simp: option.map_comp comp_def)

lemma upsert_apply:
  assumes "device_inv h"
  shows "upsertJoinedRoomLocked entry keep h =
    (Inr (), h\<lparr> dh_rooms := File (Some (upsertBy room_id (upsert_record (rows_view h (room_id entry)) entry keep) (rooms_of h))) \<rparr>)"
proof -
  let ?i = "findIndex (\<lambda>room. room_id room = room_id entry) (rooms_of h)"
  have view: "rows_view h (room_id entry) = map_option (nth (rooms_of h)) ?i"
    by (simp add: rows_view_def find_findIndex)
  have key: "same_row room (jr_roomId entry, jr_baseUrl entry) \<longleftrightarrow> room_id room = room_id entry" for room
    by (simp add: same_row_id room_id_def)
  show ?thesis
    unfolding view upsertJoinedRoomLocked_def key
    by (cases ?i) (simp_all add: readJoinedRooms_apply [OF assms] write_rooms_def upsertBy_def del: findIndex_None)
qed

lemma archive_one_apply:
  assumes "device_inv h"
  shows "setJoinedRoomArchived k a h = (case rows_view h k of
      None \<Rightarrow> (Inr False, h)
    | Some room \<Rightarrow> (Inr True, h\<lparr> dh_rooms := File (Some (upsertBy room_id (archive_row a room) (rooms_of h))) \<rparr>))"
proof -
  let ?i = "findIndex (\<lambda>room. room_id room = k) (rooms_of h)"
  have view: "rows_view h k = map_option (nth (rooms_of h)) ?i"
    by (simp add: rows_view_def find_findIndex)
  have "?i = Some i \<Longrightarrow> room_id (rooms_of h ! i) = k" for i by (auto dest: findIndex_Some)
  then show ?thesis
    unfolding view setJoinedRoomArchived_def same_row_id
    by (cases ?i) (simp_all add: readJoinedRooms_apply [OF assms] write_rooms_def upsertBy_def archive_row_def
        room_id_def del: findIndex_None)
qed

lemma archive_loop_map:
  assumes "\<forall>room \<in> set rooms. jr_archived room \<noteq> Some False"
  shows "archive_loop (dedupeTargets ts) a rooms =
    (map (\<lambda>room. if room_id room \<in> set ts then archive_row a room else room) rooms,
     length (filter (\<lambda>room. room_id room \<in> set ts) rooms),
     length (filter (\<lambda>room. room_id room \<in> set ts \<and> (jr_archived room = Some True) \<noteq> a) rooms))"
  using assms
proof (induction rooms)
  case (Cons room rooms)
  then have "(jr_archived room = Some True) = a \<Longrightarrow> archive_row a room = room"
    by (intro archive_row_same) auto
  with Cons show ?case by (auto simp: row_key_id dedupe_map archive_row_def)
qed simp

lemma archive_many_apply:
  assumes "device_inv h" "ts \<noteq> []"
  shows "\<exists>matched changed. setJoinedRoomsArchived ts a h =
    (Inr \<lparr> bk_requested = card (set ts), bk_matched = matched, bk_changed = changed,
       bk_missing = int (card (set ts)) - int matched \<rparr>,
     if changed = 0 then h else h\<lparr> dh_rooms := File (Some (map (\<lambda>room. if room_id room \<in> set ts
       then archive_row a room else room) (rooms_of h))) \<rparr>) \<and>
    matched = length (filter (\<lambda>room. room_id room \<in> set ts) (rooms_of h)) \<and>
    changed = length (filter (\<lambda>room. room_id room \<in> set ts \<and> (jr_archived room = Some True) \<noteq> a) (rooms_of h))"
proof -
  have "dedupeTargets ts \<noteq> []" using dedupe_values [of ts] assms(2) by auto
  moreover have "archive_loop (dedupeTargets ts) a (rooms_of h) =
    (map (\<lambda>room. if room_id room \<in> set ts then archive_row a room else room) (rooms_of h),
     length (filter (\<lambda>room. room_id room \<in> set ts) (rooms_of h)),
     length (filter (\<lambda>room. room_id room \<in> set ts \<and> (jr_archived room = Some True) \<noteq> a) (rooms_of h)))"
    by (rule archive_loop_map) (use assms(1) in \<open>simp add: device_inv_def\<close>)
  ultimately show ?thesis
    by (simp add: setJoinedRoomsArchived_def readJoinedRooms_apply [OF assms(1)] write_rooms_def dedupe_length)
qed

lemma remove_rows_apply:
  assumes "device_inv h"
  shows "remove_rows gone h = (Inr (length (filter gone (rooms_of h))),
    if filter gone (rooms_of h) = [] then h
    else h\<lparr> dh_rooms := File (Some (filter (\<lambda>room. \<not> gone room) (rooms_of h))) \<rparr>)"
proof -
  have "length (rooms_of h) - length (filter (\<lambda>room. \<not> gone room) (rooms_of h)) = length (filter gone (rooms_of h))"
    using sum_length_filter_compl [of gone "rooms_of h"] by simp
  then show ?thesis
    by (simp only: remove_rows_def bindA_apply readJoinedRooms_apply [OF assms] prod.case sum.case Let_def)
      (simp add: write_rooms_def)
qed

lemma rooms_of_removed:
  "device_inv h \<Longrightarrow> rooms_of (snd (remove_rows gone h)) = filter (\<lambda>room. \<not> gone room) (rooms_of h)"
  by (auto simp: remove_rows_apply filter_empty_conv intro!: filter_True [symmetric])

lemma removed_history [simp]: "device_inv h \<Longrightarrow> dh_history (snd (remove_rows gone h)) = dh_history h"
  by (simp add: remove_rows_apply)

lemma delete_one_apply:
  assumes "device_inv h"
  shows "rooms_of (snd (deleteJoinedRoom digest rm k h)) = filter (\<lambda>room. room_id room \<noteq> k) (rooms_of h)"
    "snd (deleteJoinedRoom digest rm k h) = (snd (remove_rows (\<lambda>room. same_row room k) h))
       \<lparr> dh_history := snd (deleteJoinedHistory digest rm k (dh_history h)) \<rparr>"
proof -
  let ?r = "remove_rows (\<lambda>room. same_row room k) h"
  obtain n h1 where r: "?r = (Inr n, h1)" by (simp add: remove_rows_apply [OF assms])
  then have h1: "h1 = snd ?r" by simp
  obtain y fs where del: "deleteJoinedHistory digest rm k (dh_history h) = (y, fs)"
    by (cases "deleteJoinedHistory digest rm k (dh_history h)")
  have "dh_history h1 = dh_history h" using assms by (simp add: h1)
  with r del have "snd (deleteJoinedRoom digest rm k h) = h1\<lparr> dh_history := fs \<rparr>"
    by (cases y) (simp_all add: deleteJoinedRoom_def bindA_apply on_history_def)
  then show "rooms_of (snd (deleteJoinedRoom digest rm k h)) = filter (\<lambda>room. room_id room \<noteq> k) (rooms_of h)"
    "snd (deleteJoinedRoom digest rm k h) = (snd (remove_rows (\<lambda>room. same_row room k) h))
       \<lparr> dh_history := snd (deleteJoinedHistory digest rm k (dh_history h)) \<rparr>"
    by (simp_all add: rooms_of_removed [OF assms] same_row_id del h1)
qed

lemma delete_many_apply:
  assumes "device_inv h" "ts \<noteq> []"
  shows "rooms_of (snd (deleteJoinedRooms digest rm ts h)) = filter (\<lambda>room. room_id room \<notin> set ts) (rooms_of h)"
    "snd (deleteJoinedRooms digest rm ts h) =
       (snd (remove_rows (\<lambda>room. map_of (dedupeTargets ts) (row_key room) \<noteq> None) h))
         \<lparr> dh_history := snd (clear_snapshots digest rm (map snd (dedupeTargets ts)) (dh_history h)) \<rparr>"
proof -
  have ne: "dedupeTargets ts \<noteq> []" using dedupe_values [of ts] assms(2) by auto
  let ?gone = "\<lambda>room. map_of (dedupeTargets ts) (row_key room) \<noteq> None"
  let ?r = "remove_rows ?gone h"
  have gone: "?gone room \<longleftrightarrow> room_id room \<in> set ts" for room by (simp add: row_key_id dedupe_map)
  obtain m h1 where r: "?r = (Inr m, h1)" by (simp only: remove_rows_apply [OF assms(1)])
  then have h1: "h1 = snd ?r" by simp
  obtain n fs where cl: "clear_snapshots digest rm (map snd (dedupeTargets ts)) (dh_history h) = (n, fs)"
    by (cases "clear_snapshots digest rm (map snd (dedupeTargets ts)) (dh_history h)")
  have "dh_history h1 = dh_history h" using assms(1) by (simp only: h1 removed_history)
  with r cl have "snd (deleteJoinedRooms digest rm ts h) = h1\<lparr> dh_history := fs \<rparr>"
    unfolding deleteJoinedRooms_def Let_def if_not_P [OF ne] bindA_apply by simp
  then show "rooms_of (snd (deleteJoinedRooms digest rm ts h)) = filter (\<lambda>room. room_id room \<notin> set ts) (rooms_of h)"
    "snd (deleteJoinedRooms digest rm ts h) =
       (snd (remove_rows (\<lambda>room. map_of (dedupeTargets ts) (row_key room) \<noteq> None) h))
         \<lparr> dh_history := snd (clear_snapshots digest rm (map snd (dedupeTargets ts)) (dh_history h)) \<rparr>"
    by (simp_all only: rooms_of_history rooms_of_removed [OF assms(1)] gone cl snd_conv h1)
qed

subsection \<open>The device as a system\<close>

definition new_device :: DeviceHome where
  "new_device = \<lparr> dh_rooms = NoFile, dh_history = [] \<rparr>"

inductive device_step :: "(string \<Rightarrow> string) \<Rightarrow> DeviceHome \<Rightarrow> DeviceHome \<Rightarrow> bool" for digest where
  join: "device_step digest h (snd (recordJoinedRoom entry h))"
| refresh: "device_step digest h (snd (refreshJoinedRoomMetadata entry h))"
| hide: "device_step digest h (snd (setJoinedRoomArchived k a h))"
| hide_many: "device_step digest h (snd (setJoinedRoomsArchived ts a h))"
| forget: "device_step digest h (snd (deleteJoinedRoom digest rm k h))"
| forget_many: "device_step digest h (snd (deleteJoinedRooms digest rm ts h))"
| save: "device_step digest h (snd (on_history (recordJoinedHistory digest entry tracked) h))"

text \<open>The abstract device: a finite map from (room id, base URL) to rows.\<close>

type_synonym rows = "string \<times> string \<Rightarrow> JoinedRoom option"

definition join_row :: "JoinedRoom \<Rightarrow> bool \<Rightarrow> rows \<Rightarrow> rows" where
  "join_row entry keep m = m(room_id entry \<mapsto> upsert_record (m (room_id entry)) entry keep)"

definition archive_rows :: "(string \<times> string) set \<Rightarrow> bool \<Rightarrow> rows \<Rightarrow> rows" where
  "archive_rows K a m = (\<lambda>k. if k \<in> K then map_option (archive_row a) (m k) else m k)"

inductive rows_step :: "rows \<Rightarrow> rows \<Rightarrow> bool" where
  join: "rows_step m (join_row entry keep m)"
| hide: "rows_step m (archive_rows K a m)"
| forget: "rows_step m (m |` (- K))"

lemma view_upsert: "rooms_of h' = upsertBy room_id x (rooms_of h) \<Longrightarrow> rows_view h' = (rows_view h)(room_id x \<mapsto> x)"
  by (rule ext) (simp add: rows_view_def)

lemma view_map:
  "rooms_of h' = map (\<lambda>room. if room_id room \<in> K then archive_row a room else room) (rooms_of h) \<Longrightarrow>
   rows_view h' = archive_rows K a (rows_view h)"
proof (rule ext)
  fix k
  assume "rooms_of h' = map (\<lambda>room. if room_id room \<in> K then archive_row a room else room) (rooms_of h)"
  moreover have "find (\<lambda>room. room_id room = k) (map (\<lambda>room. if room_id room \<in> K then archive_row a room else room) rs) =
      (if k \<in> K then map_option (archive_row a) (find (\<lambda>room. room_id room = k) rs)
       else find (\<lambda>room. room_id room = k) rs)" for rs
    by (induction rs) auto
  ultimately show "rows_view h' k = archive_rows K a (rows_view h) k"
    by (simp add: rows_view_def archive_rows_def)
qed

lemma view_filter:
  "rooms_of h' = filter (\<lambda>room. room_id room \<notin> K) (rooms_of h) \<Longrightarrow> rows_view h' = rows_view h |` (- K)"
proof (rule ext)
  fix k
  assume "rooms_of h' = filter (\<lambda>room. room_id room \<notin> K) (rooms_of h)"
  moreover have "find (\<lambda>room. room_id room = k) (filter (\<lambda>room. room_id room \<notin> K) rs) =
      (if k \<in> K then None else find (\<lambda>room. room_id room = k) rs)" for rs
    by (induction rs) auto
  ultimately show "rows_view h' k = (rows_view h |` (- K)) k"
    by (simp add: rows_view_def restrict_map_def)
qed

lemma archive_rows_noop: "archive_rows {} a m = m" by (simp add: archive_rows_def)

text \<open>Each operation, seen on the rows, and the order of the list.\<close>

lemma operations_view:
  assumes "device_inv h"
  shows "rows_view (snd (recordJoinedRoom e h)) = join_row e False (rows_view h)"
    "rows_view (snd (refreshJoinedRoomMetadata e h)) = join_row e True (rows_view h)"
    "rows_view (snd (setJoinedRoomArchived k a h)) = archive_rows {k} a (rows_view h)"
    "rows_view (snd (setJoinedRoomsArchived ts a h)) = archive_rows (set ts) a (rows_view h)"
    "rows_view (snd (deleteJoinedRoom digest rm k h)) = rows_view h |` (- {k})"
    "rows_view (snd (deleteJoinedRooms digest rm ts h)) = rows_view h |` (- set ts)"
    "rows_view (snd (on_history act h)) = rows_view h"
proof -
  have up: "rows_view (snd (upsertJoinedRoomLocked e keep h)) = join_row e keep (rows_view h)" for keep
    using view_upsert [of "snd (upsertJoinedRoomLocked e keep h)" _ h]
    by (simp add: upsert_apply [OF assms] join_row_def)
  show "rows_view (snd (recordJoinedRoom e h)) = join_row e False (rows_view h)"
    "rows_view (snd (refreshJoinedRoomMetadata e h)) = join_row e True (rows_view h)"
    by (simp_all add: recordJoinedRoom_def refreshJoinedRoomMetadata_def up)
  show "rows_view (snd (setJoinedRoomArchived k a h)) = archive_rows {k} a (rows_view h)"
  proof (cases "rows_view h k")
    case None
    then show ?thesis by (auto simp: archive_one_apply [OF assms] archive_rows_def)
  next
    case (Some room)
    then have "room_id room = k" by (auto simp: rows_view_def find_Some_iff)
    with Some view_upsert [of "snd (setJoinedRoomArchived k a h)" "archive_row a room" h] show ?thesis
      by (auto simp: archive_one_apply [OF assms] archive_rows_def)
  qed
  show "rows_view (snd (setJoinedRoomsArchived ts a h)) = archive_rows (set ts) a (rows_view h)"
  proof (cases "ts = []")
    case True
    then show ?thesis by (simp add: setJoinedRoomsArchived_def dedupeTargets_def archive_rows_noop)
  next
    case False
    from archive_many_apply [OF assms False, of a] obtain changed where
      run: "snd (setJoinedRoomsArchived ts a h) = (if changed = 0 then h else h\<lparr> dh_rooms := File (Some
        (map (\<lambda>room. if room_id room \<in> set ts then archive_row a room else room) (rooms_of h))) \<rparr>)"
      and changed: "changed = length (filter (\<lambda>room. room_id room \<in> set ts \<and> (jr_archived room = Some True) \<noteq> a) (rooms_of h))"
      by auto
    have "rooms_of (snd (setJoinedRoomsArchived ts a h)) =
        map (\<lambda>room. if room_id room \<in> set ts then archive_row a room else room) (rooms_of h)"
    proof (cases "changed = 0")
      case True
      then have "room \<in> set (rooms_of h) \<Longrightarrow> room_id room \<in> set ts \<Longrightarrow> archive_row a room = room" for room
        using changed assms by (intro archive_row_same) (auto simp: device_inv_def filter_empty_conv)
      then show ?thesis using True by (simp add: run map_idI)
    qed (simp add: run)
    then show ?thesis by (rule view_map)
  qed
  show "rows_view (snd (deleteJoinedRoom digest rm k h)) = rows_view h |` (- {k})"
    by (rule view_filter) (simp add: delete_one_apply(1) [OF assms])
  show "rows_view (snd (deleteJoinedRooms digest rm ts h)) = rows_view h |` (- set ts)"
  proof (cases "ts = []")
    case True
    then show ?thesis by (simp add: deleteJoinedRooms_def dedupeTargets_def restrict_map_def)
  qed (rule view_filter, simp add: delete_many_apply(1) [OF assms])
  show "rows_view (snd (on_history act h)) = rows_view h"
    by (simp add: on_history_def rows_view_def fun_eq_iff split: prod.splits)
qed

lemma clear_snapshots_inv: "history_inv fs \<Longrightarrow> history_inv (snd (clear_snapshots digest rm ts fs))"
proof (induction ts arbitrary: fs)
  case (Cons t ts)
  obtain r fs' where del: "deleteJoinedHistory digest rm t fs = (r, fs')" by (cases "deleteJoinedHistory digest rm t fs")
  have "history_inv fs'"
    using history_step_inv [OF Cons.prems history_step.drop, of digest rm t] del by simp
  from Cons.IH [OF this] show ?case
    by (cases "clear_snapshots digest rm ts fs'") (simp add: del)
qed simp

lemma device_inv_rows:
  "device_inv h \<Longrightarrow> distinct (map room_id rooms) \<Longrightarrow> \<forall>room \<in> set rooms. jr_archived room \<noteq> Some False \<Longrightarrow>
   device_inv (h\<lparr> dh_rooms := File (Some rooms) \<rparr>)"
  by (simp add: device_inv_def)

lemma device_inv_history: "device_inv h \<Longrightarrow> history_inv fs \<Longrightarrow> device_inv (h\<lparr> dh_history := fs \<rparr>)"
  by (simp add: device_inv_def)

lemma upsert_inv: "device_inv h \<Longrightarrow> device_inv (snd (upsertJoinedRoomLocked e keep h))"
  unfolding upsert_apply snd_conv
  using set_upsertBy [of room_id "upsert_record (rows_view h (room_id e)) e keep" "rooms_of h"]
  by (intro device_inv_rows upsertBy_distinct) (auto simp: device_inv_def)

lemma removed_inv: "device_inv h \<Longrightarrow> device_inv (snd (remove_rows gone h))"
  by (auto simp: remove_rows_apply device_inv_def distinct_map_filter)

lemma device_step_inv:
  assumes "device_inv h" "device_step digest h h'"
  shows "device_inv h'"
  using assms(2)
proof (cases rule: device_step.cases)
  case (join entry)
  then show ?thesis using upsert_inv [OF assms(1)] by (simp add: recordJoinedRoom_def)
next
  case (refresh entry)
  then show ?thesis using upsert_inv [OF assms(1)] by (simp add: refreshJoinedRoomMetadata_def)
next
  case (hide k a)
  show ?thesis
  proof (cases "rows_view h k")
    case (Some room)
    then have "set (upsertBy room_id (archive_row a room) (rooms_of h)) \<subseteq> insert (archive_row a room) (set (rooms_of h))"
      by (intro set_upsertBy)
    with Some hide assms(1) show ?thesis unfolding archive_one_apply [OF assms(1)]
      by (auto intro!: device_inv_rows upsertBy_distinct simp: device_inv_def archive_row_def)
  qed (use hide assms(1) in \<open>simp add: archive_one_apply\<close>)
next
  case (hide_many ts a)
  show ?thesis
  proof (cases "ts = []")
    case False
    have "map room_id (map (\<lambda>room. if room_id room \<in> set ts then archive_row a room else room) (rooms_of h)) =
        map room_id (rooms_of h)" by simp
    moreover have "distinct (map room_id (rooms_of h))" using assms(1) by (simp add: device_inv_def)
    ultimately have "distinct (map room_id (map (\<lambda>room. if room_id room \<in> set ts then archive_row a room else room) (rooms_of h)))"
      by (simp only:)
    then have "device_inv (h\<lparr> dh_rooms := File (Some (map (\<lambda>room. if room_id room \<in> set ts
        then archive_row a room else room) (rooms_of h))) \<rparr>)"
      using assms(1) by (intro device_inv_rows) (auto simp: device_inv_def archive_row_def)
    then show ?thesis using archive_many_apply [OF assms(1) False, of a] hide_many assms(1)
      by (auto split: if_splits)
  qed (use hide_many assms(1) in \<open>simp add: setJoinedRoomsArchived_def dedupeTargets_def\<close>)
next
  case (forget rm k)
  have "history_inv (snd (deleteJoinedHistory digest rm k (dh_history h)))"
    by (rule history_step_inv [OF _ history_step.drop]) (use assms(1) in \<open>simp add: device_inv_def\<close>)
  then show ?thesis unfolding forget delete_one_apply(2) [OF assms(1)]
    by (intro device_inv_history removed_inv assms(1))
next
  case (forget_many rm ts)
  show ?thesis
  proof (cases "ts = []")
    case False
    have "history_inv (snd (clear_snapshots digest rm (map snd (dedupeTargets ts)) (dh_history h)))"
      by (rule clear_snapshots_inv) (use assms(1) in \<open>simp add: device_inv_def\<close>)
    then show ?thesis unfolding forget_many delete_many_apply(2) [OF assms(1) False]
      by (intro device_inv_history removed_inv assms(1))
  qed (use forget_many assms(1) in \<open>simp add: deleteJoinedRooms_def dedupeTargets_def\<close>)
next
  case (save entry tracked)
  have "history_inv (snd (recordJoinedHistory digest entry tracked (dh_history h)))"
    by (rule history_step_inv [OF _ history_step.keep]) (use assms(1) in \<open>simp add: device_inv_def\<close>)
  then show ?thesis using save assms(1) by (simp add: on_history_def device_inv_history split: prod.splits)
qed

lemma device_step_rows: "device_inv h \<Longrightarrow> device_step digest h h' \<Longrightarrow> rows_step (rows_view h) (rows_view h')"
  by (erule device_step.cases) (auto simp: operations_view intro: rows_step.intros
      rows_step.hide [where K = "{}" and m = "rows_view h", unfolded archive_rows_noop])

interpretation device: refinement "\<lambda>h. h = new_device" "device_step digest" device_inv rows_view rows_step for digest
proof
  show "device_inv h" if "h = new_device" for h
    using that by (simp add: device_inv_def new_device_def rooms_of_def history_inv_def history_file_def)
qed (use device_step_inv device_step_rows in auto)

lemma view_Some:
  "device_inv h \<Longrightarrow> rows_view h k = Some room \<longleftrightarrow> room \<in> set (rooms_of h) \<and> room_id room = k"
proof -
  have "distinct (map room_id rs) \<Longrightarrow> find (\<lambda>room. room_id room = k) rs = Some room \<longleftrightarrow> room \<in> set rs \<and> room_id room = k" for rs
    by (induction rs) auto
  then show "device_inv h \<Longrightarrow> ?thesis" by (simp add: rows_view_def device_inv_def)
qed

lemma count_rows:
  assumes "device_inv h"
  shows "length (filter P (rooms_of h)) = card {k. \<exists>row. rows_view h k = Some row \<and> P row}"
proof -
  have d: "distinct (map room_id (filter P (rooms_of h)))"
    using assms by (simp add: device_inv_def distinct_map_filter)
  have "{k. \<exists>row. rows_view h k = Some row \<and> P row} = set (map room_id (filter P (rooms_of h)))"
    unfolding view_Some [OF assms] by force
  with distinct_card [OF d] show ?thesis by simp
qed

subsection \<open>Properties\<close>

text \<open>Claim C12. The list of joined rooms implements a map from (room id, base URL) to rows. On every
  device reached from a new one, by any sequence of operations, each operation is exactly its
  abstract counterpart: a record or a metadata refresh changes only the row of its own key, an archive
  or a bulk archive only the flag of the named rows, a delete removes exactly the named rows, and
  saved history changes none; so a whole run is a run of the map. The bulk operations report the number
  of distinct targets, of those stored, and of the rest.\<close>

theorem joined_rooms_refinement:
  assumes "(device_step digest)\<^sup>*\<^sup>* new_device h"
  shows "rows_step\<^sup>*\<^sup>* Map.empty (rows_view h) \<and>
    rows_view (snd (recordJoinedRoom e h)) = join_row e False (rows_view h) \<and>
    rows_view (snd (refreshJoinedRoomMetadata e h)) = join_row e True (rows_view h) \<and>
    rows_view (snd (setJoinedRoomArchived k a h)) = archive_rows {k} a (rows_view h) \<and>
    fst (setJoinedRoomArchived k a h) = Inr (k \<in> dom (rows_view h)) \<and>
    rows_view (snd (setJoinedRoomsArchived ts a h)) = archive_rows (set ts) a (rows_view h) \<and>
    map room_id (rooms_of (snd (setJoinedRoomsArchived ts a h))) = map room_id (rooms_of h) \<and>
    (\<exists>changed. fst (setJoinedRoomsArchived ts a h) = Inr \<lparr> bk_requested = card (set ts),
       bk_matched = card (set ts \<inter> dom (rows_view h)), bk_changed = changed,
       bk_missing = int (card (set ts - dom (rows_view h))) \<rparr> \<and>
       changed = card {k \<in> set ts. \<exists>row. rows_view h k = Some row \<and> archive_row a row \<noteq> row}) \<and>
    rows_view (snd (deleteJoinedRoom digest rm k h)) = rows_view h |` (- {k}) \<and>
    rows_view (snd (deleteJoinedRooms digest rm ts h)) = rows_view h |` (- set ts)"
proof -
  have start: "device_inv new_device"
    by (simp add: device_inv_def new_device_def rooms_of_def history_inv_def history_file_def)
  have inv: "device_inv h" using device.reachable_inv [OF refl assms] .
  have "rows_view new_device = Map.empty" by (rule ext) (simp add: rows_view_def rooms_of_def new_device_def)
  then have run: "rows_step\<^sup>*\<^sup>* Map.empty (rows_view h)" using device.abs_steps [OF assms start] by simp
  have one: "fst (setJoinedRoomArchived k a h) = Inr (k \<in> dom (rows_view h))"
    by (auto simp: archive_one_apply [OF inv] split: option.splits)
  have many: "map room_id (rooms_of (snd (setJoinedRoomsArchived ts a h))) = map room_id (rooms_of h) \<and>
    (\<exists>changed. fst (setJoinedRoomsArchived ts a h) = Inr \<lparr> bk_requested = card (set ts),
       bk_matched = card (set ts \<inter> dom (rows_view h)), bk_changed = changed,
       bk_missing = int (card (set ts - dom (rows_view h))) \<rparr> \<and>
       changed = card {k \<in> set ts. \<exists>row. rows_view h k = Some row \<and> archive_row a row \<noteq> row})"
  proof (cases "ts = []")
    case True
    then show ?thesis by (simp add: setJoinedRoomsArchived_def dedupeTargets_def)
  next
    case False
    have m: "length (filter (\<lambda>room. room_id room \<in> set ts) (rooms_of h)) = card (set ts \<inter> dom (rows_view h))"
      unfolding count_rows [OF inv] using view_Some [OF inv] by (intro arg_cong [where f = card]) auto
    have "archive_row a row \<noteq> row \<longleftrightarrow> (jr_archived row = Some True) \<noteq> a" if "row \<in> set (rooms_of h)" for row
    proof -
      have "jr_archived row \<noteq> Some False" using inv that by (simp add: device_inv_def)
      then show ?thesis using archive_row_same [of row a] by (cases a) (auto simp: archive_row_def dest: arg_cong [of _ _ jr_archived])
    qed
    then have c: "length (filter (\<lambda>room. room_id room \<in> set ts \<and> (jr_archived room = Some True) \<noteq> a) (rooms_of h)) =
        card {k \<in> set ts. \<exists>row. rows_view h k = Some row \<and> archive_row a row \<noteq> row}"
      unfolding count_rows [OF inv] using view_Some [OF inv] by (intro arg_cong [where f = card]) auto
    have missing: "int (card (set ts)) - int (card (set ts \<inter> dom (rows_view h))) = int (card (set ts - dom (rows_view h)))"
      using card_Int_Diff [of "set ts" "dom (rows_view h)"] by simp
    from archive_many_apply [OF inv False, of a] show ?thesis
      unfolding m c by (auto simp: comp_def missing cong: if_cong)
  qed
  show ?thesis
    by (intro conjI run one operations_view [OF inv] conjunct1 [OF many] conjunct2 [OF many])
qed

definition lab_row :: JoinedRoom where
  "lab_row = \<lparr> jr_roomId = ''lab'', jr_title = ''The lab'', jr_alias = ''alice'', jr_baseUrl = ''http://h'',
     jr_joinedAt = ''t0'', jr_lastSeen = ''t0'', jr_kind = Some Seat_human, jr_seats = None, jr_archived = None \<rparr>"

definition lab_device :: DeviceHome where
  "lab_device = snd (recordJoinedRoom lab_row new_device)"

lemma lab_device_reachable: "(device_step digest)\<^sup>*\<^sup>* new_device lab_device"
  unfolding lab_device_def by (rule r_into_rtranclp, rule device_step.join)

lemma lab_device_row:
  "rows_view lab_device (''lab'', ''http://h'') =
     Some (lab_row\<lparr> jr_seats := Some [seat ''alice'' (Some Seat_human)] \<rparr>)"
  by (simp add: lab_device_def recordJoinedRoom_def upsertJoinedRoomLocked_def readJoinedRooms_def new_device_def
      isNotFoundError_def write_rooms_def rows_view_def rooms_of_def upsert_record_def lab_row_def room_id_def
      isRealTitle_def mergeSeats_def or_empty_def learn_seat_def seat_def Let_def)

lemma joined_rooms_refinement_witness:
  "rows_view (snd (deleteJoinedRoom (\<lambda>x. x) (\<lambda>_. None) (''lab'', ''http://h'') lab_device)) (''lab'', ''http://h'') = None \<and>
   fst (setJoinedRoomArchived (''lab'', ''http://h'') True lab_device) = Inr True"
proof -
  note ref = joined_rooms_refinement [OF lab_device_reachable [of "\<lambda>x. x"], where k = "(''lab'', ''http://h'')"]
  have "rows_view (snd (deleteJoinedRoom (\<lambda>x. x) (\<lambda>_. None) (''lab'', ''http://h'') lab_device)) =
      rows_view lab_device |` (- {(''lab'', ''http://h'')})"
    using ref by blast
  moreover have "fst (setJoinedRoomArchived (''lab'', ''http://h'') True lab_device) =
      Inr ((''lab'', ''http://h'') \<in> dom (rows_view lab_device))"
    using ref by blast
  ultimately show ?thesis by (simp add: dom_def lab_device_row)
qed

text \<open>The opening identity of a row is chosen only by an explicit join. A metadata refresh keeps a
  stored alias, the join time and a hidden flag it does not name, and never replaces a real title by
  the room id; an explicit record takes the entry's alias, and carries the stored kind on only when
  the alias is unchanged. But a refresh takes over any kind the entry names, whichever alias the
  entry speaks for.\<close>

lemma opening_identity:
  assumes "(device_step digest)\<^sup>*\<^sup>* new_device h" "rows_view h (room_id e) = Some old"
  shows "(\<exists>new. rows_view (snd (refreshJoinedRoomMetadata e h)) (room_id e) = Some new \<and>
      jr_alias new = (if jr_alias old \<noteq> [] then jr_alias old else jr_alias e) \<and>
      jr_joinedAt new = jr_joinedAt old \<and>
      (jr_archived e = None \<longrightarrow> jr_archived new = jr_archived old) \<and>
      (jr_title old \<notin> {[], jr_roomId e} \<longrightarrow> jr_title new \<notin> {[], jr_roomId e}) \<and>
      (jr_alias old \<noteq> [] \<longrightarrow> jr_kind new = (if jr_kind e \<noteq> None then jr_kind e else jr_kind old))) \<and>
    (\<exists>new. rows_view (snd (recordJoinedRoom e h)) (room_id e) = Some new \<and>
      jr_alias new = jr_alias e \<and> jr_joinedAt new = jr_joinedAt old \<and>
      (jr_archived e = None \<longrightarrow> jr_archived new = jr_archived old) \<and>
      (\<forall>k. jr_kind new = Some k \<longrightarrow>
         jr_kind e = Some k \<or> jr_kind e = None \<and> jr_alias e = jr_alias old \<and> jr_kind old = Some k))"
proof -
  have inv: "device_inv h" using device.reachable_inv [OF refl assms(1)] .
  have "old \<in> set (rooms_of h)" using assms(2) view_Some [OF inv] by blast
  then have "jr_archived old = None \<or> jr_archived old = Some True"
    using inv by (cases "jr_archived old") (auto simp: device_inv_def)
  then show ?thesis
    by (auto simp: operations_view [OF inv] join_row_def assms(2) upsert_record_def Let_def isRealTitle_def
        split: option.splits)
qed

text \<open>The kinds the seats of a list name for an alias, in order.\<close>

definition kinds_for :: "string \<Rightarrow> JoinedRoomSeat list \<Rightarrow> JoinedRoomKind list" where
  "kinds_for a seats = List.map_filter se_kind (filter (\<lambda>st. se_alias st = a) seats)"

definition seat_map :: "(string \<times> JoinedRoomSeat) list \<Rightarrow> bool" where
  "seat_map al \<longleftrightarrow> distinct (map fst al) \<and> (\<forall>(a, st) \<in> set al. se_alias st = a \<and> a \<noteq> [])"

lemma seat_map_update: "seat_map al \<Longrightarrow> a \<noteq> [] \<Longrightarrow> seat_map (AList.update a (seat a k) al)"
  unfolding seat_map_def by (intro conjI distinct_update update_entries) (auto simp: seat_def)

lemma seat_map_folds:
  "seat_map al \<Longrightarrow> seat_map (foldl known_seat al xs)" "seat_map al \<Longrightarrow> seat_map (foldl learn_seat al xs)"
  by (induction xs arbitrary: al) (simp_all add: known_seat_def learn_seat_def seat_map_update Let_def)

lemma known_fold:
  "a \<noteq> [] \<Longrightarrow> map_of (foldl known_seat [] xs) a =
     (case filter (\<lambda>st. se_alias st = a) xs of [] \<Rightarrow> None | ss \<Rightarrow> Some (seat a (se_kind (last ss))))"
  by (induction xs rule: rev_induct) (auto simp: known_seat_def update_conv' split: list.splits)

lemma kinds_for_simps [simp]:
  "kinds_for a [] = []"
  "kinds_for a (xs @ ys) = kinds_for a xs @ kinds_for a ys"
  "kinds_for a [x] = (if se_alias x = a then (case se_kind x of Some k \<Rightarrow> [k] | None \<Rightarrow> []) else [])"
  by (auto simp: kinds_for_def List.map_filter_def split: option.splits)

lemma kinds_for_none: "filter (\<lambda>st. se_alias st = a) xs = [] \<Longrightarrow> kinds_for a xs = []"
  by (simp add: kinds_for_def List.map_filter_def)

lemma learn_step:
  "map_of (learn_seat al x) a = (if se_alias x = [] \<or> se_alias x \<noteq> a then map_of al a
     else Some (seat a (case se_kind x of Some k \<Rightarrow> Some k
       | None \<Rightarrow> (case map_of al a of Some st \<Rightarrow> se_kind st | None \<Rightarrow> None))))"
  by (auto simp: learn_seat_def Let_def update_conv')

lemma learn_fold:
  "a \<noteq> [] \<Longrightarrow> map_of (foldl learn_seat al xs) a =
     (if filter (\<lambda>st. se_alias st = a) xs = [] then map_of al a
      else Some (seat a (if kinds_for a xs \<noteq> [] then Some (last (kinds_for a xs))
        else case map_of al a of Some st \<Rightarrow> se_kind st | None \<Rightarrow> None)))"
proof (induction xs rule: rev_induct)
  case (snoc x xs)
  then show ?case
    using kinds_for_none [of a xs]
    by (auto simp: learn_step seat_def split: option.splits)
qed simp

lemma find_map_of:
  "seat_map al \<Longrightarrow> find (\<lambda>st. se_alias st = a) (map snd al) = map_of al a"
  unfolding seat_map_def by (induction al) auto

text \<open>What a device knows of a room's seats accumulates exactly: after a merge every alias
  named anywhere has one seat, the empty alias none, and the kind of a seat is the last one newly
  learned for that very alias, or else the stored one; no kind is invented, carried from another
  alias, or lost.\<close>

lemma mergeSeats_exact:
  "distinct (map se_alias (mergeSeats existing incoming alias0 kind0)) \<and>
   find (\<lambda>st. se_alias st = a) (mergeSeats existing incoming alias0 kind0) =
     (let learned = or_empty incoming @ [seat alias0 kind0];
          stored = filter (\<lambda>st. se_alias st = a) (or_empty existing)
      in if a \<noteq> [] \<and> a \<in> se_alias ` set (or_empty existing @ learned)
         then Some (seat a (if kinds_for a learned \<noteq> [] then Some (last (kinds_for a learned))
           else if stored \<noteq> [] then se_kind (last stored) else None))
         else None)"
proof -
  let ?al = "foldl known_seat [] (or_empty existing)"
  let ?xs = "or_empty incoming @ (if alias0 \<noteq> [] then [seat alias0 kind0] else [])"
  have sm: "seat_map (foldl learn_seat ?al ?xs)"
    by (intro seat_map_folds) (simp add: seat_map_def)
  have merged: "mergeSeats existing incoming alias0 kind0 = map snd (foldl learn_seat ?al ?xs)"
    by (simp add: mergeSeats_def)
  have "map se_alias (map snd (foldl learn_seat ?al ?xs)) = map fst (foldl learn_seat ?al ?xs)"
    using sm by (auto simp: seat_map_def)
  then have d: "distinct (map se_alias (mergeSeats existing incoming alias0 kind0))"
    using sm unfolding merged seat_map_def by metis
  have f: "find (\<lambda>st. se_alias st = a) (mergeSeats existing incoming alias0 kind0) = map_of (foldl learn_seat ?al ?xs) a"
    unfolding merged by (rule find_map_of [OF sm])
  show ?thesis
  proof (cases "a = []")
    case True
    then have "map_of (foldl learn_seat ?al ?xs) a = None"
      using sm by (auto simp: seat_map_def map_of_eq_None_iff)
    with True d f show ?thesis by simp
  next
    case False
    let ?learned = "or_empty incoming @ [seat alias0 kind0]"
    have same: "filter (\<lambda>st. se_alias st = a) ?xs = filter (\<lambda>st. se_alias st = a) ?learned"
      "kinds_for a ?xs = kinds_for a ?learned"
      using False by (auto simp: seat_def)
    have none: "filter (\<lambda>st. se_alias st = a) ys = [] \<longleftrightarrow> a \<notin> se_alias ` set ys" for ys
      by (auto simp: filter_empty_conv)
    define L S where "L = ?learned" and "S = filter (\<lambda>st. se_alias st = a) (or_empty existing)"
    have mem: "a \<notin> se_alias ` set (or_empty existing @ L) \<longleftrightarrow> S = [] \<and> filter (\<lambda>st. se_alias st = a) L = []"
      unfolding none S_def by auto
    have "map_of (foldl learn_seat ?al ?xs) a =
       (if a = [] \<or> a \<notin> se_alias ` set (or_empty existing @ L) then None
         else Some (seat a (if kinds_for a L \<noteq> [] then Some (last (kinds_for a L))
           else if S \<noteq> [] then se_kind (last S) else None)))"
      using kinds_for_none [of a L]
      unfolding learn_fold [OF False] same known_fold [OF False] mem L_def [symmetric] S_def [symmetric]
      by (cases S) (auto simp: False seat_def)
    with d f show ?thesis unfolding L_def S_def Let_def by simp
  qed
qed

subsection \<open>Deleting while the bridge saves\<close>

text \<open>
  Saves and deletions interleave: a save evaluates its guard and writes under the lock of its
  snapshot; a deletion first removes its rows and then, each under the lock of the snapshot, the
  snapshots. \<open>dr_deleting\<close> holds the keys of deletions between the two, \<open>dr_saving\<close> the saves that
  hold a lock. \<open>still_tracked\<close> is the guard the bridge passes (\<open>platform/http.ts\<close>).
\<close>

record DeviceRun =
  dr_home :: DeviceHome
  dr_deleting :: "(string \<times> string) set"
  dr_saving :: "HistoryEntry set"

definition entry_key :: "HistoryEntry \<Rightarrow> string \<times> string" where
  "entry_key e = (he_roomId e, he_baseUrl e)"

definition still_tracked :: "DeviceHome \<Rightarrow> string \<times> string \<Rightarrow> bool" where
  "still_tracked h k = (case rows_view h k of Some row \<Rightarrow> jr_archived row \<noteq> Some True | None \<Rightarrow> False)"

definition new_run :: DeviceRun where
  "new_run = \<lparr> dr_home = new_device, dr_deleting = {}, dr_saving = {} \<rparr>"

inductive race_step :: "(string \<Rightarrow> string) \<Rightarrow> DeviceRun \<Rightarrow> DeviceRun \<Rightarrow> bool" for digest where
  join: "race_step digest s (s\<lparr> dr_home := snd (recordJoinedRoom entry (dr_home s)) \<rparr>)"
| refresh: "race_step digest s (s\<lparr> dr_home := snd (refreshJoinedRoomMetadata entry (dr_home s)) \<rparr>)"
| hide: "race_step digest s (s\<lparr> dr_home := snd (setJoinedRoomArchived k a (dr_home s)) \<rparr>)"
| hide_many: "race_step digest s (s\<lparr> dr_home := snd (setJoinedRoomsArchived ts a (dr_home s)) \<rparr>)"
| drop_rows: "race_step digest s (s\<lparr> dr_home := snd (remove_rows (\<lambda>room. room_id room \<in> set ts) (dr_home s)),
      dr_deleting := dr_deleting s \<union> set ts \<rparr>)"
| clear: "k \<in> dr_deleting s \<Longrightarrow> \<forall>e \<in> dr_saving s. entry_key e \<noteq> k \<Longrightarrow>
    race_step digest s (s\<lparr> dr_home := snd (on_history (deleteJoinedHistory digest (\<lambda>_. None) k) (dr_home s)),
      dr_deleting := dr_deleting s - {k} \<rparr>)"
| begin_save: "\<forall>e' \<in> dr_saving s. entry_key e' \<noteq> entry_key e \<Longrightarrow> still_tracked (dr_home s) (entry_key e) \<Longrightarrow>
    race_step digest s (s\<lparr> dr_saving := insert e (dr_saving s) \<rparr>)"
| end_save: "e \<in> dr_saving s \<Longrightarrow>
    race_step digest s (s\<lparr> dr_home := snd (on_history (recordJoinedHistory digest e (Some True)) (dr_home s)),
      dr_saving := dr_saving s - {e} \<rparr>)"

definition race_inv :: "(string \<Rightarrow> string) \<Rightarrow> DeviceRun \<Rightarrow> bool" where
  "race_inv digest s \<longleftrightarrow> device_inv (dr_home s) \<and>
     (\<forall>k. history_file (joinedHistoryPath digest k) (dh_history (dr_home s)) \<noteq> NoFile \<longrightarrow>
        rows_view (dr_home s) k \<noteq> None \<or> k \<in> dr_deleting s) \<and>
     (\<forall>e \<in> dr_saving s. rows_view (dr_home s) (entry_key e) \<noteq> None \<or> entry_key e \<in> dr_deleting s)"

text \<open>Changing rows without losing one that is not being deleted keeps the invariant.\<close>

lemma race_inv_rows:
  assumes "race_inv digest s" "device_inv h" "dh_history h = dh_history (dr_home s)"
    "\<And>k. rows_view (dr_home s) k \<noteq> None \<Longrightarrow> rows_view h k \<noteq> None \<or> k \<in> D" "dr_deleting s \<subseteq> D"
  shows "race_inv digest (s\<lparr> dr_home := h, dr_deleting := D \<rparr>)"
  using assms unfolding race_inv_def by (simp del: split_paired_All not_None_eq) blast

lemma row_ops_history [simp]:
  "device_inv h \<Longrightarrow> dh_history (snd (upsertJoinedRoomLocked e keep h)) = dh_history h"
  "device_inv h \<Longrightarrow> dh_history (snd (setJoinedRoomArchived k a h)) = dh_history h"
  "device_inv h \<Longrightarrow> dh_history (snd (setJoinedRoomsArchived ts a h)) = dh_history h"
proof -
  show "device_inv h \<Longrightarrow> dh_history (snd (upsertJoinedRoomLocked e keep h)) = dh_history h"
    by (simp add: upsert_apply)
  show "device_inv h \<Longrightarrow> dh_history (snd (setJoinedRoomArchived k a h)) = dh_history h"
    by (simp add: archive_one_apply split: option.splits)
  show "device_inv h \<Longrightarrow> dh_history (snd (setJoinedRoomsArchived ts a h)) = dh_history h"
    using archive_many_apply [of h ts a]
    by (cases "ts = []") (auto simp: setJoinedRoomsArchived_def dedupeTargets_def)
qed

lemma race_step_inv:
  assumes "inj digest" "race_inv digest s" "race_step digest s s'"
  shows "race_inv digest s'"
  using assms(3)
proof (cases rule: race_step.cases)
  case (join entry)
  have inv: "device_inv (dr_home s)" using assms(2) by (simp add: race_inv_def)
  have "race_inv digest (s\<lparr> dr_home := snd (recordJoinedRoom entry (dr_home s)), dr_deleting := dr_deleting s \<rparr>)"
    using assms(2) inv device_step_inv [OF inv device_step.join]
    by (intro race_inv_rows) (auto simp: operations_view join_row_def, simp add: recordJoinedRoom_def)
  then show ?thesis unfolding join by simp
next
  case (refresh entry)
  have inv: "device_inv (dr_home s)" using assms(2) by (simp add: race_inv_def)
  have "race_inv digest (s\<lparr> dr_home := snd (refreshJoinedRoomMetadata entry (dr_home s)), dr_deleting := dr_deleting s \<rparr>)"
    using assms(2) inv device_step_inv [OF inv device_step.refresh]
    by (intro race_inv_rows) (auto simp: operations_view join_row_def, simp add: refreshJoinedRoomMetadata_def)
  then show ?thesis unfolding refresh by simp
next
  case (hide k a)
  have inv: "device_inv (dr_home s)" using assms(2) by (simp add: race_inv_def)
  have "race_inv digest (s\<lparr> dr_home := snd (setJoinedRoomArchived k a (dr_home s)), dr_deleting := dr_deleting s \<rparr>)"
    using assms(2) inv device_step_inv [OF inv device_step.hide]
    by (intro race_inv_rows) (auto simp: operations_view archive_rows_def)
  then show ?thesis unfolding hide by simp
next
  case (hide_many ts a)
  have inv: "device_inv (dr_home s)" using assms(2) by (simp add: race_inv_def)
  have "race_inv digest (s\<lparr> dr_home := snd (setJoinedRoomsArchived ts a (dr_home s)), dr_deleting := dr_deleting s \<rparr>)"
    using assms(2) inv device_step_inv [OF inv device_step.hide_many]
    by (intro race_inv_rows) (auto simp: operations_view archive_rows_def)
  then show ?thesis unfolding hide_many by simp
next
  case (drop_rows ts)
  have inv: "device_inv (dr_home s)" using assms(2) by (simp add: race_inv_def)
  have view: "rows_view (snd (remove_rows (\<lambda>room. room_id room \<in> set ts) (dr_home s))) = rows_view (dr_home s) |` (- set ts)"
    by (rule view_filter) (simp add: rooms_of_removed [OF inv])
  show ?thesis unfolding drop_rows
    using assms(2) inv removed_inv [OF inv] by (intro race_inv_rows) (auto simp: view restrict_map_def)
next
  case (clear k)
  have inv: "device_inv (dr_home s)" using assms(2) by (simp add: race_inv_def)
  let ?h = "snd (on_history (deleteJoinedHistory digest (\<lambda>_. None) k) (dr_home s))"
  have hist: "history_file (joinedHistoryPath digest k') (dh_history ?h) =
      (if k' = k then NoFile else history_file (joinedHistoryPath digest k') (dh_history (dr_home s)))" for k'
    using history_path_inj [OF assms(1), of k' k]
    by (auto simp: on_history_def deleteJoinedHistory_def Let_def)
  have "history_inv (snd (deleteJoinedHistory digest (\<lambda>_. None) k (dh_history (dr_home s))))"
    by (rule history_step_inv [OF _ history_step.drop]) (use inv in \<open>simp add: device_inv_def\<close>)
  then have "device_inv ?h"
    using device_inv_history [OF inv] by (simp add: on_history_def split_beta)
  with assms(2) clear show ?thesis
    by (auto simp: race_inv_def hist operations_view(7) [OF inv])
next
  case (begin_save e)
  then show ?thesis using assms(2) by (auto simp: race_inv_def still_tracked_def split: option.splits)
next
  case (end_save e)
  have inv: "device_inv (dr_home s)" using assms(2) by (simp add: race_inv_def)
  let ?h = "snd (on_history (recordJoinedHistory digest e (Some True)) (dr_home s))"
  have hist: "k' \<noteq> entry_key e \<Longrightarrow> history_file (joinedHistoryPath digest k') (dh_history ?h) =
      history_file (joinedHistoryPath digest k') (dh_history (dr_home s))" for k'
    using history_path_inj [OF assms(1), of k' "entry_key e"]
    by (simp add: on_history_def record_apply Let_def entry_key_def)
  have "device_inv ?h" by (rule device_step_inv [OF inv device_step.save])
  moreover have row: "rows_view (dr_home s) (entry_key e) \<noteq> None \<or> entry_key e \<in> dr_deleting s"
    using assms(2) end_save by (auto simp: race_inv_def)
  have "history_file (joinedHistoryPath digest k) (dh_history ?h) \<noteq> NoFile \<longrightarrow>
      rows_view (dr_home s) k \<noteq> None \<or> k \<in> dr_deleting s" for k
  proof (cases "k = entry_key e")
    case True
    with row show ?thesis by blast
  next
    case False
    with assms(2) show ?thesis unfolding race_inv_def hist [OF False] by blast
  qed
  moreover have "\<forall>e' \<in> dr_saving s - {e}. rows_view (dr_home s) (entry_key e') \<noteq> None \<or> entry_key e' \<in> dr_deleting s"
    using assms(2) unfolding race_inv_def by blast
  ultimately show ?thesis
    unfolding end_save race_inv_def operations_view(7) [OF inv] by (simp add: operations_view(7) [OF inv])
qed

text \<open>Claim C13. A deleted room leaves no transcript behind. However saves, joins, refreshes, archives
  and deletions interleave on a device, a saved snapshot whose room is not just being deleted belongs
  to a row that is still there: a save that was accepted before a deletion is removed by it, and one
  that comes after it is refused.\<close>

theorem no_orphan_snapshot:
  assumes "inj digest" "(race_step digest)\<^sup>*\<^sup>* new_run s"
    "readJoinedHistory digest k (dh_history (dr_home s)) \<noteq> Absent" "k \<notin> dr_deleting s"
  shows "\<exists>row. rows_view (dr_home s) k = Some row"
proof -
  have "race_inv digest new_run"
    by (simp add: race_inv_def new_run_def new_device_def device_inv_def rooms_of_def history_inv_def history_file_def)
  with assms(2) have "race_inv digest s"
    by (induction rule: rtranclp_induct) (auto intro: race_step_inv [OF assms(1)])
  moreover have "history_file (joinedHistoryPath digest k) (dh_history (dr_home s)) \<noteq> NoFile"
    using assms(3) by (auto simp: readJoinedHistory_def)
  ultimately show ?thesis using assms(4) unfolding race_inv_def by blast
qed

lemma no_orphan_snapshot_witness:
  "\<exists>s. (race_step (\<lambda>x. x))\<^sup>*\<^sup>* new_run s \<and> (\<exists>row. rows_view (dr_home s) (''lab'', ''http://h'') = Some row) \<and>
     readJoinedHistory (\<lambda>x. x) (''lab'', ''http://h'') (dh_history (dr_home s)) \<noteq> Absent"
proof -
  let ?k = "(''lab'', ''http://h'')"
  let ?s1 = "new_run\<lparr> dr_home := lab_device \<rparr>"
  let ?s2 = "?s1\<lparr> dr_saving := {lab_entry} \<rparr>"
  let ?s3 = "?s2\<lparr> dr_home := snd (on_history (recordJoinedHistory (\<lambda>x. x) lab_entry (Some True)) lab_device), dr_saving := {} \<rparr>"
  have key: "entry_key lab_entry = ?k" by (simp add: entry_key_def lab_entry_def)
  have "still_tracked lab_device ?k" by (simp add: still_tracked_def lab_device_row) (simp add: lab_row_def)
  then have 2: "race_step (\<lambda>x. x) ?s1 ?s2"
    using race_step.begin_save [of ?s1 lab_entry "\<lambda>x. x"] by (simp add: key new_run_def)
  have 1: "race_step (\<lambda>x. x) new_run ?s1"
    using race_step.join [of "\<lambda>x. x" new_run lab_row] by (simp add: lab_device_def new_run_def)
  have 3: "race_step (\<lambda>x. x) ?s2 ?s3"
    using race_step.end_save [of lab_entry ?s2 "\<lambda>x. x"] by simp
  have run: "(race_step (\<lambda>x. x))\<^sup>*\<^sup>* new_run ?s3"
    using 1 2 3 by (meson converse_rtranclp_into_rtranclp rtranclp.rtrancl_refl)
  have read: "readJoinedHistory (\<lambda>x. x) ?k (dh_history (dr_home ?s3)) \<noteq> Absent"
    using record_reads_back [of "Some True" ?k lab_entry "\<lambda>x. x" "dh_history lab_device"]
    by (simp add: on_history_def split_beta lab_entry_def)
  have del: "?k \<notin> dr_deleting ?s3" by (simp add: new_run_def)
  from no_orphan_snapshot [OF _ run read del] run read show ?thesis by (intro exI [of _ ?s3]) simp
qed

text \<open>A deletion run on its own is these two steps in this order.\<close>

lemma delete_is_two_steps:
  assumes "device_inv h"
  shows "(race_step digest)\<^sup>*\<^sup>* \<lparr> dr_home = h, dr_deleting = {}, dr_saving = {} \<rparr>
    \<lparr> dr_home = snd (deleteJoinedRoom digest (\<lambda>_. None) k h), dr_deleting = {}, dr_saving = {} \<rparr>"
proof -
  let ?s0 = "\<lparr> dr_home = h, dr_deleting = {}, dr_saving = {} \<rparr>"
  let ?h1 = "snd (remove_rows (\<lambda>room. same_row room k) h)"
  let ?s1 = "\<lparr> dr_home = ?h1, dr_deleting = {k}, dr_saving = {} \<rparr>"
  have "race_step digest ?s0 ?s1"
    using race_step.drop_rows [of digest ?s0 "[k]"] by (simp add: same_row_id)
  moreover have "race_step digest ?s1 \<lparr> dr_home = snd (deleteJoinedRoom digest (\<lambda>_. None) k h), dr_deleting = {}, dr_saving = {} \<rparr>"
    using race_step.clear [of k ?s1 digest] delete_one_apply(2) [OF assms, of digest "\<lambda>_. None" k]
    by (simp add: on_history_def split_beta removed_history [OF assms])
  ultimately show ?thesis by (meson converse_rtranclp_into_rtranclp rtranclp.rtrancl_refl)
qed

end
