(* ===== verification/JsNumber.thy ===== *)
theory JsNumber
  imports JsLib "HOL-Library.Log_Nat"
begin

text \<open>
  \<open>Number(text)\<close> of JavaScript, which the server applies to query parameters: the numeric literal
  grammar (white space around it, a sign, a decimal with fraction and exponent, the hexadecimal,
  octal and binary prefixes, \<open>Infinity\<close>) and the rounding of its value to the nearest double, ties
  to even.
\<close>

subsection \<open>Rounding to a double\<close>

definition pow2 :: "int \<Rightarrow> rat" where
  "pow2 k = (if k \<ge> 0 then 2 ^ nat k else 1 / 2 ^ nat (- k))"

definition round_half_even :: "rat \<Rightarrow> int" where
  "round_half_even r =
     (let f = \<lfloor>r\<rfloor>; d = r - of_int f
      in if d < 1 / 2 then f else if 1 / 2 < d then f + 1 else if even f then f else f + 1)"

text \<open>The \<open>k\<close> with \<open>2 ^ k \<le> r < 2 ^ (k + 1)\<close>, for positive \<open>r\<close>.\<close>

definition binary_exponent :: "rat \<Rightarrow> int" where
  "binary_exponent r =
     (let (p, q) = quotient_of r; k = int (floorlog 2 (nat p)) - int (floorlog 2 (nat q))
      in if pow2 k \<le> r then k else k - 1)"

text \<open>A double has 53 significant bits, the last one worth at least \<open>2 ^ (-1074)\<close>.\<close>

definition to_double :: "rat \<Rightarrow> jnum" where
  "to_double r =
     (if r = 0 then Finite 0
      else let a = \<bar>r\<bar>; e = max (- 1074) (binary_exponent a - 52);
               v = of_int (round_half_even (a / pow2 e)) * pow2 e
           in if pow2 1024 \<le> v then (if r > 0 then PosInf else NegInf)
              else Finite (if r > 0 then v else - v))"

subsection \<open>The literal grammar\<close>

definition digit_value :: "char \<Rightarrow> nat option" where
  "digit_value c =
     (let n = (of_char c :: nat)
      in if 48 \<le> n \<and> n \<le> 57 then Some (n - 48)
         else if 97 \<le> n \<and> n \<le> 102 then Some (n - 87)
         else if 65 \<le> n \<and> n \<le> 70 then Some (n - 55) else None)"

definition digit_in :: "nat \<Rightarrow> char \<Rightarrow> bool" where
  "digit_in base c \<longleftrightarrow> (case digit_value c of Some d \<Rightarrow> d < base | None \<Rightarrow> False)"

definition digits_in :: "nat \<Rightarrow> string \<Rightarrow> nat" where
  "digits_in base s =
     foldl (\<lambda>v c. base * v + (case digit_value c of Some d \<Rightarrow> d | None \<Rightarrow> 0)) 0 s"

definition take_digits :: "string \<Rightarrow> string \<times> string" where
  "take_digits s = (takeWhile (digit_in 10) s, dropWhile (digit_in 10) s)"

text \<open>An exponent part, absent or complete; \<open>None\<close> when it does not end the text.\<close>

fun exponent_of :: "string \<Rightarrow> int option" where
  "exponent_of [] = Some 0"
| "exponent_of (c # cs) =
     (if c \<notin> set ''eE'' then None
      else let (sign, ds) = (case cs of [] \<Rightarrow> (1, [])
                | d # rest \<Rightarrow> if d = CHR ''+'' then (1, rest) else if d = CHR ''-'' then (- 1, rest) else (1, cs))
           in if ds \<noteq> [] \<and> list_all (digit_in 10) ds then Some (sign * int (digits_in 10 ds)) else None)"

definition power_of_ten :: "int \<Rightarrow> rat" where
  "power_of_ten k = (if k \<ge> 0 then 10 ^ nat k else 1 / 10 ^ nat (- k))"

definition unsigned_decimal :: "string \<Rightarrow> rat option" where
  "unsigned_decimal s =
     (let (whole, rest) = take_digits s;
          (part, rest') = (case rest of [] \<Rightarrow> ([], [])
             | c # cs \<Rightarrow> if c = CHR ''.'' then take_digits cs else ([], rest))
      in if whole = [] \<and> part = [] then None
         else map_option (\<lambda>k. of_nat (digits_in 10 (whole @ part)) * power_of_ten (k - int (length part)))
                (exponent_of rest'))"

definition prefixed_integer :: "string \<Rightarrow> rat option" where
  "prefixed_integer s =
     (let base = (if take 2 s \<in> set [''0x'', ''0X''] then 16
                  else if take 2 s \<in> set [''0o'', ''0O''] then 8
                  else if take 2 s \<in> set [''0b'', ''0B''] then 2 else 0);
          ds = drop 2 s
      in if base \<noteq> 0 \<and> ds \<noteq> [] \<and> list_all (digit_in base) ds
         then Some (of_nat (digits_in base ds)) else None)"

definition js_Number :: "string \<Rightarrow> jnum" where
  "js_Number s =
     (let t = js_trim s;
          (neg, u) = (case t of [] \<Rightarrow> (False, [])
             | c # cs \<Rightarrow> if c = CHR ''-'' then (True, cs) else if c = CHR ''+'' then (False, cs) else (False, t))
      in if t = [] then Finite 0
         else (case prefixed_integer t of Some r \<Rightarrow> to_double r
         | None \<Rightarrow>
             if u = ''Infinity'' then (if neg then NegInf else PosInf)
             else (case unsigned_decimal u of
                     Some r \<Rightarrow> to_double (if neg then - r else r) | None \<Rightarrow> NaN)))"

end
