(* ===== verification/ServerCore.thy ===== *)
theory ServerCore
  imports ForumStore JsNumber
begin

text \<open>
  \<open>server/http.ts\<close>, \<open>server/errors.ts\<close>, \<open>server/wait.ts\<close>, \<open>auth/tokens.ts\<close> and
  \<open>protocol/urls.ts\<close>: what every request handler of the room server rests on. A request is the
  decoded form Node hands over (method, path name, query parameters, headers, body). The server's
  state is the room's files with the module-level maps of the process: rate buckets, loop counts,
  pending continuations with their timers, and the wait hub. \<open>Platform\<close> holds what the code takes
  from the platform: URL parsing, SHA-256, the texts of system errors, the order of
  \<open>localeCompare\<close> on stamps and the packaged browser files.
\<close>

subsection \<open>Errors, requests and options\<close>

datatype server_error = HttpError nat string string | Thrown js_error

record Platform =
  pf_url :: "string \<Rightarrow> string option"
  pf_resolve :: "string \<Rightarrow> string \<Rightarrow> string"
  pf_origin :: "string \<Rightarrow> string option"
  pf_sha256 :: "string \<Rightarrow> string"
  pf_message :: "js_error \<Rightarrow> string"
  pf_locale_key :: "tstamp \<Rightarrow> int"
  pf_asset :: "string \<Rightarrow> string option"

record Request =
  rq_method :: string
  rq_pathname :: string
  rq_query :: "(string \<times> string) list"
  rq_host :: "string option"
  rq_origin :: "string option"
  rq_referer :: "string option"
  rq_authorization :: "string option"
  rq_chunks :: "nat list"
  rq_json :: "json option"

record RoomHttpServerOptions =
  in_roomId :: string
  in_baseUrl :: "string option"
  in_maxBodyBytes :: "nat option"
  in_maxMessages :: "nat option"
  in_rateLimitPerMinute :: "nat option"
  in_loopGuardLimit :: "nat option"
  in_waitHoldMs :: "int option"
  in_allowInsecureRemote :: "bool option"

record ResolvedOptions =
  op_roomId :: string
  op_baseUrl :: string
  op_maxBodyBytes :: nat
  op_maxMessages :: nat
  op_rateLimitPerMinute :: nat
  op_loopGuardLimit :: nat
  op_waitHoldMs :: int
  op_allowInsecureRemote :: bool

text \<open>
  \<open>cx_public\<close> is what \<open>publicBaseUrl()\<close> returns for this request (\<open>None\<close> for a value that is not
  a string), \<open>cx_now\<close> the clock, \<open>cx_fresh\<close> the random part of a new forum post id.
\<close>

record RequestContext =
  cx_req :: Request
  cx_options :: ResolvedOptions
  cx_platform :: Platform
  cx_public :: "string option"
  cx_now :: int
  cx_fresh :: string

subsection \<open>The server's state\<close>

record RateBucket =
  bk_resetAt :: int
  bk_count :: nat

record PendingAutoContinue =
  pa_alias :: string
  pa_timer :: nat
  pa_expiresAt :: int

text \<open>A suspended \<open>/wait\<close> request: its identity, and what its continuation still needs.\<close>

record Waiter =
  wt_id :: nat
  wt_alias :: string
  wt_since :: nat

record RoomServer =
  sv_files :: RoomFiles
  sv_rateBuckets :: "(string \<times> RateBucket) list"
  sv_loopCounts :: "(string \<times> nat) list"
  sv_pending :: "(string \<times> PendingAutoContinue) list"
  sv_autoCounts :: "(string \<times> nat) list"
  sv_timers :: "(nat \<times> string) list"
  sv_nextTimer :: nat
  sv_waiters :: "(string \<times> Waiter list) list"
  sv_resolved :: "Waiter list"
  sv_nextWaiter :: nat

type_synonym 'a server_action = "(RoomServer, server_error, 'a) action"

definition http :: "nat \<Rightarrow> string \<Rightarrow> string \<Rightarrow> 'a server_action" where
  "http status code message = throw (HttpError status code message)"

text \<open>Awaiting a store operation: its error propagates, whatever it wrote stays.\<close>

definition store :: "'a room_action \<Rightarrow> 'a server_action" where
  "store act = (\<lambda>s. case act (sv_files s) of
     (Inl e, f) \<Rightarrow> (Inl (Thrown e), s\<lparr> sv_files := f \<rparr>)
   | (Inr x, f) \<Rightarrow> (Inr x, s\<lparr> sv_files := f \<rparr>))"

fun mapA :: "('a \<Rightarrow> ('s, 'e, 'b) action) \<Rightarrow> 'a list \<Rightarrow> ('s, 'e, 'b list) action" where
  "mapA f [] = ret []"
| "mapA f (x # xs) = bindA (f x) (\<lambda>y. bindA (mapA f xs) (\<lambda>ys. ret (y # ys)))"

definition error_message :: "Platform \<Rightarrow> js_error \<Rightarrow> string" where
  "error_message pf e = (case e of
     PlainError m \<Rightarrow> m
   | RoomLogFullError \<Rightarrow> ''room message log is full''
   | ActiveSessionExistsError \<Rightarrow> ''an active chat session is already running''
   | _ \<Rightarrow> pf_message pf e)"

text \<open>\<open>sendError\<close>: the status and the error body.\<close>

definition sendError :: "Platform \<Rightarrow> server_error \<Rightarrow> nat \<times> string \<times> string" where
  "sendError pf error = (case error of
     HttpError status code message \<Rightarrow> (status, code, message)
   | Thrown RoomLogFullError \<Rightarrow> (507, ''room_log_full'', error_message pf RoomLogFullError)
   | Thrown e \<Rightarrow> (500, ''internal_error'', error_message pf e))"

subsection \<open>URLs and options\<close>

definition normalizeBaseUrl :: "Platform \<Rightarrow> string \<Rightarrow> string option" where
  "normalizeBaseUrl pf baseUrl = map_option
     (\<lambda>normalized. if ends_with ''/'' normalized then butlast normalized else normalized)
     (pf_url pf baseUrl)"

definition roomUrl :: "Platform \<Rightarrow> string \<Rightarrow> string \<Rightarrow> string option" where
  "roomUrl pf baseUrl path =
     (let normalizedPath = (if starts_with ''/'' path then drop 1 path else path)
      in map_option (\<lambda>base. pf_resolve pf normalizedPath (base @ ''/'')) (normalizeBaseUrl pf baseUrl))"

definition resolveOptions :: "Platform \<Rightarrow> RoomHttpServerOptions \<Rightarrow> ResolvedOptions result" where
  "resolveOptions pf options =
     bindR (assertSafeSlug (in_roomId options) ''room id'') (\<lambda>_.
     case normalizeBaseUrl pf (case in_baseUrl options of Some u \<Rightarrow> u | None \<Rightarrow> ''http://127.0.0.1:8787'') of
       None \<Rightarrow> Inl TypeError
     | Some baseUrl \<Rightarrow> Inr
         \<lparr> op_roomId = in_roomId options, op_baseUrl = baseUrl,
           op_maxBodyBytes = (case in_maxBodyBytes options of Some n \<Rightarrow> n | None \<Rightarrow> 64000),
           op_maxMessages = (case in_maxMessages options of Some n \<Rightarrow> n | None \<Rightarrow> 50000),
           op_rateLimitPerMinute = (case in_rateLimitPerMinute options of Some n \<Rightarrow> n | None \<Rightarrow> 120),
           op_loopGuardLimit = (case in_loopGuardLimit options of Some n \<Rightarrow> n | None \<Rightarrow> 30),
           op_waitHoldMs = (case in_waitHoldMs options of Some n \<Rightarrow> n | None \<Rightarrow> 25000),
           op_allowInsecureRemote = (case in_allowInsecureRemote options of Some b \<Rightarrow> b | None \<Rightarrow> False) \<rparr>)"

definition advertisedBaseUrl :: "RequestContext \<Rightarrow> string" where
  "advertisedBaseUrl context =
     (case cx_public context of
        None \<Rightarrow> op_baseUrl (cx_options context)
      | Some candidate \<Rightarrow>
          if candidate = [] then op_baseUrl (cx_options context)
          else (case normalizeBaseUrl (cx_platform context) candidate of
                  Some u \<Rightarrow> u | None \<Rightarrow> op_baseUrl (cx_options context)))"

subsection \<open>Exposure and origin\<close>

definition isLocalhost :: "string \<Rightarrow> bool" where
  "isLocalhost hostHeader \<longleftrightarrow>
     (let host = hd (js_split (CHR '':'') hostHeader)
      in host = ''localhost'' \<or> host = ''127.0.0.1'' \<or> host = ''[::1]'' \<or> host = ''::1'')"

definition enforceExposure :: "RequestContext \<Rightarrow> unit server_action" where
  "enforceExposure context =
     (if op_allowInsecureRemote (cx_options context) then ret ()
      else let host = (case rq_host (cx_req context) of Some h \<Rightarrow> h | None \<Rightarrow> [])
           in if isLocalhost host then ret ()
              else http 403 ''insecure_remote'' ''plain HTTP exposure beyond localhost is not allowed'')"

text \<open>The configured base URL was accepted by \<open>resolveOptions\<close>; a URL that does not parse throws.\<close>

definition enforceSameOrigin :: "RequestContext \<Rightarrow> unit server_action" where
  "enforceSameOrigin context =
     (case pf_origin (cx_platform context) (op_baseUrl (cx_options context)) of
        None \<Rightarrow> throw (Thrown TypeError)
      | Some expected \<Rightarrow>
          if (case rq_origin (cx_req context) of Some o' \<Rightarrow> o' \<noteq> expected | None \<Rightarrow> False)
          then http 403 ''bad_origin'' ''origin is not allowed''
          else (case rq_referer (cx_req context) of
                  None \<Rightarrow> ret ()
                | Some referer \<Rightarrow>
                    if pf_origin (cx_platform context) referer = Some expected then ret ()
                    else http 403 ''bad_referer'' ''referer is not allowed''))"

definition isWriteMethod :: "string \<Rightarrow> bool" where
  "isWriteMethod m \<longleftrightarrow> m = ''POST'' \<or> m = ''PUT'' \<or> m = ''PATCH'' \<or> m = ''DELETE''"

subsection \<open>Tokens\<close>

text \<open>\<open>Buffer.from(text, "hex")\<close>: pairs of digits, up to the first that is not one.\<close>

fun hex_bytes :: "string \<Rightarrow> nat list" where
  "hex_bytes (a # b # cs) =
     (if digit_in 16 a \<and> digit_in 16 b then digits_in 16 [a, b] # hex_bytes cs else [])"
| "hex_bytes _ = []"

definition hashToken :: "Platform \<Rightarrow> string \<Rightarrow> string" where
  "hashToken pf token = pf_sha256 pf token"

definition verifyToken :: "Platform \<Rightarrow> string \<Rightarrow> string \<Rightarrow> bool" where
  "verifyToken pf token tokenHash \<longleftrightarrow>
     (let actual = hex_bytes (hashToken pf token); expected = hex_bytes tokenHash
      in length actual = length expected \<and> actual = expected)"

text \<open>\<open>/^Bearer (.+)$/\<close>: the dot does not match a line terminator.\<close>

definition bearerToken :: "Request \<Rightarrow> string option" where
  "bearerToken req = (case rq_authorization req of None \<Rightarrow> None
     | Some authorization \<Rightarrow>
         let rest = drop 7 authorization
         in if starts_with ''Bearer '' authorization \<and> rest \<noteq> [] \<and>
               list_all (\<lambda>c. c \<notin> set [CHR 0x0A, CHR 0x0D]) rest
            then Some rest else None)"

definition query :: "RequestContext \<Rightarrow> string \<Rightarrow> string option" where
  "query context name = map_of (rq_query (cx_req context)) name"

definition token_owner :: "Platform \<Rightarrow> string \<Rightarrow> Participant list \<Rightarrow> Participant option" where
  "token_owner pf token participants =
     find (\<lambda>p. case p_token_hash p of Some h \<Rightarrow> verifyToken pf token h | None \<Rightarrow> False) participants"

definition requireParticipant ::
  "RequestContext \<Rightarrow> bool \<Rightarrow> bool \<Rightarrow> (Participant \<times> string) server_action" where
  "requireParticipant context allowQueryToken allowRemoved =
     (case (case bearerToken (cx_req context) of Some t \<Rightarrow> Some t
            | None \<Rightarrow> if allowQueryToken then query context ''token'' else None) of
        None \<Rightarrow> http 401 ''unauthorized'' ''bearer token is required''
      | Some token \<Rightarrow>
          bindA (store (roomPaths (op_roomId (cx_options context)))) (\<lambda>_.
          bindA (store readParticipants) (\<lambda>participants.
          case token_owner (cx_platform context) token participants of
            None \<Rightarrow> http 403 ''forbidden'' ''participant token is not allowed''
          | Some participant \<Rightarrow>
              if p_removed_at participant \<noteq> None \<and> \<not> allowRemoved
              then http 403 ''forbidden'' ''participant token is not allowed''
              else ret (participant, token))))"

definition requireHost :: "Participant \<Rightarrow> unit server_action" where
  "requireHost participant =
     (if \<not> p_is_host participant then http 403 ''host_required'' ''host access is required'' else ret ())"

subsection \<open>Bodies and parameters\<close>

fun body_fits :: "nat \<Rightarrow> nat \<Rightarrow> nat list \<Rightarrow> bool" where
  "body_fits mx seen [] \<longleftrightarrow> True"
| "body_fits mx seen (n # ns) \<longleftrightarrow> (if seen + n > mx then False else body_fits mx (seen + n) ns)"

definition readJsonBody :: "RequestContext \<Rightarrow> json server_action" where
  "readJsonBody context =
     (if \<not> body_fits (op_maxBodyBytes (cx_options context)) 0 (rq_chunks (cx_req context))
      then http 413 ''body_too_large'' ''request body is too large''
      else if rq_chunks (cx_req context) = [] then ret (JObj [])
      else (case rq_json (cx_req context) of
              Some j \<Rightarrow> ret j
            | None \<Rightarrow> http 400 ''invalid_json'' ''request body must be valid JSON''))"

definition jget :: "json \<Rightarrow> string \<Rightarrow> json option server_action" where
  "jget body key = (case jprop body key of Inl e \<Rightarrow> throw (Thrown e) | Inr v \<Rightarrow> ret v)"

definition parseCursorParam :: "string \<Rightarrow> string \<Rightarrow> nat server_action" where
  "parseCursorParam raw name =
     (let parsed = js_Number raw
      in if \<not> Number_isSafeInteger parsed \<or> jnum_int parsed < 0
         then http 400 (''invalid_'' @ name) (name @ '' must be a non-negative integer'')
         else ret (nat (jnum_int parsed)))"

definition parseMessageLimit :: "string option \<Rightarrow> nat option server_action" where
  "parseMessageLimit raw = (case raw of None \<Rightarrow> ret None
     | Some t \<Rightarrow> let parsed = js_Number t
         in if \<not> Number_isSafeInteger parsed \<or> jnum_int parsed < 1
            then http 400 ''invalid_limit'' ''limit must be a positive integer''
            else ret (Some (nat (jnum_int parsed))))"

definition parseSinceId :: "string option \<Rightarrow> nat server_action" where
  "parseSinceId raw = (case raw of None \<Rightarrow> ret 0
     | Some t \<Rightarrow> let parsed = js_Number t
         in if \<not> Number_isSafeInteger parsed \<or> jnum_int parsed < 0
            then http 400 ''invalid_since_id'' ''since_id must be a non-negative integer''
            else ret (nat (jnum_int parsed)))"

definition requireParam :: "RequestContext \<Rightarrow> string \<Rightarrow> string server_action" where
  "requireParam context name = (case query context name of
     None \<Rightarrow> http 400 ''missing_param'' (name @ '' is required'')
   | Some value \<Rightarrow>
       if value = [] then http 400 ''missing_param'' (name @ '' is required'') else ret value)"

definition requireForumChannelParam :: "RequestContext \<Rightarrow> string server_action" where
  "requireForumChannelParam context = requireParam context ''channel''"

definition parseDisplayName :: "string \<Rightarrow> string server_action" where
  "parseDisplayName value =
     (let trimmed = collapse_space False (js_trim value)
      in if length trimmed = 0 \<or> length trimmed > 60 \<or> list_ex control_char trimmed
         then http 400 ''invalid_display_name''
                ''display name must be 1-60 characters without control characters''
         else ret trimmed)"

definition parseSessionId :: "json option \<Rightarrow> string option server_action" where
  "parseSessionId value = (case value of
     None \<Rightarrow> ret None
   | Some (JStr s) \<Rightarrow>
       if length (js_trim s) = 0
       then http 400 ''invalid_session_id'' ''session_id must be a non-empty string''
       else if length s > 200
       then http 400 ''invalid_session_id'' ''session_id must be at most 200 characters''
       else ret (Some s)
   | Some _ \<Rightarrow> http 400 ''invalid_session_id'' ''session_id must be a non-empty string'')"

definition parsePositiveSeconds :: "json \<Rightarrow> string \<Rightarrow> rat server_action" where
  "parsePositiveSeconds value label = (case value of
     JNum (Finite r) \<Rightarrow>
       if r \<le> 0 then http 400 ''invalid_cadence'' (label @ '' must be a positive number of seconds'')
       else ret r
   | _ \<Rightarrow> http 400 ''invalid_cadence'' (label @ '' must be a positive number of seconds''))"

definition parseDurationM :: "json option \<Rightarrow> int server_action" where
  "parseDurationM value = (case value of
     Some (JNum v) \<Rightarrow>
       if \<not> Number_isInteger v \<or> jnum_int v \<le> 0
       then http 400 ''invalid_duration'' ''expected_duration_m must be a positive integer''
       else ret (jnum_int v)
   | _ \<Rightarrow> http 400 ''invalid_duration'' ''expected_duration_m must be a positive integer'')"

definition parseRequestedMode :: "json option \<Rightarrow> AttendancePolicy option server_action" where
  "parseRequestedMode value = (case value of
     None \<Rightarrow> ret None
   | Some (JStr s) \<Rightarrow>
       (case parseAttendancePolicy s of
          Inr p \<Rightarrow> ret (Some p)
        | Inl e \<Rightarrow> http 400 ''invalid_requested_mode''
            (case e of PlainError m \<Rightarrow> m | _ \<Rightarrow> ''invalid requested_mode''))
   | Some _ \<Rightarrow> http 400 ''invalid_requested_mode'' ''requested_mode must be a string'')"

subsection \<open>Rate limits\<close>

definition DEFAULT_WRITE_RATE_LIMIT :: nat where "DEFAULT_WRITE_RATE_LIMIT = 30"

definition WRITE_RATE_LIMITS :: "(string \<times> nat) list" where
  "WRITE_RATE_LIMITS = [(''brief'', 20), (''close'', 10), (''join'', 60), (''forum/comment'', 60)]"

text \<open>
  Every elapsed bucket is dropped first; then the key's bucket is opened or counted. A refused
  request is counted too.
\<close>

definition prune_buckets :: "int \<Rightarrow> (string \<times> RateBucket) list \<Rightarrow> (string \<times> RateBucket) list" where
  "prune_buckets now buckets = filter (\<lambda>kb. now < bk_resetAt (snd kb)) buckets"

definition take_bucket ::
  "nat \<Rightarrow> int \<Rightarrow> string \<Rightarrow> (string \<times> RateBucket) list \<Rightarrow> bool \<times> (string \<times> RateBucket) list" where
  "take_bucket limit now key buckets =
     (let live = prune_buckets now buckets;
          fresh = AList.update key \<lparr> bk_resetAt = now + 60000, bk_count = 1 \<rparr> live
      in case map_of live key of
           None \<Rightarrow> (True, fresh)
         | Some b \<Rightarrow>
             if now \<ge> bk_resetAt b then (True, fresh)
             else let b' = b\<lparr> bk_count := bk_count b + 1 \<rparr>
                  in (\<not> bk_count b' > limit, AList.update key b' live))"

definition enforceRateLimit :: "string \<Rightarrow> nat \<Rightarrow> int \<Rightarrow> unit server_action" where
  "enforceRateLimit key limit now =
     (\<lambda>s. let (ok, buckets) = take_bucket limit now key (sv_rateBuckets s)
          in (if ok then Inr () else Inl (HttpError 429 ''rate_limited'' ''rate limit exceeded''),
              s\<lparr> sv_rateBuckets := buckets \<rparr>))"

definition write_key :: "RequestContext \<Rightarrow> string \<Rightarrow> string \<Rightarrow> string" where
  "write_key context alias endpoint = op_roomId (cx_options context) @ '':'' @ alias @ '':'' @ endpoint"

definition enforceWriteRateLimit :: "RequestContext \<Rightarrow> string \<Rightarrow> string \<Rightarrow> unit server_action" where
  "enforceWriteRateLimit context alias endpoint =
     (let limit = (case map_of WRITE_RATE_LIMITS endpoint of
                     Some n \<Rightarrow> n | None \<Rightarrow> DEFAULT_WRITE_RATE_LIMIT)
      in enforceRateLimit (write_key context alias endpoint) limit (cx_now context))"

definition rateBucketCount :: "RoomServer \<Rightarrow> nat" where
  "rateBucketCount s = length (sv_rateBuckets s)"

definition clearRateBuckets :: "unit server_action" where
  "clearRateBuckets = modify (sv_rateBuckets_update (\<lambda>_. []))"

subsection \<open>The wait hub\<close>

text \<open>
  \<open>waiters\<close> maps a room to the callbacks of its held requests. Calling a callback removes it (and
  the room's entry with the last one) and resolves its promise: the held request moves to
  \<open>sv_resolved\<close>, from where its handler resumes.
\<close>

definition room_waiters :: "string \<Rightarrow> (string \<times> Waiter list) list \<Rightarrow> Waiter list" where
  "room_waiters roomId waiters = (case map_of waiters roomId of Some ws \<Rightarrow> ws | None \<Rightarrow> [])"

definition hub_wait :: "string \<Rightarrow> string \<Rightarrow> nat \<Rightarrow> nat server_action" where
  "hub_wait roomId alias since =
     (\<lambda>s. let w = \<lparr> wt_id = sv_nextWaiter s, wt_alias = alias, wt_since = since \<rparr>
          in (Inr (wt_id w), s\<lparr> sv_nextWaiter := sv_nextWaiter s + 1,
                sv_waiters := AList.update roomId (room_waiters roomId (sv_waiters s) @ [w]) (sv_waiters s) \<rparr>))"

definition hub_done :: "string \<Rightarrow> Waiter \<Rightarrow> RoomServer \<Rightarrow> RoomServer" where
  "hub_done roomId w s =
     (let rest = filter (\<lambda>x. wt_id x \<noteq> wt_id w) (room_waiters roomId (sv_waiters s))
      in s\<lparr> sv_waiters := (if rest = [] then AList.delete roomId (sv_waiters s)
                           else AList.update roomId rest (sv_waiters s)),
            sv_resolved := sv_resolved s @ [w] \<rparr>)"

definition hub_notify :: "string \<Rightarrow> unit server_action" where
  "hub_notify roomId = modify (\<lambda>s. foldl (\<lambda>t w. hub_done roomId w t) s (room_waiters roomId (sv_waiters s)))"

text \<open>The hold timer of one request (\<open>controller.abort\<close>).\<close>

definition hub_abort :: "string \<Rightarrow> nat \<Rightarrow> unit server_action" where
  "hub_abort roomId ident = modify (\<lambda>s.
     case find (\<lambda>w. wt_id w = ident) (room_waiters roomId (sv_waiters s)) of
       None \<Rightarrow> s | Some w \<Rightarrow> hub_done roomId w s)"

subsection \<open>Shared steps of the handlers\<close>

text \<open>
  \<open>cancelPendingAutoContinue\<close>: clear the timer and drop the entry. An armed timer is a pair of its
  handle and the alias its callback was given.
\<close>

definition cancelPendingAutoContinue :: "string \<Rightarrow> unit server_action" where
  "cancelPendingAutoContinue roomId = modify (\<lambda>s.
     case map_of (sv_pending s) roomId of
       None \<Rightarrow> s
     | Some pending \<Rightarrow>
         s\<lparr> sv_timers := AList.delete (pa_timer pending) (sv_timers s),
            sv_pending := AList.delete roomId (sv_pending s) \<rparr>)"

definition appendSystem :: "RequestContext \<Rightarrow> string \<Rightarrow> unit server_action" where
  "appendSystem context txt =
     bindA (store (appendServerMessage (op_roomId (cx_options context)) ''system'' txt (cx_now context)))
       (\<lambda>_. ret ())"

definition notify :: "RequestContext \<Rightarrow> unit server_action" where
  "notify context = hub_notify (op_roomId (cx_options context))"

definition touchParticipant ::
  "RequestContext \<Rightarrow> Participant \<Rightarrow> ParticipantAttention \<Rightarrow> unit server_action" where
  "touchParticipant context participant attention =
     store (upsertParticipant (op_roomId (cx_options context))
       (participant\<lparr> p_attention := attention, p_lastSeenAt := Iso (cx_now context) \<rparr>))"

text \<open>\<open>now >= Date.parse(stamp)\<close>, false when the stamp does not parse.\<close>

definition elapsed :: "int \<Rightarrow> tstamp option \<Rightarrow> bool" where
  "elapsed now stamp = (case stamp of None \<Rightarrow> False
     | Some t \<Rightarrow> (case Date_parse t of Some ms \<Rightarrow> now \<ge> ms | None \<Rightarrow> False))"

definition closeExpiredRoomIfNeeded :: "RequestContext \<Rightarrow> RoomState server_action" where
  "closeExpiredRoomIfNeeded context =
     bindA (store (roomPaths (op_roomId (cx_options context)))) (\<lambda>_.
     bindA (store readRoomState) (\<lambda>state.
     if rs_status state = RS_open \<and> elapsed (cx_now context) (rs_expires_at state)
     then bindA (cancelPendingAutoContinue (op_roomId (cx_options context))) (\<lambda>_.
          bindA (store (closeRoom (op_roomId (cx_options context)) (cx_now context))) (\<lambda>closed.
          bindA (appendSystem context ''room closed by ttl'') (\<lambda>_.
          bindA (notify context) (\<lambda>_. ret closed))))
     else ret state))"

definition requireRoomOpen :: "RequestContext \<Rightarrow> unit server_action" where
  "requireRoomOpen context =
     bindA (closeExpiredRoomIfNeeded context) (\<lambda>state.
     if rs_status state \<noteq> RS_open then http 403 ''room_closed'' ''room is closed'' else ret ())"

text \<open>\<open>forumGuard\<close>: the forum store's errors as HTTP errors.\<close>

definition forumGuard :: "RequestContext \<Rightarrow> 'a room_action \<Rightarrow> 'a server_action" where
  "forumGuard context act = (\<lambda>s. case store act s of
     (Inl (Thrown e), t) \<Rightarrow>
       (let message = error_message (cx_platform context) e;
            notFound = str_includes (js_toLowerCase message) ''not found'' \<or> isNotFoundError e
        in (Inl (if notFound then HttpError 404 ''forum_not_found'' ''forum post not found''
                 else HttpError 400 ''forum_error'' message), t))
   | r \<Rightarrow> r)"

end
