(* ===== verification/RoomServer.thy ===== *)
theory RoomServer
  imports ServerCore Cards
begin

text \<open>
  The request handlers of \<open>server/http.ts\<close>, each with its checks, reads and writes in the order of
  the source, the loop guard with its automatic continuation, the long poll, and the dispatcher. A
  handler runs from its request to its response as one step (a held \<open>/wait\<close> as two), reading one
  clock. Replies are the typed values the code serialises.
\<close>

subsection \<open>Replies\<close>

datatype AttendanceState = Attention ParticipantAttention | Not_attending | Stale

text \<open>\<open>pp_fields\<close> is the participant record without \<open>token_hash\<close> and \<open>session_id\<close>.\<close>

record PublicParticipant =
  pp_fields :: Participant
  pp_attendance_required :: bool
  pp_attendance_state :: AttendanceState
  pp_last_seen_age_ms :: int
  pp_stale_after_ms :: int

record PublicBoardroom =
  pb_id :: string
  pb_lifecycle :: string
  pb_legacy :: bool
  pb_createdAt :: tstamp
  pb_updatedAt :: tstamp
  pb_name :: "string option"
  pb_channels :: "Channel list"

record LoopGuardView =
  lg_limit :: nat
  lg_enabled :: bool
  lg_delay_s :: int
  lg_count :: nat
  lg_pending :: "(string \<times> int) option"

record WaitResponse =
  wr_room :: string
  wr_room_status :: RoomStatus
  wr_participant :: string
  wr_heartbeat :: bool
  wr_messages :: "Message list"
  wr_mentioned :: bool
  wr_next_since_id :: nat
  wr_keep_waiting :: bool
  wr_next_cmd :: "string option"

record StatusView =
  st_room :: string
  st_me :: string
  st_is_host :: bool
  st_room_status :: RoomStatus
  st_brief_version :: nat
  st_attendance_policy :: "AttendancePolicy option"
  st_stale_after_ms :: int
  st_brief_updated_at :: tstamp
  st_brief_updated_by :: string
  st_boardroom :: PublicBoardroom
  st_active_session :: "ActiveSession option"
  st_loop_guard :: LoopGuardView
  st_participants :: "PublicParticipant list"

datatype Reply =
    AssetReply string string
  | BriefReply RoomBrief
  | AttendanceReply "AttendancePolicy option"
  | LoopGuardReply LoopGuardView
  | ProfileReply PublicParticipant
  | JoinReply string "string option"
  | PostsReply string "(ForumPost \<times> nat) list"
  | ThreadReply ForumPost "ForumComment list"
  | PostReply ForumPost
  | CommentReply ForumComment
  | BackwardReply "Message list" bool
  | ForwardReply "Message list" nat
  | MessageReply Message bool
  | WaitReply WaitResponse
  | RemovedReply RoomStatus string nat
  | OkReply
  | ClosedReply RoomStatus
  | SessionReply ActiveSession
  | StatusReply StatusView
  | BoardroomReply PublicBoardroom
  | CardReply string

text \<open>What a handler ends in: a response with its status code, or a held \<open>/wait\<close>.\<close>

datatype Outcome = Respond nat Reply | Held nat

definition ATTENDANCE_STALE_AFTER_MS :: int where "ATTENDANCE_STALE_AFTER_MS = 90000"

subsection \<open>Public projections\<close>

definition publicBoardroom :: "Boardroom \<Rightarrow> PublicBoardroom" where
  "publicBoardroom boardroom =
     \<lparr> pb_id = br_id boardroom, pb_lifecycle = br_lifecycle boardroom,
       pb_legacy = br_legacy boardroom, pb_createdAt = br_createdAt boardroom,
       pb_updatedAt = br_updatedAt boardroom, pb_name = br_name boardroom,
       pb_channels = map (\<lambda>channel. \<lparr> ch_id = ch_id channel, ch_name = ch_name channel,
         ch_type = ch_type channel, ch_lifecycle = ch_lifecycle channel,
         ch_createdAt = ch_createdAt channel \<rparr>) (br_channels boardroom) \<rparr>"

definition isForegroundRequired :: "AttendancePolicy \<Rightarrow> Participant \<Rightarrow> bool" where
  "isForegroundRequired policy participant =
     (if p_removed_at participant \<noteq> None \<or> p_kind participant = K_system then False
      else if policy = AP_agents_foreground then p_kind participant = K_agent
      else if policy = AP_all_foreground then True else False)"

definition publicParticipant :: "Participant \<Rightarrow> AttendancePolicy \<Rightarrow> int \<Rightarrow> PublicParticipant" where
  "publicParticipant participant attendancePolicy now =
     (let publicFields = participant\<lparr> p_token_hash := None, p_session_id := None \<rparr>;
          lastSeenAgeMs = (case Date_parse (p_lastSeenAt participant) of
            Some lastSeenAt \<Rightarrow> max 0 (now - lastSeenAt) | None \<Rightarrow> max_safe);
          attendanceRequired = isForegroundRequired attendancePolicy participant;
          foreground = (p_attention participant = PA_attending \<or> p_attention participant = PA_managed);
          stale = (foreground \<and> lastSeenAgeMs > ATTENDANCE_STALE_AFTER_MS)
      in \<lparr> pp_fields = publicFields, pp_attendance_required = attendanceRequired,
           pp_attendance_state = (if attendanceRequired \<and> \<not> foreground then Not_attending
             else if stale then Stale else Attention (p_attention participant)),
           pp_last_seen_age_ms = lastSeenAgeMs, pp_stale_after_ms = ATTENDANCE_STALE_AFTER_MS \<rparr>)"

text \<open>\<open>Math.ceil(ms / 1000)\<close>.\<close>

definition seconds_up :: "int \<Rightarrow> int" where
  "seconds_up ms = - ((- ms) div 1000)"

definition loopGuardProjection ::
  "RoomServer \<Rightarrow> string \<Rightarrow> RoomState \<Rightarrow> nat \<Rightarrow> int \<Rightarrow> LoopGuardView" where
  "loopGuardProjection s roomId state limit now =
     \<lparr> lg_limit = limit, lg_enabled = (rs_auto_continue_enabled state = Some True),
       lg_delay_s = (case rs_auto_continue_delay_s state of
         Some d \<Rightarrow> d | None \<Rightarrow> AUTO_CONTINUE_DELAY_DEFAULT_S),
       lg_count = (case map_of (sv_autoCounts s) roomId of Some n \<Rightarrow> n | None \<Rightarrow> 0),
       lg_pending = map_option (\<lambda>pending.
         (pa_alias pending, max 0 (seconds_up (pa_expiresAt pending - now)))) (map_of (sv_pending s) roomId) \<rparr>"

definition last_id :: "Message list \<Rightarrow> nat \<Rightarrow> nat" where
  "last_id messages sinceId = (if messages = [] then sinceId else m_id (last messages))"

text \<open>
  The base URL of a wait response was normalised before, so \<open>roomUrl\<close> can only be absent for a
  platform whose URL parser rejects its own output; the command is then absent too.
\<close>

definition buildWaitResponse ::
  "Platform \<Rightarrow> string \<Rightarrow> RoomStatus \<Rightarrow> string \<Rightarrow> Message list \<Rightarrow> nat \<Rightarrow> string \<Rightarrow> bool \<Rightarrow> bool \<Rightarrow> WaitResponse" where
  "buildWaitResponse pf room roomStatus participant messages sinceId baseUrl heartbeat keepWaiting =
     (let nextSinceId = last_id messages sinceId
      in \<lparr> wr_room = room, wr_room_status = roomStatus, wr_participant = participant,
           wr_heartbeat = heartbeat, wr_messages = messages,
           wr_mentioned = list_ex (\<lambda>m. participant \<in> set (m_mentions m)) messages,
           wr_next_since_id = nextSinceId, wr_keep_waiting = keepWaiting,
           wr_next_cmd = (if roomStatus = RS_open
             then map_option (\<lambda>u. ''curl -s \"'' @ u @ ''\" -H \"Authorization: Bearer $TOKEN\"'')
                    (roomUrl pf baseUrl (''/wait?participant='' @ participant @ ''&since_id='' @ nat_str nextSinceId))
             else None) \<rparr>)"

subsection \<open>The loop guard\<close>

definition clearRoomLoopCounts :: "string \<Rightarrow> unit server_action" where
  "clearRoomLoopCounts roomId =
     modify (sv_loopCounts_update (filter (\<lambda>kc. \<not> starts_with (roomId @ '':'') (fst kc))))"

definition loop_key :: "string \<Rightarrow> string \<Rightarrow> string" where
  "loop_key roomId alias = roomId @ '':'' @ alias"

definition schedulePendingAutoContinue :: "RequestContext \<Rightarrow> string \<Rightarrow> int \<Rightarrow> unit server_action" where
  "schedulePendingAutoContinue context alias delaySeconds = modify (\<lambda>s.
     let roomId = op_roomId (cx_options context)
     in if map_of (sv_pending s) roomId \<noteq> None then s
        else s\<lparr> sv_timers := sv_timers s @ [(sv_nextTimer s, alias)],
                sv_nextTimer := sv_nextTimer s + 1,
                sv_pending := AList.update roomId \<lparr> pa_alias = alias, pa_timer = sv_nextTimer s,
                  pa_expiresAt = cx_now context + delaySeconds * 1000 \<rparr> (sv_pending s) \<rparr>)"

definition enforceLoopGuard :: "RequestContext \<Rightarrow> Participant \<Rightarrow> unit server_action" where
  "enforceLoopGuard context participant =
     (let roomId = op_roomId (cx_options context);
          limit = op_loopGuardLimit (cx_options context);
          key = loop_key roomId (p_alias participant)
      in if p_kind participant = K_human
         then bindA (clearRoomLoopCounts roomId) (\<lambda>_. cancelPendingAutoContinue roomId)
         else bindA (gets sv_pending) (\<lambda>pending.
         if map_of pending roomId \<noteq> None
         then http 429 ''loop_guard'' ''loop guard paused: an automatic continue is pending''
         else bindA (gets sv_loopCounts) (\<lambda>counts.
         let next = (case map_of counts key of Some n \<Rightarrow> n | None \<Rightarrow> 0) + 1
         in bindA (modify (sv_loopCounts_update (AList.update key next))) (\<lambda>_.
         if next \<le> limit then ret ()
         else bindA (store (roomPaths roomId)) (\<lambda>_.
         bindA (store readRoomState) (\<lambda>state.
         if rs_auto_continue_enabled state \<noteq> Some True
         then http 429 ''loop_guard'' ''loop guard stopped repeated agent messages''
         else bindA (schedulePendingAutoContinue context (p_alias participant)
                (case rs_auto_continue_delay_s state of
                   Some d \<Rightarrow> d | None \<Rightarrow> AUTO_CONTINUE_DELAY_DEFAULT_S)) (\<lambda>_.
              http 429 ''loop_guard'' ''loop guard paused: an automatic continue is pending'')))))))"

definition approval_text :: "string \<Rightarrow> string" where
  "approval_text alias = CHR ''@'' # alias @
     '' auto-continue approved after the loop guard pause. The guard is re-armed; continue if your task is unfinished.''"

text \<open>\<open>completeAutoContinue\<close> up to its read of the room's state, and from there on.\<close>

definition complete_read :: "RequestContext \<Rightarrow> RoomState result option server_action" where
  "complete_read context =
     (let roomId = op_roomId (cx_options context)
      in bindA (gets sv_pending) (\<lambda>pending.
         if map_of pending roomId = None then ret None
         else gets (\<lambda>s. Some (fst (bindA (roomPaths roomId) (\<lambda>_. readRoomState) (sv_files s))))))"

definition complete_finish :: "RequestContext \<Rightarrow> string \<Rightarrow> RoomState result \<Rightarrow> unit server_action" where
  "complete_finish context alias read =
     (let roomId = op_roomId (cx_options context)
      in case read of
           Inl _ \<Rightarrow> cancelPendingAutoContinue roomId
         | Inr state \<Rightarrow>
             bindA (gets sv_pending) (\<lambda>pending.
             if map_of pending roomId = None then ret ()
             else if rs_status state \<noteq> RS_open \<or> elapsed (cx_now context) (rs_expires_at state)
             then cancelPendingAutoContinue roomId
             else bindA (modify (sv_pending_update (AList.delete roomId))) (\<lambda>_.
             bindA (clearRoomLoopCounts roomId) (\<lambda>_.
             bindA (modify (sv_autoCounts_update (\<lambda>counts. AList.update roomId
                      ((case map_of counts roomId of Some n \<Rightarrow> n | None \<Rightarrow> 0) + 1) counts))) (\<lambda>_.
             (\<lambda>s. case appendSystem context (approval_text alias) s of
                (Inl e, t) \<Rightarrow> (Inr (), t) | (Inr u, t) \<Rightarrow> notify context t))))))"

definition completeAutoContinue :: "RequestContext \<Rightarrow> string \<Rightarrow> unit server_action" where
  "completeAutoContinue context alias =
     bindA (complete_read context) (\<lambda>read.
     case read of None \<Rightarrow> ret () | Some r \<Rightarrow> complete_finish context alias r)"

text \<open>An armed timer goes off.\<close>

definition timer_fires :: "RequestContext \<Rightarrow> nat \<Rightarrow> unit server_action" where
  "timer_fires context handle =
     bindA (gets sv_timers) (\<lambda>timers.
     case map_of timers handle of
       None \<Rightarrow> ret ()
     | Some alias \<Rightarrow>
         bindA (modify (sv_timers_update (AList.delete handle))) (\<lambda>_. completeAutoContinue context alias))"

subsection \<open>Brief, attendance and preferences\<close>

definition getBrief :: "RequestContext \<Rightarrow> Outcome server_action" where
  "getBrief context =
     bindA (requireParticipant context False False) (\<lambda>_.
     bindA (store (readBrief (op_roomId (cx_options context)))) (\<lambda>brief.
     ret (Respond 200 (BriefReply brief))))"

definition postBrief :: "RequestContext \<Rightarrow> Outcome server_action" where
  "postBrief context =
     bindA (requireParticipant context False False) (\<lambda>(participant, token).
     bindA (enforceWriteRateLimit context (p_alias participant) ''brief'') (\<lambda>_.
     bindA (requireHost participant) (\<lambda>_.
     bindA (readJsonBody context) (\<lambda>body.
     bindA (jget body ''body'') (\<lambda>field.
     case field of
       Some (JStr txt) \<Rightarrow>
         if length txt > MAX_BRIEF_LENGTH
         then http 413 ''brief_too_large'' ''brief body must be <= 16000 characters''
         else bindA (store (updateBrief (op_roomId (cx_options context)) txt (p_alias participant)
                       (cx_now context))) (\<lambda>brief.
              bindA (appendSystem context
                (''Room brief updated to v'' @ nat_str (rb_brief_version brief))) (\<lambda>_.
              bindA (notify context) (\<lambda>_.
              ret (Respond 200 (BriefReply brief)))))
     | _ \<Rightarrow> http 400 ''invalid_body'' ''brief body is required'')))))"

definition getCard :: "(rat \<Rightarrow> string) \<Rightarrow> RequestContext \<Rightarrow> Outcome server_action" where
  "getCard number context =
     bindA (requireParticipant context True False) (\<lambda>(participant, token).
     bindA (store (readBrief (op_roomId (cx_options context)))) (\<lambda>brief.
     bindA (store readRoomState) (\<lambda>state.
     case normalizeBaseUrl (cx_platform context) (advertisedBaseUrl context) of
       None \<Rightarrow> throw (Thrown TypeError)
     | Some base \<Rightarrow>
         ret (Respond 200 (CardReply (renderInviteCard number base participant token brief
           (case rs_attendance_policy state of Some p \<Rightarrow> p | None \<Rightarrow> AP_manual_ok)))))))"

definition postAttendance :: "RequestContext \<Rightarrow> Outcome server_action" where
  "postAttendance context =
     bindA (requireParticipant context False False) (\<lambda>(participant, token).
     bindA (enforceWriteRateLimit context (p_alias participant) ''attendance'') (\<lambda>_.
     bindA (requireHost participant) (\<lambda>_.
     bindA (readJsonBody context) (\<lambda>body.
     bindA (jget body ''policy'') (\<lambda>field.
     case field of
       Some (JStr txt) \<Rightarrow>
         (case parseAttendancePolicy txt of
            Inl e \<Rightarrow> http 400 ''invalid_policy''
              (case e of PlainError m \<Rightarrow> m | _ \<Rightarrow> ''invalid attendance policy'')
          | Inr policy \<Rightarrow>
              bindA (store (updateAttendancePolicy (op_roomId (cx_options context)) policy
                (p_alias participant) (cx_now context))) (\<lambda>state.
              bindA (appendSystem context (''Attendance policy set to '' @ policy_name policy)) (\<lambda>_.
              bindA (notify context) (\<lambda>_.
              ret (Respond 200 (AttendanceReply (rs_attendance_policy state)))))))
     | _ \<Rightarrow> http 400 ''invalid_policy'' ''attendance policy is required'')))))"

text \<open>\<open>isValidAutoContinueDelay\<close> takes an unknown value; only a number can pass.\<close>

fun valid_delay :: "json \<Rightarrow> bool" where
  "valid_delay (JNum v) \<longleftrightarrow> isValidAutoContinueDelay v"
| "valid_delay _ \<longleftrightarrow> False"

fun json_number :: "json \<Rightarrow> jnum option" where
  "json_number (JNum v) = Some v"
| "json_number _ = None"

definition postLoopGuard :: "RequestContext \<Rightarrow> Outcome server_action" where
  "postLoopGuard context =
     bindA (requireParticipant context False False) (\<lambda>(participant, token).
     bindA (enforceWriteRateLimit context (p_alias participant) ''loop-guard'') (\<lambda>_.
     bindA (requireHost participant) (\<lambda>_.
     bindA (readJsonBody context) (\<lambda>body.
     bindA (jget body ''enabled'') (\<lambda>field.
     case field of
       Some (JBool enabled) \<Rightarrow>
         bindA (jget body ''delay_s'') (\<lambda>delay.
         if (case delay of Some d \<Rightarrow> \<not> valid_delay d | None \<Rightarrow> False)
         then http 400 ''invalid_auto_continue_delay'' ''delay_s must be an integer between 30 and 300''
         else bindA (store (updateLoopGuardPreference (op_roomId (cx_options context)) enabled
                (case delay of Some d \<Rightarrow> json_number d | None \<Rightarrow> None)
                (p_alias participant) (cx_now context))) (\<lambda>state.
              bindA (if \<not> enabled then cancelPendingAutoContinue (op_roomId (cx_options context)) else ret ()) (\<lambda>_.
              bindA (gets (\<lambda>s. loopGuardProjection s (op_roomId (cx_options context)) state
                (op_loopGuardLimit (cx_options context)) (cx_now context))) (\<lambda>view.
              ret (Respond 200 (LoopGuardReply view))))))
     | _ \<Rightarrow> http 400 ''invalid_auto_continue'' ''enabled must be a boolean'')))))"

subsection \<open>Profile, join and leave\<close>

fun json_strings :: "json list \<Rightarrow> string list option" where
  "json_strings [] = Some []"
| "json_strings (JStr t # js) = map_option (\<lambda>ts. t # ts) (json_strings js)"
| "json_strings (_ # js) = None"

text \<open>The declared fields, as the update they make when spread over a participant.\<close>

definition parse_supported_modes :: "json option \<Rightarrow> (Participant \<Rightarrow> Participant) server_action" where
  "parse_supported_modes value = (case value of
     None \<Rightarrow> ret (\<lambda>p. p)
   | Some (JArr js) \<Rightarrow>
       (case json_strings js of
          None \<Rightarrow> http 400 ''invalid_supported_modes'' ''supported_modes must be an array of mode strings''
        | Some modes \<Rightarrow>
            (case normalizeSupportedModes modes of
               Inr ms \<Rightarrow> ret (\<lambda>p. p\<lparr> p_supported_modes := Some ms \<rparr>)
             | Inl e \<Rightarrow> http 400 ''invalid_supported_modes''
                 (case e of PlainError m \<Rightarrow> m | _ \<Rightarrow> ''invalid supported_modes'')))
   | Some _ \<Rightarrow> http 400 ''invalid_supported_modes'' ''supported_modes must be an array of mode strings'')"

definition parseAttentionDeclaration :: "json \<Rightarrow> (Participant \<Rightarrow> Participant) server_action" where
  "parseAttentionDeclaration body =
     bindA (jget body ''supported_modes'') (\<lambda>modes.
     bindA (parse_supported_modes modes) (\<lambda>setModes.
     bindA (jget body ''poll_cadence_s'') (\<lambda>poll.
     bindA (case poll of None \<Rightarrow> ret (\<lambda>p. p)
            | Some v \<Rightarrow> bindA (parsePositiveSeconds v ''poll_cadence_s'')
                (\<lambda>r. ret (\<lambda>p. p\<lparr> p_poll_cadence_s := Some r \<rparr>))) (\<lambda>setPoll.
     bindA (jget body ''safety_wake_s'') (\<lambda>wake.
     bindA (case wake of None \<Rightarrow> ret (\<lambda>p. p)
            | Some v \<Rightarrow> bindA (parsePositiveSeconds v ''safety_wake_s'')
                (\<lambda>r. ret (\<lambda>p. p\<lparr> p_safety_wake_s := Some r \<rparr>))) (\<lambda>setWake.
     ret (\<lambda>p. setWake (setPoll (setModes p)))))))))"

definition getProfile :: "RequestContext \<Rightarrow> Outcome server_action" where
  "getProfile context =
     bindA (requireParticipant context False False) (\<lambda>(participant, token).
     ret (Respond 200 (ProfileReply (publicParticipant participant AP_manual_ok (cx_now context)))))"

definition postProfile :: "RequestContext \<Rightarrow> Outcome server_action" where
  "postProfile context =
     bindA (requireParticipant context False False) (\<lambda>(participant, token).
     bindA (enforceWriteRateLimit context (p_alias participant) ''profile'') (\<lambda>_.
     bindA (readJsonBody context) (\<lambda>body.
     bindA (jget body ''display_name'') (\<lambda>field.
     case field of
       Some (JStr txt) \<Rightarrow>
         bindA (parseDisplayName txt) (\<lambda>displayName.
         bindA (store (roomPaths (op_roomId (cx_options context)))) (\<lambda>_.
         bindA (store readParticipants) (\<lambda>participants.
         if findNameOwnerConflict participants displayName (p_alias participant)
              (p_token_hash participant) \<noteq> None
         then http 409 ''display_name_taken'' ''display name is already in use''
         else bindA (parseAttentionDeclaration body) (\<lambda>declared.
              let updated = withNegotiatedAttention ((declared participant)
                    \<lparr> p_display_name := Some displayName, p_lastSeenAt := Iso (cx_now context) \<rparr>)
              in bindA (store (upsertParticipant (op_roomId (cx_options context)) updated)) (\<lambda>_.
                 ret (Respond 200 (ProfileReply (publicParticipant updated AP_manual_ok (cx_now context)))))))))
     | _ \<Rightarrow> http 400 ''invalid_display_name'' ''display_name is required''))))"

definition DUPLICATE_JOIN_WARNING :: string where
  "DUPLICATE_JOIN_WARNING = ''this alias is already actively attended by another session; if this is a second session you may be joined in the wrong room''"

definition joining_participant ::
  "Participant \<Rightarrow> (Participant \<Rightarrow> Participant) \<Rightarrow> string option \<Rightarrow> int \<Rightarrow> Participant" where
  "joining_participant participant declared incomingSessionId now =
     (let baseParticipant = participant\<lparr> p_removed_at := None \<rparr>;
          spread = (declared baseParticipant)\<lparr> p_attention := PA_attending,
            p_joinedAt := (if p_joinedAt baseParticipant = BadStamp [] then Iso now else p_joinedAt baseParticipant),
            p_lastSeenAt := Iso now \<rparr>
      in withNegotiatedAttention (case incomingSessionId of None \<Rightarrow> spread
           | Some sid \<Rightarrow> spread\<lparr> p_session_id := Some sid \<rparr>))"

definition postJoin :: "RequestContext \<Rightarrow> Outcome server_action" where
  "postJoin context =
     bindA (requireParticipant context False False) (\<lambda>(participant, token).
     bindA (enforceWriteRateLimit context (p_alias participant) ''join'') (\<lambda>_.
     bindA (readJsonBody context) (\<lambda>body.
     bindA (parseAttentionDeclaration body) (\<lambda>declared.
     bindA (jget body ''session_id'') (\<lambda>session.
     bindA (parseSessionId session) (\<lambda>incomingSessionId.
     bindA (store (joinParticipant (op_roomId (cx_options context))
         (joining_participant participant declared incomingSessionId (cx_now context))
         ATTENDANCE_STALE_AFTER_MS (cx_now context) incomingSessionId)) (\<lambda>duplicateActiveSession.
     bindA (appendSystem context (p_alias participant @ '' joined'')) (\<lambda>_.
     bindA (notify context) (\<lambda>_.
     ret (Respond 200 (JoinReply (p_alias participant)
       (if duplicateActiveSession then Some DUPLICATE_JOIN_WARNING else None))))))))))))"

definition postLeave :: "RequestContext \<Rightarrow> Outcome server_action" where
  "postLeave context =
     bindA (requireParticipant context False False) (\<lambda>(participant, token).
     bindA (enforceWriteRateLimit context (p_alias participant) ''leave'') (\<lambda>_.
     bindA (store (upsertParticipant (op_roomId (cx_options context))
       (participant\<lparr> p_attention := PA_away, p_lastSeenAt := Iso (cx_now context) \<rparr>))) (\<lambda>_.
     bindA (appendSystem context (p_alias participant @ '' left'')) (\<lambda>_.
     bindA (notify context) (\<lambda>_.
     ret (Respond 200 OkReply))))))"

subsection \<open>Forum\<close>

definition getForumPosts :: "RequestContext \<Rightarrow> Outcome server_action" where
  "getForumPosts context =
     bindA (requireParticipant context False False) (\<lambda>_.
     bindA (requireForumChannelParam context) (\<lambda>channel.
     bindA (forumGuard context (listForumPosts (pf_locale_key (cx_platform context))
       (op_roomId (cx_options context)) channel)) (\<lambda>posts.
     bindA (mapA (\<lambda>post. bindA (store (readForumPost (op_roomId (cx_options context)) channel (fp_id post)))
       (\<lambda>thread. ret (post, length (snd thread)))) posts) (\<lambda>withCounts.
     ret (Respond 200 (PostsReply channel withCounts))))))"

definition getForumPost :: "RequestContext \<Rightarrow> Outcome server_action" where
  "getForumPost context =
     bindA (requireParticipant context False False) (\<lambda>_.
     bindA (requireForumChannelParam context) (\<lambda>channel.
     bindA (requireParam context ''post'') (\<lambda>post.
     bindA (forumGuard context (readForumPost (op_roomId (cx_options context)) channel post)) (\<lambda>thread.
     ret (Respond 200 (ThreadReply (fst thread) (snd thread)))))))"

text \<open>\<open>body.tags.filter((t) => typeof t === "string")\<close>.\<close>

definition string_items :: "json list \<Rightarrow> string list" where
  "string_items js = List.map_filter (\<lambda>j. case j of JStr t \<Rightarrow> Some t | _ \<Rightarrow> None) js"

definition postForumPost :: "RequestContext \<Rightarrow> Outcome server_action" where
  "postForumPost context =
     bindA (requireParticipant context False False) (\<lambda>(participant, token).
     bindA (enforceWriteRateLimit context (p_alias participant) ''forum/posts'') (\<lambda>_.
     bindA (requireRoomOpen context) (\<lambda>_.
     bindA (readJsonBody context) (\<lambda>body.
     bindA (jget body ''channel'') (\<lambda>c.
     bindA (jget body ''title'') (\<lambda>t.
     bindA (jget body ''body'') (\<lambda>b.
     case (c, t, b) of
       (Some (JStr channel), Some (JStr title), Some (JStr txt)) \<Rightarrow>
         bindA (jget body ''tags'') (\<lambda>tags.
         bindA (jget body ''status'') (\<lambda>status.
         bindA (case status of
                  Some (JStr st) \<Rightarrow>
                    (case parseForumStatus st of Inr v \<Rightarrow> ret (Some v) | Inl e \<Rightarrow> throw (Thrown e))
                | _ \<Rightarrow> ret None) (\<lambda>parsed.
         let input = \<lparr> fi_author = p_alias participant, fi_title = title, fi_body = txt, fi_id = None,
               fi_status = parsed,
               fi_tags = (case tags of Some (JArr js) \<Rightarrow> Some (string_items js) | _ \<Rightarrow> None) \<rparr>
         in bindA (forumGuard context (createForumPost (op_roomId (cx_options context)) channel input
              (cx_fresh context) (cx_now context))) (\<lambda>post.
            ret (Respond 201 (PostReply post))))))
     | _ \<Rightarrow> http 400 ''invalid_forum_post'' ''channel, title, and body are required'')))))))"

definition postForumComment :: "RequestContext \<Rightarrow> Outcome server_action" where
  "postForumComment context =
     bindA (requireParticipant context False False) (\<lambda>(participant, token).
     bindA (enforceWriteRateLimit context (p_alias participant) ''forum/comment'') (\<lambda>_.
     bindA (requireRoomOpen context) (\<lambda>_.
     bindA (readJsonBody context) (\<lambda>body.
     bindA (jget body ''channel'') (\<lambda>c.
     bindA (jget body ''post'') (\<lambda>p.
     bindA (jget body ''body'') (\<lambda>b.
     case (c, p, b) of
       (Some (JStr channel), Some (JStr post), Some (JStr txt)) \<Rightarrow>
         if length (js_trim txt) = 0
         then http 400 ''invalid_forum_comment'' ''comment body is required''
         else bindA (forumGuard context (addForumComment (op_roomId (cx_options context)) channel post
                (p_alias participant) txt (cx_now context))) (\<lambda>comment.
              ret (Respond 201 (CommentReply comment)))
     | _ \<Rightarrow> http 400 ''invalid_forum_comment'' ''channel, post, and body are required'')))))))"

subsection \<open>Messages\<close>

text \<open>The two pages of \<open>getMessages\<close>, on the log in order.\<close>

definition older_page :: "Message list \<Rightarrow> nat \<Rightarrow> nat option \<Rightarrow> Message list" where
  "older_page all beforeId limit =
     (let older = filter (\<lambda>m. m_id m < beforeId) all
      in case limit of None \<Rightarrow> older | Some n \<Rightarrow> lastN n older)"

definition more_before :: "Message list \<Rightarrow> Message list \<Rightarrow> bool" where
  "more_before all page = (case page of [] \<Rightarrow> False | m # _ \<Rightarrow> list_ex (\<lambda>x. m_id x < m_id m) all)"

definition newer_page :: "Message list \<Rightarrow> nat \<Rightarrow> nat option \<Rightarrow> Message list" where
  "newer_page all sinceId limit =
     (let forward = filter (\<lambda>m. m_id m > sinceId) all
      in case limit of None \<Rightarrow> forward | Some n \<Rightarrow> take n forward)"

definition getMessages :: "RequestContext \<Rightarrow> Outcome server_action" where
  "getMessages context =
     bindA (requireParticipant context False False) (\<lambda>(participant, token).
     if (case query context ''channel'' of Some c \<Rightarrow> c \<noteq> DEFAULT_CHANNEL_ID | None \<Rightarrow> False)
     then http 400 ''unsupported_channel''
            ''channel-scoped chat is not available; only #general carries chat in this version''
     else bindA (touchParticipant context participant (p_attention participant)) (\<lambda>_.
     if query context ''since_id'' \<noteq> None \<and> query context ''before_id'' \<noteq> None
     then http 400 ''conflicting_cursor'' ''since_id and before_id cannot be combined''
     else bindA (parseMessageLimit (query context ''limit'')) (\<lambda>limit.
     bindA (store (readMessages (op_roomId (cx_options context)))) (\<lambda>all.
     case query context ''before_id'' of
       Some raw \<Rightarrow>
         bindA (parseCursorParam raw ''before_id'') (\<lambda>beforeId.
         let page = older_page all beforeId limit
         in ret (Respond 200 (BackwardReply page (more_before all page))))
     | None \<Rightarrow>
         bindA (parseSinceId (query context ''since_id'')) (\<lambda>sinceId.
         let messages = newer_page all sinceId limit
         in ret (Respond 200 (ForwardReply messages (last_id messages sinceId))))))))"

definition postMessage :: "RequestContext \<Rightarrow> Outcome server_action" where
  "postMessage context =
     bindA (requireParticipant context False False) (\<lambda>(participant, token).
     bindA (readJsonBody context) (\<lambda>body.
     bindA (touchParticipant context participant (p_attention participant)) (\<lambda>_.
     bindA (requireRoomOpen context) (\<lambda>_.
     bindA (enforceRateLimit (op_roomId (cx_options context) @ '':'' @ p_alias participant)
       (op_rateLimitPerMinute (cx_options context)) (cx_now context)) (\<lambda>_.
     bindA (enforceLoopGuard context participant) (\<lambda>_.
     bindA (store (appendMessageResult (op_roomId (cx_options context)) (p_alias participant) body
       (cx_now context) (Some (op_maxMessages (cx_options context))))) (\<lambda>result.
     if ar_idempotent result then ret (Respond 200 (MessageReply (ar_message result) True))
     else bindA (notify context) (\<lambda>_.
          ret (Respond 201 (MessageReply (ar_message result) False))))))))))"

subsection \<open>The long poll\<close>

definition waitSnapshot :: "RequestContext \<Rightarrow> string \<Rightarrow> nat \<Rightarrow> WaitResponse option server_action" where
  "waitSnapshot context participant sinceId =
     bindA (closeExpiredRoomIfNeeded context) (\<lambda>state.
     if rs_status state = RS_closed
     then ret (Some (buildWaitResponse (cx_platform context) (op_roomId (cx_options context)) RS_closed
            participant [] sinceId (advertisedBaseUrl context) False False))
     else bindA (store (readMessages (op_roomId (cx_options context)))) (\<lambda>all.
          let messages = filter (\<lambda>m. m_id m > sinceId) all
          in if length messages = 0 then ret None
             else ret (Some (buildWaitResponse (cx_platform context) (op_roomId (cx_options context)) RS_open
                    participant messages sinceId (op_baseUrl (cx_options context)) False False))))"

definition getWait :: "RequestContext \<Rightarrow> Outcome server_action" where
  "getWait context =
     bindA (requireParticipant context False True) (\<lambda>(participant, token).
     bindA (if p_removed_at participant = None then touchParticipant context participant PA_attending
            else ret ()) (\<lambda>_.
     bindA (parseSinceId (query context ''since_id'')) (\<lambda>sinceId.
     if (case query context ''participant'' of Some a \<Rightarrow> a \<noteq> p_alias participant | None \<Rightarrow> False)
     then http 403 ''participant_mismatch'' ''participant query does not match token''
     else if p_removed_at participant \<noteq> None
     then bindA (closeExpiredRoomIfNeeded context) (\<lambda>state.
          ret (Respond 200 (RemovedReply (rs_status state) (p_alias participant) sinceId)))
     else bindA (waitSnapshot context (p_alias participant) sinceId) (\<lambda>immediate.
     case immediate of
       Some r \<Rightarrow> ret (Respond 200 (WaitReply r))
     | None \<Rightarrow> bindA (hub_wait (op_roomId (cx_options context)) (p_alias participant) sinceId)
                 (\<lambda>ident. ret (Held ident))))))"

text \<open>A held request resumes, because the hub was notified or its hold time was over.\<close>

definition getWait_resume :: "RequestContext \<Rightarrow> Waiter \<Rightarrow> Outcome server_action" where
  "getWait_resume context w =
     bindA (modify (sv_resolved_update (filter (\<lambda>x. wt_id x \<noteq> wt_id w)))) (\<lambda>_.
     bindA (waitSnapshot context (wt_alias w) (wt_since w)) (\<lambda>afterWait.
     case afterWait of
       Some r \<Rightarrow> ret (Respond 200 (WaitReply r))
     | None \<Rightarrow> ret (Respond 200 (WaitReply (buildWaitResponse (cx_platform context)
         (op_roomId (cx_options context)) RS_open (wt_alias w) [] (wt_since w)
         (advertisedBaseUrl context) True True)))))"

subsection \<open>Close, session and status\<close>

definition postClose :: "RequestContext \<Rightarrow> Outcome server_action" where
  "postClose context =
     bindA (requireParticipant context False False) (\<lambda>(participant, token).
     bindA (enforceWriteRateLimit context (p_alias participant) ''close'') (\<lambda>_.
     bindA (requireHost participant) (\<lambda>_.
     bindA (cancelPendingAutoContinue (op_roomId (cx_options context))) (\<lambda>_.
     bindA (store (closeRoom (op_roomId (cx_options context)) (cx_now context))) (\<lambda>state.
     bindA (appendSystem context ''room closed'') (\<lambda>_.
     bindA (notify context) (\<lambda>_.
     ret (Respond 200 (ClosedReply (rs_status state))))))))))"

definition start_session ::
  "RequestContext \<Rightarrow> string \<Rightarrow> string \<Rightarrow> int \<Rightarrow> AttendancePolicy option \<Rightarrow> ActiveSession server_action" where
  "start_session context channel startedBy duration requestedMode =
     (\<lambda>s. case store (startActiveSession (op_roomId (cx_options context)) channel startedBy duration
             requestedMode (cx_now context)) s of
        (Inl (Thrown ActiveSessionExistsError), t) \<Rightarrow>
          (Inl (HttpError 409 ''session_active''
            (error_message (cx_platform context) ActiveSessionExistsError)), t)
      | r \<Rightarrow> r)"

definition postSession :: "RequestContext \<Rightarrow> Outcome server_action" where
  "postSession context =
     bindA (requireParticipant context False False) (\<lambda>(participant, token).
     bindA (enforceWriteRateLimit context (p_alias participant) ''session'') (\<lambda>_.
     bindA (requireHost participant) (\<lambda>_.
     bindA (requireRoomOpen context) (\<lambda>_.
     bindA (readJsonBody context) (\<lambda>body.
     bindA (jget body ''action'') (\<lambda>action.
     if action = Some (JStr ''start'')
     then bindA (jget body ''channel'') (\<lambda>c.
          let channel = (case c of Some (JStr x) \<Rightarrow> x | _ \<Rightarrow> DEFAULT_CHANNEL_ID)
          in if channel \<noteq> DEFAULT_CHANNEL_ID
             then http 400 ''unsupported_channel''
                    ''active sessions are only available for #general in this version''
             else bindA (jget body ''expected_duration_m'') (\<lambda>d.
                  bindA (parseDurationM d) (\<lambda>expectedDurationM.
                  bindA (jget body ''requested_mode'') (\<lambda>q.
                  bindA (parseRequestedMode q) (\<lambda>requestedMode.
                  bindA (start_session context channel (p_alias participant) expectedDurationM requestedMode) (\<lambda>session.
                  bindA (appendSystem context (''Active chat session started in #'' @ channel @ '' by '' @
                    p_alias participant @ '' (~'' @ nat_str (nat expectedDurationM) @ ''m)'')) (\<lambda>_.
                  bindA (notify context) (\<lambda>_.
                  ret (Respond 201 (SessionReply session))))))))))
     else if action = Some (JStr ''end'')
     then bindA (store (endActiveSession (op_roomId (cx_options context)) (cx_now context))) (\<lambda>ended.
          case ended of
            None \<Rightarrow> http 409 ''no_active_session'' ''no active chat session to end''
          | Some a \<Rightarrow>
              bindA (appendSystem context (''Active chat session ended in #'' @ as_channel_id a)) (\<lambda>_.
              bindA (notify context) (\<lambda>_.
              ret (Respond 200 (SessionReply a)))))
     else http 400 ''invalid_action'' ''action must be start or end''))))))"

definition getStatus :: "RequestContext \<Rightarrow> Outcome server_action" where
  "getStatus context =
     bindA (requireParticipant context False False) (\<lambda>(participant, token).
     bindA (store (roomPaths (op_roomId (cx_options context)))) (\<lambda>_.
     bindA (store readRoomState) (\<lambda>state.
     bindA (store readParticipants) (\<lambda>participants.
     bindA (store (readBoardroom (op_roomId (cx_options context)))) (\<lambda>boardroom.
     bindA (gets (\<lambda>s. loopGuardProjection s (op_roomId (cx_options context)) state
       (op_loopGuardLimit (cx_options context)) (cx_now context))) (\<lambda>view.
     let policy = (case rs_attendance_policy state of Some p \<Rightarrow> p | None \<Rightarrow> AP_manual_ok)
     in ret (Respond 200 (StatusReply
       \<lparr> st_room = rs_id state, st_me = p_alias participant, st_is_host = p_is_host participant,
         st_room_status = rs_status state, st_brief_version = rs_brief_version state,
         st_attendance_policy = rs_attendance_policy state,
         st_stale_after_ms = ATTENDANCE_STALE_AFTER_MS,
         st_brief_updated_at = rs_brief_updated_at state,
         st_brief_updated_by = rs_brief_updated_by state,
         st_boardroom = publicBoardroom boardroom, st_active_session = rs_active_session state,
         st_loop_guard = view,
         st_participants = map (\<lambda>p. publicParticipant p policy (cx_now context)) participants \<rparr>))))))))"

definition getBoardroom :: "RequestContext \<Rightarrow> Outcome server_action" where
  "getBoardroom context =
     bindA (requireParticipant context False False) (\<lambda>_.
     bindA (store (readBoardroom (op_roomId (cx_options context)))) (\<lambda>boardroom.
     ret (Respond 200 (BoardroomReply (publicBoardroom boardroom)))))"

subsection \<open>The dispatcher\<close>

text \<open>Static files: the path served, the packaged file and its content type.\<close>

definition ASSETS :: "(string \<times> string \<times> string) list" where
  "ASSETS =
    [(''/'', ''../browser/room.html'', ''text/html; charset=utf-8''),
     (''/room.css'', ''../browser/room.css'', ''text/css; charset=utf-8''),
     (''/theme.css'', ''../browser/theme.css'', ''text/css; charset=utf-8''),
     (''/kit.css'', ''../browser/kit.css'', ''text/css; charset=utf-8''),
     (''/room.js'', ''../browser/room.js'', ''text/javascript; charset=utf-8''),
     (''/channel-rail.css'', ''../browser/channel-rail.css'', ''text/css; charset=utf-8''),
     (''/channel-rail.js'', ''../browser/channel-rail.js'', ''text/javascript; charset=utf-8''),
     (''/markdown.js'', ''../browser/markdown.js'', ''text/javascript; charset=utf-8''),
     (''/restored-provenance.js'', ''../browser/restored-provenance.js'', ''text/javascript; charset=utf-8''),
     (''/forum.html'', ''../browser/forum.html'', ''text/html; charset=utf-8''),
     (''/forum.css'', ''../browser/forum.css'', ''text/css; charset=utf-8''),
     (''/forum.js'', ''../browser/forum.js'', ''text/javascript; charset=utf-8''),
     (''/mentions.js'', ''../protocol/mentions.js'', ''text/javascript; charset=utf-8''),
     (''/validation.js'', ''../protocol/validation.js'', ''text/javascript; charset=utf-8''),
     (''/wake-tier.js'', ''../protocol/wake-tier.js'', ''text/javascript; charset=utf-8''),
     (''/manifest.webmanifest'', ''../browser/manifest.webmanifest'', ''application/manifest+json; charset=utf-8''),
     (''/agentgather-logo.png'', ''../browser/agentgather-logo.png'', ''image/png''),
     (''/favicon.png'', ''../browser/agentgather-logo.png'', ''image/png'')]"

definition serveAsset :: "RequestContext \<Rightarrow> string \<Rightarrow> string \<Rightarrow> Outcome server_action" where
  "serveAsset context asset contentType = (case pf_asset (cx_platform context) asset of
     None \<Rightarrow> throw (Thrown NotFound)
   | Some content \<Rightarrow> ret (Respond 200 (AssetReply content contentType)))"

definition ENDPOINTS :: "(rat \<Rightarrow> string) \<Rightarrow> ((string \<times> string) \<times> (RequestContext \<Rightarrow> Outcome server_action)) list" where
  "ENDPOINTS number =
    [((''GET'', ''/forum/posts''), getForumPosts),
     ((''GET'', ''/forum/post''), getForumPost),
     ((''POST'', ''/forum/posts''), postForumPost),
     ((''POST'', ''/forum/comment''), postForumComment),
     ((''GET'', ''/brief''), getBrief),
     ((''POST'', ''/brief''), postBrief),
     ((''POST'', ''/attendance''), postAttendance),
     ((''POST'', ''/loop-guard''), postLoopGuard),
     ((''GET'', ''/profile''), getProfile),
     ((''POST'', ''/profile''), postProfile),
     ((''GET'', ''/card''), getCard number),
     ((''POST'', ''/join''), postJoin),
     ((''GET'', ''/messages''), getMessages),
     ((''POST'', ''/messages''), postMessage),
     ((''GET'', ''/wait''), getWait),
     ((''POST'', ''/leave''), postLeave),
     ((''POST'', ''/close''), postClose),
     ((''POST'', ''/session''), postSession),
     ((''GET'', ''/status''), getStatus),
     ((''GET'', ''/boardroom''), getBoardroom)]"

definition handleRequest :: "(rat \<Rightarrow> string) \<Rightarrow> RequestContext \<Rightarrow> Outcome server_action" where
  "handleRequest number context =
     bindA (enforceExposure context) (\<lambda>_.
     bindA (if isWriteMethod (rq_method (cx_req context)) then enforceSameOrigin context else ret ()) (\<lambda>_.
     let pathname = rq_pathname (cx_req context); meth = rq_method (cx_req context)
     in case (if meth = ''GET'' then map_of ASSETS pathname else None) of
          Some (asset, contentType) \<Rightarrow> serveAsset context asset contentType
        | None \<Rightarrow>
            (case map_of (ENDPOINTS number) (meth, pathname) of
               Some handler \<Rightarrow> handler context
             | None \<Rightarrow>
                 if pathname = ''/watch''
                 then http 404 ''not_found'' ''this server long-polls on GET /wait, not /watch''
                 else http 404 ''not_found'' ''endpoint not found'')))"

end
