(* ===== verification/ServerEffects.thy ===== *)
theory ServerEffects
  imports RoomServer
begin

text \<open>
  What one request may do to the server. The locale \<open>server_effect\<close> takes a relation between the
  states before and after, indexed by the caller, and asks that the store operations and the
  bookkeeping steps of the handlers respect it; then every handler, and the dispatcher, does. It is
  interpreted on the relations the properties of the server rest on.
\<close>

abbreviation room_of :: "RequestContext \<Rightarrow> string" where
  "room_of cx \<equiv> op_roomId (cx_options cx)"

text \<open>What a participant may not change about itself.\<close>

definition rights :: "Participant \<Rightarrow> bool \<times> string option \<times> ParticipantKind \<times> ParticipantLocation \<times>
    ParticipantInstall \<times> string option" where
  "rights p = (p_is_host p, p_token_hash p, p_kind p, p_location p, p_install p, p_forum_review_channel p)"

definition reads :: "'a room_action \<Rightarrow> bool" where
  "reads act \<longleftrightarrow> (\<forall>f. snd (act f) = f)"

lemma reads_bindA: "reads act \<Longrightarrow> (\<And>x. reads (g x)) \<Longrightarrow> reads (bindA act g)"
  unfolding reads_def bindA_apply by (auto split: prod.splits sum.splits) (metis snd_conv)+

lemma reads_basic [simp]: "reads (ret x)" "reads (throw e)" "reads (lift x')" "reads (gets h)"
    "reads (read_json sel)" "reads readRoomState" "reads readParticipants" "reads read_log" "reads (roomPaths r)"
  by (simp_all add: reads_def roomPaths_def split: stored.split)

lemma reads_ops [simp]:
  "reads (readBrief r)" "reads (readMessages r)" "reads (readBoardroom r)" "reads (readForumPost r c q)"
  "reads (listForumPosts key r c)"
proof -
  show "reads (readBrief r)" "reads (readMessages r)"
    by (auto simp: readBrief_def readMessages_def intro!: reads_bindA)
  show board: "reads (readBoardroom r)" by (simp add: reads_def readBoardroom_state)
  have chan: "reads (assertForumChannel r c)"
    by (auto simp: assertForumChannel_def split: option.split intro!: reads_bindA board)
  have comments: "reads (readCommentsLog c q)"
    by (simp add: reads_def readCommentsLog_def split: sum.split)
  show "reads (readForumPost r c q)" "reads (listForumPosts key r c)"
    by (auto simp: readForumPost_def listForumPosts_def intro!: reads_bindA chan comments)
qed

lemma store_reads_state: "reads act \<Longrightarrow> snd (store act s) = s"
proof -
  assume "reads act"
  then have "snd (act (sv_files s)) = sv_files s" by (simp add: reads_def)
  then show ?thesis by (cases "act (sv_files s)") (auto simp: store_def split: sum.split)
qed

lemma store_files: "sv_files (snd (store act s)) = snd (act (sv_files s))"
  by (simp add: store_def split: prod.splits sum.splits)

lemma forumGuard_state: "snd (forumGuard cx act s) = snd (store act s)"
  by (auto simp: forumGuard_def Let_def split: prod.splits sum.splits server_error.splits)

lemma start_session_state: "snd (start_session cx c u d q s) =
    snd (store (startActiveSession (room_of cx) c u d q (cx_now cx)) s)"
  by (auto simp: start_session_def split: prod.splits sum.splits server_error.splits js_error.splits)

lemma rights_update [simp]:
  "rights (p\<lparr> p_attention := a \<rparr>) = rights p" "rights (p\<lparr> p_lastSeenAt := t \<rparr>) = rights p"
  "rights (p\<lparr> p_display_name := n \<rparr>) = rights p"
  by (simp_all add: rights_def)

definition keeps_rights :: "Participant \<Rightarrow> Participant \<Rightarrow> bool" where
  "keeps_rights p q \<longleftrightarrow> p_alias q = p_alias p \<and> rights q = rights p"

lemma negotiated_rights:
  "p_alias (withNegotiatedAttention q) = p_alias q" "rights (withNegotiatedAttention q) = rights q"
  by (simp_all add: withNegotiatedAttention_def Let_def rights_def)

lemma keeps_rights_comp: "keeps_rights p q \<Longrightarrow> keeps_rights q r \<Longrightarrow> keeps_rights p r"
  by (simp add: keeps_rights_def)

lemma keeps_rights_basic: "keeps_rights p p" "keeps_rights p (p\<lparr> p_supported_modes := m \<rparr>)"
    "keeps_rights p (p\<lparr> p_poll_cadence_s := r \<rparr>)" "keeps_rights p (p\<lparr> p_safety_wake_s := r \<rparr>)"
  by (simp_all add: keeps_rights_def rights_def)

lemma supported_keeps: "parse_supported_modes v s = (Inr d, t) \<Longrightarrow> keeps_rights q (d q)"
  unfolding parse_supported_modes_def http_def
  by (auto simp: keeps_rights_basic split: option.splits json.splits sum.splits)

lemma cadence_keeps:
  assumes "(case v of None \<Rightarrow> ret (\<lambda>p. p) | Some j \<Rightarrow> bindA (parsePositiveSeconds j n) (\<lambda>r. ret (upd r))) s = (Inr d, t)"
    and "\<And>r p. keeps_rights p (upd r p)"
  shows "keeps_rights q (d q)"
  using assms by (cases v) (auto simp: keeps_rights_basic bindA_Inr_iff)

lemma declaration_keeps:
  assumes "parseAttentionDeclaration b s = (Inr d, t)"
  shows "keeps_rights q (d q)"
proof -
  from assms obtain v1 v2 v3 f g h and s1 s2 s3 t1 t2 t3 :: RoomServer where
      f: "parse_supported_modes v1 s1 = (Inr f, t1)"
    and g: "(case v2 of None \<Rightarrow> ret (\<lambda>p. p) | Some j \<Rightarrow> bindA (parsePositiveSeconds j ''poll_cadence_s'')
        (\<lambda>r. ret (\<lambda>p. p\<lparr> p_poll_cadence_s := Some r \<rparr>))) s2 = (Inr g, t2)"
    and h: "(case v3 of None \<Rightarrow> ret (\<lambda>p. p) | Some j \<Rightarrow> bindA (parsePositiveSeconds j ''safety_wake_s'')
        (\<lambda>r. ret (\<lambda>p. p\<lparr> p_safety_wake_s := Some r \<rparr>))) s3 = (Inr h, t3)"
    and d: "d = (\<lambda>p. h (g (f p)))"
    unfolding parseAttentionDeclaration_def bindA_Inr_iff
    by - (elim exE conjE, rule that, assumption, assumption, assumption, simp)
  have "keeps_rights q (f q)" using f by (rule supported_keeps)
  moreover have "keeps_rights (f q) (g (f q))" using g by (rule cadence_keeps) (rule keeps_rights_basic)
  moreover have "keeps_rights (g (f q)) (h (g (f q)))" using h by (rule cadence_keeps) (rule keeps_rights_basic)
  ultimately show ?thesis unfolding d by (blast intro: keeps_rights_comp)
qed

lemma joining_rights:
  assumes "\<And>q. keeps_rights q (d q)"
  shows "p_alias (joining_participant p d sid now) = p_alias p" "rights (joining_participant p d sid now) = rights p"
  using assms [of "p\<lparr> p_removed_at := None \<rparr>"]
  by (simp_all add: joining_participant_def withNegotiatedAttention_def Let_def keeps_rights_def rights_def
      split: option.split)

subsection \<open>Rules for \<open>along\<close>\<close>

lemma along_if: "(b \<Longrightarrow> along Q m) \<Longrightarrow> (\<not> b \<Longrightarrow> along Q n) \<Longrightarrow> along Q (if b then m else n)"
  by simp

lemma along_option: "along Q m \<Longrightarrow> (\<And>x. along Q (f x)) \<Longrightarrow> along Q (case v of None \<Rightarrow> m | Some x \<Rightarrow> f x)"
  by (simp split: option.split)

lemma along_sum: "(\<And>x. along Q (f x)) \<Longrightarrow> (\<And>x. along Q (g x)) \<Longrightarrow> along Q (case v of Inl x \<Rightarrow> f x | Inr x \<Rightarrow> g x)"
  by (simp split: sum.split)

lemma along_json:
  "along Q a \<Longrightarrow> (\<And>x. along Q (f1 x)) \<Longrightarrow> (\<And>x. along Q (f2 x)) \<Longrightarrow> (\<And>x. along Q (f3 x)) \<Longrightarrow>
   (\<And>x. along Q (f4 x)) \<Longrightarrow> (\<And>x. along Q (f5 x)) \<Longrightarrow>
   along Q (case v of JNull \<Rightarrow> a | JBool x \<Rightarrow> f1 x | JNum x \<Rightarrow> f2 x | JStr x \<Rightarrow> f3 x | JArr x \<Rightarrow> f4 x | JObj x \<Rightarrow> f5 x)"
  by (simp split: json.split)

lemma along_prod: "(\<And>x y. along Q (f x y)) \<Longrightarrow> along Q (case v of (x, y) \<Rightarrow> f x y)"
  by (cases v) simp

lemma requireParticipant_state: "snd (requireParticipant cx a b s) = s"
  by (simp add: requireParticipant_def snd_bindA store_reads_state http_def split: option.split sum.split)

text \<open>What a comment writes, whatever the stored threads hold.\<close>

lemma addForumComment_writes:
  assumes "addForumComment r c q a txt now f = (Inr k, g)"
  shows "fc_author k = a \<and> g = rf_comments_update (AList.update (c, q) (appendLine k (comments_file c q f))) f"
  using assms
  by (auto simp: addForumComment_def bindA_Inr_iff Let_def dest!: assertForumChannel_state readCommentsLog_state)

lemma store_Inr: "store act s = (Inr x, t) \<longleftrightarrow> (\<exists>g. act (sv_files s) = (Inr x, g) \<and> t = s\<lparr> sv_files := g \<rparr>)"
  by (auto simp: store_def split: prod.splits sum.splits)

text \<open>The reads of the handlers, evaluated.\<close>

lemma store_paths: "store (roomPaths r) s =
    (if isSafeSlug r then (Inr (), s) else (Inl (Thrown (projl (assertSafeSlug r ''room id''))), s))"
  by (simp add: store_def roomPaths_def assertSafeSlug_def)

lemma store_state: "store readRoomState s = (case rf_state (sv_files s) of
    File st \<Rightarrow> (Inr (withRoomDefaults st), s) | NoFile \<Rightarrow> (Inl (Thrown NotFound), s)
  | BadFile \<Rightarrow> (Inl (Thrown SyntaxError), s))"
  by (simp add: store_def split: stored.split)

definition expired :: "int \<Rightarrow> RoomFiles \<Rightarrow> bool" where
  "expired now f = (case rf_state f of
     File st \<Rightarrow> rs_status st = RS_open \<and> elapsed now (rs_expires_at st) | _ \<Rightarrow> False)"

definition close_by_ttl :: "RequestContext \<Rightarrow> RoomState server_action" where
  "close_by_ttl cx =
     bindA (cancelPendingAutoContinue (room_of cx)) (\<lambda>_.
     bindA (store (closeRoom (room_of cx) (cx_now cx))) (\<lambda>closed.
     bindA (appendSystem cx ''room closed by ttl'') (\<lambda>_.
     bindA (notify cx) (\<lambda>_. ret closed))))"

lemma closeExpired_cases:
  "closeExpiredRoomIfNeeded cx s =
     (if \<not> isSafeSlug (room_of cx) then (Inl (Thrown (projl (assertSafeSlug (room_of cx) ''room id''))), s)
      else if expired (cx_now cx) (sv_files s) then close_by_ttl cx s
      else case rf_state (sv_files s) of
          File st \<Rightarrow> (Inr (withRoomDefaults st), s) | NoFile \<Rightarrow> (Inl (Thrown NotFound), s)
        | BadFile \<Rightarrow> (Inl (Thrown SyntaxError), s))"
  by (simp add: closeExpiredRoomIfNeeded_def close_by_ttl_def bindA_apply [of "store (roomPaths (room_of cx))"]
      bindA_apply [of "store readRoomState"] store_paths store_state expired_def withRoomDefaults_def
      split: stored.split)

subsection \<open>The caller of a request\<close>

definition caller :: "RequestContext \<Rightarrow> RoomServer \<Rightarrow> Participant option" where
  "caller cx s =
     (case fst (requireParticipant cx (rq_pathname (cx_req cx) = ''/card'') (rq_pathname (cx_req cx) = ''/wait'') s) of
        Inr (p, _) \<Rightarrow> Some p | Inl _ \<Rightarrow> None)"

lemma handleRequest_changes:
  assumes "snd (handleRequest number cx s) \<noteq> s"
  obtains h where "map_of (ENDPOINTS number) (rq_method (cx_req cx), rq_pathname (cx_req cx)) = Some h"
    "snd (handleRequest number cx s) = snd (h cx s)"
proof -
  have guards: "snd (bindA m (\<lambda>_. bindA n (\<lambda>_. f)) s) \<in> {s, snd (f s)}"
    if "snd (m s) = s" "snd (n s) = s"
    for m n :: "unit server_action" and f :: "Outcome server_action"
    using that by (simp add: snd_bindA split: sum.split)
  have basic: "snd (enforceExposure cx s) = s" "snd (enforceSameOrigin cx s) = s"
    "snd ((if w then enforceSameOrigin cx else ret ()) s) = s" "snd (serveAsset cx a c s) = s" for w a c
    by (simp_all add: enforceExposure_def enforceSameOrigin_def serveAsset_def http_def Let_def split: option.split)
  let ?rest = "case (if rq_method (cx_req cx) = ''GET'' then map_of ASSETS (rq_pathname (cx_req cx)) else None) of
      Some (asset, contentType) \<Rightarrow> serveAsset cx asset contentType
    | None \<Rightarrow> (case map_of (ENDPOINTS number) (rq_method (cx_req cx), rq_pathname (cx_req cx)) of
        Some handler \<Rightarrow> handler cx
      | None \<Rightarrow> if rq_pathname (cx_req cx) = ''/watch''
          then http 404 ''not_found'' ''this server long-polls on GET /wait, not /watch''
          else http 404 ''not_found'' ''endpoint not found'')"
  have "snd (handleRequest number cx s) = snd (?rest s)"
    using guards [of "enforceExposure cx"
      "if isWriteMethod (rq_method (cx_req cx)) then enforceSameOrigin cx else ret ()" ?rest] basic(1,3) assms
    unfolding handleRequest_def Let_def by blast
  moreover have "snd (?rest s) = s \<or>
      (\<exists>h. map_of (ENDPOINTS number) (rq_method (cx_req cx), rq_pathname (cx_req cx)) = Some h \<and> snd (?rest s) = snd (h cx s))"
  proof (cases "if rq_method (cx_req cx) = ''GET'' then map_of ASSETS (rq_pathname (cx_req cx)) else None")
    case None
    then show ?thesis
      by (cases "map_of (ENDPOINTS number) (rq_method (cx_req cx), rq_pathname (cx_req cx))")
        (simp_all add: http_def)
  next
    case (Some ac)
    then show ?thesis by (cases ac) (simp add: basic(4))
  qed
  ultimately show thesis using assms that by metis
qed

subsection \<open>The effect of a handler\<close>

text \<open>\<open>R p s t\<close>: a request of the caller \<open>p\<close> may take the server from \<open>s\<close> to \<open>t\<close>.\<close>

locale server_effect =
  fixes R :: "Participant \<Rightarrow> RoomServer \<Rightarrow> RoomServer \<Rightarrow> bool" and cx :: RequestContext
  assumes R_refl: "R p s s"
    and R_trans: "R p s t \<Longrightarrow> R p t u \<Longrightarrow> R p s u"
    and rate: "along (R p) (enforceRateLimit key l clock)"
    and counts: "along (R p) (modify (sv_loopCounts_update g) :: unit server_action)"
    and cancel: "along (R p) (cancelPendingAutoContinue (room_of cx))"
    and schedule: "along (R p) (schedulePendingAutoContinue cx a d)"
    and upsert: "p_alias q = p_alias p \<Longrightarrow> rights q = rights p \<Longrightarrow>
          along (R p) (store (upsertParticipant (room_of cx) q))"
    and join: "p_alias q = p_alias p \<Longrightarrow> rights q = rights p \<Longrightarrow>
          along (R p) (store (joinParticipant (room_of cx) q stale (cx_now cx) sid))"
    and announce: "along (R p) (bindA (appendSystem cx txt) (\<lambda>_. notify cx))"
    and message: "along (R p) (bindA (store (appendMessageResult (room_of cx) (p_alias p) body (cx_now cx) mx))
          (\<lambda>r. if ar_idempotent r then ret () else notify cx))"
    and expire: "along (R p) (closeExpiredRoomIfNeeded cx)"
    and post: "fi_author input = p_alias p \<Longrightarrow>
          along (R p) (store (createForumPost (room_of cx) ch input (cx_fresh cx) (cx_now cx)))"
    and comment: "along (R p) (store (addForumComment (room_of cx) ch pid (p_alias p) txt (cx_now cx)))"
    and hold: "along (R p) (bindA (waitSnapshot cx (p_alias p) n)
          (\<lambda>r. if r = None then bindA (hub_wait (room_of cx) (p_alias p) n) (\<lambda>_. ret ()) else ret ()))"
    and brief: "p_is_host p \<Longrightarrow> along (R p) (store (updateBrief (room_of cx) txt (p_alias p) (cx_now cx)))"
    and policy: "p_is_host p \<Longrightarrow>
          along (R p) (store (updateAttendancePolicy (room_of cx) pol (p_alias p) (cx_now cx)))"
    and preference: "p_is_host p \<Longrightarrow>
          along (R p) (store (updateLoopGuardPreference (room_of cx) en dl (p_alias p) (cx_now cx)))"
    and start: "p_is_host p \<Longrightarrow> along (R p)
          (store (startActiveSession (room_of cx) ch (p_alias p) dur md (cx_now cx)))"
    and finish: "p_is_host p \<Longrightarrow> along (R p) (store (endActiveSession (room_of cx) (cx_now cx)))"
    and close: "p_is_host p \<Longrightarrow> along (R p) (bindA (store (closeRoom (room_of cx) (cx_now cx)))
          (\<lambda>_. bindA (appendSystem cx txt) (\<lambda>_. notify cx)))"
begin

lemma along_pure: "along (R p) (ret x)" "along (R p) (throw e)" "along (R p) (http c k m)"
    "along (R p) (gets h)" "along (R p) (jget b k)" "along (R p) (readJsonBody cx)"
    "along (R p) (requireHost q)"
  by (auto simp: along_def http_def jget_def readJsonBody_def requireHost_def R_refl split: sum.split option.split)

lemma along_store_reads: "reads act \<Longrightarrow> along (R p) (store act)"
  "reads act \<Longrightarrow> along (R p) (forumGuard cx act)"
  by (auto simp: along_def forumGuard_state store_reads_state R_refl)

lemma along_parsers: "along (R p) (parseCursorParam r n)" "along (R p) (parseMessageLimit l)"
    "along (R p) (parseSinceId l)" "along (R p) (requireParam cx n)" "along (R p) (requireForumChannelParam cx)"
    "along (R p) (parseDisplayName v)" "along (R p) (parseSessionId j)" "along (R p) (parsePositiveSeconds jv n)"
    "along (R p) (parseDurationM j)" "along (R p) (parseRequestedMode j)" "along (R p) (parse_supported_modes j)"
  unfolding parseCursorParam_def parseMessageLimit_def parseSinceId_def requireForumChannelParam_def
    requireParam_def parseDisplayName_def parseSessionId_def parsePositiveSeconds_def parseDurationM_def
    parseRequestedMode_def parse_supported_modes_def Let_def
  by (auto split: option.split json.split jnum.split sum.split simp: along_pure)

lemma along_seq:
  "along (R p) m \<Longrightarrow> (\<And>x. along (R p) (f x)) \<Longrightarrow> along (R p) (bindA m f)"
  by (rule along_bindA) (blast intro: R_trans)

lemma along_host: "(p_is_host p \<Longrightarrow> along (R p) (f ())) \<Longrightarrow> along (R p) (bindA (requireHost p) f)"
  by (auto simp: requireHost_def http_def along_def R_refl bindA_apply)

text \<open>The chunks of a handler whose steps only make sense together.\<close>

lemma notify_state: "snd (bindA (notify cx) (\<lambda>_. ret x) s) = snd (notify cx s)"
  by (simp add: notify_def hub_notify_def snd_bindA)

lemma along_announce:
  assumes "along (R p) f"
  shows "along (R p) (bindA (appendSystem cx txt) (\<lambda>_. bindA (notify cx) (\<lambda>_. f)))"
  using along_seq [OF announce [of p "txt"], of "\<lambda>_. f"] assms by (simp add: bindA_assoc)

lemma along_message:
  "along (R p) (bindA (store (appendMessageResult (room_of cx) (p_alias p) body (cx_now cx) mx))
     (\<lambda>r. if ar_idempotent r then ret (x r) else bindA (notify cx) (\<lambda>_. ret (y r))))"
  by (rule along_same [OF message]) (simp add: notify_state)

lemma along_close:
  assumes "p_is_host p"
  shows "along (R p) (bindA (store (closeRoom (room_of cx) (cx_now cx)))
     (\<lambda>st. bindA (appendSystem cx txt) (\<lambda>_. bindA (notify cx) (\<lambda>_. ret (h st)))))"
  by (rule along_same [OF close [OF assms, of "txt"]])
    (simp add: snd_bindA [of "appendSystem cx txt"] notify_state split: sum.split)

lemma along_hold:
  "along (R p) (bindA (waitSnapshot cx (p_alias p) n) (\<lambda>r. case r of
     Some w \<Rightarrow> ret (x w) | None \<Rightarrow> bindA (hub_wait (room_of cx) (p_alias p) n) (\<lambda>i. ret (y i))))"
  by (rule along_same [OF hold [of p n]]) (simp add: snd_bindA split: sum.split option.split)

lemma along_seq_read:
  "along (R p) (bindA (gets h) f)" if "\<And>x. along (R p) (f x)"
  using that by (intro along_seq along_pure)

lemma along_write_rate: "along (R p) (enforceWriteRateLimit cx a e)"
  by (simp add: enforceWriteRateLimit_def rate)

lemma along_touch: "along (R p) (touchParticipant cx p a)"
  unfolding touchParticipant_def by (rule upsert) (simp_all add: rights_def)

lemma along_room_open: "along (R p) (requireRoomOpen cx)"
  unfolding requireRoomOpen_def by (intro along_seq expire along_if along_pure)

lemma along_loop_guard: "along (R p) (enforceLoopGuard cx q)"
  unfolding enforceLoopGuard_def clearRoomLoopCounts_def Let_def
  by (intro along_seq along_if along_pure counts cancel schedule along_store_reads reads_basic)

lemma along_declaration: "along (R p) (parseAttentionDeclaration b)"
  unfolding parseAttentionDeclaration_def
  by (intro along_seq along_pure along_parsers along_option)

lemma along_forum: "fi_author input = p_alias p \<Longrightarrow>
    along (R p) (forumGuard cx (createForumPost (room_of cx) ch input (cx_fresh cx) (cx_now cx)))"
  "along (R p) (forumGuard cx (addForumComment (room_of cx) ch pid (p_alias p) txt (cx_now cx)))"
  using post comment by (simp_all add: along_def forumGuard_state)

lemma along_start: "p_is_host p \<Longrightarrow> along (R p) (start_session cx ch (p_alias p) dur md)"
  using start by (simp add: along_def start_session_state)

lemma along_threads: "along (R p) (mapA (\<lambda>q. bindA (store (readForumPost r c (fp_id q))) (\<lambda>th. ret (x q th))) qs)"
proof (induction qs)
  case (Cons q qs)
  then show ?case unfolding mapA.simps by (intro along_seq along_pure along_store_reads reads_ops)
qed (simp only: mapA.simps along_pure)

lemmas along_rules = along_host along_announce along_message along_hold along_close along_seq
  along_if along_option along_sum along_json along_pure along_parsers along_write_rate along_touch
  along_room_open along_loop_guard along_declaration along_forum along_start along_threads expire rate cancel
  upsert join brief policy preference finish along_store_reads reads_ops reads_basic

text \<open>\<open>handled a b h\<close>: \<open>h\<close> authenticates its caller and then does no more than \<open>R\<close> of that caller.\<close>

definition handled :: "bool \<Rightarrow> bool \<Rightarrow> 'x server_action \<Rightarrow> bool" where
  "handled a b h \<longleftrightarrow> (\<forall>s. case fst (requireParticipant cx a b s) of
     Inl _ \<Rightarrow> snd (h s) = s | Inr (p, _) \<Rightarrow> R p s (snd (h s)))"

lemma handledI:
  assumes "\<And>p tok. along (R p) (f (p, tok))"
  shows "handled a b (bindA (requireParticipant cx a b) f)"
  unfolding handled_def snd_bindA requireParticipant_state
  using assms by (auto simp: along_def split: sum.split)

lemma handled_read: "handled False False (getBrief cx)" "handled True False (getCard number cx)"
    "handled False False (getProfile cx)" "handled False False (getForumPosts cx)"
    "handled False False (getForumPost cx)" "handled False False (getStatus cx)"
    "handled False False (getBoardroom cx)"
  unfolding getBrief_def getCard_def getProfile_def getForumPosts_def getForumPost_def getStatus_def
    getBoardroom_def Let_def
  by (rule handledI, (unfold case_prod_conv)?, (intro along_rules)?)+

lemma handled_write: "handled False False (postBrief cx)" "handled False False (postAttendance cx)"
    "handled False False (postLoopGuard cx)" "handled False False (postClose cx)"
    "handled False False (postMessage cx)" "handled False False (getMessages cx)"
  unfolding postBrief_def postAttendance_def postLoopGuard_def postClose_def postMessage_def getMessages_def Let_def
  by (rule handledI, (unfold case_prod_conv)?, (intro along_rules; (assumption)?)?)+

lemma along_seq_declared:
  assumes "\<And>d. (\<And>q. keeps_rights q (d q)) \<Longrightarrow> along (R p) (f d)"
  shows "along (R p) (bindA (parseAttentionDeclaration b) f)"
proof (rule alongI)
  fix s
  obtain r t where m: "parseAttentionDeclaration b s = (r, t)" by fastforce
  have "R p s t" using alongD [OF along_declaration, of p s b] m by simp
  with m show "R p s (snd (bindA (parseAttentionDeclaration b) f s))"
    using alongD [OF assms] R_trans declaration_keeps
    by (cases r) (auto simp: bindA_apply)
qed

lemma handled_people: "handled False False (postLeave cx)" "handled False False (postProfile cx)"
    "handled False False (postJoin cx)"
  unfolding postLeave_def postProfile_def postJoin_def Let_def
  by (rule handledI, unfold case_prod_conv,
      (intro along_seq_declared along_rules; simp add: keeps_rights_def negotiated_rights joining_rights)?)+


lemma handled_forum: "handled False False (postForumPost cx)" "handled False False (postForumComment cx)"
  unfolding postForumPost_def postForumComment_def Let_def
  by (rule handledI, unfold case_prod_conv, (intro along_rules along_prod; simp?)?)+

lemma handled_session: "handled False False (postSession cx)" "handled False True (getWait cx)"
  unfolding postSession_def getWait_def Let_def
  by (rule handledI, unfold case_prod_conv, intro along_rules; assumption?)+

lemma endpoint_handled:
  assumes "map_of (ENDPOINTS number) (meth, path) = Some h"
  shows "handled (path = ''/card'') (path = ''/wait'') (h cx)"
proof -
  have "((meth, path), h) \<in> set (ENDPOINTS number)" using assms by (rule map_of_SomeD)
  then show ?thesis
    unfolding ENDPOINTS_def
    by (auto intro: handled_read handled_write handled_people handled_forum handled_session)
qed

text \<open>The whole dispatcher: without an authenticated caller nothing happens.\<close>

theorem request_effect:
  "case caller cx s of None \<Rightarrow> snd (handleRequest number cx s) = s
   | Some p \<Rightarrow> R p s (snd (handleRequest number cx s))"
proof -
  let ?path = "rq_pathname (cx_req cx)" and ?meth = "rq_method (cx_req cx)"
  show ?thesis
  proof (cases "snd (handleRequest number cx s) = s")
    case True
    then show ?thesis by (simp add: R_refl split: option.split)
  next
    case False
    then obtain h where h: "map_of (ENDPOINTS number) (?meth, ?path) = Some h"
        "snd (handleRequest number cx s) = snd (h cx s)"
      by (rule handleRequest_changes)
    show ?thesis
      using endpoint_handled [OF h(1)] False unfolding h(2) caller_def handled_def
      by (fastforce split: sum.splits prod.splits)
  qed
qed

end

end
