(* ===== verification/ServerReplies.thy ===== *)
theory ServerReplies
  imports ServerEffects
begin

text \<open>
  What the room server answers. Every endpoint answers with its own kind of reply and its own
  success code, no reply carries a token hash or a session id, and every refusal is one of the
  statuses the clients know. The rules for \<open>ends\<close> follow the shape of the handlers, so each handler
  is one application of them.
\<close>

subsection \<open>The reply of an endpoint\<close>

definition hidden :: "PublicParticipant \<Rightarrow> bool" where
  "hidden pp \<longleftrightarrow> p_token_hash (pp_fields pp) = None \<and> p_session_id (pp_fields pp) = None"

fun answers :: "string \<Rightarrow> string \<Rightarrow> nat \<Rightarrow> Reply \<Rightarrow> bool" where
  "answers meth path code (AssetReply content kind) \<longleftrightarrow> meth = ''GET'' \<and> code = 200 \<and> path \<in> fst ` set ASSETS"
| "answers meth path code (BriefReply brief) \<longleftrightarrow> meth \<in> {''GET'', ''POST''} \<and> path = ''/brief'' \<and> code = 200"
| "answers meth path code (AttendanceReply policy) \<longleftrightarrow> meth = ''POST'' \<and> path = ''/attendance'' \<and> code = 200"
| "answers meth path code (LoopGuardReply view) \<longleftrightarrow> meth = ''POST'' \<and> path = ''/loop-guard'' \<and> code = 200"
| "answers meth path code (ProfileReply pp) \<longleftrightarrow>
     meth \<in> {''GET'', ''POST''} \<and> path = ''/profile'' \<and> code = 200 \<and> hidden pp"
| "answers meth path code (JoinReply who warning) \<longleftrightarrow> meth = ''POST'' \<and> path = ''/join'' \<and> code = 200 \<and>
     (case warning of None \<Rightarrow> True | Some w \<Rightarrow> w = DUPLICATE_JOIN_WARNING)"
| "answers meth path code (PostsReply channel posts) \<longleftrightarrow> meth = ''GET'' \<and> path = ''/forum/posts'' \<and> code = 200"
| "answers meth path code (ThreadReply post comments) \<longleftrightarrow> meth = ''GET'' \<and> path = ''/forum/post'' \<and> code = 200"
| "answers meth path code (PostReply post) \<longleftrightarrow> meth = ''POST'' \<and> path = ''/forum/posts'' \<and> code = 201"
| "answers meth path code (CommentReply comment) \<longleftrightarrow> meth = ''POST'' \<and> path = ''/forum/comment'' \<and> code = 201"
| "answers meth path code (BackwardReply page older) \<longleftrightarrow> meth = ''GET'' \<and> path = ''/messages'' \<and> code = 200"
| "answers meth path code (ForwardReply page cursor) \<longleftrightarrow> meth = ''GET'' \<and> path = ''/messages'' \<and> code = 200"
| "answers meth path code (MessageReply message again) \<longleftrightarrow>
     meth = ''POST'' \<and> path = ''/messages'' \<and> code = (if again then 200 else 201)"
| "answers meth path code (WaitReply w) \<longleftrightarrow> meth = ''GET'' \<and> path = ''/wait'' \<and> code = 200 \<and>
     (wr_messages w = [] \<and> wr_room_status w = RS_open \<longrightarrow> wr_heartbeat w)"
| "answers meth path code (RemovedReply status who cursor) \<longleftrightarrow> meth = ''GET'' \<and> path = ''/wait'' \<and> code = 200"
| "answers meth path code OkReply \<longleftrightarrow> meth = ''POST'' \<and> path = ''/leave'' \<and> code = 200"
| "answers meth path code (ClosedReply status) \<longleftrightarrow>
     meth = ''POST'' \<and> path = ''/close'' \<and> code = 200 \<and> status = RS_closed"
| "answers meth path code (SessionReply session) \<longleftrightarrow>
     meth = ''POST'' \<and> path = ''/session'' \<and> code = (if as_ended_at session = None then 201 else 200)"
| "answers meth path code (StatusReply view) \<longleftrightarrow>
     meth = ''GET'' \<and> path = ''/status'' \<and> code = 200 \<and> list_all hidden (st_participants view)"
| "answers meth path code (BoardroomReply board) \<longleftrightarrow> meth = ''GET'' \<and> path = ''/boardroom'' \<and> code = 200"
| "answers meth path code (CardReply page) \<longleftrightarrow> meth = ''GET'' \<and> path = ''/card'' \<and> code = 200"

fun outcome_of :: "string \<Rightarrow> string \<Rightarrow> Outcome \<Rightarrow> bool" where
  "outcome_of meth path (Respond code reply) \<longleftrightarrow> answers meth path code reply"
| "outcome_of meth path (Held ident) \<longleftrightarrow> meth = ''GET'' \<and> path = ''/wait''"

text \<open>The codes of the refusals the handlers themselves make.\<close>

fun refused :: "server_error \<Rightarrow> bool" where
  "refused (HttpError code name message) \<longleftrightarrow> code \<in> {400, 401, 403, 404, 409, 413, 429}"
| "refused (Thrown e) \<longleftrightarrow> True"

lemma hidden_public [simp]: "hidden (publicParticipant p policy now)"
  by (simp add: hidden_def publicParticipant_def Let_def)

subsection \<open>What an action ends in\<close>

definition ends :: "('a \<Rightarrow> bool) \<Rightarrow> 'a server_action \<Rightarrow> bool" where
  "ends P m \<longleftrightarrow> (\<forall>s. case fst (m s) of Inl e \<Rightarrow> refused e | Inr x \<Rightarrow> P x)"

lemma endsD: "ends P m \<Longrightarrow> case fst (m s) of Inl e \<Rightarrow> refused e | Inr x \<Rightarrow> P x"
  by (simp add: ends_def)

lemma ends_mono: "ends Q m \<Longrightarrow> (\<And>x. Q x \<Longrightarrow> P x) \<Longrightarrow> ends P m"
  unfolding ends_def by (auto split: sum.splits)

abbreviation refuses :: "'a server_action \<Rightarrow> bool" where
  "refuses m \<equiv> ends (\<lambda>_. True) m"

lemma ends_bind:
  assumes "ends Q m" "\<And>x. Q x \<Longrightarrow> ends P (f x)"
  shows "ends P (bindA m f)"
  unfolding ends_def
proof
  fix s
  show "case fst (bindA m f s) of Inl e \<Rightarrow> refused e | Inr x \<Rightarrow> P x"
    using endsD [OF assms(1), of s] endsD [OF assms(2)]
    by (cases "m s"; cases "fst (m s)") (auto simp: bindA_apply)
qed

lemma ends_seq: "refuses m \<Longrightarrow> (\<And>x. ends P (f x)) \<Longrightarrow> ends P (bindA m f)"
  by (rule ends_bind)

lemma ends_basic [simp]:
  "ends P (ret x) \<longleftrightarrow> P x" "ends P (throw e) \<longleftrightarrow> refused e" "ends P (http code name message) \<longleftrightarrow> refused (HttpError code name message)"
  by (simp_all add: ends_def http_def)

lemma refuses_basic [simp]: "refuses (gets h)" "refuses (modify g)" "refuses (store act)" "refuses (jget b k)"
  by (simp_all add: ends_def store_def jget_def split: prod.splits sum.split)

lemma ends_option: "ends P m \<Longrightarrow> (\<And>x. ends P (f x)) \<Longrightarrow> ends P (case v of None \<Rightarrow> m | Some x \<Rightarrow> f x)"
  by (simp split: option.split)

lemma ends_sum: "(\<And>x. ends P (f x)) \<Longrightarrow> (\<And>x. ends P (g x)) \<Longrightarrow> ends P (case v of Inl x \<Rightarrow> f x | Inr x \<Rightarrow> g x)"
  by (simp split: sum.split)

lemma ends_if: "(b \<Longrightarrow> ends P m) \<Longrightarrow> (\<not> b \<Longrightarrow> ends P n) \<Longrightarrow> ends P (if b then m else n)"
  by simp

lemma ends_prod: "(\<And>x y. ends P (f x y)) \<Longrightarrow> ends P (case v of (x, y) \<Rightarrow> f x y)"
  by (cases v) simp

lemma ends_json:
  "ends P a \<Longrightarrow> (\<And>x. ends P (f1 x)) \<Longrightarrow> (\<And>x. ends P (f2 x)) \<Longrightarrow> (\<And>x. ends P (f3 x)) \<Longrightarrow>
   (\<And>x. ends P (f4 x)) \<Longrightarrow> (\<And>x. ends P (f5 x)) \<Longrightarrow>
   ends P (case v of JNull \<Rightarrow> a | JBool x \<Rightarrow> f1 x | JNum x \<Rightarrow> f2 x | JStr x \<Rightarrow> f3 x | JArr x \<Rightarrow> f4 x | JObj x \<Rightarrow> f5 x)"
  by (simp split: json.split)

lemmas ends_rules = ends_seq ends_option ends_sum ends_if ends_prod ends_json

lemma refuses_map: "(\<And>x. refuses (f x)) \<Longrightarrow> refuses (mapA f xs)"
  by (induction xs) (auto intro!: ends_seq)

subsection \<open>The shared steps\<close>

lemma refuses_steps [simp]:
  "refuses (requireParticipant cx q r)" "refuses (requireHost p)" "refuses (readJsonBody cx)"
  "refuses (enforceRateLimit key limit now)" "refuses (enforceWriteRateLimit cx a e)"
  "refuses (appendSystem cx txt)" "refuses (notify cx)" "refuses (touchParticipant cx p att)"
  "refuses (cancelPendingAutoContinue room)" "refuses (hub_wait room a n)"
  "refuses (clearRoomLoopCounts room)" "refuses (schedulePendingAutoContinue cx a d)"
proof -
  show rate: "refuses (enforceRateLimit key limit now)" for key limit now
    by (simp add: ends_def enforceRateLimit_def split: prod.split)
  show "refuses (requireParticipant cx q r)"
    unfolding requireParticipant_def by (intro ends_rules) simp_all
  show "refuses (requireHost p)" unfolding requireHost_def by simp
  show "refuses (readJsonBody cx)" unfolding readJsonBody_def by (simp split: option.split)
  show "refuses (enforceWriteRateLimit cx a e)" by (simp add: enforceWriteRateLimit_def rate)
  show "refuses (appendSystem cx txt)" unfolding appendSystem_def by (intro ends_seq) simp_all
  show "refuses (notify cx)" by (simp add: notify_def hub_notify_def)
  show "refuses (touchParticipant cx p att)" by (simp add: touchParticipant_def)
  show "refuses (cancelPendingAutoContinue room)" by (simp add: cancelPendingAutoContinue_def)
  show "refuses (hub_wait room a n)" by (simp add: ends_def hub_wait_def)
  show "refuses (clearRoomLoopCounts room)" by (simp add: clearRoomLoopCounts_def)
  show "refuses (schedulePendingAutoContinue cx a d)" by (simp add: schedulePendingAutoContinue_def)
qed

lemma refuses_expire [simp]: "refuses (closeExpiredRoomIfNeeded cx)" "refuses (requireRoomOpen cx)"
  unfolding requireRoomOpen_def closeExpiredRoomIfNeeded_def by (intro ends_rules; simp)+

lemma refuses_parsers [simp]: "refuses (parseCursorParam r n)" "refuses (parseMessageLimit l)"
    "refuses (parseSinceId l)" "refuses (requireParam cx n)" "refuses (requireForumChannelParam cx)"
    "refuses (parseDisplayName v)" "refuses (parseSessionId j)" "refuses (parsePositiveSeconds jv n)"
    "refuses (parseDurationM j)" "refuses (parseRequestedMode j)" "refuses (parse_supported_modes j)"
  unfolding parseCursorParam_def parseMessageLimit_def parseSinceId_def requireForumChannelParam_def
    requireParam_def parseDisplayName_def parseSessionId_def parsePositiveSeconds_def parseDurationM_def
    parseRequestedMode_def parse_supported_modes_def Let_def
  by (auto split: option.split json.split jnum.split sum.split)

lemma refuses_declaration [simp]: "refuses (parseAttentionDeclaration b)"
  unfolding parseAttentionDeclaration_def by (intro ends_rules) simp_all

lemma refuses_forum [simp]: "refuses (forumGuard cx act)"
  by (auto simp: ends_def forumGuard_def Let_def store_def split: prod.split sum.split)

lemma refuses_loop [simp]: "refuses (enforceLoopGuard cx p)"
  unfolding enforceLoopGuard_def Let_def by (intro ends_rules) simp_all

lemma ends_session: "ends (\<lambda>a. as_ended_at a = None) (start_session cx c u d q)"
  by (auto simp: ends_def start_session_def store_def startActiveSession_def bindA_apply Let_def
      split: prod.split sum.split js_error.split stored.split)

lemma ends_finish:
  "ends (\<lambda>a. case a of None \<Rightarrow> True | Some x \<Rightarrow> as_ended_at x \<noteq> None) (store (endActiveSession r now))"
  by (auto simp: ends_def store_def endActiveSession_def bindA_apply split: prod.split sum.split option.split stored.split)

lemma ends_close: "ends (\<lambda>st. rs_status st = RS_closed) (store (closeRoom r now))"
  by (auto simp: ends_def store_def closeRoom_def roomPaths_def bindA_apply Let_def split: prod.split sum.split stored.split)

text \<open>A snapshot without messages and without a closed room is no answer.\<close>

lemma ends_snapshot: "ends (\<lambda>r. case r of None \<Rightarrow> True | Some w \<Rightarrow> wr_messages w \<noteq> [] \<or> wr_room_status w = RS_closed)
    (waitSnapshot cx a n)"
  unfolding waitSnapshot_def Let_def by (intro ends_rules) (simp_all add: buildWaitResponse_def Let_def)

lemma ends_snapshot_seq:
  assumes "ends P m" "\<And>w. wr_messages w \<noteq> [] \<or> wr_room_status w = RS_closed \<Longrightarrow> ends P (g w)"
  shows "ends P (bindA (waitSnapshot cx a n) (\<lambda>r. case r of None \<Rightarrow> m | Some w \<Rightarrow> g w))"
  using assms by (intro ends_bind [OF ends_snapshot]) (simp split: option.splits)

lemma ends_finish_seq:
  assumes "ends P m" "\<And>x. as_ended_at x \<noteq> None \<Longrightarrow> ends P (g x)"
  shows "ends P (bindA (store (endActiveSession r now)) (\<lambda>a. case a of None \<Rightarrow> m | Some x \<Rightarrow> g x))"
  using assms by (intro ends_bind [OF ends_finish]) (simp split: option.splits)

subsection \<open>The handlers\<close>

lemma ends_reads:
  "ends (outcome_of ''GET'' ''/brief'') (getBrief cx)"
  "ends (outcome_of ''GET'' ''/card'') (getCard number cx)"
  "ends (outcome_of ''GET'' ''/profile'') (getProfile cx)"
  "ends (outcome_of ''GET'' ''/forum/posts'') (getForumPosts cx)"
  "ends (outcome_of ''GET'' ''/forum/post'') (getForumPost cx)"
  "ends (outcome_of ''GET'' ''/messages'') (getMessages cx)"
  "ends (outcome_of ''GET'' ''/status'') (getStatus cx)"
  "ends (outcome_of ''GET'' ''/boardroom'') (getBoardroom cx)"
  unfolding getBrief_def getCard_def getProfile_def getForumPosts_def getForumPost_def getMessages_def
    getStatus_def getBoardroom_def Let_def
  by (intro ends_rules refuses_map; simp add: list_all_iff)+

lemma ends_writes:
  "ends (outcome_of ''POST'' ''/brief'') (postBrief cx)"
  "ends (outcome_of ''POST'' ''/attendance'') (postAttendance cx)"
  "ends (outcome_of ''POST'' ''/loop-guard'') (postLoopGuard cx)"
  "ends (outcome_of ''POST'' ''/profile'') (postProfile cx)"
  "ends (outcome_of ''POST'' ''/join'') (postJoin cx)"
  "ends (outcome_of ''POST'' ''/leave'') (postLeave cx)"
  "ends (outcome_of ''POST'' ''/forum/posts'') (postForumPost cx)"
  "ends (outcome_of ''POST'' ''/forum/comment'') (postForumComment cx)"
  "ends (outcome_of ''POST'' ''/messages'') (postMessage cx)"
  unfolding postBrief_def postAttendance_def postLoopGuard_def postProfile_def postJoin_def postLeave_def
    postForumPost_def postForumComment_def postMessage_def Let_def
  by (intro ends_rules; simp)+

lemma ends_wait: "ends (outcome_of ''GET'' ''/wait'') (getWait cx)"
  unfolding getWait_def
  by (intro ends_snapshot_seq ends_rules) auto

lemma ends_hosts:
  "ends (outcome_of ''POST'' ''/close'') (postClose cx)"
  "ends (outcome_of ''POST'' ''/session'') (postSession cx)"
proof -
  show "ends (outcome_of ''POST'' ''/close'') (postClose cx)"
    unfolding postClose_def by (intro ends_bind [OF ends_close] ends_seq ends_prod; simp)
  show "ends (outcome_of ''POST'' ''/session'') (postSession cx)"
    unfolding postSession_def Let_def
    by (intro ends_bind [OF ends_session] ends_finish_seq ends_rules; simp)
qed

text \<open>A resumed poll answers as well: with messages, with the end of the room, or with a heartbeat.\<close>

lemma ends_resume: "ends (\<lambda>r. case r of Respond code reply \<Rightarrow> answers ''GET'' ''/wait'' code reply | Held ident \<Rightarrow> False)
    (getWait_resume cx w)"
  unfolding getWait_resume_def
  by (intro ends_snapshot_seq ends_seq) (auto simp: buildWaitResponse_def Let_def)

lemma ends_endpoint:
  "map_of (ENDPOINTS number) (meth, path) = Some h \<Longrightarrow> ends (outcome_of meth path) (h cx)"
  using ends_reads(1,3-) [of cx] ends_reads(2) [of number cx] ends_writes [of cx] ends_wait [of cx] ends_hosts [of cx]
  by (auto simp: ENDPOINTS_def split: if_splits)

lemma ends_request: "ends (outcome_of (rq_method (cx_req cx)) (rq_pathname (cx_req cx))) (handleRequest number cx)"
proof -
  let ?P = "outcome_of (rq_method (cx_req cx)) (rq_pathname (cx_req cx))"
  let ?asset = "if rq_method (cx_req cx) = ''GET'' then map_of ASSETS (rq_pathname (cx_req cx)) else None"
  let ?rest = "case map_of (ENDPOINTS number) (rq_method (cx_req cx), rq_pathname (cx_req cx)) of
      Some handler \<Rightarrow> handler cx
    | None \<Rightarrow> if rq_pathname (cx_req cx) = ''/watch''
        then http 404 ''not_found'' ''this server long-polls on GET /wait, not /watch''
        else http 404 ''not_found'' ''endpoint not found''"
  have guards: "refuses (enforceExposure cx)" "refuses (if w then enforceSameOrigin cx else ret ())" for w
    by (simp_all add: enforceExposure_def enforceSameOrigin_def Let_def split: option.split)
  have asset: "ends ?P (serveAsset cx asset kind)"
    if "?asset = Some (asset, kind)" for asset kind
    using that
    by (auto simp: serveAsset_def rev_image_eqI dest: map_of_SomeD split: option.split if_splits)
  have rest: "ends ?P ?rest"
    by (cases "map_of (ENDPOINTS number) (rq_method (cx_req cx), rq_pathname (cx_req cx))") (simp_all add: ends_endpoint)
  show ?thesis
    unfolding handleRequest_def Let_def
  proof (intro ends_seq guards)
    show "ends ?P (case ?asset of Some (asset, kind) \<Rightarrow> serveAsset cx asset kind | None \<Rightarrow> ?rest)"
      using asset rest by (cases ?asset) auto
  qed
qed


end
