(* ===== verification/ServerRuns.thy ===== *)
theory ServerRuns
  imports ServerEffects
begin

text \<open>
  Whole runs of the room server: requests, held polls that resume, timers that go off. Three things
  are shown of every step at once through the locale of the handlers. The files move by operations
  of the stores, so what the stores promise holds under the server. There is one live timer for a
  pending continuation and none without. And no held poll is left waiting: its room is open and has
  no message after its cursor.
\<close>

definition timers_ok :: "string \<Rightarrow> RoomServer \<Rightarrow> bool" where
  "timers_ok r s \<longleftrightarrow> sv_timers s = (case map_of (sv_pending s) r of
     None \<Rightarrow> [] | Some pending \<Rightarrow> [(pa_timer pending, pa_alias pending)])"

definition room_open :: "RoomFiles \<Rightarrow> bool" where
  "room_open f = (case rf_state f of File st \<Rightarrow> rs_status st = RS_open | _ \<Rightarrow> False)"

definition waiters_ok :: "string \<Rightarrow> RoomServer \<Rightarrow> bool" where
  "waiters_ok r s \<longleftrightarrow> (\<forall>w \<in> set (room_waiters r (sv_waiters s)).
     room_open (sv_files s) \<and> (\<forall>m \<in> set (room_log (sv_files s)). m_id m \<le> wt_since w))"

definition served :: "string \<Rightarrow> RoomServer \<Rightarrow> RoomServer \<Rightarrow> bool" where
  "served r s t \<longleftrightarrow> store_step\<^sup>*\<^sup>* (sv_files s) (sv_files t) \<and> (timers_ok r s \<longrightarrow> timers_ok r t) \<and>
     (store_inv (sv_files s) \<and> waiters_ok r s \<longrightarrow> waiters_ok r t)"

lemma served_refl [simp]: "served r s s"
  by (simp add: served_def)

lemma served_inv: "served r s t \<Longrightarrow> store_inv (sv_files s) \<Longrightarrow> store_inv (sv_files t)"
  unfolding served_def by (blast intro: store.steps_inv)

lemma served_trans: "served r s t \<Longrightarrow> served r t u \<Longrightarrow> served r s u"
  using served_inv [of r s t] unfolding served_def by (blast intro: rtranclp_trans)

lemma served_seq:
  "along (served r) m \<Longrightarrow> (\<And>x. along (served r) (g x)) \<Longrightarrow> along (served r) (bindA m g)"
  by (rule along_bindA) (rule served_trans)

lemma timers_frame: "sv_timers t = sv_timers s \<Longrightarrow> sv_pending t = sv_pending s \<Longrightarrow> timers_ok r t = timers_ok r s"
  by (simp add: timers_ok_def)

text \<open>A store operation that neither writes the log nor opens or closes the room.\<close>

definition quiet :: "RoomFiles \<Rightarrow> RoomFiles \<Rightarrow> bool" where
  "quiet f g \<longleftrightarrow> room_log g = room_log f \<and> room_open g = room_open f"

lemma served_store:
  assumes "\<And>f. store_step f (snd (act f))" "\<And>f. quiet f (snd (act f))"
  shows "along (served r) (store act)"
proof (rule alongI)
  fix s
  let ?t = "snd (store act s)"
  have "sv_waiters ?t = sv_waiters s" "sv_pending ?t = sv_pending s" "sv_timers ?t = sv_timers s"
    by (simp_all add: store_def split: prod.splits sum.splits)
  then show "served r s ?t"
    using assms(1) [of "sv_files s"] assms(2) [of "sv_files s"]
    by (auto simp: served_def store_files timers_frame [of ?t s] waiters_ok_def quiet_def)
qed

lemma served_memory:
  assumes "\<And>s. sv_files (snd (m s)) = sv_files s" "\<And>s. sv_waiters (snd (m s)) = sv_waiters s"
    and "\<And>s. timers_ok r s \<Longrightarrow> timers_ok r (snd (m s))"
  shows "along (served r) m"
  by (rule alongI) (simp add: served_def assms waiters_ok_def)

subsection \<open>The bookkeeping steps\<close>

lemma served_rate: "along (served r) (enforceRateLimit key l t)"
proof -
  have "enforceRateLimit key l t s = (fst (enforceRateLimit key l t s),
      s\<lparr> sv_rateBuckets := snd (take_bucket l t key (sv_rateBuckets s)) \<rparr>)" for s
    by (simp add: enforceRateLimit_def split: prod.split)
  then have "snd (enforceRateLimit key l t s) = s\<lparr> sv_rateBuckets := snd (take_bucket l t key (sv_rateBuckets s)) \<rparr>" for s
    by (metis snd_conv)
  then show ?thesis by (intro served_memory) (simp_all add: timers_ok_def)
qed

lemma served_counts: "along (served r) (modify (sv_loopCounts_update g))"
  by (rule served_memory) (simp_all add: timers_ok_def)

lemma served_cancel: "along (served r) (cancelPendingAutoContinue r)"
proof (rule served_memory)
  fix s
  show "timers_ok r (snd (cancelPendingAutoContinue r s))" if "timers_ok r s"
    using that
    by (cases "map_of (sv_pending s) r") (simp_all add: cancelPendingAutoContinue_def timers_ok_def delete_conv')
qed (simp_all add: cancelPendingAutoContinue_def split: option.split)

lemma served_schedule: "along (served (room_of cx)) (schedulePendingAutoContinue cx a d)"
proof (rule served_memory)
  fix s
  show "timers_ok (room_of cx) (snd (schedulePendingAutoContinue cx a d s))" if "timers_ok (room_of cx) s"
    using that
    by (cases "map_of (sv_pending s) (room_of cx)")
      (simp_all add: schedulePendingAutoContinue_def Let_def timers_ok_def update_conv')
qed (simp_all add: schedulePendingAutoContinue_def Let_def)

lemma room_waiters_update:
  "room_waiters r (AList.update k ws al) = (if k = r then ws else room_waiters r al)"
  "room_waiters r (AList.delete k al) = (if k = r then [] else room_waiters r al)"
  by (simp_all add: room_waiters_def update_conv' delete_conv')

lemma hub_done_waiters: "room_waiters r (sv_waiters (hub_done r w s)) =
    filter (\<lambda>x. wt_id x \<noteq> wt_id w) (room_waiters r (sv_waiters s))"
  by (simp add: hub_done_def Let_def room_waiters_update filter_empty_conv) 

lemma hub_done_frame [simp]: "sv_files (hub_done r w s) = sv_files s"
  "sv_timers (hub_done r w s) = sv_timers s" "sv_pending (hub_done r w s) = sv_pending s"
  by (simp_all add: hub_done_def Let_def)

text \<open>A notification wakes every waiter of the room.\<close>

lemma notify_clears:
  "room_waiters (room_of cx) (sv_waiters (snd (notify cx s))) = []"
  "sv_files (snd (notify cx s)) = sv_files s" "sv_timers (snd (notify cx s)) = sv_timers s"
  "sv_pending (snd (notify cx s)) = sv_pending s"
proof -
  let ?all = "\<lambda>ws s. foldl (\<lambda>t w. hub_done (room_of cx) w t) s ws"
  have all: "room_waiters (room_of cx) (sv_waiters (?all ws s)) =
      filter (\<lambda>x. wt_id x \<notin> wt_id ` set ws) (room_waiters (room_of cx) (sv_waiters s))" for ws s
  proof (induction ws arbitrary: s)
    case (Cons w ws)
    then show ?case by (simp add: hub_done_waiters conj_commute)
  qed simp
  have frame: "sv_files (?all ws s) = sv_files s \<and> sv_timers (?all ws s) = sv_timers s \<and>
      sv_pending (?all ws s) = sv_pending s" for ws s
    by (induction ws arbitrary: s) simp_all
  show "room_waiters (room_of cx) (sv_waiters (snd (notify cx s))) = []"
    by (simp add: notify_def hub_notify_def all filter_empty_conv)
  show "sv_files (snd (notify cx s)) = sv_files s" "sv_timers (snd (notify cx s)) = sv_timers s"
    "sv_pending (snd (notify cx s)) = sv_pending s"
    by (simp_all add: notify_def hub_notify_def frame)
qed

lemma notify_fst [simp]: "fst (notify cx s) = Inr ()"
  by (simp add: notify_def hub_notify_def)

subsection \<open>Announcing, closing and holding\<close>

lemma append_server_ok:
  assumes "room_inv f" "isSafeSlug r" "isSafeSlug frm"
  shows "\<exists>m g. appendServerMessage r frm txt now f = (Inr m, g)"
  using assms by (auto simp: room_inv_def appendServerMessage_def Let_def)

lemma append_failed:
  "appendServerMessage r frm txt now f = (Inl e, g) \<Longrightarrow> g = f"
  "appendMessageResult r frm body now mx f = (Inl e, g) \<Longrightarrow> g = f"
  "appendMessageResult r frm body now mx f = (Inr res, g) \<Longrightarrow> ar_idempotent res \<Longrightarrow> g = f"
  by (auto simp: appendServerMessage_def appendMessageResult_def bindA_Inl_iff bindA_Inr_iff Let_def commit_message_def
      split: option.splits if_splits stored.splits)

lemma append_steps:
  "store_step f (snd (appendServerMessage r frm txt now f))"
  "store_step f (snd (appendMessageResult r frm body now mx f))"
  "store_step f (snd (closeRoom r now f))"
  by (intro store_step.board boardroom_step.room room_step.intros)+

lemma served_woken:
  assumes "store_step\<^sup>*\<^sup>* (sv_files s) (sv_files t)" "sv_timers t = sv_timers s" "sv_pending t = sv_pending s"
    and "room_waiters r (sv_waiters t) = []"
  shows "served r s t"
  using assms by (simp add: served_def timers_ok_def waiters_ok_def)

lemma served_notify:
  assumes "store_step\<^sup>*\<^sup>* (sv_files s) g"
  shows "served (room_of cx) s (snd (notify cx (s\<lparr> sv_files := g \<rparr>)))"
  using assms by (intro served_woken) (simp_all add: notify_clears)

lemma appendSystem_apply:
  "appendServerMessage (room_of cx) ''system'' txt (cx_now cx) (sv_files s) = (Inr m, g) \<Longrightarrow>
   appendSystem cx txt s = (Inr (), s\<lparr> sv_files := g \<rparr>)"
  "appendServerMessage (room_of cx) ''system'' txt (cx_now cx) (sv_files s) = (Inl e, g) \<Longrightarrow>
   appendSystem cx txt s = (Inl (Thrown e), s)"
  by (auto simp: appendSystem_def store_def bindA_apply dest: append_failed)

lemma served_announce: "along (served (room_of cx)) (bindA (appendSystem cx txt) (\<lambda>_. notify cx))"
proof (rule alongI)
  fix s :: RoomServer
  obtain x g where a: "appendServerMessage (room_of cx) ''system'' txt (cx_now cx) (sv_files s) = (x, g)" by fastforce
  show "served (room_of cx) s (snd (bindA (appendSystem cx txt) (\<lambda>_. notify cx) s))"
  proof (cases x)
    case (Inl e)
    with a show ?thesis by (simp add: appendSystem_apply(2) bindA_apply)
  next
    case (Inr m)
    have "store_step (sv_files s) g"
      using append_steps(1) [of "sv_files s" "room_of cx" "''system''" "txt" "cx_now cx"] a by simp
    with a Inr show ?thesis by (simp add: appendSystem_apply(1) bindA_apply served_notify r_into_rtranclp)
  qed
qed

lemma served_message: "along (served (room_of cx)) (bindA (store (appendMessageResult (room_of cx) frm body now mx))
    (\<lambda>r. if ar_idempotent r then ret () else notify cx))"
proof (rule alongI)
  fix s :: RoomServer
  obtain x g where a: "appendMessageResult (room_of cx) frm body now mx (sv_files s) = (x, g)" by fastforce
  have step: "store_step (sv_files s) g"
    using append_steps(2) [of "sv_files s" "room_of cx" frm body now mx] a by simp
  show "served (room_of cx) s (snd (bindA (store (appendMessageResult (room_of cx) frm body now mx))
    (\<lambda>r. if ar_idempotent r then ret () else notify cx) s))"
    using a append_failed(2,3) [of "room_of cx" frm body now mx "sv_files s"] step
    by (cases x) (auto simp: store_def bindA_apply intro!: served_notify)
qed

lemma served_close: "along (served (room_of cx)) (bindA (store (closeRoom (room_of cx) (cx_now cx)))
    (\<lambda>_. bindA (appendSystem cx txt) (\<lambda>_. notify cx)))"
proof (rule alongI)
  fix s :: RoomServer
  let ?m = "bindA (store (closeRoom (room_of cx) (cx_now cx))) (\<lambda>_. bindA (appendSystem cx txt) (\<lambda>_. notify cx))"
  obtain x g where c: "closeRoom (room_of cx) (cx_now cx) (sv_files s) = (x, g)" by fastforce
  have step: "store_step (sv_files s) g" using append_steps(3) [of "sv_files s" "room_of cx" "cx_now cx"] c by simp
  show "served (room_of cx) s (snd (?m s))"
  proof (cases x)
    case (Inl e)
    with c have "g = sv_files s" by (auto simp: closeRoom_def roomPaths_def bindA_Inl_iff Let_def split: stored.splits)
    with c Inl show ?thesis by (simp add: store_def bindA_apply)
  next
    case (Inr st)
    let ?s = "s\<lparr> sv_files := g \<rparr>"
    have m: "?m s = bindA (appendSystem cx txt) (\<lambda>_. notify cx) ?s"
      using c Inr by (simp add: store_def bindA_apply [of "store (closeRoom (room_of cx) (cx_now cx))"])
    obtain y h where a: "appendServerMessage (room_of cx) ''system'' txt (cx_now cx) g = (y, h)" by fastforce
    have step2: "store_step g h"
      using append_steps(1) [of g "room_of cx" "''system''" "txt" "cx_now cx"] a by simp
    show ?thesis
    proof (cases y)
      case (Inr k)
      then have "snd (?m s) = snd (notify cx (s\<lparr> sv_files := h \<rparr>))"
        using a unfolding m by (simp add: bindA_apply appendSystem_apply(1) [of cx "txt" ?s])
      then show ?thesis using step step2 by (simp add: served_notify converse_rtranclp_into_rtranclp)
    next
      case (Inl e)
      have "isSafeSlug (room_of cx)" using c Inr by (auto simp: closeRoom_def roomPaths_def bindA_Inr_iff)
      then have "\<not> room_inv g" using append_server_ok [of g "room_of cx" "''system''" "txt" "cx_now cx"] a Inl
        by (auto simp: isSafeSlug_iff slug_chars_def)
      moreover have "store_inv (sv_files s) \<longrightarrow> room_inv g"
        using store.step_inv [OF _ step] by (auto simp: store_inv_def board_inv_def)
      ultimately have "\<not> store_inv (sv_files s)" by blast
      moreover have "snd (?m s) = ?s" using a Inl unfolding m by (simp add: bindA_apply appendSystem_apply(2) [of cx "txt" ?s])
      ultimately show ?thesis using step by (simp add: served_def timers_ok_def r_into_rtranclp)
    qed
  qed
qed

lemma served_pure: "along (served r) (ret x)"
  by (simp add: along_def)

lemma served_ttl: "along (served (room_of cx)) (close_by_ttl cx)"
proof -
  have "along (served (room_of cx)) (bindA (store (closeRoom (room_of cx) (cx_now cx)))
      (\<lambda>closed. bindA (appendSystem cx ''room closed by ttl'') (\<lambda>_. bindA (notify cx) (\<lambda>_. ret closed))))"
    by (rule along_same [OF served_close [of cx "''room closed by ttl''"]])
      (simp add: snd_bindA [of "appendSystem cx ''room closed by ttl''"] snd_bindA [of "notify cx"]
        split: sum.split)
  then show ?thesis unfolding close_by_ttl_def by (rule served_seq [OF served_cancel])
qed

lemma served_expire: "along (served (room_of cx)) (closeExpiredRoomIfNeeded cx)"
  using alongD [OF served_ttl] by (simp add: along_def closeExpired_cases split: stored.split)

lemma served_reads: "reads act \<Longrightarrow> along (served r) (store act)"
  by (simp add: along_def store_reads_state)

lemma served_snapshot: "along (served (room_of cx)) (waitSnapshot cx a n)"
  unfolding waitSnapshot_def Let_def
  by (intro served_seq served_expire along_if served_pure served_reads reads_ops)

text \<open>A poll is held only when the room is open and holds nothing for it.\<close>

lemma closeRoom_closed: "closeRoom r now f = (Inr st, g) \<Longrightarrow> rs_status st = RS_closed"
  by (auto simp: closeRoom_def bindA_Inr_iff Let_def)

lemma ttl_closed: "close_by_ttl cx s = (Inr st, t) \<Longrightarrow> rs_status st = RS_closed"
  by (auto simp: close_by_ttl_def bindA_Inr_iff store_Inr dest: closeRoom_closed)

lemma held_when_idle:
  assumes "waitSnapshot cx a n s = (Inr None, t)"
  shows "t = s \<and> room_open (sv_files s) \<and> (\<forall>m \<in> set (room_log (sv_files s)). m_id m \<le> n)"
proof -
  obtain st u all where c: "closeExpiredRoomIfNeeded cx s = (Inr st, u)" "rs_status st \<noteq> RS_closed"
    and all: "store (readMessages (room_of cx)) u = (Inr all, t)" "\<forall>m \<in> set all. m_id m \<le> n"
    using assms unfolding waitSnapshot_def bindA_Inr_iff
    by (auto simp: bindA_Inr_iff Let_def filter_empty_conv not_less split: if_splits)
  have u: "u = s" and o': "room_open (sv_files s)"
    using c ttl_closed [of cx s st u]
    by (auto simp: closeExpired_cases room_open_def split: if_splits stored.splits) (metis RoomStatus.exhaust)+
  have "t = s" "room_log (sv_files s) = all"
    using all(1) unfolding u
    by (auto simp: store_Inr readMessages_def roomPaths_def bindA_Inr_iff room_log_def)
  with all(2) o' show ?thesis by simp
qed

lemma served_hold: "along (served (room_of cx)) (bindA (waitSnapshot cx a n)
    (\<lambda>r. if r = None then bindA (hub_wait (room_of cx) a n) (\<lambda>_. ret ()) else ret ()))"
proof (rule alongI)
  fix s :: RoomServer
  let ?m = "bindA (waitSnapshot cx a n)
    (\<lambda>r. if r = None then bindA (hub_wait (room_of cx) a n) (\<lambda>_. ret ()) else ret ())"
  obtain x t where w: "waitSnapshot cx a n s = (x, t)" by fastforce
  have served: "served (room_of cx) s t" using alongD [OF served_snapshot [of cx a n], of s] w by simp
  show "served (room_of cx) s (snd (?m s))"
  proof (cases "x = Inr None")
    case False
    with w served show ?thesis by (cases x) (auto simp: bindA_apply)
  next
    case True
    note idle = held_when_idle [OF w [unfolded True]]
    then have "snd (?m s) = snd (hub_wait (room_of cx) a n s)"
      using w True by (simp add: bindA_apply hub_wait_def)
    also have "served (room_of cx) s \<dots>"
      using idle by (auto simp: served_def hub_wait_def timers_ok_def waiters_ok_def room_waiters_update)
    finally show ?thesis .
  qed
qed

subsection \<open>The quiet operations\<close>

lemma quiet_ops:
  "quiet f (snd (upsertParticipant r q f))" "quiet f (snd (joinParticipant r q stale now sid f))"
  "quiet f (snd (updateBrief r b u now f))" "quiet f (snd (updateAttendancePolicy r pol u now f))"
  "quiet f (snd (updateLoopGuardPreference r en dl u now f))"
  "quiet f (snd (startActiveSession r ch u dur md now f))" "quiet f (snd (endActiveSession r now f))"
  subgoal by (cases "rf_participants f") (auto simp: quiet_def room_log_def room_open_def people_ops snd_bindA split: sum.split)
  subgoal by (cases "rf_participants f") (auto simp: quiet_def room_log_def room_open_def people_ops snd_bindA split: sum.split)
  by (cases "rf_state f"; auto simp: quiet_def room_log_def room_open_def state_ops snd_bindA withRoomDefaults_def
      split: sum.split option.split)+

lemma quiet_forum:
  "quiet f (snd (createForumPost r c input fresh now f))" "quiet f (snd (addForumComment r c q a txt now f))"
proof -
  have same: "quiet f (rf_posts_update x f)" "quiet f (rf_comments_update y f)" "quiet f f" for x y
    by (simp_all add: quiet_def room_log_def room_open_def)
  show "quiet f (snd (createForumPost r c input fresh now f))"
  proof (cases "createForumPost r c input fresh now f")
    case (Pair x g)
    then show ?thesis using createForumPost_Inr [of r c input fresh now f _ g] createForumPost_Inl [of r c input fresh now f _ g] same
      by (cases x) auto
  qed
  show "quiet f (snd (addForumComment r c q a txt now f))"
  proof (cases "addForumComment r c q a txt now f")
    case (Pair x g)
    then show ?thesis
      using addForumComment_writes [of r c q a "txt" now f _ g] addForumComment_Inl [of r c q a "txt" now f _ g] same
      by (cases x) auto
  qed
qed

interpretation runs: server_effect "\<lambda>_. served (room_of cx)" cx for cx
proof
  show "served (room_of cx) s u" if "served (room_of cx) s t" "served (room_of cx) t u" for s t u
    using that by (rule served_trans)
  show "along (served (room_of cx)) (bindA (waitSnapshot cx (p_alias p) n)
      (\<lambda>r. if r = None then bindA (hub_wait (room_of cx) (p_alias p) n) (\<lambda>_. ret ()) else ret ()))" for p n
    by (rule served_hold)
  show "along (served (room_of cx)) (store (createForumPost (room_of cx) ch input (cx_fresh cx) (cx_now cx)))" for ch input
    by (rule served_store [OF store_step.post quiet_forum(1)])
  show "along (served (room_of cx)) (store (addForumComment (room_of cx) ch pid (p_alias p) t (cx_now cx)))" for ch pid p t
    by (rule served_store [OF store_step.comment quiet_forum(2)])
qed (intro served_refl served_rate served_counts served_cancel served_schedule served_announce served_message
      served_expire served_close served_store quiet_ops store_step.board boardroom_step.room room_step.intros)+

subsection \<open>Steps of the server\<close>

text \<open>
  One server process for one room: a request, a held poll that resumes, a hold time that ends, a
  timer that goes off, and the shutdown.
\<close>

inductive server_step ::
  "(rat \<Rightarrow> string) \<Rightarrow> Platform \<Rightarrow> ResolvedOptions \<Rightarrow> RoomServer \<Rightarrow> RoomServer \<Rightarrow> bool" for number pf opts where
  request: "cx_options cx = opts \<Longrightarrow> cx_platform cx = pf \<Longrightarrow>
      server_step number pf opts s (snd (handleRequest number cx s))"
| resume: "cx_options cx = opts \<Longrightarrow> cx_platform cx = pf \<Longrightarrow> w \<in> set (sv_resolved s) \<Longrightarrow>
      server_step number pf opts s (snd (getWait_resume cx w s))"
| hold_over: "server_step number pf opts s (snd (hub_abort (op_roomId opts) ident s))"
| timer: "cx_options cx = opts \<Longrightarrow> cx_platform cx = pf \<Longrightarrow>
      server_step number pf opts s (snd (timer_fires cx handle s))"
| shutdown: "server_step number pf opts s (snd (cancelPendingAutoContinue (op_roomId opts) s))"

definition new_server :: "RoomFiles \<Rightarrow> RoomServer" where
  "new_server f = \<lparr> sv_files = f, sv_rateBuckets = [], sv_loopCounts = [], sv_pending = [],
     sv_autoCounts = [], sv_timers = [], sv_nextTimer = 0, sv_waiters = [], sv_resolved = [],
     sv_nextWaiter = 0 \<rparr>"

text \<open>\<open>served\<close> without its clause on the timers.\<close>

definition woken :: "string \<Rightarrow> RoomServer \<Rightarrow> RoomServer \<Rightarrow> bool" where
  "woken r s t \<longleftrightarrow> store_step\<^sup>*\<^sup>* (sv_files s) (sv_files t) \<and>
     (store_inv (sv_files s) \<and> waiters_ok r s \<longrightarrow> waiters_ok r t)"

lemma served_woken_iff: "served r s t \<longleftrightarrow> woken r s t \<and> (timers_ok r s \<longrightarrow> timers_ok r t)"
  by (auto simp: served_def woken_def)

lemma woken_trans: "woken r s t \<Longrightarrow> woken r t u \<Longrightarrow> woken r s u"
  unfolding woken_def by (blast intro: rtranclp_trans store.steps_inv)

lemma woken_seq:
  "along (woken r) m \<Longrightarrow> (\<And>x. along (woken r) (g x)) \<Longrightarrow> along (woken r) (bindA m g)"
  by (rule along_bindA) (rule woken_trans)

lemma woken_served: "along (served r) m \<Longrightarrow> along (woken r) m"
  by (simp add: along_def served_woken_iff)

lemma woken_memory:
  "(\<And>s. sv_files (snd (m s)) = sv_files s \<and> sv_waiters (snd (m s)) = sv_waiters s) \<Longrightarrow> along (woken r) m"
  by (rule alongI) (simp add: woken_def waiters_ok_def)

lemma announce_caught: "snd ((\<lambda>s. case appendSystem cx txt s of (Inl e, t) \<Rightarrow> (Inr (), t) | (Inr u, t) \<Rightarrow> notify cx t) s) =
    snd (bindA (appendSystem cx txt) (\<lambda>_. notify cx) s)"
  by (simp add: bindA_apply split: prod.split sum.split)

lemma served_caught: "along (served (room_of cx))
    (\<lambda>s. case appendSystem cx txt s of (Inl e, t) \<Rightarrow> (Inr (), t) | (Inr u, t) \<Rightarrow> notify cx t)"
  using served_announce [of cx "txt"] by (simp only: along_def announce_caught simp_thms)

lemma woken_complete: "along (woken (room_of cx)) (completeAutoContinue cx a)"
  unfolding completeAutoContinue_def complete_read_def complete_finish_def clearRoomLoopCounts_def Let_def
  by (intro woken_seq along_if along_option along_sum woken_served [OF served_cancel]
      woken_served [OF served_counts] woken_served [OF served_caught] woken_memory) simp_all

lemma woken_timer: "along (woken (room_of cx)) (timer_fires cx h)"
  unfolding timer_fires_def
  by (intro woken_seq along_option woken_complete woken_memory) simp_all

lemma timers_complete:
  assumes "map_of (sv_pending s) (room_of cx) = Some q" "sv_timers s = []"
  shows "timers_ok (room_of cx) (snd (completeAutoContinue cx a s))"
proof -
  let ?r = "room_of cx"
  let ?read = "fst (bindA (roomPaths ?r) (\<lambda>_. readRoomState) (sv_files s))"
  have cancelled: "timers_ok ?r (snd (cancelPendingAutoContinue ?r s))"
    using assms by (simp add: cancelPendingAutoContinue_def timers_ok_def delete_conv')
  have approved: "timers_ok ?r (snd (bindA (modify (sv_pending_update (AList.delete ?r))) (\<lambda>_.
      bindA (clearRoomLoopCounts ?r) (\<lambda>_. bindA (modify (sv_autoCounts_update f)) (\<lambda>_.
      (\<lambda>s. case appendSystem cx (approval_text a) s of (Inl e, t) \<Rightarrow> (Inr (), t) | (Inr u, t) \<Rightarrow> notify cx t)))) s))" for f
  proof -
    let ?t = "snd (clearRoomLoopCounts ?r (sv_pending_update (AList.delete ?r) s))"
    have "timers_ok ?r (sv_autoCounts_update f ?t)"
      using assms by (simp add: timers_ok_def clearRoomLoopCounts_def delete_conv')
    then show ?thesis
      using alongD [OF served_caught [of cx "approval_text a"], of "sv_autoCounts_update f ?t"]
      by (simp add: bindA_apply clearRoomLoopCounts_def served_woken_iff)
  qed
  have "snd (completeAutoContinue cx a s) = snd (complete_finish cx a ?read s)"
    using assms by (simp add: completeAutoContinue_def complete_read_def Let_def bindA_apply)
  also have "timers_ok ?r \<dots>"
    using assms cancelled approved
    by (cases ?read) (simp_all add: complete_finish_def Let_def bindA_apply [of "gets sv_pending"])
  finally show ?thesis .
qed

lemma served_timer: "along (served (room_of cx)) (timer_fires cx h)"
proof (rule alongI)
  fix s :: RoomServer
  have "timers_ok (room_of cx) (snd (timer_fires cx h s))" if ok: "timers_ok (room_of cx) s"
  proof (cases "map_of (sv_timers s) h")
    case None
    with ok show ?thesis by (simp add: timer_fires_def bindA_apply)
  next
    case (Some a)
    with ok obtain q where q: "map_of (sv_pending s) (room_of cx) = Some q"
        "sv_timers s = [(pa_timer q, pa_alias q)]" "h = pa_timer q"
      by (auto simp: timers_ok_def split: option.splits if_splits)
    have "sv_timers_update (AList.delete h) s = s\<lparr> sv_timers := [] \<rparr>" using q by simp
    with timers_complete [of "s\<lparr> sv_timers := [] \<rparr>" cx q a] q(1) Some show ?thesis
      by (simp add: timer_fires_def bindA_apply)
  qed
  then show "served (room_of cx) s (snd (timer_fires cx h s))"
    using alongD [OF woken_timer] by (simp add: served_woken_iff)
qed

lemma served_abort: "along (served r) (hub_abort r ident)"
  by (auto simp: along_def hub_abort_def served_def timers_ok_def waiters_ok_def hub_done_waiters
      split: option.split)

lemma served_resume: "along (served (room_of cx)) (getWait_resume cx w)"
  unfolding getWait_resume_def
  by (intro served_seq along_option served_snapshot served_pure served_memory) (simp_all add: timers_ok_def)

lemma server_step_served:
  assumes "server_step number pf opts s t"
  shows "served (op_roomId opts) s t"
  using assms
proof (cases rule: server_step.cases)
  case (request cx)
  then show ?thesis
    using runs.request_effect [where cx = cx and s = s and number = number]
    by (auto split: option.splits)
next
  case (resume cx w)
  then show ?thesis using alongD [OF served_resume [of cx w], of s] by simp
next
  case (timer cx handle)
  then show ?thesis using alongD [OF served_timer [of cx handle], of s] by simp
qed (simp_all add: alongD [OF served_abort] alongD [OF served_cancel])

end
