(* ===== verification/ServerConfined.thy ===== *)
theory ServerConfined
  imports ServerEffects
begin

text \<open>
  What a request cannot do. \<open>confined p now f g\<close> says how far a request of the participant \<open>p\<close> may
  change the room's files: new messages are in its own name or the server's, new posts and comments
  are its own and nothing posted changes, only its own participant record is rewritten and never its
  rights, no cursor and no channel is touched, and unless it is the host the room's state changes by
  its message counter and by the closing of an expired room only. The locale of the handlers is
  interpreted on this relation, so it holds for every request.
\<close>

definition member :: "string \<Rightarrow> RoomFiles \<Rightarrow> Participant option" where
  "member a f = (case rf_participants f of File ps \<Rightarrow> find (\<lambda>p. p_alias p = a) ps | _ \<Rightarrow> None)"

text \<open>The state of the room apart from what every message moves.\<close>

fun state_view :: "RoomState stored \<Rightarrow> RoomState stored" where
  "state_view (File st) = File ((withRoomDefaults st)\<lparr> rs_next_message_id := 0, rs_updatedAt := Iso 0 \<rparr>)"
| "state_view x = x"

fun closed_view :: "RoomState stored \<Rightarrow> RoomState stored" where
  "closed_view (File st) = File (st\<lparr> rs_active_session := None, rs_status := RS_closed \<rparr>)"
| "closed_view x = x"

definition speaks :: "Participant \<Rightarrow> RoomFiles \<Rightarrow> RoomFiles \<Rightarrow> bool" where
  "speaks p f g \<longleftrightarrow> (\<exists>new. room_log g = room_log f @ new \<and>
     (\<forall>m \<in> set new. m_from m = p_alias p \<or> m_from m = ''system''))"

definition posts_by :: "Participant \<Rightarrow> RoomFiles \<Rightarrow> RoomFiles \<Rightarrow> bool" where
  "posts_by p f g \<longleftrightarrow> (\<forall>c q. post_file c q g = post_file c q f \<or>
     (post_file c q f = NoFile \<and> (\<exists>post. post_file c q g = File post \<and> fp_author post = p_alias p)))"

definition comments_by :: "Participant \<Rightarrow> RoomFiles \<Rightarrow> RoomFiles \<Rightarrow> bool" where
  "comments_by p f g \<longleftrightarrow> (\<forall>c q. \<exists>new. thread_log c q g = thread_log c q f @ new \<and>
     (\<forall>k \<in> set new. fc_author k = p_alias p))"

definition people_by :: "Participant \<Rightarrow> RoomFiles \<Rightarrow> RoomFiles \<Rightarrow> bool" where
  "people_by p f g \<longleftrightarrow> (\<forall>a. a \<noteq> p_alias p \<longrightarrow> member a g = member a f) \<and>
     (\<forall>q. member (p_alias p) f = Some q \<and> rights q = rights p \<longrightarrow>
        (\<exists>q'. member (p_alias p) g = Some q' \<and> rights q' = rights p))"

definition state_by :: "Participant \<Rightarrow> int \<Rightarrow> RoomFiles \<Rightarrow> RoomFiles \<Rightarrow> bool" where
  "state_by p now f g \<longleftrightarrow> p_is_host p \<or> (rf_brief g = rf_brief f \<and>
     (state_view (rf_state g) = state_view (rf_state f) \<or>
      (expired now f \<and> state_view (rf_state g) = closed_view (state_view (rf_state f)))))"

definition confined :: "Participant \<Rightarrow> int \<Rightarrow> RoomFiles \<Rightarrow> RoomFiles \<Rightarrow> bool" where
  "confined p now f g \<longleftrightarrow> speaks p f g \<and> posts_by p f g \<and> comments_by p f g \<and> people_by p f g \<and>
     rf_cursors g = rf_cursors f \<and> rf_channelCursors g = rf_channelCursors f \<and>
     rf_boardroom g = rf_boardroom f \<and> state_by p now f g"

subsection \<open>The relation is reflexive and transitive\<close>

lemma confined_refl: "confined p now f f"
  by (auto simp: confined_def speaks_def posts_by_def comments_by_def people_by_def state_by_def)

lemma speaks_trans: "speaks p f g \<Longrightarrow> speaks p g h \<Longrightarrow> speaks p f h"
  unfolding speaks_def by (elim exE conjE) (auto simp: ball_Un)

lemma posts_by_trans:
  assumes "posts_by p f g" "posts_by p g h"
  shows "posts_by p f h"
  unfolding posts_by_def
proof (intro allI)
  fix c q
  from assms have "post_file c q g = post_file c q f \<or>
      (post_file c q f = NoFile \<and> (\<exists>post. post_file c q g = File post \<and> fp_author post = p_alias p))"
    and "post_file c q h = post_file c q g \<or>
      (post_file c q g = NoFile \<and> (\<exists>post. post_file c q h = File post \<and> fp_author post = p_alias p))"
    unfolding posts_by_def by blast+
  then show "post_file c q h = post_file c q f \<or>
      (post_file c q f = NoFile \<and> (\<exists>post. post_file c q h = File post \<and> fp_author post = p_alias p))"
    by auto
qed

lemma comments_by_trans:
  assumes "comments_by p f g" "comments_by p g h"
  shows "comments_by p f h"
  unfolding comments_by_def
proof (intro allI)
  fix c q
  obtain x where x: "thread_log c q g = thread_log c q f @ x" "\<forall>k \<in> set x. fc_author k = p_alias p"
    using assms(1) unfolding comments_by_def by blast
  obtain y where y: "thread_log c q h = thread_log c q g @ y" "\<forall>k \<in> set y. fc_author k = p_alias p"
    using assms(2) unfolding comments_by_def by blast
  show "\<exists>new. thread_log c q h = thread_log c q f @ new \<and> (\<forall>k \<in> set new. fc_author k = p_alias p)"
    using x y by (intro exI [of _ "x @ y"]) auto
qed

lemma people_by_trans: "people_by p f g \<Longrightarrow> people_by p g h \<Longrightarrow> people_by p f h"
  unfolding people_by_def by metis

lemma closed_view_idem [simp]: "closed_view (closed_view v) = closed_view v"
  by (cases v) simp_all

lemma expired_view: "expired now f = (case state_view (rf_state f) of
    File st \<Rightarrow> rs_status st = RS_open \<and> elapsed now (rs_expires_at st) | _ \<Rightarrow> False)"
  by (cases "rf_state f") (simp_all add: expired_def withRoomDefaults_def)

lemma state_by_trans:
  assumes "state_by p now f g" "state_by p now g h"
  shows "state_by p now f h"
proof (cases "p_is_host p")
  case False
  with assms show ?thesis unfolding state_by_def expired_view by auto
qed (simp add: state_by_def)

lemma confined_trans: "confined p now f g \<Longrightarrow> confined p now g h \<Longrightarrow> confined p now f h"
  unfolding confined_def
  by (auto intro: speaks_trans posts_by_trans comments_by_trans people_by_trans state_by_trans)

subsection \<open>The store operations respect it\<close>

lemma file_views [simp]:
  "post_file c q (rf_participants_update x f) = post_file c q f"
  "post_file c q (rf_state_update x1 f) = post_file c q f"
  "post_file c q (rf_brief_update x2 f) = post_file c q f"
  "post_file c q (rf_messages_update x3 f) = post_file c q f"
  "thread_log c q (rf_participants_update x f) = thread_log c q f"
  "thread_log c q (rf_state_update x1 f) = thread_log c q f"
  "thread_log c q (rf_brief_update x2 f) = thread_log c q f"
  "thread_log c q (rf_messages_update x3 f) = thread_log c q f"
  "thread_log c q (rf_posts_update x4 f) = thread_log c q f"
  "room_log (rf_participants_update x f) = room_log f"
  "room_log (rf_state_update x1 f) = room_log f"
  "room_log (rf_brief_update x2 f) = room_log f"
  "room_log (rf_posts_update x4 f) = room_log f"
  "room_log (rf_comments_update x5 f) = room_log f"
  "member a (rf_state_update x1 f) = member a f"
  "member a (rf_brief_update x2 f) = member a f"
  "member a (rf_messages_update x3 f) = member a f"
  "member a (rf_posts_update x4 f) = member a f"
  "member a (rf_comments_update x5 f) = member a f"
  "post_file c q (rf_comments_update x5 f) = post_file c q f"
  by (simp_all add: post_file_def thread_log_def comments_file_def room_log_def member_def)

lemma confined_people:
  assumes "rf_participants f = File ps" "p_alias q = p_alias p" "rights q = rights p"
  shows "confined p now f (f\<lparr> rf_participants := File (upsertBy p_alias q ps) \<rparr>)"
proof -
  have "people_by p f (f\<lparr> rf_participants := File (upsertBy p_alias q ps) \<rparr>)"
    using assms find_upsertBy_same [of p_alias q ps]
    by (auto simp: people_by_def member_def)
  then show ?thesis
    by (auto simp: confined_def speaks_def posts_by_def comments_by_def state_by_def)
qed

lemma confined_log:
  assumes "m_from m = p_alias p \<or> m_from m = ''system''" "state_view (File st) = state_view (rf_state f)"
  shows "confined p now f (rf_state_update (\<lambda>_. File st) (rf_messages_update (appendLine m) f))"
proof -
  have "room_log (rf_messages_update (appendLine m) f) \<in> {room_log f, room_log f @ [m]}"
    by (cases "rf_messages f") (simp_all add: room_log_def)
  then have "speaks p f (rf_messages_update (appendLine m) f)"
    using assms(1) by (auto simp: speaks_def)
  then show ?thesis
    using assms(2)
    by (auto simp: confined_def speaks_def posts_by_def comments_by_def state_by_def people_by_def)
qed

lemma confined_state:
  assumes "state_by p now f (rf_state_update x (rf_brief_update y f))"
  shows "confined p now f (rf_state_update x (rf_brief_update y f))"
  using assms by (auto simp: confined_def speaks_def posts_by_def comments_by_def people_by_def)

lemma confined_upsert:
  assumes "p_alias q = p_alias p" "rights q = rights p"
  shows "confined p now f (snd (upsertParticipant r q f))"
    "confined p now f (snd (joinParticipant r q stale clock sid f))"
  using confined_people [OF _ assms, of f] confined_refl
  by (cases "rf_participants f"; auto simp: upsertParticipant_def joinParticipant_def roomPaths_def
      snd_bindA Let_def split: sum.split)+

text \<open>What an append may have done: nothing, or one line and the counter.\<close>

definition log_op :: "string \<Rightarrow> RoomFiles \<Rightarrow> RoomFiles \<Rightarrow> bool" where
  "log_op frm f g \<longleftrightarrow> g = f \<or> (\<exists>st m. m_from m = frm \<and> state_view (File st) = state_view (rf_state f) \<and>
     g = rf_state_update (\<lambda>_. File st) (rf_messages_update (appendLine m) f))"

lemma log_op_refl [simp]: "log_op frm f f"
  by (simp add: log_op_def)

lemma fst_commit [simp]: "fst (commit_message st m now f) = Inr ()"
  by (simp add: commit_message_def snd_bindA bindA_apply)

lemma log_op_commit:
  assumes "rf_state f = File st" "m_from m = frm"
  shows "log_op frm f (snd (commit_message (withRoomDefaults st) m now f))"
proof -
  let ?st = "(withRoomDefaults st)\<lparr> rs_updatedAt := Iso now, rs_next_message_id := m_id m + 1 \<rparr>"
  have "snd (commit_message (withRoomDefaults st) m now f) =
      rf_state_update (\<lambda>_. File ?st) (rf_messages_update (appendLine m) f)"
    by (simp add: commit_message_def)
  moreover have "state_view (File ?st) = state_view (rf_state f)"
    by (simp add: assms(1) withRoomDefaults_def)
  ultimately show ?thesis using assms(2) unfolding log_op_def by blast
qed

lemma log_op_appends:
  "log_op frm f (snd (appendServerMessage r frm txt now f))"
  "log_op frm f (snd (appendMessageResult r frm body now mx f))"
proof -
  have built: "m_from (buildMessage i b) = bo_from b" for i b
    by (simp add: buildMessage_def)
  show "log_op frm f (snd (appendServerMessage r frm txt now f))"
    by (cases "rf_state f"; cases "rf_participants f";
        simp add: appendServerMessage_def snd_bindA Let_def log_op_commit built split: sum.split)
  show "log_op frm f (snd (appendMessageResult r frm body now mx f))"
    by (cases "rf_state f"; cases "rf_participants f"; cases "rf_messages f";
        simp add: appendMessageResult_def snd_bindA Let_def log_op_commit built createMessage_def
          del: commit_message_apply split: sum.split option.split)
qed

lemma confined_appends:
  "confined p now f (snd (appendServerMessage r ''system'' txt clock f))"
  "confined p now f (snd (appendMessageResult r (p_alias p) body clock mx f))"
proof -
  have key: "confined p now f g" if l: "log_op frm f g" and frm: "frm = p_alias p \<or> frm = ''system''" for frm g
    using l unfolding log_op_def
  proof (elim disjE exE conjE)
    fix st m
    assume m: "m_from m = frm" and st: "state_view (File st) = state_view (rf_state f)"
      and g: "g = rf_state_update (\<lambda>_. File st) (rf_messages_update (appendLine m) f)"
    have "m_from m = p_alias p \<or> m_from m = ''system''" using m frm by blast
    from confined_log [OF this st] show ?thesis unfolding g .
  qed (simp add: confined_refl)
  show "confined p now f (snd (appendServerMessage r ''system'' txt clock f))"
    by (rule key [OF log_op_appends(1)]) simp
  show "confined p now f (snd (appendMessageResult r (p_alias p) body clock mx f))"
    by (rule key [OF log_op_appends(2)]) simp
qed

lemma confined_host:
  assumes "p_is_host p"
  shows "confined p now f (snd (updateBrief r b u clock f))"
    "confined p now f (snd (updateAttendancePolicy r pol u clock f))"
    "confined p now f (snd (updateLoopGuardPreference r en dl u clock f))"
    "confined p now f (snd (startActiveSession r ch u dur md clock f))"
    "confined p now f (snd (endActiveSession r clock f))"
    "confined p now f (snd (closeRoom r clock f))"
proof -
  have ok: "confined p now f (rf_state_update (\<lambda>_. x) f)" "confined p now f (rf_state_update (\<lambda>_. x) (rf_brief_update (\<lambda>_. y) f))" for x y
    using assms by (auto simp: confined_def speaks_def posts_by_def comments_by_def people_by_def state_by_def)
  show "confined p now f (snd (updateBrief r b u clock f))"
    "confined p now f (snd (updateAttendancePolicy r pol u clock f))"
    "confined p now f (snd (updateLoopGuardPreference r en dl u clock f))"
    "confined p now f (snd (startActiveSession r ch u dur md clock f))"
    "confined p now f (snd (endActiveSession r clock f))"
    "confined p now f (snd (closeRoom r clock f))"
    by (cases "rf_state f"; auto simp: state_ops snd_bindA ok confined_refl split: sum.split option.split)+
qed

lemma confined_expired:
  assumes "expired now f"
  shows "confined p now f (snd (closeRoom r now f))"
proof -
  obtain st where st: "rf_state f = File st" using assms by (auto simp: expired_def split: stored.splits)
  let ?f = "rf_state_update (\<lambda>_. File ((withRoomDefaults st)\<lparr> rs_active_session := None, rs_status := RS_closed, rs_updatedAt := Iso now \<rparr>)) f"
  have "state_by p now f ?f" using assms by (simp add: state_by_def st withRoomDefaults_def)
  then have "confined p now f ?f"
    by (auto simp: confined_def speaks_def posts_by_def comments_by_def people_by_def)
  then show ?thesis by (simp add: st closeRoom_def roomPaths_def snd_bindA Let_def confined_refl split: sum.split)
qed

lemma confined_post:
  assumes "fi_author input = p_alias p"
  shows "confined p now f (snd (createForumPost r c input fresh clock f))"
proof (cases "createForumPost r c input fresh clock f")
  case (Pair x g)
  show ?thesis
  proof (cases x)
    case (Inl e)
    with Pair createForumPost_Inl [OF Pair [unfolded Inl]] show ?thesis by (simp add: confined_refl)
  next
    case (Inr post)
    note new = createForumPost_Inr [OF Pair [unfolded Inr]]
    have "posts_by p f (rf_posts_update (AList.update (c, fp_id post) (File post)) f)"
      using new assms by (auto simp: posts_by_def post_file_def)
    then have "confined p now f (rf_posts_update (AList.update (c, fp_id post) (File post)) f)"
      by (auto simp: confined_def speaks_def comments_by_def people_by_def state_by_def)
    with new Pair show ?thesis by simp
  qed
qed

lemma confined_comment: "confined p now f (snd (addForumComment r c q (p_alias p) txt clock f))"
proof (cases "addForumComment r c q (p_alias p) txt clock f")
  case (Pair x g)
  show ?thesis
  proof (cases x)
    case (Inl e)
    with Pair addForumComment_Inl [OF Pair [unfolded Inl]] show ?thesis by (simp add: confined_refl)
  next
    case (Inr k)
    have new: "fc_author k = p_alias p"
        "g = rf_comments_update (AList.update (c, q) (appendLine k (comments_file c q f))) f"
      using addForumComment_writes [OF Pair [unfolded Inr]] by simp_all
    have grown: "thread_log c' q' g = thread_log c' q' f \<or> thread_log c' q' g = thread_log c' q' f @ [k]" for c' q'
      by (cases "comments_file c q f") (auto simp: new(2) thread_log_def comments_file_def)
    have "comments_by p f g"
      unfolding comments_by_def
    proof (intro allI)
      fix c' q'
      show "\<exists>new. thread_log c' q' g = thread_log c' q' f @ new \<and> (\<forall>k \<in> set new. fc_author k = p_alias p)"
        using grown [of c' q'] new(1) by (elim disjE) (auto intro: exI [of _ "[]"] exI [of _ "[k]"])
    qed
    then have "confined p now f g"
      by (auto simp: confined_def speaks_def posts_by_def people_by_def state_by_def new(2))
    with Pair show ?thesis by simp
  qed
qed

subsection \<open>Every request is confined\<close>

definition confined_server :: "int \<Rightarrow> Participant \<Rightarrow> RoomServer \<Rightarrow> RoomServer \<Rightarrow> bool" where
  "confined_server now p s t \<longleftrightarrow> confined p now (sv_files s) (sv_files t)"

lemma confined_store:
  "(\<And>f. confined p now f (snd (act f))) \<Longrightarrow> along (confined_server now p) (store act)"
  by (rule alongI) (simp add: confined_server_def store_files)

lemma confined_memory:
  "(\<And>s. sv_files (snd (m s)) = sv_files s) \<Longrightarrow> along (confined_server now p) m"
  by (rule alongI) (simp add: confined_server_def confined_refl)

lemma hub_done_files [simp]: "sv_files (hub_done r w s) = sv_files s"
  by (simp add: hub_done_def Let_def)

lemma memory_files [simp]:
  "sv_files (snd (hub_notify r s)) = sv_files s"
  "sv_files (snd (notify cx s)) = sv_files s"
  "sv_files (snd (hub_wait r a n s)) = sv_files s"
  "sv_files (snd (enforceRateLimit key l t s)) = sv_files s"
  "sv_files (snd (cancelPendingAutoContinue r s)) = sv_files s"
  "sv_files (snd (schedulePendingAutoContinue cx a d s)) = sv_files s"
proof -
  have "sv_files (foldl (\<lambda>t w. hub_done r w t) s ws) = sv_files s" for r ws s
    by (induction ws arbitrary: s) simp_all
  then show "sv_files (snd (hub_notify r s)) = sv_files s" "sv_files (snd (notify cx s)) = sv_files s"
    by (simp_all add: notify_def hub_notify_def)
qed (simp_all add: hub_wait_def enforceRateLimit_def cancelPendingAutoContinue_def
    schedulePendingAutoContinue_def Let_def split: option.split prod.split)

lemma confined_server_trans:
  "confined_server now p s t \<Longrightarrow> confined_server now p t u \<Longrightarrow> confined_server now p s u"
  unfolding confined_server_def by (rule confined_trans)

lemma confined_seq:
  "along (confined_server now p) m \<Longrightarrow> (\<And>x. along (confined_server now p) (g x)) \<Longrightarrow>
   along (confined_server now p) (bindA m g)"
  by (rule along_bindA) (rule confined_server_trans)

lemma confined_announce: "along (confined_server now p) (bindA (appendSystem cx txt) (\<lambda>_. notify cx))"
  unfolding appendSystem_def bindA_assoc
  by (intro confined_seq confined_store confined_appends confined_memory) simp_all

lemma confined_expire: "along (confined_server (cx_now cx) p) (closeExpiredRoomIfNeeded cx)"
proof (rule alongI)
  fix s
  have rest: "along (confined_server (cx_now cx) p)
      (bindA (appendSystem cx ''room closed by ttl'') (\<lambda>_. bindA (notify cx) (\<lambda>_. ret st)))" for st
    using confined_seq [OF confined_announce [of "cx_now cx" p cx "''room closed by ttl''"], of "\<lambda>_. ret st"]
    by (simp add: bindA_assoc confined_memory)
  have "confined_server (cx_now cx) p s (snd (close_by_ttl cx s))" if "expired (cx_now cx) (sv_files s)"
  proof -
    obtain t where c: "cancelPendingAutoContinue (room_of cx) s = (Inr (), t)" "sv_files t = sv_files s"
      using memory_files(5) [of "room_of cx" s] by (simp add: cancelPendingAutoContinue_def)
    have "confined_server (cx_now cx) p s (snd (store (closeRoom (room_of cx) (cx_now cx)) t))"
      using confined_expired that by (simp add: confined_server_def store_files c(2))
    then show ?thesis
      unfolding close_by_ttl_def snd_bindA [of "cancelPendingAutoContinue (room_of cx)"] c
        snd_bindA [of "store (closeRoom (room_of cx) (cx_now cx))"]
      using confined_server_trans alongD [OF rest] by (fastforce split: sum.split)
  qed
  then show "confined_server (cx_now cx) p s (snd (closeExpiredRoomIfNeeded cx s))"
    by (simp add: closeExpired_cases confined_server_def confined_refl split: stored.split)
qed

lemma confined_snapshot: "along (confined_server (cx_now cx) p) (waitSnapshot cx a n)"
  unfolding waitSnapshot_def Let_def
  by (intro confined_seq confined_expire along_if confined_memory confined_store)
    (simp_all add: store_reads_state confined_refl reads_ops(2) [unfolded reads_def, rule_format])

interpretation confined: server_effect "confined_server (cx_now cx)" cx for cx
proof
  show "confined_server (cx_now cx) p s s" for p s
    by (simp add: confined_server_def confined_refl)
  show "confined_server (cx_now cx) p s u"
    if "confined_server (cx_now cx) p s t" "confined_server (cx_now cx) p t u" for p s t u
    using that by (rule confined_server_trans)
  show "along (confined_server (cx_now cx) p) (bindA (store (appendMessageResult (room_of cx) (p_alias p) body (cx_now cx) mx))
      (\<lambda>r. if ar_idempotent r then ret () else notify cx))" for p body mx
    by (intro confined_seq confined_store confined_appends along_if confined_memory) simp_all
  show "along (confined_server (cx_now cx) p) (bindA (waitSnapshot cx (p_alias p) n)
      (\<lambda>r. if r = None then bindA (hub_wait (room_of cx) (p_alias p) n) (\<lambda>_. ret ()) else ret ()))" for p n
    by (intro confined_seq confined_snapshot along_if confined_memory) simp_all
  show "along (confined_server (cx_now cx) p) (bindA (store (closeRoom (room_of cx) (cx_now cx)))
      (\<lambda>_. bindA (appendSystem cx t) (\<lambda>_. notify cx)))" if "p_is_host p" for p t
    by (intro confined_seq confined_store confined_host that confined_announce)
qed (intro confined_memory confined_store confined_upsert confined_host confined_post confined_comment
      confined_announce confined_expire; simp)+

text \<open>Claim C16. A request without a valid token changes nothing. A request of a participant, whatever
  its method, path and body, changes the room's files only within what its caller may do: the log
  grows by messages of the caller or the server, no post or comment is altered and the new ones are
  the caller's, no other participant's record and none of the caller's rights change, cursors and
  channels stay, and unless the caller is the host the room's settings, brief, session and status
  stay too, apart from the closing of an expired room.\<close>

theorem request_confined:
  "case caller cx s of
     None \<Rightarrow> snd (handleRequest number cx s) = s
   | Some p \<Rightarrow> confined p (cx_now cx) (sv_files s) (sv_files (snd (handleRequest number cx s)))"
  using confined.request_effect [where cx = cx and s = s and number = number] by (simp add: confined_server_def split: option.splits)

end
