(* ===== verification/ServerSystem.thy ===== *)
theory ServerSystem
  imports ServerRuns ServerConfined ServerReplies
begin

text \<open>
  The room server as a system: a process started on a room, its steps, its invariant, and the
  refinement of the stores by its files. A small concrete server serves the instances.
\<close>

subsection \<open>The server as a system\<close>

text \<open>A server starts on a room that the stores have evolved before.\<close>

definition server_start :: "RoomServer \<Rightarrow> bool" where
  "server_start s \<longleftrightarrow> (\<exists>f0 f. startRoom f0 \<and> store_step\<^sup>*\<^sup>* f0 f \<and> s = new_server f)"

definition server_inv :: "string \<Rightarrow> RoomServer \<Rightarrow> bool" where
  "server_inv r s \<longleftrightarrow> store_inv (sv_files s) \<and> waiters_ok r s \<and> timers_ok r s"

lemma new_server_frame [simp]: "sv_files (new_server f) = f" "sv_waiters (new_server f) = []"
    "sv_pending (new_server f) = []" "sv_timers (new_server f) = []"
  by (simp_all add: new_server_def)

interpretation server: refinement server_start "server_step number pf opts" "server_inv (op_roomId opts)"
    sv_files "store_step\<^sup>*\<^sup>*" for number pf opts
proof
  show "server_inv (op_roomId opts) s" if "server_start s" for s
    using that
    by (auto simp: server_start_def server_inv_def waiters_ok_def timers_ok_def room_waiters_def
        intro: store.reachable_inv)
  show "server_inv (op_roomId opts) t" if "server_inv (op_roomId opts) s" "server_step number pf opts s t" for s t
    using server_step_served [OF that(2)] that(1) served_inv [OF server_step_served [OF that(2)]]
    by (simp add: server_inv_def served_def)
  show "store_step\<^sup>*\<^sup>* (sv_files s) (sv_files t)"
    if "server_inv (op_roomId opts) s" "server_step number pf opts s t" for s t
    using server_step_served [OF that(2)] by (simp add: served_def)
qed

lemmas server_reachable = server.reachable_inv

lemma server_start_files:
  assumes "server_start s"
  obtains f0 where "startRoom f0" "store_step\<^sup>*\<^sup>* f0 (sv_files s)"
  using assms by (auto simp: server_start_def)

text \<open>Claim C18. Whatever requests, timers and resumed polls a server handles, in any order, the room's
  files only move by operations of the stores: they stay a state the stores reach from a freshly
  created room, the invariant of the stores holds in it, and the log of the start is a prefix of the
  log.\<close>

theorem server_refines_stores:
  assumes "server_start s" "(server_step number pf opts)\<^sup>*\<^sup>* s t"
  shows "\<exists>f0. startRoom f0 \<and> store_step\<^sup>*\<^sup>* f0 (sv_files s) \<and> store_step\<^sup>*\<^sup>* (sv_files s) (sv_files t) \<and>
    store_inv (sv_files t) \<and> prefix (room_log (sv_files s)) (room_log (sv_files t))"
proof -
  obtain f0 where f0: "startRoom f0" "store_step\<^sup>*\<^sup>* f0 (sv_files s)"
    using assms(1) by (rule server_start_files)
  have inv: "store_inv (sv_files s)" using f0 by (rule store.reachable_inv)
  have "store_step\<^sup>*\<^sup>* (sv_files s) (sv_files t)"
    using server.abs_steps [OF assms(2) server.init_inv [OF assms(1)]] by simp
  with f0 inv show ?thesis by (blast intro: store.steps_inv store.steps_log)
qed

subsection \<open>A server to run\<close>

definition lab_platform :: Platform where
  "lab_platform = \<lparr> pf_url = Some, pf_resolve = (\<lambda>path base. base @ path), pf_origin = Some,
     pf_sha256 = (\<lambda>t. t), pf_message = (\<lambda>e. ''error''),
     pf_locale_key = (\<lambda>t. case t of Iso n \<Rightarrow> n | BadStamp _ \<Rightarrow> 0), pf_asset = (\<lambda>_. None) \<rparr>"

definition lab_options :: ResolvedOptions where
  "lab_options = \<lparr> op_roomId = ''lab'', op_baseUrl = ''http://lab'', op_maxBodyBytes = 100,
     op_maxMessages = 10, op_rateLimitPerMinute = 5, op_loopGuardLimit = 3, op_waitHoldMs = 25000,
     op_allowInsecureRemote = True \<rparr>"

definition lab_member :: Participant where
  "lab_member = \<lparr> p_alias = ''ann'', p_display_name = None, p_kind = K_agent, p_location = L_remote,
     p_install = I_lite, p_attention = PA_attending, p_is_host = False,
     p_token_hash = Some ''ab'', p_removed_at = None, p_joinedAt = Iso 0, p_lastSeenAt = Iso 0,
     p_supported_modes = None, p_requested_mode = None, p_effective_mode = None,
     p_poll_cadence_s = None, p_safety_wake_s = None, p_forum_review_channel = None,
     p_session_id = None \<rparr>"

definition lab_request :: "string \<Rightarrow> string \<Rightarrow> json option \<Rightarrow> int \<Rightarrow> RequestContext" where
  "lab_request meth path body now =
     \<lparr> cx_req = \<lparr> rq_method = meth, rq_pathname = path, rq_query = [], rq_host = Some ''lab'',
         rq_origin = None, rq_referer = None, rq_authorization = Some ''Bearer ab'',
         rq_chunks = (if body = None then [] else [9]), rq_json = body \<rparr>,
       cx_options = lab_options, cx_platform = lab_platform, cx_public = None, cx_now = now,
       cx_fresh = ''r'' \<rparr>"

definition lab_server :: RoomServer where
  "lab_server = new_server (snd (upsertParticipant ''lab'' lab_member lab_room))"

lemma lab_server_start: "server_start lab_server"
  unfolding server_start_def lab_server_def
  using lab_room_created store_step.board [OF boardroom_step.room [OF room_step.upsert]]
  by (blast intro: r_into_rtranclp)

definition lab_files :: RoomFiles where
  "lab_files = lab_room\<lparr> rf_participants := File [lab_member] \<rparr>"

lemma lab_server_eval: "lab_server = new_server lab_files"
  by (simp add: lab_server_def lab_files_def upsertParticipant_def roomPaths_def bindA_apply lab_room_eval
      assertSafeSlug_def isSafeSlug_iff slug_chars_def write_participants_def lab_member_def Let_def)

lemma server_refines_stores_witness:
  "\<exists>f0. startRoom f0 \<and> store_inv (sv_files (snd (handleRequest (\<lambda>_. []) (lab_request ''POST'' ''/leave'' None 5) lab_server)))"
proof -
  have "(server_step (\<lambda>_. []) lab_platform lab_options)\<^sup>*\<^sup>* lab_server
      (snd (handleRequest (\<lambda>_. []) (lab_request ''POST'' ''/leave'' None 5) lab_server))"
    by (intro r_into_rtranclp server_step.request) (simp_all add: lab_request_def)
  from server_refines_stores [OF lab_server_start this] show ?thesis by blast
qed

end
