(* ===== verification/ServerPolls.thy ===== *)
theory ServerPolls
  imports ServerSystem
begin

text \<open>
  Held polls. No poll is dropped: until its handler resumes it is waiting or resolved. None waits
  while there is something for it, a new message resolves all of them, and a resolved poll delivers
  the message.
\<close>

subsection \<open>No poll is dropped\<close>

definition tracked :: "string \<Rightarrow> RoomServer \<Rightarrow> Waiter set" where
  "tracked r s = set (room_waiters r (sv_waiters s)) \<union> set (sv_resolved s)"

definition polls_ok :: "string \<Rightarrow> RoomServer \<Rightarrow> bool" where
  "polls_ok r s \<longleftrightarrow> distinct (map wt_id (room_waiters r (sv_waiters s) @ sv_resolved s)) \<and>
     (\<forall>w \<in> tracked r s. wt_id w < sv_nextWaiter s)"

definition polls_kept :: "string \<Rightarrow> RoomServer \<Rightarrow> RoomServer \<Rightarrow> bool" where
  "polls_kept r s t \<longleftrightarrow> (polls_ok r s \<longrightarrow> polls_ok r t \<and> tracked r s \<subseteq> tracked r t)"

lemma polls_kept_refl [simp]: "polls_kept r s s"
  by (simp add: polls_kept_def)

lemma polls_kept_trans: "polls_kept r s t \<Longrightarrow> polls_kept r t u \<Longrightarrow> polls_kept r s u"
  by (auto simp: polls_kept_def)

lemma polls_seq:
  "along (polls_kept r) m \<Longrightarrow> (\<And>x. along (polls_kept r) (g x)) \<Longrightarrow> along (polls_kept r) (bindA m g)"
  by (rule along_bindA) (rule polls_kept_trans)

lemma polls_frame:
  assumes "\<And>s. sv_waiters (snd (m s)) = sv_waiters s" "\<And>s. sv_resolved (snd (m s)) = sv_resolved s"
    and "\<And>s. sv_nextWaiter (snd (m s)) = sv_nextWaiter s"
  shows "along (polls_kept r) m"
  by (rule alongI) (simp add: polls_kept_def polls_ok_def tracked_def assms)

lemma polls_store: "along (polls_kept r) (store act)"
  by (rule polls_frame) (simp_all add: store_def split: prod.split sum.split)

text \<open>A notification moves every waiter of the room to the resolved ones, in order.\<close>

lemma notify_resolves:
  "sv_resolved (snd (notify cx s)) = sv_resolved s @ room_waiters (room_of cx) (sv_waiters s)"
  "sv_nextWaiter (snd (notify cx s)) = sv_nextWaiter s"
proof -
  have "sv_resolved (foldl (\<lambda>t w. hub_done (room_of cx) w t) s ws) = sv_resolved s @ ws \<and>
      sv_nextWaiter (foldl (\<lambda>t w. hub_done (room_of cx) w t) s ws) = sv_nextWaiter s" for ws s
    by (induction ws arbitrary: s) (simp_all add: hub_done_def Let_def)
  then show "sv_resolved (snd (notify cx s)) = sv_resolved s @ room_waiters (room_of cx) (sv_waiters s)"
    "sv_nextWaiter (snd (notify cx s)) = sv_nextWaiter s"
    by (simp_all add: notify_def hub_notify_def)
qed

lemma polls_notify: "along (polls_kept (room_of cx)) (notify cx)"
  by (rule alongI) (auto simp: polls_kept_def polls_ok_def tracked_def notify_clears notify_resolves)

lemma polls_system: "along (polls_kept r) (appendSystem cx txt)"
  unfolding appendSystem_def by (intro polls_seq polls_store) (simp add: along_def)

lemma polls_announce: "along (polls_kept (room_of cx)) (bindA (appendSystem cx txt) (\<lambda>_. notify cx))"
  by (intro polls_seq polls_system polls_notify)

lemma polls_cancel: "along (polls_kept r) (cancelPendingAutoContinue r')"
  by (rule polls_frame) (simp_all add: cancelPendingAutoContinue_def split: option.split)

lemma polls_pure: "along (polls_kept r) (ret x)"
  by (simp add: along_def)

lemma polls_counts: "along (polls_kept r) (modify (sv_loopCounts_update g) :: unit server_action)"
    "along (polls_kept r) (modify (sv_pending_update h) :: unit server_action)"
    "along (polls_kept r) (modify (sv_autoCounts_update k) :: unit server_action)"
    "along (polls_kept r) (modify (sv_timers_update l) :: unit server_action)"
    "along (polls_kept r) (gets v)"
  by (rule polls_frame; simp)+

lemma polls_expire: "along (polls_kept (room_of cx)) (closeExpiredRoomIfNeeded cx)"
  unfolding closeExpiredRoomIfNeeded_def
  by (intro polls_seq along_if polls_store polls_cancel polls_system polls_notify polls_pure)

lemma polls_snapshot: "along (polls_kept (room_of cx)) (waitSnapshot cx a n)"
  unfolding waitSnapshot_def Let_def
  by (intro polls_seq along_if polls_expire polls_store polls_pure)

lemma polls_hold: "along (polls_kept r) (hub_wait r a n)"
  by (rule alongI)
    (auto simp: polls_kept_def polls_ok_def tracked_def hub_wait_def room_waiters_update Let_def less_Suc_eq)

interpretation polls: server_effect "\<lambda>_. polls_kept (room_of cx)" cx for cx
proof
  show "polls_kept (room_of cx) s u" if "polls_kept (room_of cx) s t" "polls_kept (room_of cx) t u" for s t u
    using that by (rule polls_kept_trans)
  show "along (polls_kept (room_of cx)) (enforceRateLimit key l t)" for key l t
    by (rule polls_frame) (simp_all add: enforceRateLimit_def split: prod.split)
  show "along (polls_kept (room_of cx)) (schedulePendingAutoContinue cx a d)" for a d
    by (rule polls_frame) (simp_all add: schedulePendingAutoContinue_def Let_def)
qed (intro polls_kept_refl polls_counts polls_cancel polls_store polls_announce polls_seq polls_notify
    polls_system polls_expire polls_snapshot polls_hold polls_pure along_if)+

text \<open>The other steps. A resumed poll leaves; its answer is what its handler returns.\<close>

lemma polls_abort:
  assumes "polls_ok r s"
  shows "polls_ok r (snd (hub_abort r ident s)) \<and> tracked r (snd (hub_abort r ident s)) = tracked r s"
proof (cases "find (\<lambda>w. wt_id w = ident) (room_waiters r (sv_waiters s))")
  case None
  with assms show ?thesis by (simp add: hub_abort_def)
next
  case (Some w)
  then have w: "w \<in> set (room_waiters r (sv_waiters s))" by (auto simp: find_Some_iff)
  let ?ws = "room_waiters r (sv_waiters s)"
  have d: "distinct (map wt_id ?ws)" "inj_on wt_id (set ?ws)"
    using assms by (simp_all add: polls_ok_def distinct_map)
  have rest: "set (filter (\<lambda>x. wt_id x \<noteq> wt_id w) ?ws) = set ?ws - {w}"
    using d w by (auto dest: inj_onD)
  have shape: "room_waiters r (sv_waiters (snd (hub_abort r ident s))) = filter (\<lambda>x. wt_id x \<noteq> wt_id w) ?ws"
    "sv_resolved (snd (hub_abort r ident s)) = sv_resolved s @ [w]"
    "sv_nextWaiter (snd (hub_abort r ident s)) = sv_nextWaiter s"
    using Some by (simp_all add: hub_abort_def hub_done_waiters) (simp_all add: hub_done_def Let_def)
  have same: "tracked r (snd (hub_abort r ident s)) = tracked r s"
    unfolding tracked_def shape rest using w by auto
  have "distinct (map wt_id (room_waiters r (sv_waiters (snd (hub_abort r ident s))) @ sv_resolved (snd (hub_abort r ident s))))"
    unfolding shape using assms w d by (auto simp: polls_ok_def distinct_map_filter)
  with same show ?thesis using assms by (simp add: polls_ok_def shape)
qed

lemma polls_complete: "along (polls_kept (room_of cx)) (completeAutoContinue cx a)"
proof -
  have caught: "along (polls_kept (room_of cx))
      (\<lambda>s. case appendSystem cx txt s of (Inl e, t) \<Rightarrow> (Inr (), t) | (Inr u, t) \<Rightarrow> notify cx t)" for "txt"
    using polls_announce [of cx "txt"] by (simp only: along_def announce_caught simp_thms)
  show ?thesis
    unfolding completeAutoContinue_def complete_read_def complete_finish_def clearRoomLoopCounts_def Let_def
    by (intro polls_seq along_if along_option along_sum polls_cancel polls_counts polls_pure caught)
qed

lemma polls_timer: "along (polls_kept (room_of cx)) (timer_fires cx h)"
  unfolding timer_fires_def
  by (intro polls_seq along_option polls_complete polls_counts polls_pure)

text \<open>A resumed poll leaves the server; the others stay.\<close>

lemma polls_resume:
  assumes "polls_ok (room_of cx) s" "w \<in> set (sv_resolved s)"
  shows "polls_ok (room_of cx) (snd (getWait_resume cx w s)) \<and>
    tracked (room_of cx) s - {w} \<subseteq> tracked (room_of cx) (snd (getWait_resume cx w s))"
proof -
  let ?r = "room_of cx" and ?s = "sv_resolved_update (filter (\<lambda>x. wt_id x \<noteq> wt_id w)) s"
  have inj: "inj_on wt_id (tracked ?r s)"
    using assms(1) unfolding polls_ok_def distinct_map tracked_def set_append by blast
  have in_s: "w \<in> tracked ?r s" using assms(2) by (simp add: tracked_def)
  have ok: "polls_ok ?r ?s"
    using assms(1) by (auto simp: polls_ok_def tracked_def distinct_map_filter)
  have rest: "tracked ?r s - {w} \<subseteq> tracked ?r ?s"
    using inj_onD [OF inj _ _ in_s] by (auto simp: tracked_def)
  let ?g = "\<lambda>afterWait. case afterWait of Some r \<Rightarrow> ret (Respond 200 (WaitReply r))
    | None \<Rightarrow> ret (Respond 200 (WaitReply (buildWaitResponse (cx_platform cx) ?r RS_open (wt_alias w) []
        (wt_since w) (advertisedBaseUrl cx) True True)))"
  have g: "getWait_resume cx w s = bindA (waitSnapshot cx (wt_alias w) (wt_since w)) ?g ?s"
    unfolding getWait_resume_def by (subst bindA_apply) simp
  have "polls_kept ?r ?s (snd (getWait_resume cx w s))"
    unfolding g by (rule alongD) (intro polls_seq polls_snapshot along_option polls_pure)
  note kept = mp [OF this [unfolded polls_kept_def] ok]
  show ?thesis by (rule conjI [OF conjunct1 [OF kept] subset_trans [OF rest conjunct2 [OF kept]]])
qed

lemma server_step_polls:
  assumes "server_step number pf opts s t" "polls_ok (op_roomId opts) s"
  shows "polls_ok (op_roomId opts) t \<and>
    (\<forall>w \<in> tracked (op_roomId opts) s - tracked (op_roomId opts) t. w \<in> set (sv_resolved s) \<and>
      (\<exists>cx. cx_options cx = opts \<and> t = snd (getWait_resume cx w s)))"
  using assms(1)
proof (cases rule: server_step.cases)
  case (request cx)
  then show ?thesis
    using polls.request_effect [where cx = cx and s = s and number = number] assms(2)
    by (auto simp: polls_kept_def split: option.splits)
next
  case (resume cx w)
  then show ?thesis using polls_resume [of cx s w] assms(2) by blast
next
  case (hold_over ident)
  then show ?thesis using polls_abort [OF assms(2), of ident] by auto
next
  case (timer cx handle)
  then show ?thesis
    using alongD [OF polls_timer [of cx handle], of s] assms(2) by (auto simp: polls_kept_def)
next
  case shutdown
  then show ?thesis
    using alongD [OF polls_cancel [of "op_roomId opts" "op_roomId opts"], of s] assms(2)
    by (auto simp: polls_kept_def)
qed

lemma polls_reachable:
  assumes "server_start s" "(server_step number pf opts)\<^sup>*\<^sup>* s t"
  shows "polls_ok (op_roomId opts) t"
  using assms(2)
proof (induction rule: rtranclp_induct)
  case base
  then show ?case using assms(1)
    by (auto simp: server_start_def polls_ok_def tracked_def new_server_def room_waiters_def)
next
  case (step t u)
  then show ?case using server_step_polls by blast
qed

lemma held_until_resolved:
  assumes "polls_ok (op_roomId opts) t" "w \<in> set (room_waiters (op_roomId opts) (sv_waiters t))"
    and "server_step number pf opts t u"
  shows "w \<in> set (room_waiters (op_roomId opts) (sv_waiters u)) \<or> w \<in> set (sv_resolved u)"
proof -
  have "w \<notin> set (sv_resolved t)" using assms(1,2) by (auto simp: polls_ok_def)
  then have "w \<in> tracked (op_roomId opts) u"
    using server_step_polls [OF assms(3,1)] assms(2) by (auto simp: tracked_def)
  then show ?thesis by (simp add: tracked_def)
qed


subsection \<open>A new message is delivered\<close>

lemma post_message_shape:
  assumes "handleRequest number cx s = (Inr (Respond 201 (MessageReply m False)), t)"
  obtains f b g res u where "appendMessageResult (room_of cx) f b (cx_now cx) (Some (op_maxMessages (cx_options cx))) (sv_files u) = (Inr res, g)"
    "ar_message res = m" "\<not> ar_idempotent res" "t = snd (notify cx (u\<lparr> sv_files := g \<rparr>))"
proof -
  have "answers (rq_method (cx_req cx)) (rq_pathname (cx_req cx)) 201 (MessageReply m False)"
    using endsD [OF ends_request [of cx number], of s] assms by simp
  then have post: "rq_method (cx_req cx) = ''POST''" "rq_pathname (cx_req cx) = ''/messages''" by simp_all
  have "map_of (ENDPOINTS number) (''POST'', ''/messages'') = Some postMessage" by (simp add: ENDPOINTS_def)
  then obtain v where "postMessage cx v = (Inr (Respond 201 (MessageReply m False)), t)"
    using assms post unfolding handleRequest_def Let_def bindA_Inr_iff by auto
  then obtain p :: Participant and body u res t' where u:
      "store (appendMessageResult (room_of cx) (p_alias p) body (cx_now cx) (Some (op_maxMessages (cx_options cx)))) u = (Inr res, t')"
      "(if ar_idempotent res then ret (Respond 200 (MessageReply (ar_message res) True))
        else bindA (notify cx) (\<lambda>_. ret (Respond 201 (MessageReply (ar_message res) False)))) t' =
          (Inr (Respond 201 (MessageReply m False)), t)"
    unfolding postMessage_def bindA_Inr_iff split_beta
    by - (elim exE conjE, rule that, assumption, assumption)
  then obtain g where "appendMessageResult (room_of cx) (p_alias p) body (cx_now cx)
      (Some (op_maxMessages (cx_options cx))) (sv_files u) = (Inr res, g)" "t' = u\<lparr> sv_files := g \<rparr>"
    by (auto simp: store_Inr)
  moreover have "\<not> ar_idempotent res" "ar_message res = m" "t = snd (notify cx t')"
    using u(2) by (auto simp: bindA_Inr_iff split: if_splits)
  ultimately show thesis using that by blast
qed

lemma post_message_result:
  assumes "handleRequest number cx s = (Inr (Respond 201 (MessageReply m False)), t)"
  shows "m \<in> set (room_log (sv_files t)) \<and> room_waiters (room_of cx) (sv_waiters t) = [] \<and> isSafeSlug (room_of cx)"
proof -
  obtain f b g res u where posted: "appendMessageResult (room_of cx) f b (cx_now cx)
      (Some (op_maxMessages (cx_options cx))) (sv_files u) = (Inr res, g)"
    "ar_message res = m" "\<not> ar_idempotent res" "t = snd (notify cx (u\<lparr> sv_files := g \<rparr>))"
    using assms by (rule post_message_shape)
  have "m \<in> set (room_log g)" "isSafeSlug (room_of cx)"
    using posted(1-3) by (auto simp: appendMessageResult_def bindA_Inr_iff Let_def room_log_def commit_message_def
        split: option.splits if_splits)
  then show ?thesis unfolding posted(4) by (simp add: notify_clears)
qed

text \<open>A sound room that has passed its expiry closes without an error.\<close>

lemma close_by_ttl_closes:
  assumes "store_inv (sv_files s)" "isSafeSlug (room_of cx)"
  shows "\<exists>st t. close_by_ttl cx s = (Inr st, t) \<and> rs_status st = RS_closed"
proof -
  obtain c where cancel: "cancelPendingAutoContinue (room_of cx) s = (Inr (), c)" "sv_files c = sv_files s"
    by (simp add: cancelPendingAutoContinue_def split: option.split)
  have "room_inv (sv_files s)" using assms(1) by (simp add: store_inv_def board_inv_def)
  then obtain st g where close: "closeRoom (room_of cx) (cx_now cx) (sv_files s) = (Inr st, g)"
    using assms(2) by (elim room_invE) (auto simp: closeRoom_def roomPaths_def bindA_apply Let_def)
  have "room_inv g"
    using store.step_inv [OF assms(1) append_steps(3) [of "sv_files s" "room_of cx" "cx_now cx"]] close
    by (simp add: store_inv_def board_inv_def)
  then obtain k h where append: "appendServerMessage (room_of cx) ''system'' ''room closed by ttl'' (cx_now cx) g = (Inr k, h)"
    using append_server_ok [of g "room_of cx" "''system''" "''room closed by ttl''" "cx_now cx"] assms(2)
    by (auto simp: isSafeSlug_iff slug_chars_def)
  have "close_by_ttl cx s = (Inr st, snd (notify cx (c\<lparr> sv_files := h \<rparr>)))"
    using close append cancel
    by (simp add: close_by_ttl_def bindA_apply store_def appendSystem_apply(1) notify_def hub_notify_def)
  with closeRoom_closed [OF close] show ?thesis by blast
qed

text \<open>A resumed poll with a message after its cursor delivers it, or reports the end of the room.\<close>

lemma resume_delivers:
  assumes "store_inv (sv_files s)" "isSafeSlug (room_of cx)" "m \<in> set (room_log (sv_files s))" "wt_since w < m_id m"
  shows "\<exists>reply. fst (getWait_resume cx w s) = Inr (Respond 200 (WaitReply reply)) \<and>
    (m \<in> set (wr_messages reply) \<or> wr_room_status reply = RS_closed)"
proof -
  let ?s = "sv_resolved_update (filter (\<lambda>x. wt_id x \<noteq> wt_id w)) s"
  obtain st ms where files: "rf_state (sv_files s) = File st" "rf_messages (sv_files s) = File ms" "room_log (sv_files s) = ms"
    using assms(1) by (auto simp: store_inv_def board_inv_def elim: room_invE)
  have "\<exists>r u. waitSnapshot cx (wt_alias w) (wt_since w) ?s = (Inr (Some r), u) \<and>
      (m \<in> set (wr_messages r) \<or> wr_room_status r = RS_closed)"
  proof (cases "expired (cx_now cx) (sv_files s)")
    case True
    have "store_inv (sv_files ?s)" using assms(1) by simp
    then obtain st' t where "close_by_ttl cx ?s = (Inr st', t)" "rs_status st' = RS_closed"
      using close_by_ttl_closes [of ?s cx] assms(2) by blast
    then have "closeExpiredRoomIfNeeded cx ?s = (Inr st', t)" "rs_status st' = RS_closed"
      using True assms(2) by (simp_all add: closeExpired_cases)
    then show ?thesis by (simp add: waitSnapshot_def bindA_apply buildWaitResponse_def Let_def)
  next
    case False
    then have "closeExpiredRoomIfNeeded cx ?s = (Inr (withRoomDefaults st), ?s)"
      using files assms(2) by (simp add: closeExpired_cases)
    moreover have "store (readMessages (room_of cx)) ?s = (Inr ms, ?s)"
      using files assms(2) by (simp add: store_def readMessages_def roomPaths_def bindA_apply assertSafeSlug_def)
    moreover have "filter (\<lambda>m. m_id m > wt_since w) ms \<noteq> []"
      using assms(3,4) files(3) by (auto simp: filter_empty_conv)
    ultimately show ?thesis
      using assms(3,4) files(3) by (simp add: waitSnapshot_def bindA_apply buildWaitResponse_def Let_def)
  qed
  then show ?thesis by (auto simp: getWait_resume_def bindA_apply)
qed

text \<open>Claim C20. A message accepted by \<open>POST /messages\<close> resolves every poll held in the room: none is
  left waiting, and when the handler of a resolved poll whose cursor is before the message resumes,
  at whatever time, it answers with the message, or with the end of the room when that came first.\<close>

theorem new_message_wakes_polls:
  assumes "server_start s" "(server_step number pf opts)\<^sup>*\<^sup>* s t" "cx_options cx = opts" "cx_platform cx = pf"
    and "w \<in> set (room_waiters (op_roomId opts) (sv_waiters t))"
    and "handleRequest number cx t = (Inr (Respond 201 (MessageReply m False)), u)" "wt_since w < m_id m"
    and "cx_options cx' = opts"
  shows "room_waiters (op_roomId opts) (sv_waiters u) = [] \<and> w \<in> set (sv_resolved u) \<and>
    (\<exists>reply. fst (getWait_resume cx' w u) = Inr (Respond 200 (WaitReply reply)) \<and>
      (m \<in> set (wr_messages reply) \<or> wr_room_status reply = RS_closed))"
proof -
  have step: "server_step number pf opts t u"
    using server_step.request [OF assms(3,4), of number t] assms(6) by simp
  have inv: "store_inv (sv_files u)"
    using server_reachable [OF assms(1) rtranclp.rtrancl_into_rtrancl [OF assms(2) step]]
    by (simp add: server_inv_def)
  note result = post_message_result [OF assms(6), unfolded assms(3)]
  have "w \<in> set (sv_resolved u)"
    using held_until_resolved [OF polls_reachable [OF assms(1,2)] assms(5) step] result by simp
  then show ?thesis
    using resume_delivers [OF inv, of cx' m w] result assms(7,8) by blast
qed

subsection \<open>A concrete poll\<close>

definition lab_held :: RoomServer where
  "lab_held = snd (handleRequest (\<lambda>_. []) (lab_request ''GET'' ''/wait'' None 5) lab_server)"

abbreviation lab_step :: "RoomServer \<Rightarrow> RoomServer \<Rightarrow> bool" where
  "lab_step \<equiv> server_step (\<lambda>_. []) lab_platform lab_options"

lemma lab_request_step: "lab_step s (snd (handleRequest (\<lambda>_. []) (lab_request meth path body now) s))"
  by (rule server_step.request) (simp_all add: lab_request_def)

lemma lab_held_reached: "lab_step\<^sup>*\<^sup>* lab_server lab_held"
  unfolding lab_held_def by (rule r_into_rtranclp) (rule lab_request_step)

lemma lab_held_waits: "room_waiters ''lab'' (sv_waiters lab_held) = [\<lparr> wt_id = 0, wt_alias = ''ann'', wt_since = 0 \<rparr>]"
  by code_simp


lemma lab_posts: "fst (handleRequest (\<lambda>_. []) (lab_request ''POST'' ''/messages'' (Some hello_body) 6) lab_held) =
   Inr (Respond 201 (MessageReply \<lparr> m_id = 1, m_room = ''lab'', m_ts = Iso 6, m_from = ''ann'', m_type = MT_message,
     m_text = ''hi'', m_reply_to = None, m_client_msg_id = Some ''c1'', m_mentions = [] \<rparr> False))"
  by code_simp

lemma new_message_wakes_polls_witness:
  "\<exists>reply m. fst (getWait_resume (lab_request ''GET'' ''/wait'' None 7) \<lparr> wt_id = 0, wt_alias = ''ann'', wt_since = 0 \<rparr>
      (snd (handleRequest (\<lambda>_. []) (lab_request ''POST'' ''/messages'' (Some hello_body) 6) lab_held))) =
        Inr (Respond 200 (WaitReply reply)) \<and>
     m_text m = ''hi'' \<and> (m \<in> set (wr_messages reply) \<or> wr_room_status reply = RS_closed)"
proof -
  let ?m = "\<lparr> m_id = 1, m_room = ''lab'', m_ts = Iso 6, m_from = ''ann'', m_type = MT_message,
     m_text = ''hi'', m_reply_to = None, m_client_msg_id = Some ''c1'', m_mentions = [] \<rparr>"
  let ?cx = "lab_request ''POST'' ''/messages'' (Some hello_body) 6"
  have room: "op_roomId lab_options = ''lab''" by (simp add: lab_options_def)
  have post: "handleRequest (\<lambda>_. []) ?cx lab_held =
      (Inr (Respond 201 (MessageReply ?m False)), snd (handleRequest (\<lambda>_. []) ?cx lab_held))"
    using lab_posts by (metis prod.collapse)
  show ?thesis
    using new_message_wakes_polls [OF lab_server_start lab_held_reached _ _ _ post,
        of "\<lparr> wt_id = 0, wt_alias = ''ann'', wt_since = 0 \<rparr>" "lab_request ''GET'' ''/wait'' None 7"]
    by (intro exI [of _ ?m] ex_comm [THEN iffD1]) (auto simp: room lab_held_waits lab_request_def)
qed

end
