(* ===== verification/ServerPauses.thy ===== *)
theory ServerPauses
  imports ServerSystem
begin

text \<open>
  The loop guard. An agent that posts too often in a row is stopped; when the host allows it, the
  stop becomes a pause with a timer, and the timer's approval is given once, and only while the room
  is open.
\<close>

subsection \<open>One timer\<close>


subsection \<open>What the guard lets through\<close>

definition times_in_a_row :: "RequestContext \<Rightarrow> Participant \<Rightarrow> RoomServer \<Rightarrow> nat" where
  "times_in_a_row cx p s = (case map_of (sv_loopCounts s) (loop_key (room_of cx) (p_alias p)) of Some n \<Rightarrow> n | None \<Rightarrow> 0)"

lemma counts_frame [simp]: "sv_loopCounts (snd (store act s)) = sv_loopCounts s"
    "sv_loopCounts (snd (schedulePendingAutoContinue cx a d s)) = sv_loopCounts s"
  by (simp_all add: store_def schedulePendingAutoContinue_def Let_def split: prod.split sum.split)

lemma loop_key_inj: "loop_key r a = loop_key r b \<longleftrightarrow> a = b"
  by (simp add: loop_key_def)

text \<open>What one agent's message does to the counts, whatever state the room is in.\<close>

lemma agent_counted:
  assumes "p_kind q \<noteq> K_human"
  shows "times_in_a_row cx p (snd (enforceLoopGuard cx q s)) =
      (if p_alias q = p_alias p \<and> map_of (sv_pending s) (room_of cx) = None
       then times_in_a_row cx p s + 1 else times_in_a_row cx p s)"
    and "fst (enforceLoopGuard cx q s) = Inr () \<Longrightarrow> map_of (sv_pending s) (room_of cx) = None \<and>
      times_in_a_row cx q s < op_loopGuardLimit (cx_options cx)"
proof -
  let ?u = "sv_loopCounts_update (AList.update (loop_key (room_of cx) (p_alias q)) (times_in_a_row cx q s + 1)) s"
  let ?over = "bindA (store (roomPaths (room_of cx))) (\<lambda>_. bindA (store readRoomState) (\<lambda>state.
     if rs_auto_continue_enabled state \<noteq> Some True
     then http 429 ''loop_guard'' ''loop guard stopped repeated agent messages''
     else bindA (schedulePendingAutoContinue cx (p_alias q)
            (case rs_auto_continue_delay_s state of Some d \<Rightarrow> d | None \<Rightarrow> AUTO_CONTINUE_DELAY_DEFAULT_S)) (\<lambda>_.
          http 429 ''loop_guard'' ''loop guard paused: an automatic continue is pending''))) :: unit server_action"
  have run: "enforceLoopGuard cx q s =
      (if map_of (sv_pending s) (room_of cx) \<noteq> None
       then (Inl (HttpError 429 ''loop_guard'' ''loop guard paused: an automatic continue is pending''), s)
       else if times_in_a_row cx q s + 1 \<le> op_loopGuardLimit (cx_options cx) then (Inr (), ?u) else ?over ?u)"
    using assms
    by (simp add: enforceLoopGuard_def times_in_a_row_def Let_def bindA_apply [of "gets f" for f]
        bindA_apply [of "modify g" for g] http_def)
  have over: "sv_loopCounts (snd (?over ?u)) = sv_loopCounts ?u" "fst (?over ?u) \<noteq> Inr ()"
    by (simp_all add: snd_bindA http_def split: sum.split) (auto simp: bindA_apply http_def split: prod.splits sum.splits)
  show "times_in_a_row cx p (snd (enforceLoopGuard cx q s)) =
      (if p_alias q = p_alias p \<and> map_of (sv_pending s) (room_of cx) = None
       then times_in_a_row cx p s + 1 else times_in_a_row cx p s)"
    using over(1) unfolding run by (auto simp: times_in_a_row_def update_conv' loop_key_inj)
  show "map_of (sv_pending s) (room_of cx) = None \<and> times_in_a_row cx q s < op_loopGuardLimit (cx_options cx)"
    if "fst (enforceLoopGuard cx q s) = Inr ()"
    using that over(2) unfolding run by (auto split: if_splits)
qed

lemma human_resets:
  assumes "p_kind h = K_human"
  shows "fst (enforceLoopGuard cx h s) = Inr () \<and> times_in_a_row cx p (snd (enforceLoopGuard cx h s)) = 0 \<and>
    map_of (sv_pending (snd (enforceLoopGuard cx h s))) (room_of cx) = None"
proof -
  let ?t = "snd (clearRoomLoopCounts (room_of cx) s)"
  have "map_of (sv_loopCounts ?t) (loop_key (room_of cx) (p_alias p)) = None"
    by (auto simp: clearRoomLoopCounts_def map_of_eq_None_iff loop_key_def starts_with_def)
  moreover have "enforceLoopGuard cx h s = cancelPendingAutoContinue (room_of cx) ?t"
    using assms by (simp add: enforceLoopGuard_def Let_def clearRoomLoopCounts_def bindA_apply [of "modify g" for g])
  ultimately show ?thesis
    by (auto simp: times_in_a_row_def cancelPendingAutoContinue_def delete_conv' split: option.split)
qed

text \<open>How many messages of one agent pass in a run of messages.\<close>

primrec passes :: "Participant \<Rightarrow> (RequestContext \<times> Participant) list \<Rightarrow> RoomServer \<Rightarrow> nat" where
  "passes p [] s = 0"
| "passes p (m # ms) s = (if p_alias (snd m) = p_alias p \<and> fst (enforceLoopGuard (fst m) (snd m) s) = Inr () then 1 else 0) +
     passes p ms (snd (enforceLoopGuard (fst m) (snd m) s))"

lemma passes_bound:
  assumes "\<forall>m \<in> set ms. cx_options (fst m) = opts \<and> p_kind (snd m) \<noteq> K_human" "cx_options cx = opts"
  shows "passes p ms s \<le> op_loopGuardLimit opts - times_in_a_row cx p s"
  using assms(1)
proof (induction ms arbitrary: s)
  case (Cons m ms)
  let ?t = "snd (enforceLoopGuard (fst m) (snd m) s)"
  have same: "times_in_a_row (fst m) v u = times_in_a_row cx v u" for v u
    using Cons.prems assms(2) by (simp add: times_in_a_row_def)
  have kind: "p_kind (snd m) \<noteq> K_human" using Cons.prems by simp
  have "passes p ms ?t \<le> op_loopGuardLimit opts - times_in_a_row cx p ?t" using Cons by simp
  moreover have same_alias: "times_in_a_row cx (snd m) s = times_in_a_row cx p s" if "p_alias (snd m) = p_alias p"
    using that by (simp add: times_in_a_row_def)
  ultimately show ?case
    using agent_counted(1) [OF kind, of "fst m" p s, unfolded same]
      agent_counted(2) [OF kind, of "fst m" s, unfolded same] Cons.prems
    by (cases "fst (enforceLoopGuard (fst m) (snd m) s) = Inr ()"; cases "p_alias (snd m) = p_alias p") (auto split: if_splits)
qed simp


subsection \<open>The approval\<close>

lemma appendServer_shape:
  assumes "appendServerMessage r frm body now f = (Inr m, g)" "rf_messages f = File ms"
  shows "rf_messages g = File (ms @ [m]) \<and> m_text m = body \<and> m_from m = frm \<and> m_type m = MT_system"
  using assms
  by (auto simp: appendServerMessage_def bindA_Inr_iff Let_def commit_message_def buildMessage_def split: stored.splits)

text \<open>The state before the announcement, and the whole completion of a pause.\<close>

definition rearmed :: "string \<Rightarrow> RoomServer \<Rightarrow> RoomServer" where
  "rearmed r s = sv_autoCounts_update (\<lambda>counts. AList.update r ((case map_of counts r of Some n \<Rightarrow> n | None \<Rightarrow> 0) + 1) counts)
     (sv_loopCounts_update (filter (\<lambda>kc. \<not> starts_with (r @ '':'') (fst kc)))
     (sv_pending_update (AList.delete r) s))"

lemma complete_cases:
  assumes "isSafeSlug (room_of cx)" "rf_state (sv_files s) = File st" "map_of (sv_pending s) (room_of cx) = Some q"
  shows "snd (completeAutoContinue cx a s) =
    (if rs_status st \<noteq> RS_open \<or> elapsed (cx_now cx) (rs_expires_at st)
     then snd (cancelPendingAutoContinue (room_of cx) s)
     else snd (bindA (appendSystem cx (approval_text a)) (\<lambda>_. notify cx) (rearmed (room_of cx) s)))"
proof -
  have "bindA (roomPaths (room_of cx)) (\<lambda>_. readRoomState) (sv_files s) = (Inr (withRoomDefaults st), sv_files s)"
    using assms by (simp add: roomPaths_def bindA_apply assertSafeSlug_def)
  then have "snd (completeAutoContinue cx a s) =
      snd (complete_finish cx a (Inr (withRoomDefaults st)) s)"
    using assms by (simp add: completeAutoContinue_def complete_read_def Let_def bindA_apply)
  also have "\<dots> = (if rs_status st \<noteq> RS_open \<or> elapsed (cx_now cx) (rs_expires_at st)
     then snd (cancelPendingAutoContinue (room_of cx) s)
     else snd ((\<lambda>s. case appendSystem cx (approval_text a) s of (Inl e, t) \<Rightarrow> (Inr (), t) | (Inr u, t) \<Rightarrow> notify cx t)
       (rearmed (room_of cx) s)))"
    using assms
    by (simp add: complete_finish_def Let_def bindA_apply [of "gets f" for f] bindA_apply [of "modify g" for g]
        clearRoomLoopCounts_def rearmed_def withRoomDefaults_def)
  finally show ?thesis by (simp only: announce_caught)
qed

lemma rearmed_frame [simp]: "sv_files (rearmed r s) = sv_files s" "sv_timers (rearmed r s) = sv_timers s"
    "map_of (sv_pending (rearmed r s)) r = None"
    "map_of (sv_autoCounts (rearmed r s)) r = Some ((case map_of (sv_autoCounts s) r of Some n \<Rightarrow> n | None \<Rightarrow> 0) + 1)"
    "map_of (sv_loopCounts (rearmed r s)) (loop_key r a) = None"
  by (auto simp: rearmed_def delete_conv' update_conv' map_of_eq_None_iff loop_key_def starts_with_def)

lemma notify_memory: "sv_loopCounts (snd (notify cx s)) = sv_loopCounts s" "sv_autoCounts (snd (notify cx s)) = sv_autoCounts s"
proof -
  have "sv_loopCounts (foldl (\<lambda>t w. hub_done r w t) s ws) = sv_loopCounts s \<and>
      sv_autoCounts (foldl (\<lambda>t w. hub_done r w t) s ws) = sv_autoCounts s" for r ws s
    by (induction ws arbitrary: s) (simp_all add: hub_done_def Let_def)
  then show "sv_loopCounts (snd (notify cx s)) = sv_loopCounts s" "sv_autoCounts (snd (notify cx s)) = sv_autoCounts s"
    by (simp_all add: notify_def hub_notify_def)
qed

text \<open>Claim C22. When the timer of a pause goes off, in any state a server reaches, the pause and its
  timer are over. If the room was closed or has expired by then, nothing else happens: no approval,
  no message, the room's files are as before. Otherwise exactly one message is appended, the
  server's approval for the paused agent; the counts of the room start again, the approval is
  counted, and every held poll of the room is resolved.\<close>

theorem auto_continue_exact:
  assumes "server_start s" "(server_step number pf opts)\<^sup>*\<^sup>* s t" "cx_options cx = opts" "isSafeSlug (op_roomId opts)"
    and "map_of (sv_timers t) handle = Some a" "rf_state (sv_files t) = File st"
    and "u = snd (timer_fires cx handle t)"
  shows "map_of (sv_pending u) (op_roomId opts) = None \<and> sv_timers u = [] \<and>
    (if rs_status st \<noteq> RS_open \<or> elapsed (cx_now cx) (rs_expires_at st)
     then sv_files u = sv_files t \<and> sv_autoCounts u = sv_autoCounts t \<and> sv_waiters u = sv_waiters t
     else (\<exists>m. room_log (sv_files u) = room_log (sv_files t) @ [m] \<and> m_text m = approval_text a \<and>
             m_from m = ''system'' \<and> m_type m = MT_system) \<and>
       times_in_a_row cx p u = 0 \<and> room_waiters (op_roomId opts) (sv_waiters u) = [] \<and>
       map_of (sv_autoCounts u) (op_roomId opts) =
         Some ((case map_of (sv_autoCounts t) (op_roomId opts) of Some n \<Rightarrow> n | None \<Rightarrow> 0) + 1))"
proof -
  let ?r = "op_roomId opts"
  have inv: "server_inv ?r t" using assms(1,2) by (rule server_reachable)
  then obtain q where q: "map_of (sv_pending t) ?r = Some q" "sv_timers t = [(handle, a)]"
    using assms(5) by (auto simp: server_inv_def timers_ok_def split: option.splits if_splits)
  let ?t = "sv_timers_update (AList.delete handle) t"
  have u: "u = snd (completeAutoContinue cx a ?t)"
    using q assms(7) by (simp add: timer_fires_def bindA_apply)
  note cases = complete_cases [of cx ?t st q a, folded u, simplified, unfolded assms(3), OF assms(4,6) q(1)]
  show ?thesis
  proof (cases "rs_status st \<noteq> RS_open \<or> elapsed (cx_now cx) (rs_expires_at st)")
    case True
    then have "u = snd (cancelPendingAutoContinue ?r ?t)" using cases by simp
    then show ?thesis using True q by (auto simp: cancelPendingAutoContinue_def delete_conv')
  next
    case False
    let ?v = "rearmed ?r ?t"
    have room: "room_inv (sv_files t)" using inv by (simp add: server_inv_def store_inv_def board_inv_def)
    then obtain ms where ms: "rf_messages (sv_files t) = File ms" by (rule room_invE)
    obtain m g where app: "appendServerMessage ?r ''system'' (approval_text a) (cx_now cx) (sv_files t) = (Inr m, g)"
      using append_server_ok [OF room assms(4), of "''system''" "approval_text a" "cx_now cx"]
      by (auto simp: isSafeSlug_iff slug_chars_def)
    have "u = snd (notify cx (?v\<lparr> sv_files := g \<rparr>))"
      using cases False app appendSystem_apply(1) [of cx "approval_text a" ?v m g] assms(3) by (simp add: bindA_apply)
    then show ?thesis
      using False appendServer_shape [OF app ms] ms notify_clears [of cx "?v\<lparr> sv_files := g \<rparr>"]
        notify_memory [of cx "?v\<lparr> sv_files := g \<rparr>"] assms(3) q(2)
      by (auto simp: room_log_def times_in_a_row_def)
  qed
qed

subsection \<open>A concrete pause\<close>

definition strict_options :: ResolvedOptions where
  "strict_options = lab_options\<lparr> op_loopGuardLimit := 0 \<rparr>"

definition pausing_server :: RoomServer where
  "pausing_server = new_server (snd (updateLoopGuardPreference ''lab'' True None ''host'' 1
     (snd (upsertParticipant ''lab'' lab_member lab_room))))"

definition paused_server :: RoomServer where
  "paused_server = snd (handleRequest (\<lambda>_. [])
     ((lab_request ''POST'' ''/messages'' (Some hello_body) 6)\<lparr> cx_options := strict_options \<rparr>) pausing_server)"

lemma pausing_server_start: "server_start pausing_server"
proof -
  let ?f = "snd (upsertParticipant ''lab'' lab_member lab_room)"
  have "store_step\<^sup>*\<^sup>* lab_room ?f"
    by (intro r_into_rtranclp store_step.board boardroom_step.room room_step.upsert)
  then have "store_step\<^sup>*\<^sup>* lab_room (snd (updateLoopGuardPreference ''lab'' True None ''host'' 1 ?f))"
    by (rule rtranclp.rtrancl_into_rtrancl) (intro store_step.board boardroom_step.room room_step.guard)
  then show ?thesis unfolding server_start_def pausing_server_def using lab_room_created by blast
qed

lemma paused_reached: "(server_step (\<lambda>_. []) lab_platform strict_options)\<^sup>*\<^sup>* pausing_server paused_server"
  unfolding paused_server_def by (intro r_into_rtranclp server_step.request) (simp_all add: lab_request_def)

lemma paused_evaluated: "map_of (sv_pending paused_server) ''lab'' = Some \<lparr> pa_alias = ''ann'', pa_timer = 0, pa_expiresAt = 30006 \<rparr>"
    "sv_timers paused_server = [(0, ''ann'')]" "room_log (sv_files paused_server) = []"
    "rf_state (sv_files paused_server) = File \<lparr> rs_id = ''lab'', rs_status = RS_open,
       rs_attendance_policy = Some AP_manual_ok, rs_createdAt = Iso 0, rs_updatedAt = Iso 1,
       rs_expires_at = None, rs_next_message_id = 1, rs_brief_version = 1,
       rs_brief_updated_at = Iso 0, rs_brief_updated_by = ''host'', rs_active_session = None,
       rs_auto_continue_enabled = Some True, rs_auto_continue_delay_s = Some 30 \<rparr>"
  by code_simp+

lemma strict_room: "op_roomId strict_options = ''lab''" "op_loopGuardLimit strict_options = 0"
  by (simp_all add: strict_options_def lab_options_def)



lemma auto_continue_exact_witness:
  "\<exists>m. room_log (sv_files (snd (timer_fires ((lab_request [] [] None 30006)\<lparr> cx_options := strict_options \<rparr>) 0 paused_server))) = [m] \<and>
     m_text m = approval_text ''ann'' \<and> m_from m = ''system'' \<and> m_type m = MT_system"
  using auto_continue_exact [OF pausing_server_start paused_reached _ _ _ paused_evaluated(4) refl,
      of "(lab_request [] [] None 30006)\<lparr> cx_options := strict_options \<rparr>" 0 "''ann''" lab_member]
  by (simp add: strict_room paused_evaluated(1,2,3) slug_lab elapsed_def)

end
