(* ===== verification/ServerPaging.thy ===== *)
theory ServerPaging
  imports ServerSystem
begin

text \<open>
  Paging through the log of a room with \<open>GET /messages\<close>: a client that follows the cursors of the
  answers reads every message once, in order, in both directions, and stops. The cursors travel as
  numbers in query parameters, so first: a number written in decimal reads back as itself.
\<close>

subsection \<open>Decimal cursors\<close>

lemma round_int [simp]: "round_half_even (of_int i) = i"
  by (simp add: round_half_even_def)

lemma binary_exponent_nat:
  assumes "0 < n"
  shows "binary_exponent (of_nat n) = int (floorlog 2 n) - 1"
proof -
  have "(2::nat) ^ (floorlog 2 n - 1) \<le> n" using assms floorlog_bounds [of n 2] by simp
  then have "(2::rat) ^ (floorlog 2 n - 1) \<le> of_nat n"
    by (metis of_nat_le_iff of_nat_numeral of_nat_power)
  moreover have "floorlog 2 n > 0" using assms by (simp add: floorlog_def)
  moreover have "floorlog 2 1 = 1" by (simp add: floorlog_def)
  ultimately show ?thesis
    using assms by (simp add: binary_exponent_def pow2_def Let_def nat_diff_distrib)
qed

text \<open>Integers of at most 53 bits are doubles.\<close>

lemma to_double_nat:
  assumes "n < 2 ^ 53"
  shows "to_double (of_nat n) = Finite (of_nat n)"
proof (cases "n = 0")
  case False
  let ?k = "floorlog 2 n" and ?r = "rat_of_nat n"
  have k: "0 < ?k" "?k \<le> 53"
    using assms False floorlog_leI [of n 2 53] by (auto simp: floorlog_def)
  then have "nat (53 - int ?k) = 53 - ?k" by simp
  with k have p: "pow2 (int ?k - 53) = 1 / 2 ^ (53 - ?k)" by (simp add: pow2_def)
  have "?r / pow2 (int ?k - 53) = of_int (int (n * 2 ^ (53 - ?k)))" by (simp add: p)
  then have v: "of_int (round_half_even (?r / pow2 (int ?k - 53))) * pow2 (int ?k - 53) = ?r"
    by (simp only: round_int) (simp add: p)
  have "?r < 2 ^ 53" using assms by (metis of_nat_less_iff of_nat_numeral of_nat_power)
  also have "(2::rat) ^ 53 < pow2 1024" by (simp add: pow2_def)
  finally have small: "\<not> pow2 1024 \<le> ?r" by simp
  show ?thesis
    using False small k unfolding to_double_def Let_def
    by (simp add: binary_exponent_nat v)
qed (simp add: to_double_def)

lemma digit_char: "d < 10 \<Longrightarrow> digit_value (char_of (48 + d)) = Some d"
  by (simp add: digit_value_def of_char_of)

lemma nat_str_decimal: "list_all (digit_in 10) (nat_str n) \<and> nat_str n \<noteq> [] \<and> digits_in 10 (nat_str n) = n"
proof (induction n rule: nat_str.induct)
  case (1 n)
  have mod10: "n mod 10 < 10" by simp
  show ?case
  proof (cases "n < 10")
    case True
    then show ?thesis by (simp add: nat_str.simps [of n] digit_in_def digits_in_def digit_char)
  next
    case False
    with 1 show ?thesis
      by (simp add: nat_str.simps [of n] digit_in_def digits_in_def digit_char [OF mod10])
  qed
qed

lemma digit_in_char: "digit_in 10 c \<Longrightarrow> 48 \<le> (of_char c :: nat) \<and> (of_char c :: nat) \<le> 57"
  by (auto simp: digit_in_def digit_value_def Let_def split: if_splits option.splits)

lemma digit_not: "digit_in 10 c \<Longrightarrow> \<not> js_space c \<and> c \<noteq> CHR ''-'' \<and> c \<noteq> CHR ''+'' \<and> c \<noteq> CHR ''I'' \<and>
    c \<noteq> CHR ''x'' \<and> c \<noteq> CHR ''X'' \<and> c \<noteq> CHR ''o'' \<and> c \<noteq> CHR ''O'' \<and> c \<noteq> CHR ''b'' \<and> c \<noteq> CHR ''B''"
  by (drule digit_in_char) (auto simp: js_space_def)

text \<open>A cursor written as a decimal text reads back as the same number.\<close>

lemma js_Number_decimal:
  assumes "n < 2 ^ 53"
  shows "js_Number (nat_str n) = Finite (of_nat n)"
proof -
  let ?s = "nat_str n"
  have dec: "list_all (digit_in 10) ?s" "?s \<noteq> []" "digits_in 10 ?s = n" using nat_str_decimal by auto
  then have dig: "c \<in> set ?s \<Longrightarrow> digit_in 10 c" for c by (simp add: list_all_iff)
  obtain c cs where s: "?s = c # cs" using dec(2) by (cases ?s) auto
  have "dropWhile js_space xs = xs" if "set xs \<subseteq> set ?s" for xs
    using that dig digit_not by (cases xs) auto
  then have trim: "js_trim ?s = ?s" by (simp add: js_trim_def)
  have "take 2 ?s \<notin> set [''0x'', ''0X'', ''0o'', ''0O'', ''0b'', ''0B'']"
  proof (cases cs)
    case (Cons d ds)
    then show ?thesis using dig [of d] digit_not [of d] s by auto
  qed (simp add: s)
  then have "prefixed_integer ?s = None" by (auto simp: prefixed_integer_def)
  moreover have "c \<noteq> CHR ''-'' \<and> c \<noteq> CHR ''+'' \<and> c \<noteq> CHR ''I''" using dig [of c] digit_not [of c] s by simp
  moreover have "take_digits ?s = (?s, [])"
    using dig by (simp add: take_digits_def takeWhile_eq_all_conv dropWhile_eq_Nil_conv)
  then have "unsigned_decimal ?s = Some (of_nat n)"
    using dec(2,3) by (simp add: unsigned_decimal_def power_of_ten_def)
  ultimately show ?thesis
    using to_double_nat [OF assms] dec(2) s by (simp add: js_Number_def trim [unfolded s])
qed

subsection \<open>Following the cursors\<close>

text \<open>
  The reads of a client on a log that does not change: forward from a cursor with \<open>since_id\<close> and the
  \<open>next_since_id\<close> of the answer until a page is empty, backward with \<open>before_id\<close> and the first id of
  the page while \<open>has_more\<close> is true.
\<close>

definition later :: "Message list \<Rightarrow> nat \<Rightarrow> Message list" where
  "later all c = filter (\<lambda>m. c < m_id m) all"

definition earlier :: "Message list \<Rightarrow> nat \<Rightarrow> Message list" where
  "earlier all c = filter (\<lambda>m. m_id m < c) all"

lemma later_later: "m \<in> set (later all c) \<Longrightarrow> later all (m_id m) = filter (\<lambda>x. m_id m < m_id x) (later all c)"
  by (auto simp: later_def intro!: filter_cong)

lemma earlier_earlier: "m \<in> set (earlier all c) \<Longrightarrow> earlier all (m_id m) = filter (\<lambda>x. m_id x < m_id m) (earlier all c)"
  by (auto simp: earlier_def intro!: filter_cong)

lemma shorter_later: "m \<in> set (later all c) \<Longrightarrow> length (later all (m_id m)) < length (later all c)"
  using length_filter_less [of m "later all c" "\<lambda>x. m_id m < m_id x"] by (simp add: later_later)

lemma shorter_earlier: "m \<in> set (earlier all c) \<Longrightarrow> length (earlier all (m_id m)) < length (earlier all c)"
  using length_filter_less [of m "earlier all c" "\<lambda>x. m_id x < m_id m"] by (simp add: earlier_earlier)

lemma pages: "newer_page all c (Some n) = take n (later all c)" "older_page all c (Some n) = lastN n (earlier all c)"
  by (simp_all add: newer_page_def older_page_def later_def earlier_def Let_def)

function read_forward :: "Message list \<Rightarrow> nat \<Rightarrow> nat \<Rightarrow> Message list list" where
  "read_forward all n cursor =
     (let page = newer_page all cursor (Some n)
      in if page = [] then [] else page # read_forward all n (last_id page cursor))"
  by pat_completeness auto

termination
proof (relation "measure (\<lambda>(all, n, c). length (later all c))")
  fix all n c page
  assume "page = newer_page all c (Some n)" "page \<noteq> []"
  then have "last page \<in> set (later all c)" "last_id page c = m_id (last page)"
    using last_in_set [of page] by (auto simp only: pages last_id_def if_False) (metis in_set_takeD)
  then show "((all, n, last_id page c), (all, n, c)) \<in> measure (\<lambda>(all, n, c). length (later all c))"
    using shorter_later by simp
qed simp

function read_backward :: "Message list \<Rightarrow> nat \<Rightarrow> nat \<Rightarrow> Message list list" where
  "read_backward all n cursor =
     (let page = older_page all cursor (Some n)
      in if more_before all page then page # read_backward all n (m_id (hd page)) else [page])"
  by pat_completeness auto

termination
proof (relation "measure (\<lambda>(all, n, c). length (earlier all c))")
  fix all n c page
  assume page: "page = older_page all c (Some n)" "more_before all page"
  then have "page \<noteq> []" by (auto simp: more_before_def)
  then have "hd page \<in> set (earlier all c)"
    using hd_in_set [of page] page(1) by (metis in_set_dropD lastN_def pages(2))
  then show "((all, n, m_id (hd page)), (all, n, c)) \<in> measure (\<lambda>(all, n, c). length (earlier all c))"
    using shorter_earlier by simp
qed simp

declare read_forward.simps [simp del] read_backward.simps [simp del]

subsection \<open>Nothing is missed, nothing repeated\<close>

abbreviation by_id :: "Message list \<Rightarrow> bool" where
  "by_id all \<equiv> sorted_wrt (\<lambda>a b. m_id a < m_id b) all"

lemma later_rest:
  assumes "by_id all" "later all c = front @ m # back"
  shows "later all (m_id m) = back"
proof -
  have sorted: "by_id (later all c)" using assms(1) by (simp add: later_def sorted_wrt_filter)
  have "later all (m_id m) = filter (\<lambda>x. m_id m < m_id x) (later all c)"
    using assms(2) by (intro later_later) simp
  also have "\<dots> = back"
    using sorted unfolding assms(2) by (auto simp: sorted_wrt_append filter_empty_conv filter_id_conv)
  finally show ?thesis .
qed

lemma earlier_rest:
  assumes "by_id all" "earlier all c = front @ m # back"
  shows "earlier all (m_id m) = front"
proof -
  have sorted: "by_id (earlier all c)" using assms(1) by (simp add: earlier_def sorted_wrt_filter)
  have "earlier all (m_id m) = filter (\<lambda>x. m_id x < m_id m) (earlier all c)"
    using assms(2) by (intro earlier_earlier) simp
  also have "\<dots> = front"
    using sorted unfolding assms(2) by (auto simp: sorted_wrt_append filter_empty_conv filter_id_conv)
  finally show ?thesis .
qed

text \<open>The number of pages of \<open>n\<close> entries that hold a list.\<close>

definition page_count :: "nat \<Rightarrow> nat \<Rightarrow> nat" where
  "page_count n len = (len + n - 1) div n"

lemma page_count_none [simp]: "0 < n \<Longrightarrow> page_count n 0 = 0"
  by (simp add: page_count_def)

lemma page_count_next:
  assumes "0 < n" "0 < len"
  shows "page_count n len = Suc (page_count n (len - n))"
proof (cases "n \<le> len")
  case True
  then obtain d where d: "len = n + d" using le_Suc_ex by blast
  have "len + n - 1 = (d + n - 1) + n" using assms(1) d by simp
  then have "page_count n len = (d + n - 1 + n) div n" by (simp only: page_count_def)
  also have "\<dots> = Suc ((d + n - 1) div n)"
    using div_add_self2 [of n "d + n - 1"] assms(1) by (simp only: Suc_eq_plus1 neq0_conv)
  finally show ?thesis by (simp add: page_count_def d)
next
  case False
  have "len + n - 1 = (len - 1) + n" using assms by simp
  moreover have "(len - 1) div n = 0" using False by simp
  ultimately have "page_count n len = 1" using assms(1) by (simp only: page_count_def div_add_self2)
  then show ?thesis using False assms(1) by simp
qed

lemma read_forward_complete:
  assumes "by_id all" "0 < n"
  shows "concat (read_forward all n c) = later all c \<and> length (read_forward all n c) = page_count n (length (later all c))"
  using assms
proof (induction all n c rule: read_forward.induct)
  case (1 all n c)
  let ?L = "later all c"
  show ?case
  proof (cases "?L = []")
    case True
    then show ?thesis using "1.prems" by (simp add: read_forward.simps [of all n c] pages)
  next
    case False
    let ?page = "take n ?L"
    have page: "?page \<noteq> []" using False "1.prems" by simp
    then have "?L = butlast ?page @ last ?page # drop n ?L"
      by (metis append_butlast_last_id append_take_drop_id append.assoc append_Cons append_Nil)
    then have rest: "later all (last_id ?page c) = drop n ?L"
      using later_rest [OF "1.prems"(1)] page by (simp add: last_id_def)
    have "concat (read_forward all n (last_id ?page c)) = drop n ?L \<and>
        length (read_forward all n (last_id ?page c)) = page_count n (length ?L - n)"
      using "1.IH" [OF refl] page "1.prems" rest by (simp add: pages)
    then show ?thesis
      using page page_count_next [of n "length ?L"] False "1.prems"
      by (simp add: read_forward.simps [of all n c] pages Let_def)
  qed
qed

lemma more_before_iff:
  assumes "by_id all" "earlier all c = front @ page"
  shows "more_before all page \<longleftrightarrow> page \<noteq> [] \<and> front \<noteq> []"
proof (cases page)
  case (Cons m ms)
  then have "earlier all (m_id m) = front" using earlier_rest [OF assms(1)] assms(2) by simp
  then show ?thesis using Cons by (auto simp: more_before_def earlier_def list_ex_iff filter_empty_conv)
qed (simp add: more_before_def)

lemma read_backward_complete:
  assumes "by_id all" "0 < n"
  shows "concat (rev (read_backward all n c)) = earlier all c \<and>
    length (read_backward all n c) = max 1 (page_count n (length (earlier all c)))"
  using assms
proof (induction all n c rule: read_backward.induct)
  case (1 all n c)
  let ?L = "earlier all c"
  let ?page = "lastN n ?L" and ?front = "take (length ?L - n) ?L"
  have split: "?L = ?front @ ?page" by (simp add: lastN_def)
  have more: "more_before all ?page \<longleftrightarrow> ?page \<noteq> [] \<and> ?front \<noteq> []"
    using "1.prems"(1) split by (rule more_before_iff)
  show ?case
  proof (cases "?front = []")
    case True
    then have "?L = ?page" using split by (metis append_Nil)
    moreover have "page_count n (length ?L) \<le> 1"
      using True "1.prems" page_count_next [of n "length ?L"] by (cases "?L = []") (auto simp: page_count_def)
    ultimately show ?thesis
      using more True by (simp add: read_backward.simps [of all n c] pages)
  next
    case False
    then have page: "?page \<noteq> []" "n < length ?L" using "1.prems" by (auto simp: lastN_def)
    then have "?L = ?front @ hd ?page # tl ?page" using split by simp
    then have rest: "earlier all (m_id (hd ?page)) = ?front" by (rule earlier_rest [OF "1.prems"(1)])
    have "concat (rev (read_backward all n (m_id (hd ?page)))) = ?front \<and>
        length (read_backward all n (m_id (hd ?page))) = max 1 (page_count n (length ?L - n))"
      using "1.IH" [OF refl] page False more "1.prems" rest by (simp add: pages)
    moreover have "0 < page_count n (length ?L - n)" using page "1.prems" page_count_next [of n "length ?L - n"] by simp
    ultimately show ?thesis
      using page_count_next [of n "length ?L"] more page False "1.prems" split [symmetric]
      by (simp add: read_backward.simps [of all n c] pages Let_def)
  qed
qed

subsection \<open>The endpoint\<close>

definition asking :: "(string \<times> string) list \<Rightarrow> RequestContext \<Rightarrow> RequestContext" where
  "asking q cx = cx\<lparr> cx_req := (cx_req cx)\<lparr> rq_query := q \<rparr> \<rparr>"

lemma asking_frame [simp]: "cx_options (asking q cx) = cx_options cx" "cx_now (asking q cx) = cx_now cx"
    "cx_platform (asking q cx) = cx_platform cx" "query (asking q cx) k = map_of q k"
    "bearerToken (cx_req (asking q cx)) = bearerToken (cx_req cx)"
  by (simp_all add: asking_def query_def bearerToken_def)

lemma asking_caller [simp]: "requireParticipant (asking q cx) False r s = requireParticipant cx False r s"
  unfolding requireParticipant_def by (cases "bearerToken (cx_req cx)") simp_all

lemma touch_succeeds:
  assumes "requireParticipant cx False False s = (Inr (p, token), s)" "isSafeSlug (p_alias p)"
  shows "\<exists>t. touchParticipant cx p a s = (Inr (), t) \<and> room_log (sv_files t) = room_log (sv_files s)
    \<and> rf_messages (sv_files t) = rf_messages (sv_files s) \<and> isSafeSlug (room_of cx)"
  using assms
  by (auto simp: requireParticipant_def bindA_Inr_iff http_def touchParticipant_def store_def upsertParticipant_def
      roomPaths_def bindA_apply assertSafeSlug_def write_participants_def room_log_def split: option.splits if_splits prod.splits sum.splits stored.splits)

lemma cursor_parses:
  assumes "int n \<le> max_safe"
  shows "parseSinceId (Some (nat_str n)) = ret n" "parseCursorParam (nat_str n) k = ret n"
    "0 < n \<Longrightarrow> parseMessageLimit (Some (nat_str n)) = ret (Some n)"
proof -
  have "js_Number (nat_str n) = Finite (of_nat n)" using assms by (intro js_Number_decimal) (simp add: max_safe_def)
  then show "parseSinceId (Some (nat_str n)) = ret n" "parseCursorParam (nat_str n) k = ret n"
    "0 < n \<Longrightarrow> parseMessageLimit (Some (nat_str n)) = ret (Some n)"
    using assms by (simp_all add: parseSinceId_def parseCursorParam_def parseMessageLimit_def Let_def)
qed

lemma getMessages_pages:
  assumes "store_inv (sv_files s)" "requireParticipant cx False False s = (Inr (p, token), s)" "isSafeSlug (p_alias p)"
    and "int c \<le> max_safe" "0 < n" "int n \<le> max_safe"
  shows "fst (getMessages (asking [(''since_id'', nat_str c), (''limit'', nat_str n)] cx) s) =
      Inr (Respond 200 (ForwardReply (newer_page (room_log (sv_files s)) c (Some n))
        (last_id (newer_page (room_log (sv_files s)) c (Some n)) c)))"
    and "fst (getMessages (asking [(''before_id'', nat_str c), (''limit'', nat_str n)] cx) s) =
      Inr (Respond 200 (BackwardReply (older_page (room_log (sv_files s)) c (Some n))
        (more_before (room_log (sv_files s)) (older_page (room_log (sv_files s)) c (Some n)))))"
proof -
  obtain ms where ms: "rf_messages (sv_files s) = File ms" "room_log (sv_files s) = ms"
    using assms(1) by (auto simp: store_inv_def board_inv_def elim: room_invE)
  have touched: "\<exists>t. touchParticipant (asking q cx) p (p_attention p) s = (Inr (), t) \<and>
      rf_messages (sv_files t) = File ms \<and> isSafeSlug (room_of cx)" for q
    using touch_succeeds [of "asking q cx" s p token "p_attention p"] assms(2,3) ms by auto
  obtain t where t: "touchParticipant (asking [(''since_id'', nat_str c), (''limit'', nat_str n)] cx) p (p_attention p) s = (Inr (), t)"
      "rf_messages (sv_files t) = File ms" "isSafeSlug (room_of cx)"
    using touched by blast
  then have read: "store (readMessages (room_of cx)) t = (Inr ms, t)"
    by (simp add: store_def readMessages_def roomPaths_def bindA_apply assertSafeSlug_def)
  show "fst (getMessages (asking [(''since_id'', nat_str c), (''limit'', nat_str n)] cx) s) =
      Inr (Respond 200 (ForwardReply (newer_page (room_log (sv_files s)) c (Some n))
        (last_id (newer_page (room_log (sv_files s)) c (Some n)) c)))"
    using assms(2,4-6) t read ms by (simp add: getMessages_def cursor_parses Let_def)
  obtain u where u: "touchParticipant (asking [(''before_id'', nat_str c), (''limit'', nat_str n)] cx) p (p_attention p) s = (Inr (), u)"
      "rf_messages (sv_files u) = File ms"
    using touched by blast
  then have read: "store (readMessages (room_of cx)) u = (Inr ms, u)"
    using t(3) by (simp add: store_def readMessages_def roomPaths_def bindA_apply assertSafeSlug_def)
  show "fst (getMessages (asking [(''before_id'', nat_str c), (''limit'', nat_str n)] cx) s) =
      Inr (Respond 200 (BackwardReply (older_page (room_log (sv_files s)) c (Some n))
        (more_before (room_log (sv_files s)) (older_page (room_log (sv_files s)) c (Some n)))))"
    using assms(2,4-6) u read ms by (simp add: getMessages_def cursor_parses Let_def)
qed

text \<open>Claim C24. In every state a server reaches, a participant's \<open>GET /messages\<close> with a cursor and a
  page size answers the page of the log at that cursor, forward and backward. A client that follows
  the cursors of these pages ends: forward it reads exactly the messages after its start, backward
  exactly those before it, each once and in the order of the log, in as many requests as full pages
  need.\<close>

theorem paging_complete:
  assumes "server_start s" "(server_step number pf opts)\<^sup>*\<^sup>* s t"
    and "requireParticipant cx False False t = (Inr (p, token), t)" "isSafeSlug (p_alias p)"
    and "int c \<le> max_safe" "0 < n" "int n \<le> max_safe"
  shows "let all = room_log (sv_files t) in
    fst (getMessages (asking [(''since_id'', nat_str c), (''limit'', nat_str n)] cx) t) =
      Inr (Respond 200 (ForwardReply (newer_page all c (Some n)) (last_id (newer_page all c (Some n)) c))) \<and>
    fst (getMessages (asking [(''before_id'', nat_str c), (''limit'', nat_str n)] cx) t) =
      Inr (Respond 200 (BackwardReply (older_page all c (Some n)) (more_before all (older_page all c (Some n))))) \<and>
    concat (read_forward all n c) = filter (\<lambda>m. c < m_id m) all \<and>
    length (read_forward all n c) = page_count n (length (filter (\<lambda>m. c < m_id m) all)) \<and>
    concat (rev (read_backward all n c)) = filter (\<lambda>m. m_id m < c) all \<and>
    length (read_backward all n c) = max 1 (page_count n (length (filter (\<lambda>m. m_id m < c) all)))"
proof -
  have inv: "store_inv (sv_files t)" using server_reachable [OF assms(1,2)] by (simp add: server_inv_def)
  then obtain st where "log_ok st (room_log (sv_files t))"
    by (auto simp: store_inv_def board_inv_def elim!: room_invE)
  then have sorted: "by_id (room_log (sv_files t))"
    by (auto simp: log_ok_def log_before_def elim: sorted_wrt_mono_rel [rotated])
  show ?thesis
    using getMessages_pages [OF inv assms(3-7)] read_forward_complete [OF sorted assms(6), of c]
      read_backward_complete [OF sorted assms(6), of c]
    by (simp add: Let_def later_def earlier_def)
qed

definition lab_posted :: RoomServer where
  "lab_posted = snd (handleRequest (\<lambda>_. []) (lab_request ''POST'' ''/messages'' (Some hello_body) 6) lab_server)"

lemma lab_posted_reached: "(server_step (\<lambda>_. []) lab_platform lab_options)\<^sup>*\<^sup>* lab_server lab_posted"
  unfolding lab_posted_def by (intro r_into_rtranclp server_step.request) (simp_all add: lab_request_def)

lemma lab_posted_evaluated:
  "fst (requireParticipant (lab_request ''GET'' ''/messages'' None 8) False False lab_posted) =
     Inr (lab_member\<lparr> p_lastSeenAt := Iso 6 \<rparr>, ''ab'')"
  "map m_id (room_log (sv_files lab_posted)) = [1]"
  by code_simp+

lemma paging_complete_witness:
  "map m_id (concat (read_forward (room_log (sv_files lab_posted)) 1 0)) = [1] \<and>
   length (read_forward (room_log (sv_files lab_posted)) 1 0) = 1 \<and>
   (\<exists>page. fst (getMessages (asking [(''since_id'', nat_str 0), (''limit'', nat_str 1)]
       (lab_request ''GET'' ''/messages'' None 8)) lab_posted) = Inr (Respond 200 (ForwardReply page 1)))"
proof -
  obtain m where log: "room_log (sv_files lab_posted) = [m]" "m_id m = 1"
    using lab_posted_evaluated(2) by auto
  have caller: "requireParticipant (lab_request ''GET'' ''/messages'' None 8) False False lab_posted =
      (Inr (lab_member\<lparr> p_lastSeenAt := Iso 6 \<rparr>, ''ab''), lab_posted)"
    using lab_posted_evaluated(1) requireParticipant_state
    by (metis prod.collapse)
  have safe: "isSafeSlug (p_alias (lab_member\<lparr> p_lastSeenAt := Iso 6 \<rparr>))"
    by (simp add: lab_member_def isSafeSlug_iff slug_chars_def)
  show ?thesis
    using paging_complete [OF lab_server_start lab_posted_reached caller safe, of 0 1]
    by (simp add: Let_def log max_safe_def page_count_def newer_page_def last_id_def)
qed

end
