(* ===== verification/ServerRates.thy ===== *)
theory ServerRates
  imports ServerSystem
begin

text \<open>
  The rate limits of the room server as a request limiter: what a key gets through in any minute, and
  that the map of buckets never holds one that has elapsed.
\<close>

definition bucket_window :: "string \<Rightarrow> (string \<times> RateBucket) list \<Rightarrow> (int \<times> nat) option" where
  "bucket_window key buckets = map_option (\<lambda>b. (bk_resetAt b, bk_count b)) (map_of buckets key)"

lemma prune_lookup: "distinct (map fst buckets) \<Longrightarrow> map_of (prune_buckets now buckets) key =
    (case map_of buckets key of Some b \<Rightarrow> if now < bk_resetAt b then Some b else None | None \<Rightarrow> None)"
proof (induction buckets)
  case (Cons kb bs)
  have gone: "map_of (filter (\<lambda>kb. now < bk_resetAt (snd kb)) bs) (fst kb) = None"
    using Cons.prems by (auto simp: map_of_eq_None_iff)
  with Cons show ?case by (cases kb) (auto simp: prune_buckets_def split: option.split)
qed (simp add: prune_buckets_def)

lemma bucket_distinct: "distinct (map fst buckets) \<Longrightarrow> distinct (map fst (snd (take_bucket limit now key buckets)))"
proof -
  assume "distinct (map fst buckets)"
  then have "distinct (map fst (prune_buckets now buckets))"
    by (simp add: prune_buckets_def distinct_map_filter)
  then show ?thesis
    by (simp add: take_bucket_def Let_def distinct_update split: option.split)
qed

text \<open>A window that is live counts on, any other starts again; other keys keep their live windows.\<close>

lemma take_window:
  assumes "distinct (map fst s)"
  shows "bucket_window j (snd (take_bucket limit now k s)) =
      (if j = k then (case bucket_window k s of
         Some (r, c) \<Rightarrow> if now < r then Some (r, Suc c) else Some (now + 60000, 1) | None \<Rightarrow> Some (now + 60000, 1))
       else if live_window (bucket_window j s) now then bucket_window j s else None)"
    and "fst (take_bucket limit now k s) \<longleftrightarrow> (case bucket_window k s of
       Some (r, c) \<Rightarrow> now < r \<longrightarrow> c < limit | None \<Rightarrow> True)"
  using prune_lookup [OF assms, of now k] prune_lookup [OF assms, of now j]
  by (cases "map_of s k"; cases "map_of s j"; force simp: take_bucket_def bucket_window_def live_window_def update_conv' Let_def)+

interpretation server_rate: request_limiter take_bucket bucket_window 60000 "\<lambda>buckets. distinct (map fst buckets)"
proof
  show "distinct (map fst (snd (take_bucket mx now k s)))" if "distinct (map fst s)" for s mx now k
    using that by (rule bucket_distinct)
qed (auto simp: take_window live_window_def split: option.splits)

text \<open>A run of rate checks, and how many of them a key passes.\<close>

primrec granted :: "(string \<Rightarrow> nat) \<Rightarrow> string \<Rightarrow> (int \<times> string) list \<Rightarrow> RoomServer \<Rightarrow> nat" where
  "granted limit key [] s = 0"
| "granted limit key (q # qs) s =
     (if snd q = key \<and> fst (enforceRateLimit (snd q) (limit (snd q)) (fst q) s) = Inr () then 1 else 0) +
     granted limit key qs (snd (enforceRateLimit (snd q) (limit (snd q)) (fst q) s))"

lemma rate_step: "fst (enforceRateLimit k l n s) = Inr () \<longleftrightarrow> fst (take_bucket l n k (sv_rateBuckets s))"
    "sv_rateBuckets (snd (enforceRateLimit k l n s)) = snd (take_bucket l n k (sv_rateBuckets s))"
  by (simp_all add: enforceRateLimit_def split: prod.split)

lemma granted_admitted: "granted limit key qs s = server_rate.admitted limit key qs (sv_rateBuckets s)"
  by (induction qs arbitrary: s) (simp_all add: rate_step)

lemma update_entry_set: "set (AList.update k v al) \<subseteq> insert (k, v) (set al)"
  by (induction al) auto

lemma buckets_live: "kb \<in> set (snd (take_bucket limit now key buckets)) \<Longrightarrow> now < bk_resetAt (snd kb)"
proof -
  assume kb: "kb \<in> set (snd (take_bucket limit now key buckets))"
  have old: "now < bk_resetAt (snd x)" if "x \<in> set (prune_buckets now buckets)" for x
    using that by (auto simp: prune_buckets_def)
  have new: "now < bk_resetAt (snd kb)"
    if "kb \<in> set (AList.update key b (prune_buckets now buckets))" "now < bk_resetAt b" for b
    using subsetD [OF update_entry_set that(1)] that(2) old [of kb] by auto
  show ?thesis
  proof (cases "map_of (prune_buckets now buckets) key")
    case None
    with kb show ?thesis
      by (intro new [of "\<lparr> bk_resetAt = now + 60000, bk_count = 1 \<rparr>"]) (simp_all add: take_bucket_def Let_def)
  next
    case (Some b)
    then have "now < bk_resetAt b" using old by (auto dest: map_of_SomeD)
    with kb Some show ?thesis by (intro new [of "b\<lparr> bk_count := bk_count b + 1 \<rparr>"]) (simp_all add: take_bucket_def Let_def)
  qed
qed

text \<open>Claim C25. In any minute, whatever other keys are checked in between and whatever their limits,
  a key passes at most twice its limit (the worst case of a fixed window), and at most its limit
  when it had no bucket at the start. After a check no bucket that has elapsed is left in the map.\<close>

theorem server_rate_bound:
  assumes "0 < limit key" "sorted (map fst qs)" "\<forall>q \<in> set qs. t \<le> fst q \<and> fst q < t + 60000"
    and "distinct (map fst (sv_rateBuckets s))"
  shows "granted limit key qs s \<le> 2 * limit key \<and>
    (map_of (sv_rateBuckets s) key = None \<longrightarrow> granted limit key qs s \<le> limit key) \<and>
    (\<forall>kb \<in> set (sv_rateBuckets (snd (enforceRateLimit key n now s))). now < bk_resetAt (snd kb))"
proof (intro conjI)
  have "\<not> live_window (bucket_window key (sv_rateBuckets s)) t" if "map_of (sv_rateBuckets s) key = None"
    using that by (simp add: bucket_window_def live_window_def)
  then show "granted limit key qs s \<le> 2 * limit key"
      "map_of (sv_rateBuckets s) key = None \<longrightarrow> granted limit key qs s \<le> limit key"
    using server_rate.admitted_bound [where mx = limit, OF assms] by (auto simp: granted_admitted)
  show "\<forall>kb \<in> set (sv_rateBuckets (snd (enforceRateLimit key n now s))). now < bk_resetAt (snd kb)"
    unfolding rate_step(2) by (blast intro: buckets_live)
qed

lemma server_rate_bound_witness:
  "granted (\<lambda>_. 1) ''lab:ann:join'' [(0, ''lab:ann:join''), (5, ''lab:bob:join''), (6, ''lab:ann:join'')] lab_server \<le> 1"
  using server_rate_bound [of "\<lambda>_. 1" "''lab:ann:join''"
      "[(0, ''lab:ann:join''), (5, ''lab:bob:join''), (6, ''lab:ann:join'')]" 0 lab_server]
  by (simp add: lab_server_def new_server_def del: granted.simps)

end
