(* ===== verification/CardTokens.thy ===== *)
theory CardTokens
  imports Cards
begin

text \<open>
  Where a card shows the participant's token: in one place, whatever the token is.
\<close>

lemma join_text_Cons: "join_text sep (a # ls) = a @ (if ls = [] then [] else sep @ join_text sep ls)"
  by (cases ls) simp_all

lemma join_text_append: "join_text sep (ks @ ls) =
    (if ks = [] then join_text sep ls else if ls = [] then join_text sep ks else join_text sep ks @ sep @ join_text sep ls)"
  by (induction ks) (auto simp: join_text_Cons)

text \<open>A text with the token in one place, after a given mark.\<close>

definition shows_once :: "string \<Rightarrow> (string \<Rightarrow> string) \<Rightarrow> bool" where
  "shows_once mark page \<longleftrightarrow> (\<exists>before after. \<forall>token. page token = before @ mark @ token @ after)"

lemma shows_once_lines:
  "shows_once mark (\<lambda>token. join_lines (upper @ (start @ mark @ token @ rest) # lower))"
  unfolding shows_once_def
  by (intro exI [of _ "(if upper = [] then [] else join_lines upper @ [CHR 0x0A]) @ start"]
      exI [of _ "rest @ (if lower = [] then [] else CHR 0x0A # join_lines lower)"])
    (simp add: join_lines_def join_text_append join_text_Cons)

lemma attend_token: "shows_once (''AG_TOKEN='' @ quote)
    (\<lambda>token. renderAttendCard number base who token brief policy attention channel)"
  unfolding renderAttendCard_def
  using shows_once_lines [of "''AG_TOKEN='' @ quote"
      "[''# Agent Gather Attend Card: '' @ who, [], ''## Room Brief'',
        if rb_body brief = [] then ''(empty)'' else rb_body brief, [], ''## Attendance Policy'',
        ''Policy: '' @ policy_name policy, describeAttendancePolicy policy, [],
        renderAttentionGuidance number attention None, [], ''## Commands'',
        ''Set these once; the token appears only here (keep it secret):'']"
      "''export AG_BASE='' @ quote @ base @ quote @ '' ''" quote]
  by simp

lemma human_token: "shows_once ''/#token='' (\<lambda>token. renderHumanInviteCard base who token brief)"
  unfolding renderHumanInviteCard_def
  using shows_once_lines [of "''/#token=''"
      "[''# Agent Gather Human Invite: '' @ who, [], ''## Room Brief'',
        if rb_body brief = [] then ''(empty)'' else rb_body brief, [], ''## Browser Link'']" base "[]"]
  by simp

text \<open>An invite card shows the participant's token in exactly one place, whatever the brief,
  the attendance policy and the declared attention are: an agent's card in the \<open>AG_TOKEN\<close> export, a
  human's in the fragment of the browser link. The rest of the card does not depend on it.\<close>

lemma card_token_once:
  "shows_once (if p_kind p = K_human then ''/#token='' else ''AG_TOKEN='' @ quote)
     (\<lambda>token. renderInviteCard number base p token brief policy)"
  using attend_token human_token by (simp add: renderInviteCard_def Let_def)

end
