(* ===== verification/WriterLock.thy ===== *)
theory WriterLock
  imports Prelude
begin

text \<open>
  \<open>storage/lock.ts\<close>: the writer lock every store operation runs under. A lock is a file that must
  not exist yet to be taken; its text names the process that took it, so that the lock of a dead
  process can be reclaimed. The model is a small file system (paths, inodes, texts, times) and tasks
  that run the code one file-system call at a time, in any interleaving, with processes that die.

  A task is one call of \<open>withWriterLock\<close>; several tasks may belong to a process. Its place in the code
  is \<open>lock_at\<close>; the inode it keeps is the one its own exclusive \<open>open\<close> created. A scratch name of a
  takeover is unique (process and counter), here a global counter.
\<close>

subsection \<open>Files, tasks, worlds\<close>

datatype lock_path = Primary | Reclaim | Scratch nat

text \<open>The text of a lock file: empty, a \<open>LockRecord\<close>, or anything else.\<close>

datatype lock_text = Blank | LockRecord nat nat | Junk

datatype lock_at =
    Open | Write nat | Chmod nat | Holding nat | Look | Judge lock_text
  | ReclaimOpen lock_text | ReclaimWrite lock_text nat | ReclaimRead lock_text nat
  | ReclaimRemove lock_text nat | ReclaimDone nat
  | ClearRead | ClearJudge lock_text | TakeRename lock_text | TakeRead lock_text nat
  | TakeLink nat | TakeDrop nat
  | Released | Failed

record LockTask =
  lt_pid :: nat
  lt_createdAt :: nat
  lt_startedAt :: int
  lt_at :: lock_at

record LockOptions =
  lo_timeoutMs :: int
  lo_staleAfterMs :: int

definition default_lock_options :: LockOptions where
  "default_lock_options = \<lparr> lo_timeoutMs = 5000, lo_staleAfterMs = 30000 \<rparr>"

record LockWorld =
  lw_dir :: "lock_path \<Rightarrow> nat option"
  lw_text :: "nat \<Rightarrow> lock_text"
  lw_mtime :: "nat \<Rightarrow> int"
  lw_next :: nat
  lw_now :: int
  lw_dead :: "nat list"
  lw_task :: "nat \<Rightarrow> LockTask"
  takeoverCounter :: nat

subsection \<open>File-system calls\<close>

text \<open>\<open>open(path, "wx")\<close>: a new empty file, or \<open>None\<close> when the path exists.\<close>

definition fs_create :: "lock_path \<Rightarrow> LockWorld \<Rightarrow> (nat \<times> LockWorld) option" where
  "fs_create p w = (case lw_dir w p of
     Some _ \<Rightarrow> None
   | None \<Rightarrow> Some (lw_next w, w\<lparr> lw_dir := (lw_dir w)(p \<mapsto> lw_next w), lw_text := (lw_text w)(lw_next w := Blank),
       lw_mtime := (lw_mtime w)(lw_next w := lw_now w), lw_next := lw_next w + 1 \<rparr>))"

text \<open>Writing through the handle reaches the inode, whatever the path names by then.\<close>

definition fs_write :: "nat \<Rightarrow> lock_text \<Rightarrow> LockWorld \<Rightarrow> LockWorld" where
  "fs_write n t w = w\<lparr> lw_text := (lw_text w)(n := t), lw_mtime := (lw_mtime w)(n := lw_now w) \<rparr>"

definition fs_read :: "lock_path \<Rightarrow> LockWorld \<Rightarrow> lock_text option" where
  "fs_read p w = map_option (lw_text w) (lw_dir w p)"

definition fs_remove :: "lock_path \<Rightarrow> LockWorld \<Rightarrow> LockWorld" where
  "fs_remove p w = w\<lparr> lw_dir := (lw_dir w)(p := None) \<rparr>"

definition fs_rename :: "lock_path \<Rightarrow> lock_path \<Rightarrow> LockWorld \<Rightarrow> LockWorld option" where
  "fs_rename p q w = (case lw_dir w p of
     None \<Rightarrow> None | Some n \<Rightarrow> Some (w\<lparr> lw_dir := (lw_dir w)(p := None, q \<mapsto> n) \<rparr>))"

text \<open>\<open>link\<close>: a second name; an existing name is left alone, which the code ignores.\<close>

definition fs_link :: "lock_path \<Rightarrow> lock_path \<Rightarrow> LockWorld \<Rightarrow> LockWorld" where
  "fs_link p q w = (if lw_dir w q \<noteq> None then w else w\<lparr> lw_dir := (lw_dir w)(q := lw_dir w p) \<rparr>)"

definition isOlderThan :: "lock_path \<Rightarrow> int \<Rightarrow> LockWorld \<Rightarrow> bool" where
  "isOlderThan p age w = (case lw_dir w p of None \<Rightarrow> False | Some n \<Rightarrow> lw_now w - lw_mtime w n \<ge> age)"

definition isProcessAlive :: "nat \<Rightarrow> LockWorld \<Rightarrow> bool" where
  "isProcessAlive pid w \<longleftrightarrow> pid \<notin> set (lw_dead w)"

subsection \<open>The code, one call at a time\<close>

definition goto :: "nat \<Rightarrow> lock_at \<Rightarrow> LockWorld \<Rightarrow> LockWorld" where
  "goto i a w = w\<lparr> lw_task := (lw_task w)(i := (lw_task w i)\<lparr> lt_at := a \<rparr>) \<rparr>"

definition task_record :: "LockTask \<Rightarrow> lock_text" where
  "task_record t = LockRecord (lt_pid t) (lt_createdAt t)"

text \<open>
  \<open>abandoned\<close>: a record is abandoned when its process is gone, any other text when the file at the
  path is old. Both \<open>removeStaleLock\<close> and \<open>clearAbandonedReclaimLock\<close> decide so.
\<close>

definition abandoned :: "LockOptions \<Rightarrow> lock_path \<Rightarrow> lock_text \<Rightarrow> LockWorld \<Rightarrow> bool" where
  "abandoned opts p raw w = (case raw of
     LockRecord pid _ \<Rightarrow> \<not> isProcessAlive pid w
   | _ \<Rightarrow> isOlderThan p (lo_staleAfterMs opts) w)"

text \<open>\<open>acquireWriterLock\<close> and the release it returns.\<close>

definition acquire_step :: "LockOptions \<Rightarrow> nat \<Rightarrow> LockWorld \<Rightarrow> LockWorld" where
  "acquire_step opts i w =
     (let t = lw_task w i in case lt_at t of
        Open \<Rightarrow> (case fs_create Primary w of Some (n, u) \<Rightarrow> goto i (Write n) u | None \<Rightarrow> goto i Look w)
      | Write n \<Rightarrow> goto i (Chmod n) (fs_write n (task_record t) w)
      | Chmod n \<Rightarrow> goto i (if lw_dir w Primary = None then Failed else Holding n) w
      | Holding n \<Rightarrow> goto i Released (fs_remove Primary w)
      | _ \<Rightarrow> w)"

text \<open>\<open>removeStaleLock\<close>, after the check of the timeout.\<close>

definition stale_step :: "LockOptions \<Rightarrow> nat \<Rightarrow> LockWorld \<Rightarrow> LockWorld" where
  "stale_step opts i w =
     (let t = lw_task w i in case lt_at t of
        Look \<Rightarrow>
          if lw_now w - lt_startedAt t > lo_timeoutMs opts then goto i Failed w
          else (case fs_read Primary w of None \<Rightarrow> goto i Open w | Some raw \<Rightarrow> goto i (Judge raw) w)
      | Judge raw \<Rightarrow> goto i (if abandoned opts Primary raw w then ReclaimOpen raw else Open) w
      | _ \<Rightarrow> w)"

text \<open>\<open>reclaimStaleRecord\<close>.\<close>

definition reclaim_step :: "LockOptions \<Rightarrow> nat \<Rightarrow> LockWorld \<Rightarrow> LockWorld" where
  "reclaim_step opts i w =
     (let t = lw_task w i in case lt_at t of
        ReclaimOpen raw \<Rightarrow>
          (case fs_create Reclaim w of Some (n, u) \<Rightarrow> goto i (ReclaimWrite raw n) u | None \<Rightarrow> goto i ClearRead w)
      | ReclaimWrite raw n \<Rightarrow> goto i (ReclaimRead raw n) (fs_write n (task_record t) w)
      | ReclaimRead raw n \<Rightarrow>
          goto i (if fs_read Primary w = Some raw then ReclaimRemove raw n else ReclaimDone n) w
      | ReclaimRemove raw n \<Rightarrow> goto i (ReclaimDone n) (fs_remove Primary w)
      | ReclaimDone n \<Rightarrow> goto i Open (fs_remove Reclaim w)
      | _ \<Rightarrow> w)"

text \<open>\<open>clearAbandonedReclaimLock\<close>.\<close>

definition clear_step :: "LockOptions \<Rightarrow> nat \<Rightarrow> LockWorld \<Rightarrow> LockWorld" where
  "clear_step opts i w =
     (case lt_at (lw_task w i) of
        ClearRead \<Rightarrow> (case fs_read Reclaim w of None \<Rightarrow> goto i Open w | Some raw \<Rightarrow> goto i (ClearJudge raw) w)
      | ClearJudge raw \<Rightarrow> goto i (if abandoned opts Reclaim raw w then TakeRename raw else Open) w
      | _ \<Rightarrow> w)"

text \<open>\<open>takeOverAbandonedFile\<close> on the reclaim lock.\<close>

definition takeover_step :: "nat \<Rightarrow> LockWorld \<Rightarrow> LockWorld" where
  "takeover_step i w =
     (case lt_at (lw_task w i) of
        TakeRename raw \<Rightarrow>
          (let k = takeoverCounter w; v = w\<lparr> takeoverCounter := k + 1 \<rparr>
           in case fs_rename Reclaim (Scratch k) v of None \<Rightarrow> goto i Open v | Some u \<Rightarrow> goto i (TakeRead raw k) u)
      | TakeRead raw k \<Rightarrow> goto i (if fs_read (Scratch k) w = Some raw then TakeDrop k else TakeLink k) w
      | TakeLink k \<Rightarrow> goto i (TakeDrop k) (fs_link (Scratch k) Reclaim w)
      | TakeDrop k \<Rightarrow> goto i Open (fs_remove (Scratch k) w)
      | _ \<Rightarrow> w)"

definition task_step :: "LockOptions \<Rightarrow> nat \<Rightarrow> LockWorld \<Rightarrow> LockWorld" where
  "task_step opts i w =
     (if \<not> isProcessAlive (lt_pid (lw_task w i)) w then w
      else case lt_at (lw_task w i) of
        Open \<Rightarrow> acquire_step opts i w | Write _ \<Rightarrow> acquire_step opts i w | Chmod _ \<Rightarrow> acquire_step opts i w
      | Holding _ \<Rightarrow> acquire_step opts i w
      | Look \<Rightarrow> stale_step opts i w | Judge _ \<Rightarrow> stale_step opts i w
      | ReclaimOpen _ \<Rightarrow> reclaim_step opts i w | ReclaimWrite _ _ \<Rightarrow> reclaim_step opts i w
      | ReclaimRead _ _ \<Rightarrow> reclaim_step opts i w | ReclaimRemove _ _ \<Rightarrow> reclaim_step opts i w
      | ReclaimDone _ \<Rightarrow> reclaim_step opts i w
      | ClearRead \<Rightarrow> clear_step opts i w | ClearJudge _ \<Rightarrow> clear_step opts i w
      | Released \<Rightarrow> w | Failed \<Rightarrow> w
      | _ \<Rightarrow> takeover_step i w)"

text \<open>What happens: a task makes its next call, a process dies, time passes.\<close>

datatype lock_event = Run nat | Die nat | Pass nat

fun lock_step :: "LockOptions \<Rightarrow> lock_event \<Rightarrow> LockWorld \<Rightarrow> LockWorld" where
  "lock_step opts (Run i) w = task_step opts i w"
| "lock_step opts (Die pid) w = w\<lparr> lw_dead := pid # lw_dead w \<rparr>"
| "lock_step opts (Pass ms) w = w\<lparr> lw_now := lw_now w + int ms \<rparr>"

definition lock_run :: "LockOptions \<Rightarrow> lock_event list \<Rightarrow> LockWorld \<Rightarrow> LockWorld" where
  "lock_run opts es w = foldl (\<lambda>w e. lock_step opts e w) w es"

text \<open>No lock file, every task at the start of its call.\<close>

definition lock_start :: "(nat \<Rightarrow> nat) \<Rightarrow> (nat \<Rightarrow> nat) \<Rightarrow> (nat \<Rightarrow> int) \<Rightarrow> LockWorld" where
  "lock_start pid stamp started = \<lparr> lw_dir = (\<lambda>_. None), lw_text = (\<lambda>_. Blank), lw_mtime = (\<lambda>_. 0), lw_next = 0,
     lw_now = 0, lw_dead = [],
     lw_task = (\<lambda>i. \<lparr> lt_pid = pid i, lt_createdAt = stamp i, lt_startedAt = started i, lt_at = Open \<rparr>), takeoverCounter = 0 \<rparr>"

subsection \<open>Two ways to lose the lock\<close>

definition holds :: "nat \<Rightarrow> LockWorld \<Rightarrow> bool" where
  "holds i w \<longleftrightarrow> (case lt_at (lw_task w i) of Holding _ \<Rightarrow> True | _ \<Rightarrow> False) \<and> isProcessAlive (lt_pid (lw_task w i)) w"

text \<open>
  A process dies between creating the lock file and writing its record. Two others judge the empty
  file stale; the first reclaims it. The next lock file is empty too for a moment, so the second
  takes it for the file it judged, and removes a live lock.
\<close>

definition empty_file_schedule :: "lock_event list" where
  "empty_file_schedule =
    [Run 0, Die 0, Pass 30000] @ [Run 1, Run 2, Run 1, Run 2, Run 1, Run 2] @ replicate 5 (Run 1) @
    [Run 2, Run 2, Run 3] @ replicate 6 (Run 2) @ [Run 3, Run 3]"

text \<open>
  A holder dies, and so does a process that was reclaiming its lock. Two others judge the reclaim
  lock abandoned; by the time the second renames it away it is a live one, so two processes reclaim
  at once, and the slower one removes the lock a third has taken meanwhile.
\<close>

definition takeover_schedule :: "lock_event list" where
  "takeover_schedule =
    [Run 0, Run 0, Run 0, Die 0] @ concat (map (\<lambda>i. [Run i, Run i, Run i]) [1, 2, 3, 4, 5]) @ [Run 1, Run 1, Die 1] @
    [Run 2, Run 3, Run 2, Run 3, Run 2, Run 3] @ [Run 3, Run 3, Run 3] @ [Run 4, Run 4, Run 4] @ [Run 2] @
    [Run 5, Run 5, Run 5] @ [Run 4] @ [Run 6, Run 6, Run 6] @ [Run 5] @ [Run 7, Run 7, Run 7]"

definition lab_lock :: LockWorld where
  "lab_lock = lock_start (\<lambda>i. i) (\<lambda>i. i) (\<lambda>i. 0)"


subsection \<open>The lock excludes otherwise\<close>

text \<open>
  The two slow paths: a text that is no record is taken for stale, and a reclaim lock is renamed
  away. A run is plain when neither happens in it.
\<close>

definition plain_step :: "LockOptions \<Rightarrow> lock_event \<Rightarrow> LockWorld \<Rightarrow> bool" where
  "plain_step opts e w \<longleftrightarrow> (case e of
     Run i \<Rightarrow> (case lt_at (lw_task w i) of
         Judge (LockRecord _ _) \<Rightarrow> True | Judge raw \<Rightarrow> \<not> abandoned opts Primary raw w
       | TakeRename _ \<Rightarrow> lw_dir w Reclaim = None | _ \<Rightarrow> True)
   | _ \<Rightarrow> True)"

fun plain_run :: "LockOptions \<Rightarrow> lock_event list \<Rightarrow> LockWorld \<Rightarrow> bool" where
  "plain_run opts [] w \<longleftrightarrow> True"
| "plain_run opts (e # es) w \<longleftrightarrow> plain_step opts e w \<and> plain_run opts es (lock_step opts e w)"

text \<open>The inode of the lock, or of the reclaim lock, a task keeps; the record it is reclaiming.\<close>

fun lock_inode :: "lock_at \<Rightarrow> nat option" where
  "lock_inode (Write n) = Some n"
| "lock_inode (Chmod n) = Some n"
| "lock_inode (Holding n) = Some n"
| "lock_inode _ = None"

fun reclaim_inode :: "lock_at \<Rightarrow> nat option" where
  "reclaim_inode (ReclaimWrite raw n) = Some n"
| "reclaim_inode (ReclaimRead raw n) = Some n"
| "reclaim_inode (ReclaimRemove raw n) = Some n"
| "reclaim_inode (ReclaimDone n) = Some n"
| "reclaim_inode _ = None"

fun reclaimed :: "lock_at \<Rightarrow> lock_text option" where
  "reclaimed (ReclaimOpen raw) = Some raw"
| "reclaimed (ReclaimWrite raw n) = Some raw"
| "reclaimed (ReclaimRead raw n) = Some raw"
| "reclaimed (ReclaimRemove raw n) = Some raw"
| "reclaimed _ = None"

fun past_rename :: "lock_at \<Rightarrow> bool" where
  "past_rename (TakeRead raw k) \<longleftrightarrow> True"
| "past_rename (TakeLink k) \<longleftrightarrow> True"
| "past_rename (TakeDrop k) \<longleftrightarrow> True"
| "past_rename _ \<longleftrightarrow> False"

abbreviation place :: "LockWorld \<Rightarrow> nat \<Rightarrow> lock_at" where
  "place w i \<equiv> lt_at (lw_task w i)"

abbreviation live :: "LockWorld \<Rightarrow> nat \<Rightarrow> bool" where
  "live w i \<equiv> isProcessAlive (lt_pid (lw_task w i)) w"

fun dead_record :: "LockWorld \<Rightarrow> lock_text \<Rightarrow> bool" where
  "dead_record w (LockRecord pid s) \<longleftrightarrow> \<not> isProcessAlive pid w"
| "dead_record w _ \<longleftrightarrow> False"

definition files_ok :: "LockWorld \<Rightarrow> bool" where
  "files_ok w \<longleftrightarrow> (\<forall>p n. lw_dir w p = Some n \<longrightarrow> n < lw_next w) \<and>
     (\<forall>p q n. lw_dir w p = Some n \<and> lw_dir w q = Some n \<longrightarrow> p = q) \<and>
     (\<forall>i n. lock_inode (place w i) = Some n \<or> reclaim_inode (place w i) = Some n \<longrightarrow> n < lw_next w)"

definition owners_ok :: "LockWorld \<Rightarrow> bool" where
  "owners_ok w \<longleftrightarrow> (\<forall>i j n. lock_inode (place w i) = Some n \<and> lock_inode (place w j) = Some n \<longrightarrow> i = j) \<and>
     (\<forall>i n. live w i \<and> lock_inode (place w i) = Some n \<longrightarrow> lw_dir w Primary = Some n \<and>
        lw_text w n = (if place w i = Write n then Blank else task_record (lw_task w i)))"

definition reclaimers_ok :: "LockWorld \<Rightarrow> bool" where
  "reclaimers_ok w \<longleftrightarrow> (\<forall>i j n. reclaim_inode (place w i) = Some n \<and> reclaim_inode (place w j) = Some n \<longrightarrow> i = j) \<and>
     (\<forall>i n. live w i \<and> reclaim_inode (place w i) = Some n \<longrightarrow> lw_dir w Reclaim = Some n) \<and>
     (\<forall>i raw. live w i \<and> reclaimed (place w i) = Some raw \<longrightarrow> dead_record w raw) \<and>
     (\<forall>i raw n. live w i \<and> place w i = ReclaimRemove raw n \<longrightarrow> fs_read Primary w = Some raw) \<and>
     (\<forall>i. \<not> past_rename (place w i))"

definition lock_inv :: "LockWorld \<Rightarrow> bool" where
  "lock_inv w \<longleftrightarrow> files_ok w \<and> owners_ok w \<and> reclaimers_ok w"

lemma goto_frame [simp]: "lw_dir (goto i a w) = lw_dir w" "lw_text (goto i a w) = lw_text w"
    "lw_next (goto i a w) = lw_next w" "lw_dead (goto i a w) = lw_dead w"
    "place (goto i a w) j = (if j = i then a else place w j)" "lt_pid (lw_task (goto i a w) j) = lt_pid (lw_task w j)"
    "task_record (lw_task (goto i a w) j) = task_record (lw_task w j)"
    "isProcessAlive pid (goto i a w) = isProcessAlive pid w" "fs_read p (goto i a w) = fs_read p w"
    "dead_record (goto i a w) raw = dead_record w raw"
  by (simp_all add: goto_def task_record_def isProcessAlive_def fs_read_def) (cases raw; simp add: isProcessAlive_def)

text \<open>A step that touches no file.\<close>

lemma inv_goto:
  assumes "lock_inv w"
    and "\<And>n. lock_inode a = Some n \<Longrightarrow> lock_inode (place w i) = Some n \<and> place w i \<noteq> Write n \<and> a \<noteq> Write n"
    and "\<And>n. reclaim_inode a = Some n \<Longrightarrow> reclaim_inode (place w i) = Some n"
    and "\<And>raw. live w i \<Longrightarrow> reclaimed a = Some raw \<Longrightarrow> dead_record w raw"
    and "\<And>raw n. live w i \<Longrightarrow> a = ReclaimRemove raw n \<Longrightarrow> fs_read Primary w = Some raw" "\<not> past_rename a"
  shows "lock_inv (goto i a w)"
  unfolding lock_inv_def
proof (intro conjI)
  show "files_ok (goto i a w)"
    using assms(1-3) by (auto simp: lock_inv_def files_ok_def)
  show "owners_ok (goto i a w)"
    using assms(1,2) by (auto simp: lock_inv_def owners_ok_def)
  show "reclaimers_ok (goto i a w)"
    using assms(1,3-6) by (auto simp: lock_inv_def reclaimers_ok_def)
qed

lemma lock_invD:
  assumes "lock_inv w"
  shows "lw_dir w p = Some n \<Longrightarrow> n < lw_next w"
    and "lw_dir w p = Some n \<Longrightarrow> lw_dir w q = Some n \<Longrightarrow> p = q"
    and "lock_inode (place w i) = Some n \<Longrightarrow> n < lw_next w"
    and "reclaim_inode (place w i) = Some n \<Longrightarrow> n < lw_next w"
    and "lock_inode (place w i) = Some n \<Longrightarrow> lock_inode (place w j) = Some n \<Longrightarrow> i = j"
    and "reclaim_inode (place w i) = Some n \<Longrightarrow> reclaim_inode (place w j) = Some n \<Longrightarrow> i = j"
    and "live w i \<Longrightarrow> lock_inode (place w i) = Some n \<Longrightarrow> lw_dir w Primary = Some n \<and>
      lw_text w n = (if place w i = Write n then Blank else task_record (lw_task w i))"
    and "live w i \<Longrightarrow> reclaim_inode (place w i) = Some n \<Longrightarrow> lw_dir w Reclaim = Some n"
    and "live w i \<Longrightarrow> reclaimed (place w i) = Some raw \<Longrightarrow> dead_record w raw"
    and "live w i \<Longrightarrow> place w i = ReclaimRemove raw n \<Longrightarrow> fs_read Primary w = Some raw"
    and "\<not> past_rename (place w i)"
proof -
  have f: "files_ok w" and o: "owners_ok w" and r: "reclaimers_ok w" using assms by (simp_all add: lock_inv_def)
  show "lw_dir w p = Some n \<Longrightarrow> n < lw_next w" using f by (simp add: files_ok_def)
  show "lw_dir w p = Some n \<Longrightarrow> lw_dir w q = Some n \<Longrightarrow> p = q" using f by (simp add: files_ok_def)
  show "lock_inode (place w i) = Some n \<Longrightarrow> n < lw_next w" using f unfolding files_ok_def by blast
  show "reclaim_inode (place w i) = Some n \<Longrightarrow> n < lw_next w" using f unfolding files_ok_def by blast
  show "lock_inode (place w i) = Some n \<Longrightarrow> lock_inode (place w j) = Some n \<Longrightarrow> i = j"
    using o unfolding owners_ok_def by blast
  show "reclaim_inode (place w i) = Some n \<Longrightarrow> reclaim_inode (place w j) = Some n \<Longrightarrow> i = j"
    using r unfolding reclaimers_ok_def by blast
  show "live w i \<Longrightarrow> lock_inode (place w i) = Some n \<Longrightarrow> lw_dir w Primary = Some n \<and>
      lw_text w n = (if place w i = Write n then Blank else task_record (lw_task w i))"
    using o unfolding owners_ok_def by blast
  show "live w i \<Longrightarrow> reclaim_inode (place w i) = Some n \<Longrightarrow> lw_dir w Reclaim = Some n"
    using r unfolding reclaimers_ok_def by blast
  show "live w i \<Longrightarrow> reclaimed (place w i) = Some raw \<Longrightarrow> dead_record w raw"
    using r unfolding reclaimers_ok_def by blast
  show "live w i \<Longrightarrow> place w i = ReclaimRemove raw n \<Longrightarrow> fs_read Primary w = Some raw"
    using r unfolding reclaimers_ok_def by blast
  show "\<not> past_rename (place w i)" using r unfolding reclaimers_ok_def by blast
qed

text \<open>A live lock is no record of a dead process, and its holder is the only live one.\<close>

lemma owner_alone:
  assumes "lock_inv w" "live w i" "lock_inode (place w i) = Some n" "live w j" "lock_inode (place w j) = Some m"
  shows "i = j"
proof -
  have "lw_dir w Primary = Some n" "lw_dir w Primary = Some m" using assms lock_invD(7) by blast+
  then show ?thesis using assms lock_invD(5) [OF assms(1), of i n j] by simp
qed

lemma reclaimer_alone:
  assumes "lock_inv w" "live w i" "reclaim_inode (place w i) = Some n" "live w j" "reclaim_inode (place w j) = Some m"
  shows "i = j"
proof -
  have "lw_dir w Reclaim = Some n" "lw_dir w Reclaim = Some m" using assms lock_invD(8) by blast+
  then show ?thesis using assms lock_invD(6) [OF assms(1), of i n j] by simp
qed

lemma no_owner_while_dead:
  assumes "lock_inv w" "fs_read Primary w = Some raw" "dead_record w raw" "live w j"
  shows "lock_inode (place w j) = None"
proof (cases "lock_inode (place w j)")
  case (Some n)
  note lock_invD(7) [OF assms(1,4) Some]
  then show ?thesis using assms(2-4) by (cases raw) (auto simp: fs_read_def task_record_def split: if_splits)
qed

subsection \<open>Every call keeps the invariant\<close>

lemma fs_frame [simp]: "lw_task (fs_write n t w) = lw_task w" "lw_task (fs_remove p w) = lw_task w"
    "lw_dir (fs_write n t w) = lw_dir w" "lw_dir (fs_remove p w) q = (if q = p then None else lw_dir w q)"
    "lw_text (fs_remove p w) = lw_text w" "lw_text (fs_write n t w) m = (if m = n then t else lw_text w m)"
    "lw_next (fs_write n t w) = lw_next w" "lw_next (fs_remove p w) = lw_next w"
    "isProcessAlive pid (fs_write n t w) = isProcessAlive pid w" "isProcessAlive pid (fs_remove p w) = isProcessAlive pid w"
    "dead_record (fs_write n t w) raw = dead_record w raw" "dead_record (fs_remove p w) raw = dead_record w raw"
  by (simp_all add: fs_write_def fs_remove_def isProcessAlive_def) (cases raw; simp add: isProcessAlive_def)+

lemma fs_create_frame:
  assumes "fs_create p w = Some (n, u)"
  shows "n = lw_next w" "lw_next u = Suc n" "lw_task u = lw_task w" "lw_dir w p = None"
    "lw_dir u q = (if q = p then Some n else lw_dir w q)" "lw_text u m = (if m = n then Blank else lw_text w m)"
    "isProcessAlive pid u = isProcessAlive pid w" "dead_record u raw = dead_record w raw"
  using assms by (auto simp: fs_create_def isProcessAlive_def split: option.splits) (cases raw; simp add: isProcessAlive_def)+

lemma inv_create_lock:
  assumes inv: "lock_inv w" and make: "fs_create Primary w = Some (n, u)"
  shows "lock_inv (goto i (Write n) u)"
proof -
  note f = fs_create_frame [OF make]
  have none: "lock_inode (place w j) \<noteq> Some m" if "live w j" for j m
    using lock_invD(7) [OF inv that] f(4) by auto
  then have none': "place w j \<noteq> Write m" if "live w j" for j m
    using that by force
  have fresh: "lock_inode (place w j) \<noteq> Some n" "reclaim_inode (place w j) \<noteq> Some n" "lw_dir w q \<noteq> Some n" for j q
    using lock_invD(1,3,4) [OF inv] f(1) less_irrefl by blast+
  have "files_ok (goto i (Write n) u)"
    using lock_invD(1-4) [OF inv] fresh by (auto simp: files_ok_def f less_Suc_eq)
  moreover have "owners_ok (goto i (Write n) u)"
    using lock_invD(5) [OF inv] fresh none none' by (auto simp: owners_ok_def f(2-8))
  moreover have "reclaimers_ok (goto i (Write n) u)"
  proof -
    have "place w j \<noteq> ReclaimRemove raw m" if "live w j" for j raw m
      using lock_invD(10) [OF inv that] f(4) by (auto simp: fs_read_def)
    then show ?thesis using lock_invD(6,8,9,11) [OF inv] by (force simp: reclaimers_ok_def f(2-8))
  qed
  ultimately show ?thesis by (simp add: lock_inv_def)
qed

lemma inv_write_lock:
  assumes inv: "lock_inv w" and at: "live w i" "place w i = Write n"
  shows "lock_inv (goto i (Chmod n) (fs_write n (task_record (lw_task w i)) w))" (is "lock_inv ?u")
proof -
  have own: "lock_inode (place w i) = Some n" by (simp add: at(2))
  have primary: "lw_dir w Primary = Some n" "lw_text w n = Blank" using lock_invD(7) [OF inv at(1) own] at(2) by simp_all
  have other: "\<not> live w j" if "lock_inode (place w j) = Some m" "j \<noteq> i" for j m
    using owner_alone [OF inv _ that(1) at(1) own] that(2) by blast
  have other': "\<not> live w j" if "place w j = Write m" "j \<noteq> i" for j m
    using other [of j m] that by simp
  have "files_ok ?u"
    using lock_invD(1-4) [OF inv] own by (auto simp: files_ok_def)
  moreover have "owners_ok ?u"
    using lock_invD(5) [OF inv] own primary other other' by (auto simp: owners_ok_def)
  moreover have "reclaimers_ok ?u"
  proof -
    have "place w j \<noteq> ReclaimRemove raw m" if "live w j" for j raw m
    proof
      assume a: "place w j = ReclaimRemove raw m"
      then have "fs_read Primary w = Some raw" "dead_record w raw"
        using lock_invD(9,10) [OF inv that] by simp_all
      then show False using no_owner_while_dead [OF inv _ _ at(1)] own by simp
    qed
    then show ?thesis using lock_invD(6,8-11) [OF inv] by (auto simp: reclaimers_ok_def)
  qed
  ultimately show ?thesis by (simp add: lock_inv_def)
qed

text \<open>The lock is removed by its holder, or by the one reclaimer of a dead holder's record.\<close>

lemma inv_remove_lock:
  assumes inv: "lock_inv w" and at: "live w i" "place w i = Holding n \<and> a = Released \<or> place w i = ReclaimRemove raw n \<and> a = ReclaimDone n"
  shows "lock_inv (goto i a (fs_remove Primary w))" (is "lock_inv ?u")
proof -
  have alone: "lock_inode (place w j) \<noteq> Some m" "place w j \<noteq> ReclaimRemove raw' m" if "live w j" "j \<noteq> i" for j m raw'
  proof -
    have dead: "lock_inode (place w k) = None" if "live w l" "place w l = ReclaimRemove raw' m" "live w k" for k l raw' m
      using lock_invD(9,10) [OF inv that(1)] that(2) no_owner_while_dead [OF inv _ _ that(3)] by auto
    show "lock_inode (place w j) \<noteq> Some m"
      using at(2)
    proof
      assume "place w i = Holding n \<and> a = Released"
      then show ?thesis using owner_alone [OF inv that(1) _ at(1), of m n] that(2) by auto
    next
      assume "place w i = ReclaimRemove raw n \<and> a = ReclaimDone n"
      then show ?thesis using dead [OF at(1) _ that(1)] by simp
    qed
    show "place w j \<noteq> ReclaimRemove raw' m"
      using at(2)
    proof
      assume "place w i = Holding n \<and> a = Released"
      then show ?thesis using dead [OF that(1) _ at(1)] by auto
    next
      assume "place w i = ReclaimRemove raw n \<and> a = ReclaimDone n"
      then show ?thesis using reclaimer_alone [OF inv that(1) _ at(1), of m n] that(2) by auto
    qed
  qed
  have none: "lock_inode (place w j) = None" if "live w j" "j \<noteq> i" for j
    using alone(1) [OF that] by (cases "lock_inode (place w j)") auto
  then have alone': "place w j \<noteq> Write m" if "live w j" "j \<noteq> i" for j m
    using that by force
  have a: "lock_inode a = None" "reclaim_inode a = reclaim_inode (place w i)" "reclaimed a = None" "\<not> past_rename a"
      "a \<noteq> ReclaimRemove r m" for r m
    using at(2) by auto
  have "files_ok ?u"
    using lock_invD(1-4) [OF inv] a by (auto simp: files_ok_def)
  moreover have "owners_ok ?u"
    using lock_invD(5) [OF inv] a none alone' by (auto simp: owners_ok_def)
  moreover have "reclaimers_ok ?u"
    using lock_invD(6,8,9,11) [OF inv] a at(1) alone by (force simp: reclaimers_ok_def)
  ultimately show ?thesis by (simp add: lock_inv_def)
qed

lemma inv_create_reclaim:
  assumes inv: "lock_inv w" and at: "live w i" "place w i = ReclaimOpen raw" and make: "fs_create Reclaim w = Some (n, u)"
  shows "lock_inv (goto i (ReclaimWrite raw n) u)"
proof -
  note f = fs_create_frame [OF make]
  have fresh: "lock_inode (place w j) \<noteq> Some n" "reclaim_inode (place w j) \<noteq> Some n" "lw_dir w q \<noteq> Some n" for j q
    using lock_invD(1,3,4) [OF inv] f(1) less_irrefl by blast+
  have none: "reclaim_inode (place w j) \<noteq> Some m" if "live w j" for j m
    using lock_invD(8) [OF inv that] f(4) by auto
  have raw: "dead_record w raw" using lock_invD(9) [OF inv at(1)] at(2) by simp
  have read: "fs_read Primary u = fs_read Primary w"
    using fresh by (auto simp: fs_read_def f(5) option.map_comp f(6) split: option.splits intro!: option.map_cong)
  have "files_ok (goto i (ReclaimWrite raw n) u)"
    using lock_invD(1-4) [OF inv] fresh by (auto simp: files_ok_def f less_Suc_eq)
  moreover have "owners_ok (goto i (ReclaimWrite raw n) u)"
  proof -
    have "lw_dir u Primary = Some m \<and> lw_text u m = (if place w j = Write m then Blank else task_record (lw_task w j))"
      if "live w j" "lock_inode (place w j) = Some m" for j m
      using lock_invD(7) [OF inv that] fresh(1) [of j] that(2) by (auto simp: f(5,6))
    then show ?thesis
      using lock_invD(5) [OF inv] by (auto simp: owners_ok_def f(3,7))
  qed
  moreover have "reclaimers_ok (goto i (ReclaimWrite raw n) u)"
    using lock_invD(6,9-11) [OF inv] fresh none raw by (auto simp: reclaimers_ok_def f(3,5,7,8) read)
  ultimately show ?thesis by (simp add: lock_inv_def)
qed

lemma inv_write_reclaim:
  assumes inv: "lock_inv w" and at: "live w i" "place w i = ReclaimWrite raw n"
  shows "lock_inv (goto i (ReclaimRead raw n) (fs_write n t w))" (is "lock_inv ?u")
proof -
  have own: "reclaim_inode (place w i) = Some n" "reclaimed (place w i) = Some raw" by (simp_all add: at(2))
  have primary: "lw_dir w Primary \<noteq> Some n"
    using lock_invD(8) [OF inv at(1) own(1)] lock_invD(2) [OF inv, of Primary n Reclaim] by auto
  have read: "fs_read Primary ?u = fs_read Primary w"
    using primary by (auto simp: fs_read_def split: option.splits intro!: option.map_cong)
  have other: "m \<noteq> n" if "live w j" "lock_inode (place w j) = Some m" for j m
    using lock_invD(7) [OF inv that] primary by auto
  have "files_ok ?u"
    using lock_invD(1-4) [OF inv] own by (auto simp: files_ok_def)
  moreover have "owners_ok ?u"
    using lock_invD(5,7) [OF inv] other by (fastforce simp: owners_ok_def)
  moreover have "reclaimers_ok ?u"
  proof -
    have "lw_dir w Reclaim = Some n" "dead_record w raw"
      using lock_invD(8,9) [OF inv at(1)] own by simp_all
    then show ?thesis
      using lock_invD(6,8-11) [OF inv] own read by (auto simp: reclaimers_ok_def)
  qed
  ultimately show ?thesis by (simp add: lock_inv_def)
qed

lemma inv_remove_reclaim:
  assumes inv: "lock_inv w" and at: "live w i" "place w i = ReclaimDone n"
  shows "lock_inv (goto i Open (fs_remove Reclaim w))" (is "lock_inv ?u")
proof -
  have own: "reclaim_inode (place w i) = Some n" by (simp add: at(2))
  have other: "reclaim_inode (place w j) = None" if "live w j" "j \<noteq> i" for j
    using reclaimer_alone [OF inv that(1) _ at(1) own] that(2) by (cases "reclaim_inode (place w j)") auto
  have read: "fs_read Primary ?u = fs_read Primary w" by (simp add: fs_read_def)
  have "files_ok ?u" using lock_invD(1-4) [OF inv] by (auto simp: files_ok_def)
  moreover have "owners_ok ?u" using lock_invD(5,7) [OF inv] by (auto simp: owners_ok_def)
  moreover have "reclaimers_ok ?u"
    using lock_invD(6,9-11) [OF inv] other read by (auto simp: reclaimers_ok_def)
  ultimately show ?thesis by (simp add: lock_inv_def)
qed

lemma inv_frame:
  assumes "lock_inv w" "lw_dir u = lw_dir w" "lw_text u = lw_text w" "lw_next u = lw_next w" "lw_task u = lw_task w"
    "set (lw_dead w) \<subseteq> set (lw_dead u)"
  shows "lock_inv u"
proof -
  have live: "isProcessAlive pid w" if "isProcessAlive pid u" for pid
    using that assms(6) by (auto simp: isProcessAlive_def)
  have dead: "dead_record u raw" if "dead_record w raw" for raw
    using that live by (cases raw) auto
  have "files_ok u" using assms(1) by (simp add: lock_inv_def files_ok_def assms(2-5))
  moreover have "owners_ok u"
    using lock_invD(5) [OF assms(1)] lock_invD(7) [OF assms(1) live] unfolding owners_ok_def assms(2-5) by blast
  moreover have "reclaimers_ok u"
    using lock_invD(6,11) [OF assms(1)] lock_invD(8,9,10) [OF assms(1) live] dead
    unfolding reclaimers_ok_def fs_read_def assms(2-5) by blast
  ultimately show ?thesis by (simp add: lock_inv_def)
qed

lemma inv_acquire:
  assumes "lock_inv w" "live w i"
  shows "lock_inv (acquire_step opts i w)"
proof (cases "place w i")
  case Open
  then show ?thesis
    using assms inv_create_lock [OF assms(1)]
    by (auto simp: acquire_step_def intro!: inv_goto split: option.splits)
next
  case (Write n)
  then show ?thesis using inv_write_lock [OF assms] by (simp add: acquire_step_def)
next
  case (Chmod n)
  then show ?thesis using assms by (auto simp: acquire_step_def intro!: inv_goto)
next
  case (Holding n)
  then show ?thesis using inv_remove_lock [OF assms] by (simp add: acquire_step_def)
qed (simp_all add: acquire_step_def assms)

lemma inv_stale:
  assumes "lock_inv w" "live w i" "plain_step opts (Run i) w"
  shows "lock_inv (stale_step opts i w)"
proof (cases "place w i")
  case Look
  then show ?thesis using assms(1) by (auto simp: stale_step_def intro!: inv_goto split: option.splits)
next
  case (Judge raw)
  then show ?thesis
    using assms by (cases raw) (auto simp: stale_step_def plain_step_def abandoned_def intro!: inv_goto)
qed (simp_all add: stale_step_def assms)

lemma inv_reclaim:
  assumes "lock_inv w" "live w i"
  shows "lock_inv (reclaim_step opts i w)"
proof (cases "place w i")
  case (ReclaimOpen raw)
  then show ?thesis
    using assms inv_create_reclaim [OF assms]
    by (auto simp: reclaim_step_def intro!: inv_goto split: option.splits)
next
  case (ReclaimWrite raw n)
  then show ?thesis using inv_write_reclaim [OF assms] by (simp add: reclaim_step_def)
next
  case (ReclaimRead raw n)
  then show ?thesis
    using assms lock_invD(9) [OF assms] by (auto simp: reclaim_step_def intro!: inv_goto)
next
  case (ReclaimRemove raw n)
  then show ?thesis using inv_remove_lock [OF assms] by (simp add: reclaim_step_def)
next
  case (ReclaimDone n)
  then show ?thesis using inv_remove_reclaim [OF assms] by (simp add: reclaim_step_def)
qed (simp_all add: reclaim_step_def assms)

lemma inv_clear: "lock_inv w \<Longrightarrow> lock_inv (clear_step opts i w)"
  by (auto simp: clear_step_def intro!: inv_goto split: lock_at.splits option.splits)

lemma inv_takeover:
  assumes "lock_inv w" "plain_step opts (Run i) w"
  shows "lock_inv (takeover_step i w)"
proof (cases "place w i")
  case (TakeRename raw)
  have "lock_inv (w\<lparr> takeoverCounter := takeoverCounter w + 1 \<rparr>)" by (rule inv_frame [OF assms(1)]) simp_all
  then show ?thesis
    using assms(2) TakeRename by (auto simp: takeover_step_def plain_step_def fs_rename_def Let_def intro!: inv_goto)
qed (use assms lock_invD(11) [OF assms(1), of i] in \<open>simp_all add: takeover_step_def\<close>)

lemma lock_step_inv:
  assumes "lock_inv w" "plain_step opts e w"
  shows "lock_inv (lock_step opts e w)"
proof (cases e)
  case (Run i)
  then show ?thesis
    using assms inv_acquire inv_stale inv_reclaim inv_clear inv_takeover
    by (auto simp: task_step_def split: lock_at.splits)
next
  case (Die pid)
  then show ?thesis by (auto intro: inv_frame [OF assms(1)])
next
  case (Pass ms)
  then show ?thesis by (auto intro: inv_frame [OF assms(1)])
qed

lemma lock_run_inv: "lock_inv w \<Longrightarrow> plain_run opts es w \<Longrightarrow> lock_inv (lock_run opts es w)"
  by (induction es arbitrary: w) (simp_all add: lock_run_def lock_step_inv)

lemma lock_start_inv: "lock_inv (lock_start pid stamp started)"
  by (simp add: lock_inv_def files_ok_def owners_ok_def reclaimers_ok_def lock_start_def)

text \<open>Claim C27. In every run from an empty directory, however the calls of any number of tasks are
  interleaved and whichever processes die between two of them, two live tasks never hold the lock at
  once, as long as no text that is not a record is judged stale and no reclaim lock is renamed away.\<close>

theorem lock_excludes:
  assumes "plain_run opts es (lock_start pid stamp started)"
    and "holds i (lock_run opts es (lock_start pid stamp started))" "holds j (lock_run opts es (lock_start pid stamp started))"
  shows "i = j"
proof -
  let ?w = "lock_run opts es (lock_start pid stamp started)"
  have inv: "lock_inv ?w" using lock_run_inv [OF lock_start_inv assms(1)] .
  obtain n m where "place ?w i = Holding n" "place ?w j = Holding m" "live ?w i" "live ?w j"
    using assms(2,3) by (auto simp: holds_def split: lock_at.splits)
  then show ?thesis using owner_alone [OF inv, of i n j m] by simp
qed

text \<open>One holder, a waiter that finds it alive, then its death and the waiter's reclaim.\<close>

definition reclaim_schedule :: "lock_event list" where
  "reclaim_schedule = [Run 0, Run 0, Run 0, Run 1, Run 1, Run 1, Run 1, Die 0, Run 1, Run 1] @ replicate 8 (Run 1)"

lemma reclaim_schedule_facts: "plain_run default_lock_options reclaim_schedule lab_lock"
    "holds 1 (lock_run default_lock_options reclaim_schedule lab_lock)"
  by code_simp+

theorem lock_excludes_witness:
  "plain_run default_lock_options reclaim_schedule lab_lock \<and>
   holds 1 (lock_run default_lock_options reclaim_schedule lab_lock) \<and> (1 :: nat) = 1"
  using reclaim_schedule_facts lock_excludes [of default_lock_options reclaim_schedule "\<lambda>i. i" "\<lambda>i. i" "\<lambda>i. 0" 1 1]
  unfolding lab_lock_def by blast

subsection \<open>A dead holder's lock is reclaimed\<close>

text \<open>Claim C28. In every plain run: when the lock names a process that has died, no reclaim lock is in the
  way, and a live task that has just failed to take the lock is still in time, ten calls of that task
  take it through the reclaim and end with it holding the lock.\<close>

theorem dead_lock_reclaimed:
  assumes "plain_run opts es (lock_start pid stamp started)" "w = lock_run opts es (lock_start pid stamp started)"
    and "fs_read Primary w = Some (LockRecord p s)" "\<not> isProcessAlive p w" "lw_dir w Reclaim = None"
    and "place w i = Look" "live w i" "lw_now w - lt_startedAt (lw_task w i) \<le> lo_timeoutMs opts"
  shows "holds i (lock_run opts (replicate 10 (Run i)) w)"
proof -
  have inv: "lock_inv w" using lock_run_inv [OF lock_start_inv assms(1)] assms(2) by simp
  obtain n where n: "lw_dir w Primary = Some n" "lw_text w n = LockRecord p s"
    using assms(3) by (auto simp: fs_read_def)
  then have "n \<noteq> lw_next w" using lock_invD(1) [OF inv] by blast
  then show ?thesis
    using assms(4-8) n
    by (simp add: lock_run_def numeral_eq_Suc task_step_def acquire_step_def stale_step_def reclaim_step_def goto_def
        fs_create_def fs_read_def fs_write_def fs_remove_def abandoned_def isProcessAlive_def holds_def)
qed

definition dead_holder_schedule :: "lock_event list" where
  "dead_holder_schedule = [Run 0, Run 0, Run 0, Run 1, Die 0]"

theorem dead_lock_reclaimed_witness:
  "holds 1 (lock_run default_lock_options (replicate 10 (Run 1)) (lock_run default_lock_options dead_holder_schedule lab_lock))"
proof -
  let ?w = "lock_run default_lock_options dead_holder_schedule lab_lock"
  have "plain_run default_lock_options dead_holder_schedule lab_lock" "fs_read Primary ?w = Some (LockRecord 0 0)"
      "\<not> isProcessAlive 0 ?w" "lw_dir ?w Reclaim = None" "place ?w 1 = Look" "live ?w 1"
      "lw_now ?w - lt_startedAt (lw_task ?w 1) \<le> lo_timeoutMs default_lock_options"
    by code_simp+
  then show ?thesis
    by (intro dead_lock_reclaimed [of default_lock_options dead_holder_schedule "\<lambda>i. i" "\<lambda>i. i" "\<lambda>i. 0" ?w 0 0 1])
      (simp_all add: lab_lock_def)
qed

end
