(* ===== verification/Metering.thy ===== *)
theory Metering
  imports Broker
begin

text \<open>
  \<open>platform/metering.ts\<close>: what public routing costs, tallied per subject over a window. The store is
  one file per subject, updated in one transaction; a window is numbered by the clock divided by its
  length, and a record of an earlier window counts for nothing. \<open>createBrokerMeter\<close> turns the calls
  the tunnel broker makes into increments, and its admission into a refusal over quota.

  The amounts are whole numbers, as every caller passes; a call reads the clock once.
\<close>

subsection \<open>Records\<close>

datatype MeteredDimension =
  D_route_minutes | D_active_public_rooms | D_participant_joins | D_relay_requests | D_bandwidth_bytes

definition METERED_DIMENSIONS :: "MeteredDimension list" where
  "METERED_DIMENSIONS =
    [D_route_minutes, D_active_public_rooms, D_participant_joins, D_relay_requests, D_bandwidth_bytes]"

fun dimension_name :: "MeteredDimension \<Rightarrow> string" where
  "dimension_name D_route_minutes = ''route_minutes''"
| "dimension_name D_active_public_rooms = ''active_public_rooms''"
| "dimension_name D_participant_joins = ''participant_joins''"
| "dimension_name D_relay_requests = ''relay_requests''"
| "dimension_name D_bandwidth_bytes = ''bandwidth_bytes''"

type_synonym Counters = "MeteredDimension \<rightharpoonup> int"

record MeteringWindow =
  window_id :: string
  mw_started_at :: int
  mw_counters :: Counters

record MeteringRecord =
  mr_subject :: string
  mr_window :: MeteringWindow
  mr_exceeded :: bool
  exceeded_reasons :: "MeteredDimension list"
  mr_updated_at :: int

record QuotaSignal =
  qs_exceeded :: bool
  qs_reasons :: "MeteredDimension list"

definition DAY_MS :: nat where
  "DAY_MS = 24 * 60 * 60000"

definition DEFAULT_FREE_QUOTA :: "MeteredDimension \<Rightarrow> int" where
  "DEFAULT_FREE_QUOTA d = (case d of
     D_route_minutes \<Rightarrow> 6000 | D_active_public_rooms \<Rightarrow> 100 | D_participant_joins \<Rightarrow> 10000
   | D_relay_requests \<Rightarrow> 1000000 | D_bandwidth_bytes \<Rightarrow> 50 * 1024 * 1024 * 1024)"

definition zeroCounters :: Counters where
  "zeroCounters = (\<lambda>d. Some 0)"

text \<open>\<open>SUBJECT_PATTERN\<close>: \<open>/^[a-zA-Z0-9_-]{1,128}$/\<close>.\<close>

definition valid_subject :: "string \<Rightarrow> bool" where
  "valid_subject s \<longleftrightarrow> s \<noteq> [] \<and> length s \<le> 128 \<and>
     list_all (\<lambda>c. c \<in> set ''abcdefghijklmnopqrstuvwxyzABCDEFGHIJKLMNOPQRSTUVWXYZ0123456789_-'') s"

definition assertSubject :: "string \<Rightarrow> string result" where
  "assertSubject s = (if valid_subject s then Inr s
     else Inl (PlainError ''metering subject must be 1-128 chars of [A-Za-z0-9_-]''))"

subsection \<open>The store\<close>

type_synonym meter_files = "(string \<times> MeteringRecord stored) list"

datatype meter_failure = MF_error js_error | MF_tunnel TunnelError

type_synonym 'a meter_action = "(meter_files, meter_failure, 'a) action"

definition liftM :: "'a result \<Rightarrow> 'a meter_action" where
  "liftM r = lift (case r of Inl e \<Rightarrow> Inl (MF_error e) | Inr x \<Rightarrow> Inr x)"

definition meter_file :: "string \<Rightarrow> meter_files \<Rightarrow> MeteringRecord stored" where
  "meter_file s fs = (case map_of fs s of Some f \<Rightarrow> f | None \<Rightarrow> NoFile)"

text \<open>\<open>readRecord\<close>: a missing file is no record, an unreadable one throws.\<close>

definition readRecord :: "string \<Rightarrow> meter_files \<Rightarrow> MeteringRecord option result" where
  "readRecord s fs = bindR (assertSubject s) (\<lambda>s. case readFileR (meter_file s fs) of
     Inr r \<Rightarrow> Inr (Some r) | Inl e \<Rightarrow> if isNotFoundError e then Inr None else Inl e)"

definition update_file :: "string \<Rightarrow> (MeteringRecord option \<Rightarrow> MeteringRecord) \<Rightarrow> MeteringRecord meter_action" where
  "update_file s mutate =
     bindA (liftM (assertSubject s)) (\<lambda>s.
     bindA (\<lambda>fs. liftM (readRecord s fs) fs) (\<lambda>current.
     bindA (modify (AList.update s (File (mutate current)))) (\<lambda>_.
     ret (mutate current))))"

subsection \<open>The ledger\<close>

record MeteringLedger =
  ml_quota :: "MeteredDimension \<Rightarrow> int"
  ml_windowMs :: nat

definition new_ledger :: MeteringLedger where
  "new_ledger = \<lparr> ml_quota = DEFAULT_FREE_QUOTA, ml_windowMs = DAY_MS \<rparr>"

definition window_of :: "MeteringLedger \<Rightarrow> nat \<Rightarrow> string" where
  "window_of L now = nat_str (now div ml_windowMs L)"

definition windowFor :: "MeteringLedger \<Rightarrow> nat \<Rightarrow> MeteringRecord option \<Rightarrow> MeteringWindow" where
  "windowFor L now existing = (case existing of
     Some r \<Rightarrow>
       if window_id (mr_window r) = window_of L now
       then (mr_window r)\<lparr> mw_counters := zeroCounters ++ mw_counters (mr_window r) \<rparr>
       else \<lparr> window_id = window_of L now, mw_started_at = int now, mw_counters = zeroCounters \<rparr>
   | None \<Rightarrow> \<lparr> window_id = window_of L now, mw_started_at = int now, mw_counters = zeroCounters \<rparr>)"

definition over_quota :: "MeteringLedger \<Rightarrow> Counters \<Rightarrow> MeteredDimension \<Rightarrow> bool" where
  "over_quota L c d \<longleftrightarrow> (case c d of Some n \<Rightarrow> n > ml_quota L d | None \<Rightarrow> False)"

definition finalize :: "MeteringLedger \<Rightarrow> nat \<Rightarrow> string \<Rightarrow> MeteringWindow \<Rightarrow> MeteringRecord" where
  "finalize L now s w =
     (let reasons = filter (over_quota L (mw_counters w)) METERED_DIMENSIONS
      in \<lparr> mr_subject = s, mr_window = w, mr_exceeded = (length reasons > 0), exceeded_reasons = reasons,
           mr_updated_at = int now \<rparr>)"

text \<open>\<open>counters[dimension] += amount\<close>.\<close>

definition bump :: "MeteredDimension \<Rightarrow> int \<Rightarrow> MeteringWindow \<Rightarrow> MeteringWindow" where
  "bump d amount w = w\<lparr> mw_counters := (mw_counters w)(d := map_option (\<lambda>n. n + amount) (mw_counters w d)) \<rparr>"

definition record_usage ::
  "MeteringLedger \<Rightarrow> nat \<Rightarrow> string \<Rightarrow> MeteredDimension \<Rightarrow> int \<Rightarrow> bool option \<Rightarrow> MeteringRecord option meter_action" where
  "record_usage L now s d amount isPublicRoute =
     (if isPublicRoute = Some False then ret None
      else bindA (liftM (assertSubject s)) (\<lambda>_.
        if amount < 0 then throw (MF_error (PlainError ''metering amount must be a non-negative number''))
        else bindA (update_file s (\<lambda>current. finalize L now s (bump d amount (windowFor L now current)))) (\<lambda>r. ret (Some r))))"

definition meter_usage :: "MeteringLedger \<Rightarrow> nat \<Rightarrow> string \<Rightarrow> MeteringRecord meter_action" where
  "meter_usage L now s =
     bindA (liftM (assertSubject s)) (\<lambda>_.
     bindA (\<lambda>fs. liftM (readRecord s fs) fs) (\<lambda>existing.
     ret (finalize L now s (windowFor L now existing))))"

definition check_quota :: "MeteringLedger \<Rightarrow> nat \<Rightarrow> string \<Rightarrow> QuotaSignal meter_action" where
  "check_quota L now s = bindA (meter_usage L now s) (\<lambda>r.
     ret \<lparr> qs_exceeded = mr_exceeded r, qs_reasons = exceeded_reasons r \<rparr>)"

definition assertWithinQuota :: "MeteringLedger \<Rightarrow> nat \<Rightarrow> string \<Rightarrow> bool option \<Rightarrow> unit meter_action" where
  "assertWithinQuota L now s isPublicRoute =
     (if isPublicRoute = Some False then ret ()
      else bindA (check_quota L now s) (\<lambda>signal.
        if qs_exceeded signal
        then throw (MF_tunnel (tunnel_error TE_quota_exceeded 429
          (''public routing free quota exceeded for the current window: '' @
           js_join_str '', '' (map dimension_name (qs_reasons signal)))))
        else ret ()))"

subsection \<open>The broker's meter\<close>

text \<open>
  \<open>createBrokerMeter\<close>: one clause per hook; \<open>subjectFor\<close> is the identity unless given. The calls are
  those the broker model logs in \<open>tb_meter\<close>.
\<close>

fun broker_meter :: "MeteringLedger \<Rightarrow> (string \<Rightarrow> string) \<Rightarrow> nat \<Rightarrow> meter_call \<Rightarrow> unit meter_action" where
  "broker_meter L subjectFor now (RouteRegistered slug) =
     bindA (record_usage L now (subjectFor slug) D_active_public_rooms 1 (Some True)) (\<lambda>_. ret ())"
| "broker_meter L subjectFor now (RouteClosed slug durationMs) =
     bindA (record_usage L now (subjectFor slug) D_route_minutes (max 0 ((durationMs + 30000) div 60000)) (Some True)) (\<lambda>_. ret ())"
| "broker_meter L subjectFor now (PublicForward slug path bytesIn bytesOut) =
     (let s = subjectFor slug
      in bindA (record_usage L now s D_relay_requests 1 (Some True)) (\<lambda>_.
         bindA (record_usage L now s D_bandwidth_bytes (int bytesIn + int bytesOut) (Some True)) (\<lambda>_.
         if path = ''/join'' \<or> starts_with ''/join?'' path
         then bindA (record_usage L now s D_participant_joins 1 (Some True)) (\<lambda>_. ret ())
         else ret ())))"

definition admitPublicForward :: "MeteringLedger \<Rightarrow> (string \<Rightarrow> string) \<Rightarrow> nat \<Rightarrow> string \<Rightarrow> unit meter_action" where
  "admitPublicForward L subjectFor now slug = assertWithinQuota L now (subjectFor slug) (Some True)"

text \<open>The calls a broker made, each at its own time.\<close>

fun meter_run :: "MeteringLedger \<Rightarrow> (string \<Rightarrow> string) \<Rightarrow> (nat \<times> meter_call) list \<Rightarrow> meter_files \<Rightarrow> meter_files" where
  "meter_run L subjectFor [] fs = fs"
| "meter_run L subjectFor ((now, call) # calls) fs = meter_run L subjectFor calls (snd (broker_meter L subjectFor now call fs))"

text \<open>What the broker does with a throw of the admission: a \<open>TunnelError\<close> as it is, else an internal error.\<close>

definition admission_of :: "meter_failure + unit \<Rightarrow> TunnelError + unit" where
  "admission_of r = (case r of Inr x \<Rightarrow> Inr x | Inl (MF_tunnel e) \<Rightarrow> Inl e
   | Inl (MF_error _) \<Rightarrow> Inl (tunnel_error TE_internal_error 500 ''internal tunnel error''))"

subsection \<open>What has been used in a window\<close>

text \<open>The count of a subject in a window, read off the file: nothing when the record is of another one.\<close>

definition tally :: "string \<Rightarrow> string \<Rightarrow> meter_files \<Rightarrow> MeteredDimension \<Rightarrow> int" where
  "tally W s fs d = (case meter_file s fs of
     File r \<Rightarrow> if window_id (mr_window r) = W then (case mw_counters (mr_window r) d of Some n \<Rightarrow> n | None \<Rightarrow> 0) else 0
   | _ \<Rightarrow> 0)"

text \<open>What a call charges a subject on a dimension.\<close>

fun charge :: "(string \<Rightarrow> string) \<Rightarrow> string \<Rightarrow> MeteredDimension \<Rightarrow> meter_call \<Rightarrow> int" where
  "charge sf s d (RouteRegistered slug) = (if sf slug = s \<and> d = D_active_public_rooms then 1 else 0)"
| "charge sf s d (RouteClosed slug ms) =
     (if sf slug = s \<and> d = D_route_minutes then max 0 ((ms + 30000) div 60000) else 0)"
| "charge sf s d (PublicForward slug path i u) =
     (if sf slug \<noteq> s then 0
      else case d of D_relay_requests \<Rightarrow> 1 | D_bandwidth_bytes \<Rightarrow> int i + int u
        | D_participant_joins \<Rightarrow> if path = ''/join'' \<or> starts_with ''/join?'' path then 1 else 0
        | _ \<Rightarrow> 0)"

fun call_slug :: "meter_call \<Rightarrow> string" where
  "call_slug (RouteRegistered slug) = slug"
| "call_slug (RouteClosed slug ms) = slug"
| "call_slug (PublicForward slug path i u) = slug"

definition readable :: "meter_files \<Rightarrow> bool" where
  "readable fs \<longleftrightarrow> (\<forall>s. meter_file s fs \<noteq> BadFile)"

definition put_record :: "string \<Rightarrow> MeteringRecord \<Rightarrow> meter_files \<Rightarrow> meter_files" where
  "put_record s r = AList.update s (File r)"

definition get_record :: "string \<Rightarrow> meter_files \<Rightarrow> MeteringRecord option" where
  "get_record s fs = (case meter_file s fs of File r \<Rightarrow> Some r | _ \<Rightarrow> None)"

interpretation meters: keyed_store get_record put_record
  by unfold_locales (simp_all add: get_record_def put_record_def meter_file_def update_conv')

lemma readable_put [simp]: "readable fs \<Longrightarrow> readable (put_record s r fs)"
  by (simp add: readable_def put_record_def meter_file_def update_conv')

lemma tally_get: "tally W s fs d = (case get_record s fs of
     Some r \<Rightarrow> if window_id (mr_window r) = W then (case mw_counters (mr_window r) d of Some n \<Rightarrow> n | None \<Rightarrow> 0) else 0
   | None \<Rightarrow> 0)"
  by (simp add: tally_def get_record_def split: stored.split)

lemma readRecord_get: "valid_subject s \<Longrightarrow> readable fs \<Longrightarrow> readRecord s fs = Inr (get_record s fs)"
  by (cases "meter_file s fs")
    (auto simp: readRecord_def assertSubject_def get_record_def readable_def isNotFoundError_def)

lemma windowFor_tally:
  "window_id (windowFor L now (get_record s fs)) = window_of L now"
  "mw_counters (windowFor L now (get_record s fs)) d = Some (tally (window_of L now) s fs d)"
  by (auto simp: windowFor_def tally_get zeroCounters_def map_add_def split: option.splits)

lemma record_usage_eval:
  assumes "valid_subject s" "0 \<le> a" "readable fs"
  shows "record_usage L now s d a (Some True) fs =
    (let r = finalize L now s (bump d a (windowFor L now (get_record s fs))) in (Inr (Some r), put_record s r fs))"
  using assms by (simp add: record_usage_def update_file_def liftM_def assertSubject_def readRecord_get
      bindA_apply put_record_def Let_def)

lemma record_usage_tally:
  assumes "valid_subject s" "0 \<le> a" "readable fs"
  shows "tally (window_of L now) s' (snd (record_usage L now s d a (Some True) fs)) d' =
      tally (window_of L now) s' fs d' + (if s' = s \<and> d' = d then a else 0)"
    and "readable (snd (record_usage L now s d a (Some True) fs))"
    and "\<exists>r. fst (record_usage L now s d a (Some True) fs) = Inr r"
  using assms by (auto simp: record_usage_eval Let_def tally_get [of _ _ "put_record _ _ _"] meters.look_put finalize_def
      bump_def windowFor_tally tally_get [symmetric])

lemma bind_record_usage:
  assumes "valid_subject s" "0 \<le> a" "readable fs"
  shows "snd (bindA (record_usage L now s d a (Some True)) f fs) =
      snd (f (projr (fst (record_usage L now s d a (Some True) fs))) (snd (record_usage L now s d a (Some True) fs)))"
    and "fst (bindA (record_usage L now s d a (Some True)) f fs) =
      fst (f (projr (fst (record_usage L now s d a (Some True) fs))) (snd (record_usage L now s d a (Some True) fs)))"
  using record_usage_tally(3) [OF assms, of L now d] by (auto simp: bindA_apply split: prod.split)

lemma broker_meter_tally:
  assumes "valid_subject (sf (call_slug call))" "readable fs"
  shows "tally (window_of L now) s (snd (broker_meter L sf now call fs)) d =
      tally (window_of L now) s fs d + charge sf s d call \<and>
    readable (snd (broker_meter L sf now call fs)) \<and> fst (broker_meter L sf now call fs) = Inr ()"
  using assms
  by (cases call; cases d; cases "sf (call_slug call) = s") (simp_all add: bind_record_usage record_usage_tally Let_def)

lemma meter_run_tally:
  assumes "\<forall>(now, call) \<in> set calls. window_of L now = W \<and> valid_subject (sf (call_slug call))" "readable fs"
  shows "tally W s (meter_run L sf calls fs) d = tally W s fs d + (\<Sum>(now, call) \<leftarrow> calls. charge sf s d call) \<and>
    readable (meter_run L sf calls fs)"
  using assms
proof (induction calls arbitrary: fs)
  case (Cons c calls)
  obtain now call where c: "c = (now, call)" by (cases c)
  with Cons.prems have W: "window_of L now = W" "valid_subject (sf (call_slug call))" by auto
  note step = broker_meter_tally [of sf call, OF W(2) Cons.prems(2), of L now s d]
  with Cons c W show ?case by auto
qed simp

lemma usage_eval:
  assumes "valid_subject s" "readable fs"
  shows "meter_usage L now s fs = (Inr (finalize L now s (windowFor L now (get_record s fs))), fs)"
  using assms by (simp add: meter_usage_def liftM_def assertSubject_def readRecord_get bindA_apply)

lemma all_dimensions [simp]: "set METERED_DIMENSIONS = UNIV"
proof -
  have "d \<in> set METERED_DIMENSIONS" for d by (cases d) (simp_all add: METERED_DIMENSIONS_def)
  then show ?thesis by blast
qed

lemma finalize_reasons:
  "exceeded_reasons (finalize L now s w) = filter (over_quota L (mw_counters w)) METERED_DIMENSIONS"
  "mr_exceeded (finalize L now s w) \<longleftrightarrow> (\<exists>d. over_quota L (mw_counters w) d)"
  by (auto simp: finalize_def Let_def filter_empty_conv)

lemma over_tally: "over_quota L (mw_counters (windowFor L now (get_record s fs))) d \<longleftrightarrow>
    ml_quota L d < tally (window_of L now) s fs d"
  by (simp add: over_quota_def windowFor_tally)

text \<open>Claim C29. Every call the broker makes to its meter is counted once, on the right dimension of the
  right subject and on no other: after any calls of one window, the usage reported of a subject is
  what the file held of that window before plus the sum of what each call charges it, and it is
  reported over quota exactly when one of these sums is.\<close>

theorem meter_counts_calls:
  assumes "\<forall>(t, call) \<in> set calls. window_of L t = W \<and> valid_subject (sf (call_slug call))"
    and "readable fs" "valid_subject s" "window_of L now = W"
  shows "\<exists>r fs'. meter_usage L now s (meter_run L sf calls fs) = (Inr r, fs') \<and> fs' = meter_run L sf calls fs \<and>
    (\<forall>d. mw_counters (mr_window r) d = Some (tally W s fs d + (\<Sum>(t, call) \<leftarrow> calls. charge sf s d call))) \<and>
    (mr_exceeded r \<longleftrightarrow> (\<exists>d. ml_quota L d < tally W s fs d + (\<Sum>(t, call) \<leftarrow> calls. charge sf s d call)))"
proof -
  let ?fs = "meter_run L sf calls fs" and ?r = "finalize L now s (windowFor L now (get_record s (meter_run L sf calls fs)))"
  have run: "tally W s ?fs d = tally W s fs d + (\<Sum>(t, call) \<leftarrow> calls. charge sf s d call)" "readable ?fs" for d
    using meter_run_tally [OF assms(1,2)] by simp_all
  have "mw_counters (mr_window ?r) = mw_counters (windowFor L now (get_record s ?fs))"
    by (simp add: finalize_def Let_def)
  then show ?thesis
    using usage_eval [OF assms(3) run(2)] run(1) assms(4) by (simp add: windowFor_tally finalize_reasons over_tally)
qed

definition lab_ledger :: MeteringLedger where
  "lab_ledger = new_ledger\<lparr> ml_quota := (\<lambda>d. 2) \<rparr>"

definition lab_calls :: "(nat \<times> meter_call) list" where
  "lab_calls = [(0, RouteRegistered ''lab''), (10, PublicForward ''lab'' ''/join'' 1 0),
     (90000, RouteClosed ''lab'' 90000), (99000, PublicForward ''other'' ''/'' 5 5)]"

lemma meter_counts_calls_witness:
  "\<exists>r fs'. meter_usage lab_ledger 100000 ''lab'' (meter_run lab_ledger (\<lambda>s. s) lab_calls []) = (Inr r, fs') \<and>
    mw_counters (mr_window r) D_route_minutes = Some 2 \<and> \<not> mr_exceeded r"
proof -
  have sums: "(\<Sum>(t, call) \<leftarrow> lab_calls. charge (\<lambda>s. s) ''lab'' d call) = (if d = D_route_minutes then 2 else 1)" for d
    by (cases d) (simp_all add: lab_calls_def)
  have calls: "\<forall>(t, call) \<in> set lab_calls. window_of lab_ledger t = nat_str 0 \<and> valid_subject (call_slug call)"
    "window_of lab_ledger 100000 = nat_str 0"
    by (simp_all add: lab_calls_def window_of_def lab_ledger_def new_ledger_def DAY_MS_def valid_subject_def)
  have empty: "tally W s [] d = 0" "readable []" for W s d
    by (simp_all add: tally_def meter_file_def readable_def)
  have lab: "valid_subject ''lab''" by (simp add: valid_subject_def)
  from meter_counts_calls [OF calls(1) empty(2) lab calls(2)] show ?thesis
    by (auto simp: sums empty lab_ledger_def split: if_splits)
qed

lemma quota_admits_iff:
  assumes "valid_subject (sf slug)" "readable fs"
  shows "(if \<forall>d. tally (window_of L now) (sf slug) fs d \<le> ml_quota L d then fst (admitPublicForward L sf now slug fs) = Inr ()
     else \<exists>e. admission_of (fst (admitPublicForward L sf now slug fs)) = Inl e \<and>
       fst (admitPublicForward L sf now slug fs) = Inl (MF_tunnel e) \<and> te_code e = TE_quota_exceeded \<and> te_status e = 429) \<and>
    snd (admitPublicForward L sf now slug fs) = fs"
proof -
  let ?r = "finalize L now (sf slug) (windowFor L now (get_record (sf slug) fs))"
  have "(\<exists>d. over_quota L (mw_counters (windowFor L now (get_record (sf slug) fs))) d) \<longleftrightarrow>
      \<not> (\<forall>d. tally (window_of L now) (sf slug) fs d \<le> ml_quota L d)"
    by (auto simp: over_tally not_le)
  then have "mr_exceeded ?r \<longleftrightarrow> \<not> (\<forall>d. tally (window_of L now) (sf slug) fs d \<le> ml_quota L d)"
    by (simp only: finalize_reasons)
  then show ?thesis
    using usage_eval [OF assms, of L now]
    by (auto simp: admitPublicForward_def assertWithinQuota_def check_quota_def bindA_apply tunnel_error_def admission_of_def)
qed

text \<open>The quota gate is exact and local: a forward is admitted exactly when no count of its
  subject in the current window is over its quota, else it is refused with \<open>quota_exceeded\<close> and status
  429; asking writes nothing; and when the clock leaves the window the subject starts again from zero.\<close>

lemma quota_gate_exact:
  assumes "valid_subject (sf slug)" "readable fs"
  shows "\<exists>x. admitPublicForward L sf now slug fs = (x, fs) \<and>
    (if \<forall>d. tally (window_of L now) (sf slug) fs d \<le> ml_quota L d then x = Inr ()
     else \<exists>e. x = Inl (MF_tunnel e) \<and> te_code e = TE_quota_exceeded \<and> te_status e = 429) \<and>
    ((\<forall>r. meter_file (sf slug) fs = File r \<longrightarrow> window_id (mr_window r) \<noteq> window_of L now) \<longrightarrow>
       (\<forall>d. tally (window_of L now) (sf slug) fs d = 0))"
proof -
  obtain x where x: "admitPublicForward L sf now slug fs = (x, fs)"
    using quota_admits_iff [of sf slug fs L now] assms by (cases "admitPublicForward L sf now slug fs") auto
  have "tally (window_of L now) (sf slug) fs d = 0"
    if "\<forall>r. meter_file (sf slug) fs = File r \<longrightarrow> window_id (mr_window r) \<noteq> window_of L now" for d
    using that by (cases "meter_file (sf slug) fs") (simp_all add: tally_def)
  then show ?thesis
    using quota_admits_iff [of sf slug fs L now] assms x by (auto split: if_splits)
qed

definition lab_full :: meter_files where
  "lab_full = meter_run lab_ledger (\<lambda>s. s) (replicate 3 (0, RouteRegistered ''lab'')) []"

lemma lab_full_facts: "readable lab_full" "tally (nat_str 0) ''lab'' lab_full D_active_public_rooms = 3"
    "window_of lab_ledger 5 = nat_str 0" "valid_subject ''lab''"
proof -
  have "\<forall>(t, call) \<in> set (replicate 3 (0, RouteRegistered ''lab'')).
      window_of lab_ledger t = nat_str 0 \<and> valid_subject (call_slug call)"
    by (auto simp: window_of_def lab_ledger_def new_ledger_def DAY_MS_def valid_subject_def)
  note run = meter_run_tally [of _ lab_ledger _ "\<lambda>s. s", OF this, of "[]" "''lab''" D_active_public_rooms]
  then show "readable lab_full" "tally (nat_str 0) ''lab'' lab_full D_active_public_rooms = 3"
    by (simp_all add: lab_full_def readable_def meter_file_def tally_def numeral_eq_Suc)
qed (simp_all add: window_of_def lab_ledger_def new_ledger_def DAY_MS_def valid_subject_def)


definition lab_visit :: ForwardInput where
  "lab_visit = \<lparr> fw_path = ''/'', fw_search = [], fw_method = ''GET'', fw_clientIp = [], fw_headers = [], fw_body = [] \<rparr>"


end
