(* ===== verification/Accounts.thy ===== *)
theory Accounts
  imports JsLib
begin

text \<open>
  \<open>platform/accounts.ts\<close>: the owner identity the control plane is scoped to, and the checks an account
  passes before its id is used. Also here: the parsers of the runtime the platform relies on, the URL
  and date parsers, as one record the definitions take as an argument.
\<close>

subsection \<open>The runtime\<close>

text \<open>What the platform reads of a parsed URL; \<open>url_query\<close> and \<open>url_hash_query\<close> are the decoded search parameters.\<close>

record Url =
  url_protocol :: string
  url_origin :: string
  url_hostname :: string
  url_pathname :: string
  url_username :: string
  url_password :: string
  url_query :: "(string \<times> string) list"
  url_hash :: string
  url_hash_query :: "(string \<times> string) list"

record Runtime =
  rt_URL :: "string \<Rightarrow> Url option"
  rt_Date_parse :: "string \<Rightarrow> int option"
  rt_toISOString :: "int \<Rightarrow> string"

text \<open>A regular expression of one character of a class, then at most \<open>n\<close> of another.\<close>

definition matches_label :: "string \<Rightarrow> string \<Rightarrow> nat \<Rightarrow> string \<Rightarrow> bool" where
  "matches_label first rest n s \<longleftrightarrow> (case s of [] \<Rightarrow> False
     | c # cs \<Rightarrow> c \<in> set first \<and> list_all (\<lambda>x. x \<in> set rest) cs \<and> length cs \<le> n)"

definition lower_digits :: string where
  "lower_digits = ''abcdefghijklmnopqrstuvwxyz0123456789''"

definition alnum :: string where
  "alnum = ''ABCDEFGHIJKLMNOPQRSTUVWXYZabcdefghijklmnopqrstuvwxyz0123456789''"

subsection \<open>Accounts\<close>

record PlatformExternalIdentity =
  xi_provider :: string
  xi_subject :: string

record PlatformAccount =
  pa_user_id :: string
  pa_display_name :: string
  pa_email :: "string option"
  pa_external_identity :: "PlatformExternalIdentity option"
  pa_created_at :: string
  pa_updated_at :: string

record DevOwnerIdentityConfig =
  dc_userId :: "string option"
  dc_displayName :: "string option"
  dc_email :: "string option"
  dc_externalIdentity :: "PlatformExternalIdentity option"

record PlatformOwnerQuery =
  oq_account :: "json option"
  oq_dev_owner :: "DevOwnerIdentityConfig option"
  oq_owner_user_id :: "string option"

definition DEFAULT_DEV_OWNER_ID :: string where "DEFAULT_DEV_OWNER_ID = ''local-owner''"
definition DEFAULT_DEV_OWNER_DISPLAY_NAME :: string where "DEFAULT_DEV_OWNER_DISPLAY_NAME = ''Local Owner''"

definition ACCOUNT_KEYS :: "string list" where
  "ACCOUNT_KEYS = [''user_id'', ''display_name'', ''email'', ''external_identity'', ''created_at'', ''updated_at'']"

definition EXTERNAL_IDENTITY_KEYS :: "string list" where
  "EXTERNAL_IDENTITY_KEYS = [''provider'', ''subject'']"

text \<open>The keys that would carry room content or credentials; the registry refuses the same ones.\<close>

definition FORBIDDEN_KEYS :: "string list" where
  "FORBIDDEN_KEYS = [''message'', ''messages'', ''text'', ''body'', ''brief'', ''brief_body'', ''content'', ''token'', ''tokens'',
     ''token_hash'', ''bearer'', ''authorization'', ''invite_url'', ''card_url'', ''request_body'', ''response_body'']"

definition forbidden_key :: "(string \<times> json) list \<Rightarrow> string option" where
  "forbidden_key ps = find (\<lambda>k. js_toLowerCase k \<in> set FORBIDDEN_KEYS) (map fst ps)"

definition SAFE_USER_ID :: "string \<Rightarrow> bool" where
  "SAFE_USER_ID = matches_label alnum (alnum @ ''._-'') 127"

definition SAFE_PROVIDER :: "string \<Rightarrow> bool" where
  "SAFE_PROVIDER = matches_label lower_digits (lower_digits @ ''._-'') 63"

definition SAFE_SUBJECT :: "string \<Rightarrow> bool" where
  "SAFE_SUBJECT = matches_label alnum (alnum @ ''._:@/-'') 199"

text \<open>\<open>PlatformAccountValidationError\<close> carries its message.\<close>

type_synonym 'a account_result = "string + 'a"

fun account_string :: "json option \<Rightarrow> string \<Rightarrow> string account_result" where
  "account_string (Some (JStr s)) label = Inr s"
| "account_string _ label = Inl (label @ '' must be a string'')"

fun account_record :: "json option \<Rightarrow> string \<Rightarrow> (string \<times> json) list account_result" where
  "account_record (Some (JObj ps)) label = Inr ps"
| "account_record _ label = Inl (label @ '' must be an object'')"

definition account_no_forbidden :: "(string \<times> json) list \<Rightarrow> string \<Rightarrow> unit account_result" where
  "account_no_forbidden ps label = (case forbidden_key ps of None \<Rightarrow> Inr ()
     | Some k \<Rightarrow> Inl (label @ '' must not carry canonical or sensitive field '' @ k))"

definition account_only_keys :: "string list \<Rightarrow> (string \<times> json) list \<Rightarrow> string \<Rightarrow> unit account_result" where
  "account_only_keys keys ps label = (case find (\<lambda>k. k \<notin> set keys) (map fst ps) of None \<Rightarrow> Inr ()
     | Some k \<Rightarrow> Inl (label @ '' has unsupported field '' @ k))"

definition asUserId :: "json option \<Rightarrow> string account_result" where
  "asUserId v = bindR (account_string v ''user_id'') (\<lambda>s.
     if \<not> SAFE_USER_ID s \<or> str_includes s ''tgl_'' then Inl ''user_id is invalid'' else Inr s)"

definition asDisplayName :: "json option \<Rightarrow> string account_result" where
  "asDisplayName v = bindR (account_string v ''display_name'') (\<lambda>s.
     let t = js_trim s in if t = [] \<or> length t > 100 then Inl ''display_name is invalid'' else Inr t)"

definition asNullableEmail :: "json option \<Rightarrow> string option account_result" where
  "asNullableEmail v = (if v = Some JNull then Inr None
     else bindR (account_string v ''email'') (\<lambda>s.
       let t = js_trim s
       in if t = [] \<or> length t > 320 \<or> list_ex js_space t \<or> CHR ''@'' \<notin> set t then Inl ''email is invalid'' else Inr (Some t)))"

definition asNullableExternalIdentity :: "json option \<Rightarrow> PlatformExternalIdentity option account_result" where
  "asNullableExternalIdentity v = (if v = Some JNull then Inr None
     else bindR (account_record v ''external_identity'') (\<lambda>ps.
          bindR (account_no_forbidden ps ''external_identity'') (\<lambda>_.
          bindR (account_only_keys EXTERNAL_IDENTITY_KEYS ps ''external_identity'') (\<lambda>_.
          bindR (account_string (map_of ps ''provider'') ''external_identity.provider'') (\<lambda>provider.
          bindR (account_string (map_of ps ''subject'') ''external_identity.subject'') (\<lambda>subj.
          if \<not> SAFE_PROVIDER provider then Inl ''external_identity.provider is invalid''
          else if \<not> SAFE_SUBJECT subj \<or> str_includes subj ''tgl_'' then Inl ''external_identity.subject is invalid''
          else Inr (Some \<lparr> xi_provider = provider, xi_subject = subj \<rparr>)))))))"

definition account_timestamp :: "Runtime \<Rightarrow> json option \<Rightarrow> string \<Rightarrow> string account_result" where
  "account_timestamp rt v label = bindR (account_string v label) (\<lambda>s.
     case rt_Date_parse rt s of
       None \<Rightarrow> Inl (label @ '' is invalid'')
     | Some ms \<Rightarrow> if rt_toISOString rt ms \<noteq> s then Inl (label @ '' is invalid'') else Inr s)"

definition sanitizeAccount :: "Runtime \<Rightarrow> json option \<Rightarrow> PlatformAccount account_result" where
  "sanitizeAccount rt input =
     bindR (account_record input ''account'') (\<lambda>ps.
     bindR (account_no_forbidden ps ''account'') (\<lambda>_.
     bindR (account_only_keys ACCOUNT_KEYS ps ''account'') (\<lambda>_.
     bindR (account_timestamp rt (map_of ps ''created_at'') ''account.created_at'') (\<lambda>createdAt.
     bindR (account_timestamp rt (map_of ps ''updated_at'') ''account.updated_at'') (\<lambda>updatedAt.
     bindR (asUserId (map_of ps ''user_id'')) (\<lambda>userId.
     bindR (asDisplayName (map_of ps ''display_name'')) (\<lambda>displayName.
     bindR (asNullableEmail (map_of ps ''email'')) (\<lambda>email.
     bindR (asNullableExternalIdentity (map_of ps ''external_identity'')) (\<lambda>identity.
     Inr \<lparr> pa_user_id = userId, pa_display_name = displayName, pa_email = email, pa_external_identity = identity,
           pa_created_at = createdAt, pa_updated_at = updatedAt \<rparr>)))))))))"

definition identity_json :: "PlatformExternalIdentity option \<Rightarrow> json" where
  "identity_json x = (case x of None \<Rightarrow> JNull
     | Some i \<Rightarrow> JObj [(''provider'', JStr (xi_provider i)), (''subject'', JStr (xi_subject i))])"

definition nullable_json :: "string option \<Rightarrow> json" where
  "nullable_json x = (case x of None \<Rightarrow> JNull | Some s \<Rightarrow> JStr s)"

text \<open>\<open>value ?? default\<close>.\<close>

definition or_default :: "'a option \<Rightarrow> 'a \<Rightarrow> 'a" where
  "or_default x d = (case x of Some y \<Rightarrow> y | None \<Rightarrow> d)"

definition createDevOwnerAccount :: "Runtime \<Rightarrow> int \<Rightarrow> DevOwnerIdentityConfig \<Rightarrow> PlatformAccount account_result" where
  "createDevOwnerAccount rt now config =
     (let iso = rt_toISOString rt now
      in bindR (asUserId (Some (JStr (or_default (dc_userId config) DEFAULT_DEV_OWNER_ID)))) (\<lambda>userId.
         bindR (asDisplayName (Some (JStr (or_default (dc_displayName config) DEFAULT_DEV_OWNER_DISPLAY_NAME)))) (\<lambda>displayName.
         bindR (asNullableEmail (Some (nullable_json (dc_email config)))) (\<lambda>email.
         bindR (asNullableExternalIdentity (Some (identity_json (dc_externalIdentity config)))) (\<lambda>identity.
         Inr \<lparr> pa_user_id = userId, pa_display_name = displayName, pa_email = email, pa_external_identity = identity,
               pa_created_at = iso, pa_updated_at = iso \<rparr>)))))"

text \<open>\<open>devOwnerIdentityFromEnv\<close> over the environment variables.\<close>

definition devOwnerIdentityFromEnv :: "(string \<rightharpoonup> string) \<Rightarrow> DevOwnerIdentityConfig account_result" where
  "devOwnerIdentityFromEnv env =
     (let provider = env ''AGENTGATHER_DEV_OWNER_PROVIDER''; subj = env ''AGENTGATHER_DEV_OWNER_SUBJECT''
      in if (provider = None) \<noteq> (subj = None)
         then Inl ''AGENTGATHER_DEV_OWNER_PROVIDER and AGENTGATHER_DEV_OWNER_SUBJECT must be configured together''
         else Inr \<lparr> dc_userId = env ''AGENTGATHER_DEV_OWNER_ID'', dc_displayName = env ''AGENTGATHER_DEV_OWNER_NAME'',
                dc_email = (if env ''AGENTGATHER_DEV_OWNER_EMAIL'' = Some [] then None else env ''AGENTGATHER_DEV_OWNER_EMAIL''),
                dc_externalIdentity = (case (provider, subj) of
                    (Some p, Some s) \<Rightarrow> Some \<lparr> xi_provider = p, xi_subject = s \<rparr> | _ \<Rightarrow> None) \<rparr>)"

definition resolveOwnerAccount :: "Runtime \<Rightarrow> int \<Rightarrow> PlatformOwnerQuery \<Rightarrow> PlatformAccount option account_result" where
  "resolveOwnerAccount rt now query = (case oq_account query of
     Some a \<Rightarrow> map_sum id Some (sanitizeAccount rt (Some a))
   | None \<Rightarrow> (case oq_dev_owner query of
       Some c \<Rightarrow> map_sum id Some (createDevOwnerAccount rt now c)
     | None \<Rightarrow> (case oq_owner_user_id query of
         Some u \<Rightarrow> map_sum id Some (createDevOwnerAccount rt now
           \<lparr> dc_userId = Some u, dc_displayName = Some u, dc_email = None, dc_externalIdentity = None \<rparr>)
       | None \<Rightarrow> Inr None)))"

subsection \<open>An account passes its own checks\<close>

text \<open>The JSON value of an account.\<close>

definition account_json :: "PlatformAccount \<Rightarrow> json" where
  "account_json a = JObj [(''user_id'', JStr (pa_user_id a)), (''display_name'', JStr (pa_display_name a)),
     (''email'', nullable_json (pa_email a)), (''external_identity'', identity_json (pa_external_identity a)),
     (''created_at'', JStr (pa_created_at a)), (''updated_at'', JStr (pa_updated_at a))]"

lemma asUserId_again: "asUserId v = Inr u \<Longrightarrow> asUserId (Some (JStr u)) = Inr u"
  by (auto simp: asUserId_def bindR_Inr_iff split: if_splits)

lemma asDisplayName_again: "asDisplayName v = Inr u \<Longrightarrow> asDisplayName (Some (JStr u)) = Inr u"
  by (auto simp: asDisplayName_def bindR_Inr_iff Let_def split: if_splits)

lemma asNullableEmail_again: "asNullableEmail v = Inr u \<Longrightarrow> asNullableEmail (Some (nullable_json u)) = Inr u"
proof (cases "v = Some JNull")
  case False
  assume "asNullableEmail v = Inr u"
  with False obtain t where t: "account_string v ''email'' = Inr t" "u = Some (js_trim t)" "js_trim t \<noteq> []"
      "length (js_trim t) \<le> 320" "\<not> list_ex js_space (js_trim t)" "CHR ''@'' \<in> set (js_trim t)"
    unfolding asNullableEmail_def Let_def by (auto simp: bindR_Inr_iff not_less simp del: list_ex_iff split: if_split_asm)
  then show ?thesis by (simp add: asNullableEmail_def nullable_json_def Let_def not_less)
qed (simp add: asNullableEmail_def nullable_json_def)

lemma lower_literals: "js_toLowerCase ''provider'' = ''provider''" "js_toLowerCase ''subject'' = ''subject''"
    "js_toLowerCase ''user_id'' = ''user_id''" "js_toLowerCase ''display_name'' = ''display_name''"
    "js_toLowerCase ''email'' = ''email''" "js_toLowerCase ''external_identity'' = ''external_identity''"
    "js_toLowerCase ''created_at'' = ''created_at''" "js_toLowerCase ''updated_at'' = ''updated_at''"
  by code_simp+

lemma identity_again:
  "asNullableExternalIdentity v = Inr x \<Longrightarrow> asNullableExternalIdentity (Some (identity_json x)) = Inr x"
  by (auto simp: asNullableExternalIdentity_def identity_json_def bindR_Inr_iff account_no_forbidden_def forbidden_key_def
      account_only_keys_def lower_literals FORBIDDEN_KEYS_def EXTERNAL_IDENTITY_KEYS_def split: if_splits option.splits)

lemma timestamp_again: "account_timestamp rt v l = Inr u \<Longrightarrow> account_timestamp rt (Some (JStr u)) m = Inr u"
  by (auto simp: account_timestamp_def bindR_Inr_iff split: option.splits if_splits)

lemma sanitize_json:
  assumes "asUserId (Some (JStr (pa_user_id a))) = Inr (pa_user_id a)"
    "asDisplayName (Some (JStr (pa_display_name a))) = Inr (pa_display_name a)"
    "asNullableEmail (Some (nullable_json (pa_email a))) = Inr (pa_email a)"
    "asNullableExternalIdentity (Some (identity_json (pa_external_identity a))) = Inr (pa_external_identity a)"
    "\<And>m. account_timestamp rt (Some (JStr (pa_created_at a))) m = Inr (pa_created_at a)"
    "\<And>m. account_timestamp rt (Some (JStr (pa_updated_at a))) m = Inr (pa_updated_at a)"
  shows "sanitizeAccount rt (Some (account_json a)) = Inr a"
  using assms by (simp add: sanitizeAccount_def account_json_def account_no_forbidden_def forbidden_key_def
      account_only_keys_def lower_literals FORBIDDEN_KEYS_def ACCOUNT_KEYS_def)

text \<open>Claim C31. The identity a request is scoped to is stable: whatever way the owner was given (an account,
  a development identity, an id), the account it resolves to carries a safe user id with no token in
  it, and when that account is presented again it is accepted and resolves to itself. It is assumed of
  the runtime that an instant's ISO text parses back to the instant.\<close>

theorem owner_account_stable:
  assumes "resolveOwnerAccount rt now query = Inr (Some a)" "\<And>t. rt_Date_parse rt (rt_toISOString rt t) = Some t"
  shows "SAFE_USER_ID (pa_user_id a) \<and> \<not> str_includes (pa_user_id a) ''tgl_'' \<and>
    resolveOwnerAccount rt later \<lparr> oq_account = Some (account_json a), oq_dev_owner = d, oq_owner_user_id = u \<rparr> = Inr (Some a)"
proof -
  have iso: "account_timestamp rt (Some (JStr (rt_toISOString rt t))) m = Inr (rt_toISOString rt t)" for t m
    by (simp add: account_timestamp_def assms(2))
  have dev: "asUserId (Some (JStr (pa_user_id a))) = Inr (pa_user_id a) \<and> sanitizeAccount rt (Some (account_json a)) = Inr a"
    if "createDevOwnerAccount rt now c = Inr a" for c
    using that
    by (auto simp: createDevOwnerAccount_def Let_def bindR_Inr_iff iso
        intro!: sanitize_json intro: asUserId_again asDisplayName_again asNullableEmail_again identity_again)
  have given: "asUserId (Some (JStr (pa_user_id a))) = Inr (pa_user_id a) \<and> sanitizeAccount rt (Some (account_json a)) = Inr a"
    if "sanitizeAccount rt v = Inr a" for v
  proof -
    from that obtain ps where "account_timestamp rt (map_of ps ''created_at'') ''account.created_at'' = Inr (pa_created_at a)"
        "account_timestamp rt (map_of ps ''updated_at'') ''account.updated_at'' = Inr (pa_updated_at a)"
        "asUserId (map_of ps ''user_id'') = Inr (pa_user_id a)" "asDisplayName (map_of ps ''display_name'') = Inr (pa_display_name a)"
        "asNullableEmail (map_of ps ''email'') = Inr (pa_email a)"
        "asNullableExternalIdentity (map_of ps ''external_identity'') = Inr (pa_external_identity a)"
      by (auto simp: sanitizeAccount_def bindR_Inr_iff)
    then show ?thesis
      by (blast intro: sanitize_json asUserId_again asDisplayName_again asNullableEmail_again identity_again timestamp_again)
  qed
  have "asUserId (Some (JStr (pa_user_id a))) = Inr (pa_user_id a) \<and> sanitizeAccount rt (Some (account_json a)) = Inr a"
    using assms(1) dev given
    by (auto simp: resolveOwnerAccount_def map_sum_def split: option.splits sum.splits)
  then show ?thesis
    by (auto simp: resolveOwnerAccount_def asUserId_def split: if_splits)
qed

text \<open>A concrete runtime: instants as signed decimals, and the URLs of one host.\<close>

definition lab_url :: "string \<Rightarrow> Url" where
  "lab_url path = \<lparr> url_protocol = ''http:'', url_origin = ''http://h'', url_hostname = ''h'', url_pathname = path,
     url_username = [], url_password = [], url_query = [], url_hash = [], url_hash_query = [] \<rparr>"

definition lab_runtime :: Runtime where
  "lab_runtime = \<lparr>
     rt_URL = (\<lambda>s. if starts_with ''http://h'' s then Some (lab_url (if s = ''http://h'' then ''/'' else drop 8 s)) else None),
     rt_Date_parse = (\<lambda>s. case s of [] \<Rightarrow> None | c # cs \<Rightarrow>
       Some (if c = CHR ''-'' then - int (digits_value cs) else int (digits_value cs))),
     rt_toISOString = (\<lambda>t. (if t < 0 then CHR ''-'' else CHR ''+'') # nat_str (nat \<bar>t\<bar>)) \<rparr>"

definition lab_owner :: DevOwnerIdentityConfig where
  "lab_owner = \<lparr> dc_userId = None, dc_displayName = Some '' Ada '', dc_email = Some ''ada@h'', dc_externalIdentity = None \<rparr>"

lemma lab_runtime_dates: "rt_Date_parse lab_runtime (rt_toISOString lab_runtime t) = Some t"
  by (simp add: lab_runtime_def)

lemma owner_account_stable_witness:
  "\<exists>a. resolveOwnerAccount lab_runtime 5 \<lparr> oq_account = None, oq_dev_owner = Some lab_owner, oq_owner_user_id = None \<rparr> = Inr (Some a) \<and>
    resolveOwnerAccount lab_runtime 9 \<lparr> oq_account = Some (account_json a), oq_dev_owner = None, oq_owner_user_id = None \<rparr> = Inr (Some a)"
proof -
  let ?q = "\<lparr> oq_account = None, oq_dev_owner = Some lab_owner, oq_owner_user_id = None \<rparr>"
  have "\<exists>a. resolveOwnerAccount lab_runtime 5 ?q = Inr (Some a)"
    by (auto simp: resolveOwnerAccount_def createDevOwnerAccount_def lab_owner_def or_default_def nullable_json_def
        identity_json_def asUserId_def asDisplayName_def asNullableEmail_def asNullableExternalIdentity_def
        DEFAULT_DEV_OWNER_ID_def SAFE_USER_ID_def matches_label_def alnum_def js_trim_def js_space_def starts_with_def Let_def)
  then obtain a where a: "resolveOwnerAccount lab_runtime 5 ?q = Inr (Some a)" by blast
  from owner_account_stable [OF this lab_runtime_dates] a show ?thesis by blast
qed

end
