(* ===== verification/PlatformStatus.thy ===== *)
theory PlatformStatus
  imports Broker
begin

text \<open>
  \<open>platform/status.ts\<close>: the central status of a room, derived from the broker's route metadata and the
  host's attendance facts. There is no state here: the derivation is a function of the two signals.
\<close>

datatype PlatformRoomStatus = PS_active | PS_idle | PS_paused | PS_closed

datatype PlatformStatusReason =
    PR_foreground_attending | PR_foreground_idle | PR_no_foreground_required | PR_host_unavailable
  | PR_route_expired | PR_route_closed | PR_room_closed

record RouteHealthSignal =
  rs_registered :: bool
  rs_route_status :: "RouteStatus option"
  rs_host_connected :: "bool option"

record HostAttendanceParticipant =
  ha_kind :: ParticipantKind
  ha_attendance_required :: bool
  ha_attendance_state :: string

record HostStatusSignal =
  hs_room_status :: RoomStatus
  hs_participants :: "HostAttendanceParticipant list"

record RouteHealth =
  rh_reachable :: bool
  rh_host_connected :: bool
  rh_checked_at :: "string option"

record PlatformStatusResult =
  ps_status :: PlatformRoomStatus
  ps_reason :: PlatformStatusReason
  ps_route_health :: RouteHealth

definition FOREGROUND_STATES :: "string list" where
  "FOREGROUND_STATES = [''attending'', ''managed'']"

definition routeSignalFromMetadata :: "RouteMetadata option \<Rightarrow> RouteHealthSignal" where
  "routeSignalFromMetadata route = (case route of
     None \<Rightarrow> \<lparr> rs_registered = False, rs_route_status = None, rs_host_connected = None \<rparr>
   | Some r \<Rightarrow> \<lparr> rs_registered = True, rs_route_status = Some (rm_status r), rs_host_connected = Some (rm_host_connected r) \<rparr>)"

definition routeHealthFromSignal :: "RouteHealthSignal \<Rightarrow> RouteHealth" where
  "routeHealthFromSignal route =
     \<lparr> rh_reachable = (rs_registered route \<and> rs_route_status route = Some Route_active),
       rh_host_connected = (case rs_host_connected route of Some b \<Rightarrow> b | None \<Rightarrow> False), rh_checked_at = None \<rparr>"

definition derivePlatformStatus :: "RouteHealthSignal \<Rightarrow> HostStatusSignal \<Rightarrow> PlatformStatusResult" where
  "derivePlatformStatus route host =
     (let result = (\<lambda>status reason. \<lparr> ps_status = status, ps_reason = reason, ps_route_health = routeHealthFromSignal route \<rparr>)
      in if rs_registered route \<and> rs_route_status route = Some Route_closed then result PS_closed PR_route_closed
      else if hs_room_status host = RS_closed then result PS_closed PR_room_closed
      else if \<not> rs_registered route then result PS_paused PR_host_unavailable
      else if rs_route_status route = Some Route_expired then result PS_paused PR_route_expired
      else if rs_host_connected route \<noteq> Some True then result PS_paused PR_host_unavailable
      else let required = filter ha_attendance_required (hs_participants host)
        in if required = [] then result PS_idle PR_no_foreground_required
        else if list_all (\<lambda>p. ha_attendance_state p \<in> set FOREGROUND_STATES) required
          then result PS_active PR_foreground_attending
        else result PS_idle PR_foreground_idle)"

text \<open>The signal of a slug, as the broker holds it at a moment.\<close>

definition route_signal :: "BrokerOptions \<Rightarrow> int \<Rightarrow> string \<Rightarrow> Broker \<Rightarrow> RouteHealthSignal" where
  "route_signal opts now slug b = routeSignalFromMetadata (map_option (refresh opts now) (map_of (tb_routes b) slug))"

definition attending :: "HostStatusSignal \<Rightarrow> bool" where
  "attending host \<longleftrightarrow> (\<exists>p \<in> set (hs_participants host). ha_attendance_required p) \<and>
     (\<forall>p \<in> set (hs_participants host). ha_attendance_required p \<longrightarrow> ha_attendance_state p \<in> set FOREGROUND_STATES)"

text \<open>The result over the broker's state: each of the four statuses has its condition.\<close>

lemma status_over_broker:
  "ps_status (derivePlatformStatus (route_signal opts now slug b) host) =
    (case map_of (tb_routes b) slug of
       None \<Rightarrow> if hs_room_status host = RS_closed then PS_closed else PS_paused
     | Some r \<Rightarrow>
         if rm_status r = Route_closed \<or> hs_room_status host = RS_closed then PS_closed
         else if rm_status r = Route_active \<and> now < rm_expires_at r \<and> now < rm_created_at r + opt_maxRouteLifetimeMs opts \<and>
             now - rm_last_heartbeat_at r \<le> opt_hostGraceMs opts
           then if attending host then PS_active else PS_idle
         else PS_paused)"
proof (cases "map_of (tb_routes b) slug")
  case None
  then show ?thesis
    by (cases "hs_room_status host") (simp_all add: route_signal_def routeSignalFromMetadata_def derivePlatformStatus_def)
next
  case (Some r)
  have att: "filter ha_attendance_required (hs_participants host) \<noteq> [] \<and>
      list_all (\<lambda>p. ha_attendance_state p \<in> set FOREGROUND_STATES) (filter ha_attendance_required (hs_participants host))
      \<longleftrightarrow> attending host"
    by (auto simp: attending_def list_all_iff filter_empty_conv)
  show ?thesis
    using Some att
    by (cases "rm_status r"; cases "hs_room_status host")
      (auto simp: route_signal_def routeSignalFromMetadata_def derivePlatformStatus_def Let_def refresh_def)
qed

lemma ps_health: "ps_route_health (derivePlatformStatus route host) = routeHealthFromSignal route"
  by (simp add: derivePlatformStatus_def Let_def)

text \<open>The central status never overstates a room. It is \<open>active\<close> exactly when the broker's route
  of the slug is open, within its TTL and its lifetime cap and attended by a heartbeat within the
  grace, the room is open, and somebody has to attend and everybody who has to is in the foreground;
  a closed route or a closed room always reads \<open>closed\<close>; and the route reads reachable only if the
  broker would still resolve the slug.\<close>

lemma active_is_attended:
  assumes "broker_inv opts b"
  shows "(ps_status (derivePlatformStatus (route_signal opts now slug b) host) = PS_active \<longleftrightarrow>
      (\<exists>r. map_of (tb_routes b) slug = Some r \<and> rm_status r = Route_active \<and> now < rm_expires_at r \<and>
        now < rm_created_at r + opt_maxRouteLifetimeMs opts \<and> now - rm_last_heartbeat_at r \<le> opt_hostGraceMs opts) \<and>
      hs_room_status host = RS_open \<and> attending host) \<and>
    (ps_status (derivePlatformStatus (route_signal opts now slug b) host) = PS_closed \<longleftrightarrow>
      hs_room_status host = RS_closed \<or> (\<exists>r. map_of (tb_routes b) slug = Some r \<and> rm_status r = Route_closed)) \<and>
    (rh_reachable (ps_route_health (derivePlatformStatus (route_signal opts now slug b) host)) \<longleftrightarrow>
      (\<exists>r. fst (resolve opts now slug b) = Inr r))"
proof (intro conjI)
  show "rh_reachable (ps_route_health (derivePlatformStatus (route_signal opts now slug b) host)) \<longleftrightarrow>
      (\<exists>r. fst (resolve opts now slug b) = Inr r)"
  proof -
    obtain y b1 where cur: "currentRoute opts now slug b = (y, b1)" by (cases "currentRoute opts now slug b")
    note found = currentRoute_found [OF assms cur]
    show ?thesis
      using cur found
      by (cases "map_of (tb_routes b) slug")
        (auto simp: resolve_def bindA_apply route_signal_def routeSignalFromMetadata_def ps_health routeHealthFromSignal_def
          intro: RouteStatus.exhaust)
  qed
qed (cases "hs_room_status host"; auto simp: status_over_broker split: option.splits)+

definition lab_host :: HostStatusSignal where
  "lab_host = \<lparr> hs_room_status = RS_open, hs_participants =
     [\<lparr> ha_kind = K_agent, ha_attendance_required = True, ha_attendance_state = ''attending'' \<rparr>] \<rparr>"

end
