(* ===== verification/Registry.thy ===== *)
theory Registry
  imports Accounts PlatformStatus Interfaces "HOL-Library.List_Lexorder" "HOL-Library.Char_ord"
begin

text \<open>
  \<open>platform/registry.ts\<close>: the control plane's records, one file per room. Every record is rebuilt from an
  untrusted JSON value through an allow-list, field by field in the code's order. The directory is an
  association list of room ids and files; \<open>JSON.parse\<close> of a file the registry wrote gives the record back.
\<close>

subsection \<open>Records\<close>

datatype RosterRole = RR_host | RR_member

record RosterEntry =
  re_alias :: string
  re_kind :: ParticipantKind
  re_role :: RosterRole
  re_status :: string
  re_last_seen_at :: "string option"

record ControlPlaneRoom =
  cp_room_id :: string
  cp_title :: string
  cp_owner_user_id :: string
  cp_route_url :: string
  cp_route_slug :: string
  cp_status :: PlatformRoomStatus
  cp_status_reason :: "PlatformStatusReason option"
  cp_roster :: "RosterEntry list"
  cp_route_health :: RouteHealth
  cp_last_synced_message_id :: int
  cp_last_seen_at :: "string option"
  cp_last_synced_at :: "string option"
  cp_created_at :: string
  cp_updated_at :: string

datatype cp_error = ControlPlaneValidationError string | ControlPlaneNotFoundError string | CPError js_error

type_synonym 'a cp_result = "cp_error + 'a"

definition invalid :: "string \<Rightarrow> 'a cp_result" where
  "invalid message = Inl (ControlPlaneValidationError message)"

definition liftJ :: "'a result \<Rightarrow> 'a cp_result" where
  "liftJ r = (case r of Inl e \<Rightarrow> Inl (CPError e) | Inr x \<Rightarrow> Inr x)"

subsection \<open>Rebuilding a record\<close>

definition ROSTER_KEYS :: "string list" where
  "ROSTER_KEYS = [''alias'', ''kind'', ''role'', ''status'', ''last_seen_at'']"

fun asRecord :: "json option \<Rightarrow> string \<Rightarrow> (string \<times> json) list cp_result" where
  "asRecord (Some (JObj ps)) label = Inr ps"
| "asRecord _ label = invalid (label @ '' must be an object'')"

definition assertNoForbiddenKeys :: "(string \<times> json) list \<Rightarrow> string \<Rightarrow> unit cp_result" where
  "assertNoForbiddenKeys ps label = (case forbidden_key ps of None \<Rightarrow> Inr ()
     | Some k \<Rightarrow> invalid (label @ '' must not carry canonical or sensitive field '' @ k))"

fun asString :: "json option \<Rightarrow> string \<Rightarrow> string cp_result" where
  "asString (Some (JStr s)) label = (if s = [] then invalid (label @ '' is required'') else Inr s)"
| "asString _ label = invalid (label @ '' is required'')"

fun asTitle :: "json option \<Rightarrow> string cp_result" where
  "asTitle (Some (JStr s)) = (if s = [] then invalid ''title is required''
     else if length s > 200 then invalid ''title must be <= 200 characters'' else Inr s)"
| "asTitle _ = invalid ''title is required''"

definition SAFE_LABEL :: "string \<Rightarrow> bool" where
  "SAFE_LABEL = matches_label lower_digits (lower_digits @ ''-'') 31"

fun asLabel :: "json option \<Rightarrow> string \<Rightarrow> string cp_result" where
  "asLabel (Some (JStr s)) label = (if SAFE_LABEL s then Inr s else invalid (label @ '' must be a short safe label''))"
| "asLabel _ label = invalid (label @ '' must be a short safe label'')"

definition PLATFORM_ROOM_STATUSES :: "(string \<times> PlatformRoomStatus) list" where
  "PLATFORM_ROOM_STATUSES = [(''active'', PS_active), (''idle'', PS_idle), (''paused'', PS_paused), (''closed'', PS_closed)]"

definition PLATFORM_STATUS_REASONS :: "(string \<times> PlatformStatusReason) list" where
  "PLATFORM_STATUS_REASONS =
    [(''foreground_attending'', PR_foreground_attending), (''foreground_idle'', PR_foreground_idle),
     (''no_foreground_required'', PR_no_foreground_required), (''host_unavailable'', PR_host_unavailable),
     (''route_expired'', PR_route_expired), (''route_closed'', PR_route_closed), (''room_closed'', PR_room_closed)]"

definition PARTICIPANT_KINDS :: "(string \<times> ParticipantKind) list" where
  "PARTICIPANT_KINDS = [(''agent'', K_agent), (''human'', K_human), (''system'', K_system)]"

definition ROSTER_ROLES :: "(string \<times> RosterRole) list" where
  "ROSTER_ROLES = [(''host'', RR_host), (''member'', RR_member)]"

text \<open>A string of a closed list, or an error.\<close>

fun asEnum :: "(string \<times> 'a) list \<Rightarrow> json option \<Rightarrow> string \<Rightarrow> 'a cp_result" where
  "asEnum names (Some (JStr s)) message = (case map_of names s of Some x \<Rightarrow> Inr x | None \<Rightarrow> invalid message)"
| "asEnum names _ message = invalid message"

definition asStatus :: "json option \<Rightarrow> PlatformRoomStatus cp_result" where
  "asStatus v = asEnum PLATFORM_ROOM_STATUSES v
     (''status must be one of '' @ js_join_str '', '' (map fst PLATFORM_ROOM_STATUSES))"

definition asOptionalStatusReason :: "json option \<Rightarrow> PlatformStatusReason option cp_result" where
  "asOptionalStatusReason v = (if v = None then Inr None
     else map_sum id Some (asEnum PLATFORM_STATUS_REASONS v
       (''status_reason must be one of '' @ js_join_str '', '' (map fst PLATFORM_STATUS_REASONS))))"

fun asCursor :: "json option \<Rightarrow> int cp_result" where
  "asCursor None = Inr 0"
| "asCursor (Some (JNum n)) = (if \<not> Number_isSafeInteger n \<or> jnum_int n < 0
     then invalid ''last_synced_message_id must be a non-negative integer cursor'' else Inr (jnum_int n))"
| "asCursor _ = invalid ''last_synced_message_id must be a non-negative integer cursor''"

fun asOptionalTimestamp :: "Runtime \<Rightarrow> json option \<Rightarrow> string \<Rightarrow> string option cp_result" where
  "asOptionalTimestamp rt None label = Inr None"
| "asOptionalTimestamp rt (Some (JStr s)) label =
     (if rt_Date_parse rt s = None then invalid (label @ '' must be an ISO timestamp'') else Inr (Some s))"
| "asOptionalTimestamp rt _ label = invalid (label @ '' must be an ISO timestamp'')"

definition assertTokenlessUrl :: "Runtime \<Rightarrow> string \<Rightarrow> unit cp_result" where
  "assertTokenlessUrl rt v = (case rt_URL rt v of
     None \<Rightarrow> invalid ''route_url must be a valid URL''
   | Some url \<Rightarrow>
       if url_protocol url \<noteq> ''http:'' \<and> url_protocol url \<noteq> ''https:'' then invalid ''route_url must use http or https''
       else if url_username url \<noteq> [] \<or> url_password url \<noteq> [] then invalid ''route_url must not embed credentials''
       else if map_of (url_query url) ''token'' \<noteq> None \<or> str_includes (url_hash url) ''token=''
       then invalid ''route_url must not embed a token''
       else if str_includes v ''tgl_'' then invalid ''route_url must not embed a token''
       else Inr ())"

definition roster_entry :: "Runtime \<Rightarrow> nat \<times> json \<Rightarrow> RosterEntry cp_result" where
  "roster_entry rt = (\<lambda>(i, v).
     let label = ''roster['' @ nat_str i @ '']''
     in bindR (asRecord (Some v) label) (\<lambda>ps.
        bindR (assertNoForbiddenKeys ps label) (\<lambda>_.
        case find (\<lambda>k. k \<notin> set ROSTER_KEYS) (map fst ps) of
          Some k \<Rightarrow> invalid (label @ '' has unsupported field '' @ k)
        | None \<Rightarrow>
          bindR (asString (map_of ps ''alias'') (label @ ''.alias'')) (\<lambda>a.
          bindR (liftJ (assertSafeSlug a (label @ ''.alias''))) (\<lambda>_.
          bindR (asEnum PARTICIPANT_KINDS (map_of ps ''kind'') (label @ ''.kind is invalid'')) (\<lambda>kind.
          bindR (asEnum ROSTER_ROLES (map_of ps ''role'') (label @ ''.role is invalid'')) (\<lambda>role.
          bindR (asLabel (map_of ps ''status'') (label @ ''.status'')) (\<lambda>status.
          bindR (asOptionalTimestamp rt (map_of ps ''last_seen_at'') (label @ ''.last_seen_at'')) (\<lambda>lastSeenAt.
          Inr \<lparr> re_alias = a, re_kind = kind, re_role = role, re_status = status, re_last_seen_at = lastSeenAt \<rparr>)))))))))"

fun asRoster :: "Runtime \<Rightarrow> json option \<Rightarrow> RosterEntry list cp_result" where
  "asRoster rt None = Inr []"
| "asRoster rt (Some (JArr vs)) = mapR (roster_entry rt) (enumerate 0 vs)"
| "asRoster rt _ = invalid ''roster must be an array''"

definition asRouteHealth :: "Runtime \<Rightarrow> json option \<Rightarrow> RouteHealth cp_result" where
  "asRouteHealth rt v = (if v = None then Inr \<lparr> rh_reachable = False, rh_host_connected = False, rh_checked_at = None \<rparr>
     else bindR (asRecord v ''route_health'') (\<lambda>ps.
          bindR (assertNoForbiddenKeys ps ''route_health'') (\<lambda>_.
          case (map_of ps ''reachable'', map_of ps ''host_connected'') of
            (Some (JBool r), Some (JBool h)) \<Rightarrow>
              bindR (asOptionalTimestamp rt (map_of ps ''checked_at'') ''route_health.checked_at'') (\<lambda>checkedAt.
              Inr \<lparr> rh_reachable = r, rh_host_connected = h, rh_checked_at = checkedAt \<rparr>)
          | _ \<Rightarrow> invalid ''route_health.reachable and host_connected must be booleans'')))"

text \<open>\<open>sanitizeInput\<close>, with the stamp the creation gives both timestamps.\<close>

definition sanitizeInput :: "Runtime \<Rightarrow> string \<Rightarrow> json \<Rightarrow> ControlPlaneRoom cp_result" where
  "sanitizeInput rt stamp input =
     bindR (asRecord (Some input) ''room input'') (\<lambda>ps.
     bindR (assertNoForbiddenKeys ps ''room input'') (\<lambda>_.
     bindR (asString (map_of ps ''room_id'') ''room_id'') (\<lambda>roomId.
     bindR (liftJ (assertSafeSlug roomId ''room_id'')) (\<lambda>_.
     bindR (asString (map_of ps ''route_url'') ''route_url'') (\<lambda>routeUrl.
     bindR (assertTokenlessUrl rt routeUrl) (\<lambda>_.
     bindR (if map_of ps ''route_slug'' = None then Inr roomId else asString (map_of ps ''route_slug'') ''route_slug'') (\<lambda>routeSlug.
     bindR (liftJ (assertSafeSlug routeSlug ''route_slug'')) (\<lambda>_.
     bindR (asTitle (map_of ps ''title'')) (\<lambda>title.
     bindR (asString (map_of ps ''owner_user_id'') ''owner_user_id'') (\<lambda>owner.
     bindR (asStatus (map_of ps ''status'')) (\<lambda>status.
     bindR (asRoster rt (map_of ps ''roster'')) (\<lambda>roster.
     bindR (asRouteHealth rt (map_of ps ''route_health'')) (\<lambda>health.
     bindR (asCursor (map_of ps ''last_synced_message_id'')) (\<lambda>cursor.
     bindR (asOptionalStatusReason (map_of ps ''status_reason'')) (\<lambda>reason.
     bindR (asOptionalTimestamp rt (map_of ps ''last_seen_at'') ''last_seen_at'') (\<lambda>lastSeenAt.
     bindR (asOptionalTimestamp rt (map_of ps ''last_synced_at'') ''last_synced_at'') (\<lambda>lastSyncedAt.
     Inr \<lparr> cp_room_id = roomId, cp_title = title, cp_owner_user_id = owner, cp_route_url = routeUrl,
       cp_route_slug = routeSlug, cp_status = status, cp_status_reason = reason, cp_roster = roster,
       cp_route_health = health, cp_last_synced_message_id = cursor, cp_last_seen_at = lastSeenAt,
       cp_last_synced_at = lastSyncedAt, cp_created_at = stamp, cp_updated_at = stamp \<rparr>)))))))))))))))))"

subsection \<open>The store\<close>

type_synonym registry = "(string \<times> ControlPlaneRoom stored) list"

type_synonym 'a registry_action = "(registry, cp_error, 'a) action"

definition roomFile :: "string \<Rightarrow> string cp_result" where
  "roomFile roomId = bindR (liftJ (assertSafeSlug roomId ''room id'')) (\<lambda>_. Inr roomId)"

definition registry_file :: "string \<Rightarrow> registry \<Rightarrow> ControlPlaneRoom stored" where
  "registry_file k fs = (case map_of fs k of Some f \<Rightarrow> f | None \<Rightarrow> NoFile)"

definition createControlPlaneRoom :: "Runtime \<Rightarrow> json \<Rightarrow> int \<Rightarrow> ControlPlaneRoom registry_action" where
  "createControlPlaneRoom rt input now =
     bindA (lift (sanitizeInput rt (rt_toISOString rt now) input)) (\<lambda>r.
     bindA (lift (roomFile (cp_room_id r))) (\<lambda>file.
     bindA (gets (registry_file file)) (\<lambda>found.
     if found \<noteq> NoFile
     then throw (ControlPlaneValidationError (''control plane metadata already exists for room '' @ cp_room_id r))
     else bindA (modify (AList.update file (File r))) (\<lambda>_. ret r))))"

definition readControlPlaneRoom :: "string \<Rightarrow> registry \<Rightarrow> ControlPlaneRoom cp_result" where
  "readControlPlaneRoom roomId fs =
     bindR (roomFile roomId) (\<lambda>file.
     case readFileR (registry_file file fs) of
       Inr r \<Rightarrow> Inr r
     | Inl e \<Rightarrow> if isNotFoundError e then Inl (ControlPlaneNotFoundError roomId) else Inl (CPError e))"

definition listControlPlaneRooms :: "registry \<Rightarrow> ControlPlaneRoom list cp_result" where
  "listControlPlaneRooms fs =
     mapR (\<lambda>k. readControlPlaneRoom k fs) (sort (filter (\<lambda>k. registry_file k fs \<noteq> NoFile) (map fst fs)))"

subsection \<open>What reaches the store\<close>

definition ROOM_KEYS :: "string list" where
  "ROOM_KEYS = [''room_id'', ''title'', ''owner_user_id'', ''route_url'', ''route_slug'', ''status'', ''status_reason'', ''roster'',
     ''route_health'', ''last_synced_message_id'', ''last_seen_at'', ''last_synced_at'']"

lemma forbidden_key_None: "forbidden_key ps = None \<longleftrightarrow> (\<forall>k \<in> fst ` set ps. js_toLowerCase k \<notin> set FORBIDDEN_KEYS)"
  by (auto simp: forbidden_key_def find_None_iff)

lemma assertNoForbiddenKeys_iff: "assertNoForbiddenKeys ps label = Inr () \<longleftrightarrow> forbidden_key ps = None"
  by (simp add: assertNoForbiddenKeys_def invalid_def split: option.split)

lemma tokenless: "assertTokenlessUrl rt v = Inr () \<Longrightarrow> \<not> str_includes v ''tgl_''"
  by (auto simp: assertTokenlessUrl_def invalid_def split: option.splits if_splits)

lemma roster_keys:
  assumes "roster_entry rt (i, v) = Inr e"
  shows "\<exists>qs. v = JObj qs \<and> fst ` set qs \<subseteq> set ROSTER_KEYS \<and> forbidden_key qs = None"
proof -
  obtain qs where "v = JObj qs"
    using assms by (cases v) (auto simp: roster_entry_def Let_def invalid_def)
  then show ?thesis
    using assms by (auto simp: roster_entry_def Let_def invalid_def bindR_Inr_iff assertNoForbiddenKeys_iff find_None_iff
        split: option.splits)
qed

lemma sanitize_parts:
  assumes "sanitizeInput rt stamp (JObj ps) = Inr r"
  shows "forbidden_key ps = None" "isSafeSlug (cp_room_id r)" "\<not> str_includes (cp_route_url r) ''tgl_''"
    "asRoster rt (map_of ps ''roster'') = Inr (cp_roster r)" "cp_created_at r = stamp"
  using assms tokenless
  by (auto simp: sanitizeInput_def bindR_Inr_iff assertNoForbiddenKeys_iff liftJ_def assertSafeSlug_def split: sum.splits if_splits)

lemma sanitize_slug:
  assumes "sanitizeInput rt stamp j = Inr r"
  shows "isSafeSlug (cp_room_id r)"
proof (cases j)
  case (JObj ps)
  with assms show ?thesis by (auto intro: sanitize_parts(2))
qed (use assms in \<open>simp_all add: sanitizeInput_def invalid_def\<close>)

lemma sanitize_reads:
  assumes "\<forall>k \<in> set ROOM_KEYS. map_of ps k = map_of ps' k" "forbidden_key ps = None" "forbidden_key ps' = None"
  shows "sanitizeInput rt stamp (JObj ps) = sanitizeInput rt stamp (JObj ps')"
  using assms by (simp add: sanitizeInput_def ROOM_KEYS_def assertNoForbiddenKeys_def cong: if_cong)

lemma create_cases:
  obtains (refused) e where "createControlPlaneRoom rt input now fs = (Inl e, fs)"
  | (created) r where "sanitizeInput rt (rt_toISOString rt now) input = Inr r" "registry_file (cp_room_id r) fs = NoFile"
      "createControlPlaneRoom rt input now fs = (Inr r, AList.update (cp_room_id r) (File r) fs)"
proof (cases "sanitizeInput rt (rt_toISOString rt now) input")
  case (Inr r)
  have "roomFile (cp_room_id r) = Inr (cp_room_id r)"
    using sanitize_slug [OF Inr] by (simp add: roomFile_def liftJ_def assertSafeSlug_def)
  then show ?thesis
    using that Inr by (cases "registry_file (cp_room_id r) fs = NoFile") (auto simp: createControlPlaneRoom_def)
qed (use that in \<open>simp add: createControlPlaneRoom_def\<close>)


definition lab_room_json :: "(string \<times> json) list" where
  "lab_room_json = [(''room_id'', JStr ''lab''), (''title'', JStr ''The lab''), (''owner_user_id'', JStr ''ada''),
     (''route_url'', JStr ''http://h/lab''), (''status'', JStr ''idle''), (''roster'', JArr
        [JObj [(''alias'', JStr ''bot''), (''kind'', JStr ''agent''), (''role'', JStr ''member''), (''status'', JStr ''attending'')]])]"

definition lab_record :: ControlPlaneRoom where
  "lab_record = \<lparr> cp_room_id = ''lab'', cp_title = ''The lab'', cp_owner_user_id = ''ada'', cp_route_url = ''http://h/lab'',
     cp_route_slug = ''lab'', cp_status = PS_idle, cp_status_reason = None, cp_roster = [\<lparr> re_alias = ''bot'', re_kind = K_agent,
       re_role = RR_member, re_status = ''attending'', re_last_seen_at = None \<rparr>],
     cp_route_health = \<lparr> rh_reachable = False, rh_host_connected = False, rh_checked_at = None \<rparr>,
     cp_last_synced_message_id = 0, cp_last_seen_at = None, cp_last_synced_at = None,
     cp_created_at = ''+5'', cp_updated_at = ''+5'' \<rparr>"

definition lab_registry :: registry where
  "lab_registry = [(''lab'', File lab_record)]"

lemma lab_registry_made: "createControlPlaneRoom lab_runtime (JObj lab_room_json) 5 [] = (Inr lab_record, lab_registry)"
  by code_simp


subsection \<open>The store over time\<close>

inductive registry_step :: "Runtime \<Rightarrow> registry \<Rightarrow> registry \<Rightarrow> bool" for rt where
  create: "registry_step rt fs (snd (createControlPlaneRoom rt input now fs))"

definition registry_inv :: "registry \<Rightarrow> bool" where
  "registry_inv fs \<longleftrightarrow> distinct (map fst fs) \<and>
     (\<forall>k f. map_of fs k = Some f \<longrightarrow> isSafeSlug k \<and> (\<exists>r. f = File r \<and> cp_room_id r = k))"

lemma create_inv:
  assumes "registry_inv fs"
  shows "registry_inv (snd (createControlPlaneRoom rt input now fs))"
proof (rule create_cases [of rt input now fs])
  fix r assume "sanitizeInput rt (rt_toISOString rt now) input = Inr r"
    "createControlPlaneRoom rt input now fs = (Inr r, AList.update (cp_room_id r) (File r) fs)"
  then show ?thesis
    using assms sanitize_slug by (auto simp: registry_inv_def distinct_update update_conv')
qed (use assms in simp)

interpretation registry: transition_system "\<lambda>fs. fs = []" "registry_step rt" registry_inv
proof unfold_locales
  show "registry_inv s \<Longrightarrow> registry_step rt s t \<Longrightarrow> registry_inv t" for s t
    by (auto elim!: registry_step.cases intro: create_inv)
qed (simp add: registry_inv_def)

lemma registry_file_inv:
  assumes "registry_inv fs"
  shows "registry_file k fs = NoFile \<longleftrightarrow> map_of fs k = None" "registry_file k fs \<noteq> BadFile"
    "registry_file k fs = File r \<Longrightarrow> isSafeSlug k \<and> cp_room_id r = k"
  using assms by (fastforce simp: registry_file_def registry_inv_def split: option.splits)+

lemma read_registry:
  assumes "registry_inv fs" "registry_file k fs = File r"
  shows "readControlPlaneRoom k fs = Inr r"
  using assms registry_file_inv(3) [OF assms]
  by (simp add: readControlPlaneRoom_def roomFile_def liftJ_def assertSafeSlug_def)

lemma read_registry_iff:
  assumes "registry_inv fs"
  shows "readControlPlaneRoom k fs = Inr r \<longleftrightarrow> registry_file k fs = File r"
proof
  assume r: "readControlPlaneRoom k fs = Inr r"
  then have "readFileR (registry_file k fs) = Inr r"
    by (cases "readFileR (registry_file k fs)")
      (auto simp: readControlPlaneRoom_def roomFile_def bindR_Inr_iff split: if_splits)
  then show "registry_file k fs = File r" by (cases "registry_file k fs") simp_all
qed (rule read_registry [OF assms])

lemma read_frame: "registry_file k fs = registry_file k gs \<Longrightarrow> readControlPlaneRoom k fs = readControlPlaneRoom k gs"
  by (auto simp: readControlPlaneRoom_def roomFile_def liftJ_def assertSafeSlug_def)

lemma list_registry:
  assumes "registry_inv fs"
  shows "\<exists>rs. listControlPlaneRooms fs = Inr rs \<and> map cp_room_id rs = sort (map fst fs) \<and>
    (\<forall>r. r \<in> set rs \<longleftrightarrow> registry_file (cp_room_id r) fs = File r)"
proof -
  have keys: "filter (\<lambda>k. registry_file k fs \<noteq> NoFile) (map fst fs) = map fst fs"
    using registry_file_inv(1) [OF assms] by (auto simp: filter_id_conv map_of_eq_None_iff)
  define get where "get k = (case registry_file k fs of File r \<Rightarrow> r | _ \<Rightarrow> undefined)" for k
  have present: "registry_file k fs = File (get k)" if "k \<in> set (map fst fs)" for k
    using that registry_file_inv(1,2) [OF assms, of k] by (auto simp: get_def map_of_eq_None_iff split: stored.split)
  have "mapR (\<lambda>k. readControlPlaneRoom k fs) ks = Inr (map get ks) \<and> map cp_room_id (map get ks) = ks"
    if "set ks \<subseteq> set (map fst fs)" for ks
    using that by (induction ks) (auto simp: read_registry [OF assms present] registry_file_inv(3) [OF assms present])
  from this [of "sort (map fst fs)"] have list: "listControlPlaneRooms fs = Inr (map get (sort (map fst fs)))"
      "map cp_room_id (map get (sort (map fst fs))) = sort (map fst fs)"
    by (simp_all add: listControlPlaneRooms_def keys)
  have "r \<in> set (map get (sort (map fst fs))) \<longleftrightarrow> registry_file (cp_room_id r) fs = File r" for r
  proof
    assume "r \<in> set (map get (sort (map fst fs)))"
    then obtain k where "r = get k" "registry_file k fs = File (get k)" using present by auto
    then show "registry_file (cp_room_id r) fs = File r" using registry_file_inv(3) [OF assms] by metis
  next
    assume r: "registry_file (cp_room_id r) fs = File r"
    then have "cp_room_id r \<in> set (map fst fs)" "get (cp_room_id r) = r"
      using registry_file_inv(1) [OF assms, of "cp_room_id r"] by (auto simp: map_of_eq_None_iff get_def)
    then show "r \<in> set (map get (sort (map fst fs)))" by (metis image_eqI set_map set_sort)
  qed
  with list show ?thesis by blast
qed

text \<open>The registry only grows, one room at a time. In every reachable registry a creation either
  fails and changes nothing, or adds the record of a new room, which reads back as it was returned,
  and leaves every other record as it was, with no way to replace one; and the listing never fails and
  gives exactly the stored records, sorted by room id.\<close>

lemma registry_create_once:
  assumes "(registry_step rt)\<^sup>*\<^sup>* [] fs" "createControlPlaneRoom rt input now fs = (x, fs')"
  shows "(case x of
      Inl e \<Rightarrow> fs' = fs
    | Inr r \<Rightarrow> registry_file (cp_room_id r) fs = NoFile \<and> readControlPlaneRoom (cp_room_id r) fs' = Inr r \<and>
        (\<forall>k. k \<noteq> cp_room_id r \<longrightarrow> readControlPlaneRoom k fs' = readControlPlaneRoom k fs)) \<and>
    (\<exists>rs. listControlPlaneRooms fs' = Inr rs \<and> sorted (map cp_room_id rs) \<and> distinct (map cp_room_id rs) \<and>
      (\<forall>r. r \<in> set rs \<longleftrightarrow> readControlPlaneRoom (cp_room_id r) fs' = Inr r))"
proof -
  have inv: "registry_inv fs" using registry.reachable_inv [OF refl assms(1)] .
  have inv': "registry_inv fs'" using create_inv [OF inv, of rt input now] assms(2) by simp
  note read = read_registry_iff [OF inv']
  have "distinct (map fst fs')" using inv' by (simp add: registry_inv_def)
  moreover obtain rs where rs: "listControlPlaneRooms fs' = Inr rs" "map cp_room_id rs = sort (map fst fs')"
      "\<And>r. r \<in> set rs \<longleftrightarrow> registry_file (cp_room_id r) fs' = File r"
    using list_registry [OF inv'] by blast
  ultimately have list: "\<exists>rs. listControlPlaneRooms fs' = Inr rs \<and> sorted (map cp_room_id rs) \<and>
      distinct (map cp_room_id rs) \<and> (\<forall>r. r \<in> set rs \<longleftrightarrow> readControlPlaneRoom (cp_room_id r) fs' = Inr r)"
    by (intro exI [of _ rs]) (simp add: read)
  show ?thesis
  proof (rule create_cases [of rt input now fs])
    fix r assume made: "registry_file (cp_room_id r) fs = NoFile"
      "createControlPlaneRoom rt input now fs = (Inr r, AList.update (cp_room_id r) (File r) fs)"
    then have files: "registry_file k fs' = (if k = cp_room_id r then File r else registry_file k fs)" for k
      using assms(2) by (simp add: registry_file_def update_conv')
    have "readControlPlaneRoom (cp_room_id r) fs' = Inr r" by (simp add: read files)
    moreover have "readControlPlaneRoom k fs' = readControlPlaneRoom k fs" if "k \<noteq> cp_room_id r" for k
      using that files by (intro read_frame) simp
    ultimately show ?thesis using made assms(2) list by simp
  qed (use assms(2) list in auto)
qed

end
