(* ===== verification/PlatformApi.thy ===== *)
theory PlatformApi
  imports Registry BoardroomStore
begin

text \<open>
  \<open>platform/api.ts\<close>: the read side of the control plane, scoped to one owner. A response carries the
  registry's records with the public channels of each room's boardroom, which is read from the host's
  own room directory (\<open>homes\<close>, one directory per room id).
\<close>

record PublicChannel =
  pc_id :: string
  pc_name :: string
  pc_type :: string

type_synonym PublicRoom = "ControlPlaneRoom \<times> PublicChannel list"

datatype PlatformApiResponse =
  RoomsResponse "PublicRoom list" | RoomResponse PublicRoom | Unauthorized | NotFoundResponse

fun api_status :: "PlatformApiResponse \<Rightarrow> nat" where
  "api_status (RoomsResponse rooms) = 200"
| "api_status (RoomResponse room) = 200"
| "api_status Unauthorized = 401"
| "api_status NotFoundResponse = 404"

definition attachChannels :: "(string \<Rightarrow> RoomFiles) \<Rightarrow> ControlPlaneRoom \<Rightarrow> PublicRoom cp_result" where
  "attachChannels homes room = (case fst (readBoardroom (cp_room_id room) (homes (cp_room_id room))) of
     Inr boardroom \<Rightarrow> Inr (room, map (\<lambda>c. \<lparr> pc_id = ch_id c, pc_name = ch_name c, pc_type = ch_type c \<rparr>)
       (filter (\<lambda>c. ch_lifecycle c \<noteq> ''removed'') (br_channels boardroom)))
   | Inl e \<Rightarrow> if isNotFoundError e
       then Inr (room, [\<lparr> pc_id = DEFAULT_CHANNEL_ID, pc_name = ''general'', pc_type = ''chat'' \<rparr>])
       else Inl (CPError e))"

definition ownerOrError :: "Runtime \<Rightarrow> int \<Rightarrow> PlatformOwnerQuery \<Rightarrow> string option" where
  "ownerOrError rt now query = (case resolveOwnerAccount rt now query of
     Inl _ \<Rightarrow> None | Inr a \<Rightarrow> map_option pa_user_id a)"

definition listRoomsResponse ::
  "Runtime \<Rightarrow> int \<Rightarrow> (string \<Rightarrow> RoomFiles) \<Rightarrow> PlatformOwnerQuery \<Rightarrow> registry \<Rightarrow> PlatformApiResponse cp_result" where
  "listRoomsResponse rt now homes query fs = (case ownerOrError rt now query of
     None \<Rightarrow> Inr Unauthorized
   | Some owner \<Rightarrow>
       bindR (listControlPlaneRooms fs) (\<lambda>rooms.
       bindR (mapR (attachChannels homes) (filter (\<lambda>room. cp_owner_user_id room = owner) rooms)) (\<lambda>withChannels.
       Inr (RoomsResponse withChannels))))"

definition readRoomResponse ::
  "Runtime \<Rightarrow> int \<Rightarrow> (string \<Rightarrow> RoomFiles) \<Rightarrow> string \<Rightarrow> PlatformOwnerQuery \<Rightarrow> registry \<Rightarrow> PlatformApiResponse cp_result" where
  "readRoomResponse rt now homes roomId query fs = (case ownerOrError rt now query of
     None \<Rightarrow> Inr Unauthorized
   | Some owner \<Rightarrow> (case readControlPlaneRoom roomId fs of
       Inl (ControlPlaneNotFoundError _) \<Rightarrow> Inr NotFoundResponse
     | Inl e \<Rightarrow> Inl e
     | Inr room \<Rightarrow>
         if cp_owner_user_id room \<noteq> owner then Inr NotFoundResponse
         else bindR (attachChannels homes room) (\<lambda>r. Inr (RoomResponse r))))"

subsection \<open>An owner sees its own rooms and nothing of the others\<close>

text \<open>Two registries an owner cannot tell apart: the same records of its own, whatever else is stored.\<close>

definition same_for :: "string \<Rightarrow> registry \<Rightarrow> registry \<Rightarrow> bool" where
  "same_for owner fs gs \<longleftrightarrow>
     (\<forall>r. cp_owner_user_id r = owner \<longrightarrow> (registry_file (cp_room_id r) fs = File r \<longleftrightarrow> registry_file (cp_room_id r) gs = File r))"

lemma attach_same: "attachChannels homes room = Inr p \<Longrightarrow> fst p = room"
  by (auto simp: attachChannels_def split: sum.splits if_splits)

lemma mapR_cong: "(\<And>x. x \<in> set xs \<Longrightarrow> f x = g x) \<Longrightarrow> mapR f xs = mapR g xs"
  by (induction xs) auto

lemma owned_rooms_same:
  assumes "registry_inv fs" "registry_inv gs" "same_for owner fs gs"
    and "listControlPlaneRooms fs = Inr xs" "listControlPlaneRooms gs = Inr ys"
  shows "filter (\<lambda>room. cp_owner_user_id room = owner) xs = filter (\<lambda>room. cp_owner_user_id room = owner) ys"
proof -
  have xs: "map cp_room_id xs = sort (map fst fs)" "r \<in> set xs \<longleftrightarrow> registry_file (cp_room_id r) fs = File r" for r
    using list_registry [OF assms(1)] assms(4) by auto
  have ys: "map cp_room_id ys = sort (map fst gs)" "r \<in> set ys \<longleftrightarrow> registry_file (cp_room_id r) gs = File r" for r
    using list_registry [OF assms(2)] assms(5) by auto
  have sd: "sorted (map cp_room_id (filter P zs)) \<and> distinct (map cp_room_id (filter P zs))"
    if "map cp_room_id zs = sort ks" "distinct ks" for P zs ks
    using that by (metis distinct_map_filter distinct_sort sorted_map_same sorted_sort sorted_filter)
  show ?thesis
  proof (rule map_sorted_distinct_set_unique [where f = cp_room_id])
    show same: "set (filter (\<lambda>room. cp_owner_user_id room = owner) xs) = set (filter (\<lambda>room. cp_owner_user_id room = owner) ys)"
      using xs(2) ys(2) assms(3) by (auto simp: same_for_def)
    have "inj_on cp_room_id (set xs)"
    proof (rule inj_onI)
      fix x y assume "x \<in> set xs" "y \<in> set xs" "cp_room_id x = cp_room_id y"
      then show "x = y" using xs(2) [of x] xs(2) [of y] by simp
    qed
    then show "inj_on cp_room_id (set (filter (\<lambda>room. cp_owner_user_id room = owner) xs) \<union>
        set (filter (\<lambda>room. cp_owner_user_id room = owner) ys))"
      unfolding same [symmetric] by (rule inj_on_subset) auto
  qed (use sd xs(1) ys(1) assms(1,2) in \<open>auto simp: registry_inv_def\<close>)
qed

lemma bindR_map: "bindR m (\<lambda>x. Inr (f x)) = map_sum id f m"
  by (cases m) simp_all

lemma read_owned:
  assumes "registry_inv fs"
  shows "readRoomResponse rt now homes roomId query fs = (case ownerOrError rt now query of
     None \<Rightarrow> Inr Unauthorized
   | Some owner \<Rightarrow>
       if \<not> isSafeSlug roomId then Inl (CPError (PlainError (''room id'' @ '' must be lowercase [a-z0-9-], 1-64 chars'')))
       else (case registry_file roomId fs of
         File room \<Rightarrow> if cp_owner_user_id room = owner then map_sum id RoomResponse (attachChannels homes room)
           else Inr NotFoundResponse
       | _ \<Rightarrow> Inr NotFoundResponse))"
  using registry_file_inv(2) [OF assms, of roomId]
  by (auto simp: bindR_map readRoomResponse_def readControlPlaneRoom_def roomFile_def liftJ_def assertSafeSlug_def isNotFoundError_def
      split: option.split stored.split sum.split)

text \<open>Claim C33. The control plane shows an owner its own rooms and nothing of anybody else's. Two registries
  that hold the same records of an owner, whatever rooms of other owners each of them holds, answer
  that owner alike, to the listing and to the read of any room id, so a room of somebody else is
  indistinguishable from one that does not exist; the listing gives exactly the owner's records; and
  with no valid owner identity the answer is 401, whatever is stored.\<close>

theorem owner_sees_own_rooms:
  assumes "(registry_step rt)\<^sup>*\<^sup>* [] fs" "(registry_step rt)\<^sup>*\<^sup>* [] gs"
  shows "case ownerOrError rt now query of
      None \<Rightarrow> listRoomsResponse rt now homes query fs = Inr Unauthorized \<and>
        readRoomResponse rt now homes roomId query fs = Inr Unauthorized
    | Some owner \<Rightarrow>
        (same_for owner fs gs \<longrightarrow>
          listRoomsResponse rt now homes query fs = listRoomsResponse rt now homes query gs \<and>
          readRoomResponse rt now homes roomId query fs = readRoomResponse rt now homes roomId query gs) \<and>
        (\<forall>ps. listRoomsResponse rt now homes query fs = Inr (RoomsResponse ps) \<longrightarrow>
          (\<forall>r. r \<in> fst ` set ps \<longleftrightarrow> readControlPlaneRoom (cp_room_id r) fs = Inr r \<and> cp_owner_user_id r = owner))"
proof (cases "ownerOrError rt now query")
  case (Some owner)
  have inv: "registry_inv fs" "registry_inv gs"
    using registry.reachable_inv [OF refl assms(1)] registry.reachable_inv [OF refl assms(2)] .
  obtain xs ys where lists: "listControlPlaneRooms fs = Inr xs" "listControlPlaneRooms gs = Inr ys"
      "\<And>r. r \<in> set xs \<longleftrightarrow> registry_file (cp_room_id r) fs = File r"
    using list_registry [OF inv(1)] list_registry [OF inv(2)] by blast
  let ?own = "filter (\<lambda>room. cp_owner_user_id room = owner)"
  have listed: "fst ` set ps = set (?own xs)" if "listRoomsResponse rt now homes query fs = Inr (RoomsResponse ps)" for ps
  proof -
    have "mapR (attachChannels homes) (?own xs) = Inr ps"
      using that lists(1) Some by (auto simp: listRoomsResponse_def bindR_Inr_iff)
    then have "list_all2 (\<lambda>r p. attachChannels homes r = Inr p) (?own xs) ps" by (rule mapR_Inr_all)
    then have "map fst ps = ?own xs" by (induction rule: list_all2_induct) (simp_all add: attach_same)
    then show ?thesis by (metis set_map)
  qed
  have reads: "readRoomResponse rt now homes roomId query fs = readRoomResponse rt now homes roomId query gs"
    if "same_for owner fs gs"
  proof -
    have "registry_file roomId fs = File r \<longleftrightarrow> registry_file roomId gs = File r" if "cp_owner_user_id r = owner" for r
      using that \<open>same_for owner fs gs\<close> registry_file_inv(3) [OF inv(1)] registry_file_inv(3) [OF inv(2)]
      unfolding same_for_def by metis
    then show ?thesis
      using Some by (auto simp: read_owned [OF inv(1)] read_owned [OF inv(2)] split: stored.split; metis)
  qed
  show ?thesis
    using Some lists reads listed owned_rooms_same [OF inv _ lists(1,2)] read_registry_iff [OF inv(1)]
    by (simp add: listRoomsResponse_def)
qed (simp add: listRoomsResponse_def readRoomResponse_def)

definition lab_query :: PlatformOwnerQuery where
  "lab_query = \<lparr> oq_account = None, oq_dev_owner = None, oq_owner_user_id = Some ''bob'' \<rparr>"

lemma owner_sees_own_rooms_witness:
  "readRoomResponse lab_runtime 9 (\<lambda>_. empty_room) ''lab'' lab_query lab_registry =
     readRoomResponse lab_runtime 9 (\<lambda>_. empty_room) ''lab'' lab_query []"
proof -
  have reach: "(registry_step lab_runtime)\<^sup>*\<^sup>* [] lab_registry"
    using registry_step.create [of lab_runtime "[]" "JObj lab_room_json" 5] by (simp add: lab_registry_made)
  have owner: "ownerOrError lab_runtime 9 lab_query = Some ''bob''" by code_simp
  have "same_for ''bob'' lab_registry []"
    by (auto simp: same_for_def registry_file_def lab_registry_def lab_record_def)
  then show ?thesis
    using owner_sees_own_rooms [OF reach rtranclp.rtrancl_refl, where now = 9 and query = lab_query] owner by simp
qed

end
