(* ===== verification/PlatformBridge.thy ===== *)
theory PlatformBridge
  imports PlatformApi JoinedRooms JsNumber
begin

text \<open>
  What \<open>platform/http.ts\<close> accepts from outside before it touches a store: origins and base URLs, invite
  links, the batch of history a room page posts back, bulk target lists, the stored participant tokens,
  and the in-memory grants of the history bridge.
\<close>

subsection \<open>Strings, origins, URLs\<close>

definition shortString :: "json option \<Rightarrow> string option" where
  "shortString v = (case v of
     Some (JStr s) \<Rightarrow> if js_trim s = [] then None else Some (take 200 (js_trim s))
   | _ \<Rightarrow> None)"

definition isSafeRoomId :: "string \<Rightarrow> bool" where
  "isSafeRoomId = matches_label alnum (alnum @ ''._-'') 127"

definition isSafeAlias :: "string \<Rightarrow> bool" where
  "isSafeAlias = matches_label alnum (alnum @ ''._-'') 127"

definition isLocalhost :: "string option \<Rightarrow> bool" where
  "isLocalhost hostHeader \<longleftrightarrow>
     hd (js_split CHR '':'' (or_default hostHeader [])) \<in> set [''localhost'', ''127.0.0.1'', ''[::1]'', ''::1'']"

definition isLoopbackOrigin :: "Runtime \<Rightarrow> string option \<Rightarrow> bool" where
  "isLoopbackOrigin rt origin \<longleftrightarrow> (case origin of None \<Rightarrow> False
     | Some s \<Rightarrow> s \<noteq> [] \<and> (case rt_URL rt s of None \<Rightarrow> False
        | Some url \<Rightarrow> url_hostname url \<in> set [''127.0.0.1'', ''localhost'', ''::1'', ''[::1]'']))"

definition strip_slashes :: "string \<Rightarrow> string" where
  "strip_slashes s = rev (dropWhile (\<lambda>c. c = CHR ''/'') (rev s))"

definition web_url :: "Url \<Rightarrow> bool" where
  "web_url url \<longleftrightarrow> url_protocol url = ''http:'' \<or> url_protocol url = ''https:''"

definition base_of :: "Url \<Rightarrow> string \<Rightarrow> string" where
  "base_of url path = (let t = strip_slashes (url_origin url @ path) in if t = [] then url_origin url else t)"

definition sanitizeBaseUrl :: "Runtime \<Rightarrow> json option \<Rightarrow> string option" where
  "sanitizeBaseUrl rt v = (case v of
     Some (JStr s) \<Rightarrow> (case rt_URL rt s of
         Some url \<Rightarrow> if web_url url then Some (base_of url (url_pathname url)) else None
       | None \<Rightarrow> None)
   | _ \<Rightarrow> None)"

text \<open>\<open>/^tgl_[A-Za-z0-9_-]{12,}$/\<close>.\<close>

definition isInviteToken :: "string \<Rightarrow> bool" where
  "isInviteToken s \<longleftrightarrow> starts_with ''tgl_'' s \<and> 12 \<le> length (drop 4 s) \<and> list_all token_char (drop 4 s)"

definition inviteToken :: "Url \<Rightarrow> string option" where
  "inviteToken url = (case map_of (url_query url) ''token'' of
     Some t \<Rightarrow> if isInviteToken t then Some t
       else if starts_with ''#'' (url_hash url)
       then (case map_of (url_hash_query url) ''token'' of Some u \<Rightarrow> if isInviteToken u then Some u else None | None \<Rightarrow> None)
       else None
   | None \<Rightarrow> if starts_with ''#'' (url_hash url)
       then (case map_of (url_hash_query url) ''token'' of Some u \<Rightarrow> if isInviteToken u then Some u else None | None \<Rightarrow> None)
       else None)"

definition parseTokenizedInviteUrl :: "Runtime \<Rightarrow> json option \<Rightarrow> (string \<times> string) option" where
  "parseTokenizedInviteUrl rt v = (case v of
     Some (JStr s) \<Rightarrow> (case rt_URL rt s of
         Some url \<Rightarrow>
           if \<not> web_url url then None
           else (case inviteToken url of
               Some token \<Rightarrow> Some (base_of url (if url_pathname url = ''/card'' then [] else url_pathname url), token)
             | None \<Rightarrow> None)
       | None \<Rightarrow> None)
   | _ \<Rightarrow> None)"

definition parseSinceId :: "string option \<Rightarrow> int option" where
  "parseSinceId raw = (case raw of None \<Rightarrow> Some 0
     | Some s \<Rightarrow> let n = js_Number s in if \<not> Number_isSafeInteger n \<or> jnum_int n < 0 then None else Some (jnum_int n))"

subsection \<open>The history batch\<close>

text \<open>
  \<open>String(value ?? "")\<close> of a JSON value: \<open>num_str\<close> is \<open>Number.prototype.toString\<close>; an array is its joined
  elements; an object with a \<open>toString\<close> of its own, which JSON cannot make a function, throws.
\<close>

fun js_String :: "(jnum \<Rightarrow> string) \<Rightarrow> json \<Rightarrow> string result"
  and js_Strings :: "(jnum \<Rightarrow> string) \<Rightarrow> json list \<Rightarrow> string list result" where
  "js_String num_str JNull = Inr []"
| "js_String num_str (JBool b) = Inr (if b then ''true'' else ''false'')"
| "js_String num_str (JNum n) = Inr (num_str n)"
| "js_String num_str (JStr s) = Inr s"
| "js_String num_str (JArr vs) = bindR (js_Strings num_str vs) (\<lambda>ss. Inr (js_join CHR '','' ss))"
| "js_String num_str (JObj ps) = (if map_of ps ''toString'' = None then Inr ''[object Object]'' else Inl TypeError)"
| "js_Strings num_str [] = Inr []"
| "js_Strings num_str (v # vs) = bindR (js_String num_str v) (\<lambda>s. bindR (js_Strings num_str vs) (\<lambda>ss. Inr (s # ss)))"

definition redact_value :: "(jnum \<Rightarrow> string) \<Rightarrow> json option \<Rightarrow> string result" where
  "redact_value num_str v = bindR (js_String num_str (or_default v JNull)) (\<lambda>s. Inr (redactSnapshotText s))"

definition redactedField :: "json option \<Rightarrow> string \<Rightarrow> string" where
  "redactedField v fallback = (case shortString v of None \<Rightarrow> fallback | Some t \<Rightarrow> redactSnapshotText t)"

text \<open>\<open>value?.key\<close>.\<close>

definition opt_prop :: "json \<Rightarrow> string \<Rightarrow> json option" where
  "opt_prop v k = (case v of JObj ps \<Rightarrow> map_of ps k | _ \<Rightarrow> None)"

text \<open>
  A message id has to be a finite number. Hosts number messages with natural numbers, and so does the
  stored snapshot of the model; a negative or fractional id is outside it.
\<close>

definition snapshot_id :: "json option \<Rightarrow> nat option" where
  "snapshot_id v = (case v of
     Some (JNum (Finite r)) \<Rightarrow> if r = of_int \<lfloor>r\<rfloor> \<and> 0 \<le> r then Some (nat \<lfloor>r\<rfloor>) else None
   | _ \<Rightarrow> None)"

fun snapshot_messages :: "(jnum \<Rightarrow> string) \<Rightarrow> json list \<Rightarrow> SnapshotMessage list result" where
  "snapshot_messages num_str [] = Inr []"
| "snapshot_messages num_str (raw # raws) =
     (case snapshot_id (opt_prop raw ''id'') of
        None \<Rightarrow> snapshot_messages num_str raws
      | Some i \<Rightarrow>
          bindR (redact_value num_str (opt_prop raw ''text'')) (\<lambda>text.
          bindR (snapshot_messages num_str raws) (\<lambda>rest.
          Inr (\<lparr> sm_id = i, sm_from = redactedField (opt_prop raw ''from'') [], sm_ts = redactedField (opt_prop raw ''ts'') [],
                 sm_type = Some (redactedField (opt_prop raw ''type'') ''chat''), sm_text = text \<rparr> # rest))))"

definition snapshotMessagesFrom :: "(jnum \<Rightarrow> string) \<Rightarrow> json option \<Rightarrow> SnapshotMessage list result" where
  "snapshotMessagesFrom num_str v = (case v of
     Some (JArr vs) \<Rightarrow> snapshot_messages num_str (take SNAPSHOT_MAX_MESSAGES vs) | _ \<Rightarrow> Inr [])"

definition snapshot_comment :: "(jnum \<Rightarrow> string) \<Rightarrow> json \<Rightarrow> SnapshotForumComment result" where
  "snapshot_comment num_str raw =
     bindR (redact_value num_str (opt_prop raw ''body'')) (\<lambda>body.
     Inr \<lparr> sc_id = redactedField (opt_prop raw ''id'') [], sc_author = redactedField (opt_prop raw ''author'') [],
           sc_ts = redactedField (opt_prop raw ''ts'') [], sc_body = body \<rparr>)"

fun snapshot_posts :: "(jnum \<Rightarrow> string) \<Rightarrow> json list \<Rightarrow> SnapshotForumPost list result" where
  "snapshot_posts num_str [] = Inr []"
| "snapshot_posts num_str (raw # raws) =
     (if shortString (opt_prop raw ''id'') = None then snapshot_posts num_str raws
      else bindR (redact_value num_str (opt_prop raw ''title'')) (\<lambda>title.
           bindR (redact_value num_str (opt_prop raw ''body'')) (\<lambda>body.
           bindR (mapR (snapshot_comment num_str) (case opt_prop raw ''comments'' of
               Some (JArr cs) \<Rightarrow> take SNAPSHOT_MAX_COMMENTS_PER_POST cs | _ \<Rightarrow> [])) (\<lambda>comments.
           bindR (snapshot_posts num_str raws) (\<lambda>rest.
           Inr (\<lparr> sp_id = redactedField (opt_prop raw ''id'') [], sp_channel = redactedField (opt_prop raw ''channel'') [],
                  sp_title = title, sp_author = redactedField (opt_prop raw ''author'') [],
                  sp_ts = redactedField (opt_prop raw ''ts'') [], sp_status = redactedField (opt_prop raw ''status'') [],
                  sp_body = body, sp_comments = comments \<rparr> # rest))))))"

definition snapshotForumPostsFrom :: "(jnum \<Rightarrow> string) \<Rightarrow> json option \<Rightarrow> SnapshotForumPost list result" where
  "snapshotForumPostsFrom num_str v = (case v of
     Some (JArr vs) \<Rightarrow> snapshot_posts num_str (take SNAPSHOT_MAX_FORUM_POSTS vs) | _ \<Rightarrow> Inr [])"

subsection \<open>Targets\<close>

definition BULK_TARGET_LIMIT :: nat where "BULK_TARGET_LIMIT = 500"

fun bulk_targets :: "Runtime \<Rightarrow> json list \<Rightarrow> (string \<times> string) list option" where
  "bulk_targets rt [] = Some []"
| "bulk_targets rt (v # vs) =
     (case (sanitizeBaseUrl rt (opt_prop v ''baseUrl''), shortString (opt_prop v ''roomId'')) of
        (Some baseUrl, Some roomId) \<Rightarrow> map_option (\<lambda>ts. (roomId, baseUrl) # ts) (bulk_targets rt vs)
      | _ \<Rightarrow> None)"

text \<open>The error code of a refused list, or the targets.\<close>

definition readBulkTargets :: "Runtime \<Rightarrow> json option \<Rightarrow> string + (string \<times> string) list" where
  "readBulkTargets rt v = (case v of
     Some (JArr vs) \<Rightarrow>
       if vs = [] then Inl ''invalid_targets''
       else if length vs > BULK_TARGET_LIMIT then Inl ''too_many_targets''
       else (case bulk_targets rt vs of None \<Rightarrow> Inl ''invalid_target'' | Some ts \<Rightarrow> Inr ts)
   | _ \<Rightarrow> Inl ''invalid_targets'')"

definition snapshotTargetFromOrigin ::
  "Runtime \<Rightarrow> json option \<Rightarrow> json option \<Rightarrow> string option \<Rightarrow> (string \<times> string) option" where
  "snapshotTargetFromOrigin rt baseUrl roomId origin = (case (baseUrl, roomId, origin) of
     (Some (JStr b), Some (JStr r), Some p) \<Rightarrow>
       if b = [] \<or> r = [] \<or> p = [] then None
       else (case (rt_URL rt b, rt_URL rt p) of
           (Some claimed, Some reported) \<Rightarrow>
             if url_origin claimed \<noteq> url_origin reported then None
             else map_option (\<lambda>canonical. (r, canonical)) (sanitizeBaseUrl rt (Some (JStr b)))
         | _ \<Rightarrow> None)
   | _ \<Rightarrow> None)"

subsection \<open>Grants\<close>

record SnapshotGrant =
  sg_roomId :: string
  sg_baseUrl :: string
  sg_expiresAt :: int

type_synonym grants = "(string \<times> SnapshotGrant) list"

definition SNAPSHOT_CAPABILITY_TTL_MS :: int where "SNAPSHOT_CAPABILITY_TTL_MS = 6 * 60 * 60 * 1000"
definition SNAPSHOT_CAPABILITY_MAX :: nat where "SNAPSHOT_CAPABILITY_MAX = 64"

definition pruneSnapshotCapabilities :: "int \<Rightarrow> grants \<Rightarrow> grants" where
  "pruneSnapshotCapabilities now gs = filter (\<lambda>(c, g). \<not> sg_expiresAt g \<le> now) gs"

fun evict_oldest :: "grants \<Rightarrow> grants" where
  "evict_oldest [] = []"
| "evict_oldest (g # gs) = (if length (g # gs) \<ge> SNAPSHOT_CAPABILITY_MAX then evict_oldest gs else g # gs)"

text \<open>\<open>capability\<close> is the fresh random text.\<close>

definition mintSnapshotCapability :: "string \<Rightarrow> int \<Rightarrow> string \<Rightarrow> string \<Rightarrow> grants \<Rightarrow> grants" where
  "mintSnapshotCapability capability now roomId baseUrl gs =
     AList.update capability \<lparr> sg_roomId = roomId, sg_baseUrl = baseUrl, sg_expiresAt = now + SNAPSHOT_CAPABILITY_TTL_MS \<rparr>
       (evict_oldest (pruneSnapshotCapabilities now gs))"

definition resolveSnapshotCapability :: "int \<Rightarrow> json option \<Rightarrow> grants \<Rightarrow> (string \<times> string) option \<times> grants" where
  "resolveSnapshotCapability now v gs = (case v of
     Some (JStr c) \<Rightarrow>
       if c = [] then (None, gs)
       else let pruned = pruneSnapshotCapabilities now gs
         in (case map_of pruned c of
               None \<Rightarrow> (None, pruned)
             | Some g \<Rightarrow> (Some (sg_roomId g, sg_baseUrl g),
                 AList.update c (g\<lparr> sg_expiresAt := now + SNAPSHOT_CAPABILITY_TTL_MS \<rparr>) pruned))
   | _ \<Rightarrow> (None, gs))"

end
