(* ===== verification/PlatformHttp.thy ===== *)
theory PlatformHttp
  imports PlatformBridge
begin

text \<open>
  \<open>platform/http.ts\<close>: the owner's local dashboard server. Its state is the device home (joined rooms and
  snapshots), the stored participant tokens, the grants of the history bridge, and, only read here, the
  registry and the host's room directories. A request is handled as one action on it; a throw becomes
  the 500 of the catch in \<open>createPlatformHttpServer\<close>. What the request finds outside, the clock, the
  random text, the reply of a room host, is part of the environment \<open>PlatformEnv\<close> of that request.
\<close>

subsection \<open>State, requests, replies\<close>

text \<open>\<open>tokens.json\<close> of a room decodes to the entries of its \<open>tokens\<close> object.\<close>

record PlatformState =
  pf_device :: DeviceHome
  pf_tokens :: "(string \<times> (string \<times> json) list stored) list"
  pf_grants :: grants
  pf_registry :: registry
  pf_homes :: "string \<Rightarrow> RoomFiles"

record PlatformEnv =
  pe_rt :: Runtime
  pe_allowInsecureRemote :: bool
  pe_ownerUserId :: "string option"
  pe_devOwner :: "DevOwnerIdentityConfig option"
  pe_env :: "string \<rightharpoonup> string"
  pe_digest :: "string \<Rightarrow> string"
  pe_num_str :: "jnum \<Rightarrow> string"
  pe_decode :: "string \<Rightarrow> string option"
  pe_rm_error :: "string \<Rightarrow> js_error option"
  pe_invite :: "string \<Rightarrow> string \<Rightarrow> (bool \<times> json option) option"
  pe_probe :: "string \<Rightarrow> (nat \<times> json option) option"
  pe_now :: int
  pe_capability :: string

record PlatformRequest =
  pq_method :: string
  pq_path :: string
  pq_query :: "(string \<times> string) list"
  pq_host :: "string option"
  pq_origin :: "string option"
  pq_bytes :: nat
  pq_json :: "json option"

datatype Reachability = Live | Unreachable | Expired

datatype PlatformReply =
    ErrorReply nat string
  | OkReply
  | StoredReply bool
  | UpdatedReply bool
  | RemovedReply bool
  | BulkReply BulkJoinedRoomResult
  | RememberedReply JoinedRoom
  | ApiReply PlatformApiResponse
  | AssetReply string
  | VersionReply
  | JoinedRoomsReply "(JoinedRoom \<times> Reachability \<times> JoinedRoomSeat list) list"
  | HistoryReply JoinedHistoryRead
  | MessagesReply "Message list" int bool
  | OpenHelp nat
  | NoReply
  | OpenRedirect string string string string

type_synonym 'a platform_action = "(PlatformState, cp_error, 'a) action"

definition on_device :: "'a home_action \<Rightarrow> 'a platform_action" where
  "on_device act = (\<lambda>s. case act (pf_device s) of
     (Inl e, h) \<Rightarrow> (Inl (CPError e), s\<lparr> pf_device := h \<rparr>) | (Inr x, h) \<Rightarrow> (Inr x, s\<lparr> pf_device := h \<rparr>))"

definition body_json :: "nat \<Rightarrow> PlatformRequest \<Rightarrow> json option" where
  "body_json limit req = (if pq_bytes req > limit then None else pq_json req)"

definition body_prop :: "json \<Rightarrow> string \<Rightarrow> json option platform_action" where
  "body_prop body k = lift (liftJ (jprop body k))"

definition query_param :: "string \<Rightarrow> PlatformRequest \<Rightarrow> json option" where
  "query_param k req = map_option JStr (map_of (pq_query req) k)"

definition SINGLE_BODY_LIMIT :: nat where "SINGLE_BODY_LIMIT = 8192"
definition SNAPSHOT_BODY_MAX_BYTES :: nat where "SNAPSHOT_BODY_MAX_BYTES = 256 * 1024"
definition BULK_BODY_LIMIT :: nat where "BULK_BODY_LIMIT = 262144"

definition env_iso :: "PlatformEnv \<Rightarrow> string" where
  "env_iso env = rt_toISOString (pe_rt env) (pe_now env)"

text \<open>\<open>if (!isLoopbackOrigin(req.headers.origin)) \<dots>\<close>: the first test of every write.\<close>

definition loopback_only :: "PlatformEnv \<Rightarrow> PlatformRequest \<Rightarrow> PlatformReply platform_action \<Rightarrow> PlatformReply platform_action" where
  "loopback_only env req act =
     (if isLoopbackOrigin (pe_rt env) (pq_origin req) then act else ret (ErrorReply 403 ''bad_origin''))"

subsection \<open>Stored tokens\<close>

definition tokens_file :: "string \<Rightarrow> PlatformState \<Rightarrow> (string \<times> json) list stored" where
  "tokens_file roomId s = (case map_of (pf_tokens s) roomId of Some f \<Rightarrow> f | None \<Rightarrow> NoFile)"

definition readStoredParticipantAliases :: "string \<Rightarrow> PlatformState \<Rightarrow> string list" where
  "readStoredParticipantAliases roomId s =
     (if \<not> isSafeRoomId roomId then []
      else case tokens_file roomId s of
        File ts \<Rightarrow> filter (\<lambda>a. isSafeAlias a \<and> is_string (map_of ts a)) (map fst ts)
      | _ \<Rightarrow> [])"

definition readStoredParticipantToken :: "string \<Rightarrow> string \<Rightarrow> PlatformState \<Rightarrow> string option" where
  "readStoredParticipantToken roomId a s =
     (if \<not> isSafeRoomId roomId \<or> \<not> isSafeAlias a then None
      else case tokens_file roomId s of
        File ts \<Rightarrow> (case map_of ts a of Some (JStr t) \<Rightarrow> if t = [] then None else Some t | _ \<Rightarrow> None)
      | _ \<Rightarrow> None)"

text \<open>\<open>writeToken\<close> of \<open>cli/state.ts\<close>.\<close>

definition writeToken :: "string \<Rightarrow> string \<Rightarrow> string \<Rightarrow> unit platform_action" where
  "writeToken roomId a token = (\<lambda>s. case readFileR (tokens_file roomId s) of
     Inr ts \<Rightarrow> (Inr (), s\<lparr> pf_tokens := AList.update roomId (File (AList.update a (JStr token) ts)) (pf_tokens s) \<rparr>)
   | Inl e \<Rightarrow>
       if isNotFoundError e
       then (Inr (), s\<lparr> pf_tokens := AList.update roomId (File [(a, JStr token)]) (pf_tokens s) \<rparr>)
       else (Inl (CPError e), s))"

definition heldSeatsFor :: "JoinedRoom \<Rightarrow> PlatformState \<Rightarrow> JoinedRoomSeat list" where
  "heldSeatsFor room s =
     (let held = readStoredParticipantAliases (jr_roomId room) s
      in if held = [] then []
         else let known = foldl (\<lambda>m st. AList.update (se_alias st) st m) [] (or_empty (jr_seats room));
                  known = (if jr_alias room \<noteq> [] \<and> map_of known (jr_alias room) = None
                    then AList.update (jr_alias room) (seat (jr_alias room) (jr_kind room)) known else known)
              in filter (\<lambda>st. se_alias st \<in> set held) (map snd known))"

subsection \<open>Writes\<close>

definition joined_entry :: "string \<Rightarrow> string \<Rightarrow> string \<Rightarrow> string \<Rightarrow> JoinedRoomKind option \<Rightarrow> string \<Rightarrow> JoinedRoom" where
  "joined_entry roomId title a baseUrl kind now =
     \<lparr> jr_roomId = roomId, jr_title = title, jr_alias = a, jr_baseUrl = baseUrl, jr_joinedAt = now, jr_lastSeen = now,
       jr_kind = kind, jr_seats = None, jr_archived = None \<rparr>"

definition refreshJoinedRoomFromBridgeRequest :: "PlatformEnv \<Rightarrow> PlatformRequest \<Rightarrow> PlatformReply platform_action" where
  "refreshJoinedRoomFromBridgeRequest env req = loopback_only env req
     (case body_json SINGLE_BODY_LIMIT req of
        None \<Rightarrow> ret (ErrorReply 400 ''invalid_json'')
      | Some body \<Rightarrow>
          bindA (body_prop body ''baseUrl'') (\<lambda>b.
          case sanitizeBaseUrl (pe_rt env) b of
            None \<Rightarrow> ret (ErrorReply 400 ''invalid_base_url'')
          | Some baseUrl \<Rightarrow>
              let roomId = shortString (opt_prop body ''roomId'')
              in bindA (on_device (refreshJoinedRoomMetadata (joined_entry (or_default roomId baseUrl)
                     (or_default (shortString (opt_prop body ''title'')) (or_default roomId baseUrl))
                     (or_default (shortString (opt_prop body ''alias'')) []) baseUrl None (env_iso env)))) (\<lambda>_.
                 ret OkReply)))"

text \<open>The guard \<open>isStillTracked\<close> of the history bridge.\<close>

definition isStillTracked :: "string \<times> string \<Rightarrow> bool platform_action" where
  "isStillTracked target = bindA (on_device readJoinedRooms) (\<lambda>rooms.
     ret (case find (\<lambda>room. same_row room target) rooms of None \<Rightarrow> False | Some row \<Rightarrow> jr_archived row \<noteq> Some True))"

definition resolve_target :: "PlatformEnv \<Rightarrow> PlatformRequest \<Rightarrow> json \<Rightarrow> (string \<times> string) option platform_action" where
  "resolve_target env req body =
     bindA (body_prop body ''capability'') (\<lambda>capability.
     if capability = None \<or> capability = Some JNull
     then ret (snapshotTargetFromOrigin (pe_rt env) (opt_prop body ''baseUrl'') (opt_prop body ''roomId'') (pq_origin req))
     else (\<lambda>s. case resolveSnapshotCapability (pe_now env) capability (pf_grants s) of
            (target, gs) \<Rightarrow> (Inr target, s\<lparr> pf_grants := gs \<rparr>)))"

definition receiveJoinedHistoryRequest :: "PlatformEnv \<Rightarrow> PlatformRequest \<Rightarrow> PlatformReply platform_action" where
  "receiveJoinedHistoryRequest env req = loopback_only env req
     (case body_json SNAPSHOT_BODY_MAX_BYTES req of
        None \<Rightarrow> ret (ErrorReply 400 ''invalid_body'')
      | Some body \<Rightarrow>
          bindA (resolve_target env req body) (\<lambda>found.
          case found of
            None \<Rightarrow> ret (ErrorReply 403 ''bad_capability'')
          | Some target \<Rightarrow>
              bindA (isStillTracked target) (\<lambda>tracked.
              if \<not> tracked then ret (ErrorReply 404 ''not_tracked'')
              else bindA (lift (liftJ (snapshotMessagesFrom (pe_num_str env) (opt_prop body ''messages'')))) (\<lambda>messages.
                   bindA (lift (liftJ (snapshotForumPostsFrom (pe_num_str env) (opt_prop body ''forumPosts'')))) (\<lambda>posts.
                   if messages = [] \<and> posts = [] then ret (StoredReply False)
                   else bindA (isStillTracked target) (\<lambda>still.
                        bindA (on_device (on_history (recordJoinedHistory (pe_digest env)
                          \<lparr> he_roomId = fst target, he_baseUrl = snd target, he_messages = Some messages,
                            he_forumPosts = Some posts, he_savedAt = env_iso env \<rparr> (Some still)))) (\<lambda>stored.
                        ret (if stored = None then ErrorReply 404 ''not_tracked'' else StoredReply True))))))))"

definition read_target :: "PlatformEnv \<Rightarrow> json \<Rightarrow> (string \<times> string) option platform_action" where
  "read_target env body =
     bindA (body_prop body ''baseUrl'') (\<lambda>b.
     ret (case (sanitizeBaseUrl (pe_rt env) b, shortString (opt_prop body ''roomId'')) of
         (Some baseUrl, Some roomId) \<Rightarrow> Some (roomId, baseUrl) | _ \<Rightarrow> None))"

definition archiveJoinedRoomRequest :: "PlatformEnv \<Rightarrow> PlatformRequest \<Rightarrow> PlatformReply platform_action" where
  "archiveJoinedRoomRequest env req = loopback_only env req
     (case body_json SINGLE_BODY_LIMIT req of
        None \<Rightarrow> ret (ErrorReply 400 ''invalid_json'')
      | Some body \<Rightarrow>
          bindA (read_target env body) (\<lambda>found.
          case found of
            None \<Rightarrow> ret (ErrorReply 400 ''invalid_target'')
          | Some target \<Rightarrow>
              bindA (on_device (setJoinedRoomArchived target (opt_prop body ''archived'' = Some (JBool True)))) (\<lambda>updated.
              ret (UpdatedReply updated))))"

definition deleteJoinedRoomRequest :: "PlatformEnv \<Rightarrow> PlatformRequest \<Rightarrow> PlatformReply platform_action" where
  "deleteJoinedRoomRequest env req = loopback_only env req
     (case body_json SINGLE_BODY_LIMIT req of
        None \<Rightarrow> ret (ErrorReply 400 ''invalid_json'')
      | Some body \<Rightarrow>
          bindA (read_target env body) (\<lambda>found.
          case found of
            None \<Rightarrow> ret (ErrorReply 400 ''invalid_target'')
          | Some target \<Rightarrow>
              bindA (on_device (deleteJoinedRoom (pe_digest env) (pe_rm_error env) target)) (\<lambda>removed.
              ret (RemovedReply removed))))"

text \<open>\<open>readBulkBody\<close>: an oversized body and an unparseable one are told apart.\<close>

definition readBulkBody :: "PlatformRequest \<Rightarrow> PlatformReply + json" where
  "readBulkBody req =
     (if pq_bytes req > BULK_BODY_LIMIT then Inl (ErrorReply 413 ''body_too_large'')
      else case pq_json req of None \<Rightarrow> Inl (ErrorReply 400 ''invalid_json'') | Some body \<Rightarrow> Inr body)"

text \<open>
  The two bulk routes. \<open>readBulkBody\<close> answers with null after it has sent a reply, and the caller then
  returns; the JSON text \<open>null\<close> is taken for that, so no reply is ever sent.
\<close>

definition bulk_request ::
  "PlatformEnv \<Rightarrow> PlatformRequest \<Rightarrow> (json \<Rightarrow> (string \<times> string) list \<Rightarrow> BulkJoinedRoomResult home_action) \<Rightarrow> PlatformReply platform_action" where
  "bulk_request env req act = loopback_only env req
     (case readBulkBody req of
        Inl r \<Rightarrow> ret r
      | Inr body \<Rightarrow>
          if body = JNull then ret NoReply
          else (case readBulkTargets (pe_rt env) (opt_prop body ''targets'') of
              Inl e \<Rightarrow> ret (ErrorReply 400 e)
            | Inr targets \<Rightarrow> bindA (on_device (act body targets)) (\<lambda>r. ret (BulkReply r))))"

definition archiveJoinedRoomsBulkRequest :: "PlatformEnv \<Rightarrow> PlatformRequest \<Rightarrow> PlatformReply platform_action" where
  "archiveJoinedRoomsBulkRequest env req = bulk_request env req
     (\<lambda>body targets. setJoinedRoomsArchived targets (opt_prop body ''archived'' = Some (JBool True)))"

definition deleteJoinedRoomsBulkRequest :: "PlatformEnv \<Rightarrow> PlatformRequest \<Rightarrow> PlatformReply platform_action" where
  "deleteJoinedRoomsBulkRequest env req = bulk_request env req
     (\<lambda>body targets. deleteJoinedRooms (pe_digest env) (pe_rm_error env) targets)"

text \<open>The host's answer to an invite: room, own alias, own kind, boardroom name.\<close>

record InviteStatus =
  is_room :: string
  is_me :: string
  is_kind :: "JoinedRoomKind option"
  is_name :: "string option"

definition seat_kind :: "json option \<Rightarrow> string \<Rightarrow> JoinedRoomKind option" where
  "seat_kind participants me = (case participants of
     Some (JArr vs) \<Rightarrow> (case find (\<lambda>v. opt_prop v ''alias'' = Some (JStr me)) vs of
         Some v \<Rightarrow> if opt_prop v ''kind'' = Some (JStr ''human'') then Some Seat_human
           else if opt_prop v ''kind'' = Some (JStr ''agent'') then Some Seat_agent else None
       | None \<Rightarrow> None)
   | _ \<Rightarrow> None)"

definition fetchInviteStatus :: "PlatformEnv \<Rightarrow> string \<Rightarrow> string \<Rightarrow> InviteStatus option" where
  "fetchInviteStatus env baseUrl token = (case pe_invite env baseUrl token of
     Some (True, Some payload) \<Rightarrow>
       (case (shortString (opt_prop payload ''room''), shortString (opt_prop payload ''me'')) of
          (Some room, Some me) \<Rightarrow>
            if opt_prop payload ''ok'' = Some (JBool True) \<and> isSafeRoomId room \<and> isSafeAlias me
            then Some \<lparr> is_room = room, is_me = me, is_kind = seat_kind (opt_prop payload ''participants'') me,
                is_name = (case opt_prop payload ''boardroom'' of
                    Some b \<Rightarrow> shortString (opt_prop b ''name'') | None \<Rightarrow> None) \<rparr>
            else None
        | _ \<Rightarrow> None)
   | _ \<Rightarrow> None)"

definition rememberJoinedRoomFromInviteRequest :: "PlatformEnv \<Rightarrow> PlatformRequest \<Rightarrow> PlatformReply platform_action" where
  "rememberJoinedRoomFromInviteRequest env req = loopback_only env req
     (case body_json SINGLE_BODY_LIMIT req of
        None \<Rightarrow> ret (ErrorReply 400 ''invalid_json'')
      | Some body \<Rightarrow>
          bindA (body_prop body ''inviteUrl'') (\<lambda>inviteUrl.
          case parseTokenizedInviteUrl (pe_rt env) inviteUrl of
            None \<Rightarrow> ret (ErrorReply 400 ''invalid_invite_url'')
          | Some (baseUrl, token) \<Rightarrow>
              (case fetchInviteStatus env baseUrl token of
                 None \<Rightarrow> ret (ErrorReply 502 ''invite_unreachable'')
               | Some status \<Rightarrow>
                   let entry = joined_entry (is_room status) (or_default (is_name status) (is_room status)) (is_me status)
                         baseUrl (is_kind status) (env_iso env)
                   in bindA (on_device (recordJoinedRoom entry)) (\<lambda>_.
                      bindA (writeToken (is_room status) (is_me status) token) (\<lambda>_.
                      ret (RememberedReply entry))))))"

subsection \<open>Reads\<close>

definition ownerQuery :: "PlatformEnv \<Rightarrow> PlatformOwnerQuery cp_result" where
  "ownerQuery env = (case pe_devOwner env of
     Some d \<Rightarrow> Inr \<lparr> oq_account = None, oq_dev_owner = Some d, oq_owner_user_id = None \<rparr>
   | None \<Rightarrow> (case pe_ownerUserId env of
       Some u \<Rightarrow> Inr \<lparr> oq_account = None, oq_dev_owner = None, oq_owner_user_id = Some u \<rparr>
     | None \<Rightarrow> (case devOwnerIdentityFromEnv (pe_env env) of
         Inl m \<Rightarrow> Inl (CPError (PlainError m))
       | Inr c \<Rightarrow> Inr \<lparr> oq_account = None, oq_dev_owner = Some c, oq_owner_user_id = None \<rparr>)))"

definition log_reply :: "string \<Rightarrow> int \<Rightarrow> PlatformReply platform_action" where
  "log_reply roomId sinceId = (\<lambda>s. case fst (readMessages roomId (pf_homes s roomId)) of
     Inr stored \<Rightarrow>
       let messages = filter (\<lambda>m. int (m_id m) > sinceId) stored
       in (Inr (MessagesReply messages (if messages = [] then sinceId else int (m_id (last messages))) True), s)
   | Inl e \<Rightarrow> if isNotFoundError e then (Inr (MessagesReply [] sinceId False), s) else (Inl (CPError e), s))"

definition sendRoomMessages :: "PlatformEnv \<Rightarrow> string \<Rightarrow> PlatformRequest \<Rightarrow> PlatformReply platform_action" where
  "sendRoomMessages env roomId req =
     bindA (lift (ownerQuery env)) (\<lambda>query.
     bindA (\<lambda>s. (readRoomResponse (pe_rt env) (pe_now env) (pf_homes s) roomId query (pf_registry s), s)) (\<lambda>room.
     if api_status room \<noteq> 200 then ret (ApiReply room)
     else (case parseSinceId (map_of (pq_query req) ''since_id'') of
         None \<Rightarrow> ret (ErrorReply 400 ''invalid_since_id'')
       | Some sinceId \<Rightarrow> log_reply roomId sinceId)))"

definition probeReachability :: "PlatformEnv \<Rightarrow> string \<Rightarrow> Reachability" where
  "probeReachability env baseUrl = (case pe_probe env baseUrl of
     None \<Rightarrow> Unreachable
   | Some (status, body) \<Rightarrow>
       if 200 \<le> status \<and> status \<le> 299 then Live
       else if status = 410 then Expired
       else (case body of
           Some b \<Rightarrow> if opt_prop b ''error'' \<in> Some ` JStr ` set [''route_expired'', ''route_closed'', ''route_not_found'']
             then Expired else Unreachable
         | None \<Rightarrow> Unreachable))"

definition sendJoinedRooms :: "PlatformEnv \<Rightarrow> PlatformReply platform_action" where
  "sendJoinedRooms env =
     bindA (on_device readJoinedRooms) (\<lambda>rooms.
     bindA (gets (\<lambda>s. map (\<lambda>room. (room, probeReachability env (jr_baseUrl room), heldSeatsFor room s)) rooms)) (\<lambda>rows.
     ret (JoinedRoomsReply rows)))"

definition sendJoinedHistory :: "PlatformEnv \<Rightarrow> PlatformRequest \<Rightarrow> PlatformReply platform_action" where
  "sendJoinedHistory env req =
     (let roomId = or_default (map_of (pq_query req) ''room_id'') []
      in case sanitizeBaseUrl (pe_rt env) (query_param ''base_url'' req) of
           None \<Rightarrow> ret (ErrorReply 400 ''invalid_target'')
         | Some baseUrl \<Rightarrow>
             if \<not> isSafeRoomId roomId then ret (ErrorReply 400 ''invalid_target'')
             else bindA (on_device readJoinedRooms) (\<lambda>rooms.
                  if find (\<lambda>room. same_row room (roomId, baseUrl)) rooms = None then ret (ErrorReply 404 ''not_tracked'')
                  else bindA (gets (\<lambda>s. readJoinedHistory (pe_digest env) (roomId, baseUrl) (dh_history (pf_device s)))) (\<lambda>r.
                       ret (HistoryReply r))))"

text \<open>The redirect: the room's base URL, the dashboard's own origin, the participant's token, the grant.\<close>

definition open_as :: "PlatformEnv \<Rightarrow> PlatformRequest \<Rightarrow> JoinedRoom \<Rightarrow> string \<Rightarrow> PlatformReply platform_action" where
  "open_as env req joined a =
     (if a = [] then ret (OpenHelp 409)
      else bindA (gets (readStoredParticipantToken (jr_roomId joined) a)) (\<lambda>found.
        case found of
          None \<Rightarrow> ret (OpenHelp 409)
        | Some token \<Rightarrow>
            bindA (modify (\<lambda>s. s\<lparr> pf_grants := mintSnapshotCapability (pe_capability env) (pe_now env)
              (jr_roomId joined) (jr_baseUrl joined) (pf_grants s) \<rparr>)) (\<lambda>_.
            ret (OpenRedirect (jr_baseUrl joined) (''http://'' @ (case pq_host req of Some h \<Rightarrow> if h = [] then ''127.0.0.1'' else h
                | None \<Rightarrow> ''127.0.0.1'')) token (pe_capability env)))))"

definition openJoinedRoom :: "PlatformEnv \<Rightarrow> PlatformRequest \<Rightarrow> PlatformReply platform_action" where
  "openJoinedRoom env req =
     (let roomId = or_default (map_of (pq_query req) ''room_id'') []
      in case sanitizeBaseUrl (pe_rt env) (query_param ''base_url'' req) of
           None \<Rightarrow> ret (OpenHelp 400)
         | Some baseUrl \<Rightarrow>
             if \<not> isSafeRoomId roomId then ret (OpenHelp 400)
             else bindA (on_device readJoinedRooms) (\<lambda>rooms.
               case find (\<lambda>room. same_row room (roomId, baseUrl)) rooms of
                 None \<Rightarrow> ret (OpenHelp 404)
               | Some joined \<Rightarrow>
                   (case map_of (pq_query req) ''alias'' of
                      None \<Rightarrow> open_as env req joined (jr_alias joined)
                    | Some requested \<Rightarrow>
                        if requested = jr_alias joined then open_as env req joined (jr_alias joined)
                        else bindA (gets (readStoredParticipantAliases (jr_roomId joined))) (\<lambda>held.
                          if requested \<notin> set held then ret (OpenHelp 409) else open_as env req joined requested))))"

subsection \<open>The server\<close>

definition ASSETS :: "(string \<times> string) list" where
  "ASSETS = [(''/'', ''shell.html''), (''/shell.css'', ''shell.css''), (''/theme.css'', ''theme.css''),
     (''/shell.js'', ''shell.js''), (''/restored-provenance.js'', ''restored-provenance.js''),
     (''/manifest.webmanifest'', ''manifest.webmanifest''), (''/agentgather-logo.png'', ''agentgather-logo.png''),
     (''/favicon.png'', ''agentgather-logo.png'')]"

definition BRIDGE_ROUTES :: "(string \<times> (PlatformEnv \<Rightarrow> PlatformRequest \<Rightarrow> PlatformReply platform_action)) list" where
  "BRIDGE_ROUTES =
    [(''/joined-rooms'', refreshJoinedRoomFromBridgeRequest), (''/joined-rooms/history'', receiveJoinedHistoryRequest),
     (''/joined-rooms/remember'', rememberJoinedRoomFromInviteRequest), (''/joined-rooms/archive'', archiveJoinedRoomRequest),
     (''/joined-rooms/delete'', deleteJoinedRoomRequest), (''/joined-rooms/archive-bulk'', archiveJoinedRoomsBulkRequest),
     (''/joined-rooms/delete-bulk'', deleteJoinedRoomsBulkRequest)]"

definition decode_part :: "PlatformEnv \<Rightarrow> string \<Rightarrow> string platform_action" where
  "decode_part env part = lift (case pe_decode env part of Some s \<Rightarrow> Inr s | None \<Rightarrow> Inl (CPError (PlainError ''URI malformed'')))"

definition platform_get :: "PlatformEnv \<Rightarrow> PlatformRequest \<Rightarrow> PlatformReply platform_action" where
  "platform_get env req =
     (case map_of ASSETS (pq_path req) of
        Some file \<Rightarrow> ret (AssetReply file)
      | None \<Rightarrow>
          bindA (lift (ownerQuery env)) (\<lambda>query.
          if pq_path req = ''/rooms''
          then bindA (\<lambda>s. (listRoomsResponse (pe_rt env) (pe_now env) (pf_homes s) query (pf_registry s), s)) (\<lambda>r. ret (ApiReply r))
          else if pq_path req = ''/version'' then ret VersionReply
          else if pq_path req = ''/joined-rooms/open'' then openJoinedRoom env req
          else if pq_path req = ''/joined-rooms/history'' then sendJoinedHistory env req
          else if pq_path req = ''/joined-rooms'' then sendJoinedRooms env
          else (case js_split CHR ''/'' (pq_path req) of
              [a, b, c, d] \<Rightarrow>
                if a = [] \<and> b = ''rooms'' \<and> c \<noteq> [] \<and> d = ''messages''
                then bindA (decode_part env c) (\<lambda>roomId. sendRoomMessages env roomId req)
                else ret (ErrorReply 404 ''not_found'')
            | [a, b, c] \<Rightarrow>
                if a = [] \<and> b = ''rooms'' \<and> c \<noteq> []
                then bindA (decode_part env c) (\<lambda>roomId.
                     bindA (\<lambda>s. (readRoomResponse (pe_rt env) (pe_now env) (pf_homes s) roomId query (pf_registry s), s)) (\<lambda>r.
                     ret (ApiReply r)))
                else ret (ErrorReply 404 ''not_found'')
            | _ \<Rightarrow> ret (ErrorReply 404 ''not_found''))))"

definition handle :: "PlatformEnv \<Rightarrow> PlatformRequest \<Rightarrow> PlatformReply platform_action" where
  "handle env req =
     (if \<not> pe_allowInsecureRemote env \<and> \<not> isLocalhost (pq_host req) then ret (ErrorReply 403 ''insecure_remote'')
      else case (if pq_method req = ''POST'' then map_of BRIDGE_ROUTES (pq_path req) else None) of
        Some bridge \<Rightarrow> bridge env req
      | None \<Rightarrow>
          if pq_method req \<noteq> ''GET'' then ret (ErrorReply 405 ''method_not_allowed'')
          else platform_get env req)"

definition platform_handle :: "PlatformEnv \<Rightarrow> PlatformRequest \<Rightarrow> PlatformState \<Rightarrow> PlatformReply \<times> PlatformState" where
  "platform_handle env req s = (case handle env req s of
     (Inr r, s') \<Rightarrow> (r, s') | (Inl e, s') \<Rightarrow> (ErrorReply 500 ''internal_error'', s'))"

end
