(* ===== verification/PlatformRuns.thy ===== *)
theory PlatformRuns
  imports PlatformHttp
begin

text \<open>
  What a request to the dashboard can change, and what its reply can carry. \<open>device_effect\<close> is proved of
  every handler, by the way it is composed; the properties read it off.
\<close>

subsection \<open>Effects of a request\<close>

definition grants_ok :: "grants \<Rightarrow> bool" where
  "grants_ok gs \<longleftrightarrow> length gs \<le> SNAPSHOT_CAPABILITY_MAX \<and> distinct (map fst gs)"

lemma length_update: "length (AList.update k v al) = (if k \<in> fst ` set al then length al else Suc (length al))"
  by (induction al) auto

lemma prune_ok: "grants_ok gs \<Longrightarrow> grants_ok (pruneSnapshotCapabilities now gs)"
  unfolding grants_ok_def pruneSnapshotCapabilities_def
  by (auto intro: order_trans [OF length_filter_le] distinct_map_filter)

lemma evict_room: "length (evict_oldest gs) < SNAPSHOT_CAPABILITY_MAX" "\<exists>old. gs = old @ evict_oldest gs"
proof -
  show "length (evict_oldest gs) < SNAPSHOT_CAPABILITY_MAX"
    by (induction gs) (auto simp: SNAPSHOT_CAPABILITY_MAX_def)
  show "\<exists>old. gs = old @ evict_oldest gs"
  proof (induction gs)
    case (Cons g gs)
    then obtain old where "gs = old @ evict_oldest gs" by blast
    then show ?case
      by (cases "length (g # gs) \<ge> SNAPSHOT_CAPABILITY_MAX") (auto intro: exI [of _ "g # old"])
  qed simp
qed

lemma mint_ok: "grants_ok gs \<Longrightarrow> grants_ok (mintSnapshotCapability c now roomId baseUrl gs)"
proof -
  assume "grants_ok gs"
  then have "distinct (map fst (pruneSnapshotCapabilities now gs))" using prune_ok by (simp add: grants_ok_def)
  moreover obtain old where "pruneSnapshotCapabilities now gs = old @ evict_oldest (pruneSnapshotCapabilities now gs)"
    using evict_room(2) by blast
  ultimately have "distinct (map fst (evict_oldest (pruneSnapshotCapabilities now gs)))"
    by (metis distinct_append map_append)
  then show ?thesis
    using evict_room(1) [of "pruneSnapshotCapabilities now gs"]
    by (auto simp: grants_ok_def mintSnapshotCapability_def length_update distinct_update)
qed

lemma resolve_ok: "grants_ok gs \<Longrightarrow> grants_ok (snd (resolveSnapshotCapability now v gs))"
  using prune_ok [of gs now]
  by (auto simp: resolveSnapshotCapability_def Let_def grants_ok_def length_update distinct_update
      split: option.split json.split dest: map_of_SomeD intro: rev_image_eqI)

lemma resolve_ok': "resolveSnapshotCapability now v gs = (t, hs) \<Longrightarrow> grants_ok gs \<Longrightarrow> grants_ok hs"
  using resolve_ok [of gs now v] by simp

text \<open>
  The registry and the room directories are only read; the device moves by operations of its store; the
  stored tokens stay as they are where \<open>keep\<close> is set.
\<close>

definition device_effect :: "(string \<Rightarrow> string) \<Rightarrow> bool \<Rightarrow> PlatformState \<Rightarrow> PlatformState \<Rightarrow> bool" where
  "device_effect digest keep s t \<longleftrightarrow> (keep \<longrightarrow> pf_tokens t = pf_tokens s) \<and> pf_registry t = pf_registry s \<and> pf_homes t = pf_homes s \<and>
     (device_step digest)\<^sup>*\<^sup>* (pf_device s) (pf_device t) \<and> (grants_ok (pf_grants s) \<longrightarrow> grants_ok (pf_grants t))"

text \<open>A read changes nothing but the grants.\<close>

definition read_effect :: "PlatformState \<Rightarrow> PlatformState \<Rightarrow> bool" where
  "read_effect s t \<longleftrightarrow> (\<exists>gs. t = s\<lparr> pf_grants := gs \<rparr> \<and> (grants_ok (pf_grants s) \<longrightarrow> grants_ok gs))"

lemma device_effect_refl [simp]: "device_effect d keep s s"
  by (simp add: device_effect_def)

lemma device_effect_trans: "device_effect d keep s t \<Longrightarrow> device_effect d keep t u \<Longrightarrow> device_effect d keep s u"
  by (auto simp: device_effect_def)

lemma read_effect_refl [simp]: "read_effect s s"
  unfolding read_effect_def by (intro exI [of _ "pf_grants s"]) simp

lemma read_effect_grants: "(grants_ok (pf_grants s) \<Longrightarrow> grants_ok gs) \<Longrightarrow> read_effect s (s\<lparr> pf_grants := gs \<rparr>)"
  by (auto simp: read_effect_def)

lemma read_effect_trans: "read_effect s t \<Longrightarrow> read_effect t u \<Longrightarrow> read_effect s u"
  by (auto simp: read_effect_def)

lemma read_device: "read_effect s t \<Longrightarrow> device_effect d keep s t"
  by (auto simp: read_effect_def device_effect_def)

lemma along_reads [simp]: "along read_effect (ret x)" "along read_effect (throw e)" "along read_effect (lift r)"
    "along read_effect (gets f)" "along read_effect (\<lambda>s. (h s, s))" "along read_effect (body_prop body k)"
  by (simp_all add: along_def body_prop_def)

lemma along_device [simp]: "along (device_effect d keep) (ret x)" "along (device_effect d keep) (throw e)" "along (device_effect d keep) (lift r)"
    "along (device_effect d keep) (gets f)" "along (device_effect d keep) (body_prop body k)"
  by (simp_all add: along_def body_prop_def)

lemma along_read_bind: "along read_effect m \<Longrightarrow> (\<And>x. along read_effect (f x)) \<Longrightarrow> along read_effect (bindA m f)"
  by (rule along_bindA [OF read_effect_trans])

lemma along_device_bind:
  "along (device_effect d keep) m \<Longrightarrow> (\<And>x. along (device_effect d keep) (f x)) \<Longrightarrow> along (device_effect d keep) (bindA m f)"
  by (rule along_bindA [OF device_effect_trans])

lemma snd_on_device [simp]: "snd (on_device act s) = s\<lparr> pf_device := snd (act (pf_device s)) \<rparr>"
  by (simp add: on_device_def split: prod.split sum.split)

lemma readJoinedRooms_same [simp]: "snd (readJoinedRooms h) = h"
  by (simp add: readJoinedRooms_def split: sum.split option.split)

lemma on_device_reads [simp]: "along read_effect (on_device readJoinedRooms)"
  by (simp add: along_def)

lemma on_device_step: "(\<And>h. device_step d h (snd (act h))) \<Longrightarrow> along (device_effect d keep) (on_device act)"
  by (auto simp: along_def device_effect_def)

lemma writeToken_effect [simp]: "along (device_effect d False) (writeToken roomId a token)"
  by (rule alongI) (auto simp: writeToken_def device_effect_def split: sum.split)

lemma loopback_along: "along R act \<Longrightarrow> (\<And>s. R s s) \<Longrightarrow> along R (loopback_only env req act)"
  by (simp add: loopback_only_def along_def)

named_theorems effects \<open>effects of the handlers\<close>

lemma isStillTracked_reads [effects]: "along read_effect (isStillTracked target)"
  unfolding isStillTracked_def by (intro along_read_bind) simp_all

lemma resolve_reads [effects]: "along read_effect (resolve_target env req body)"
  unfolding resolve_target_def
  by (intro along_read_bind along_reads)
    (auto simp: along_def split: prod.split intro!: read_effect_grants intro: resolve_ok')

lemma refresh_effect [effects]: "along (device_effect (pe_digest env) keep) (refreshJoinedRoomFromBridgeRequest env req)"
  unfolding refreshJoinedRoomFromBridgeRequest_def Let_def
  by (intro loopback_along) (auto split: option.split intro!: along_device_bind on_device_step device_step.refresh)

lemma read_target_effect [effects]: "along (device_effect d keep) (read_target env body)"
  unfolding read_target_def by (intro along_device_bind) simp_all

lemma archive_effect [effects]: "along (device_effect (pe_digest env) keep) (archiveJoinedRoomRequest env req)"
  unfolding archiveJoinedRoomRequest_def
  by (intro loopback_along) (auto split: option.split intro!: along_device_bind read_target_effect on_device_step device_step.hide)

lemma delete_effect [effects]: "along (device_effect (pe_digest env) keep) (deleteJoinedRoomRequest env req)"
  unfolding deleteJoinedRoomRequest_def
  by (intro loopback_along) (auto split: option.split intro!: along_device_bind read_target_effect on_device_step device_step.forget)

lemma bulk_effect:
  assumes "\<And>body targets h. device_step d h (snd (act body targets h))"
  shows "along (device_effect d keep) (bulk_request env req act)"
  unfolding bulk_request_def
  by (intro loopback_along) (auto split: sum.split intro!: along_device_bind on_device_step assms)

lemma archive_bulk_effect [effects]: "along (device_effect (pe_digest env) keep) (archiveJoinedRoomsBulkRequest env req)"
  and delete_bulk_effect [effects]: "along (device_effect (pe_digest env) keep) (deleteJoinedRoomsBulkRequest env req)"
  unfolding archiveJoinedRoomsBulkRequest_def deleteJoinedRoomsBulkRequest_def
  by (rule bulk_effect, rule device_step.hide_many, rule bulk_effect, rule device_step.forget_many)

lemma remember_effect [effects]: "along (device_effect (pe_digest env) False) (rememberJoinedRoomFromInviteRequest env req)"
  unfolding rememberJoinedRoomFromInviteRequest_def Let_def
  by (intro loopback_along) (auto split: option.split intro!: along_device_bind on_device_step device_step.join)

lemma along_read_device: "along read_effect m \<Longrightarrow> along (device_effect d keep) m"
  by (erule along_mono) (rule read_device)

lemmas bridge_reads = along_read_device [OF isStillTracked_reads] along_read_device [OF resolve_reads]

lemma receive_effect [effects]: "along (device_effect (pe_digest env) keep) (receiveJoinedHistoryRequest env req)"
  unfolding receiveJoinedHistoryRequest_def
  by (intro loopback_along) (auto split: option.split intro!: along_device_bind bridge_reads on_device_step device_step.save)

lemma along_mint: "along read_effect (modify (\<lambda>s. s\<lparr> pf_grants := mintSnapshotCapability c now roomId baseUrl (pf_grants s) \<rparr>))"
  by (rule alongI) (auto intro!: read_effect_grants mint_ok)

lemma open_as_reads [effects]: "along read_effect (open_as env req joined a)"
  unfolding open_as_def by (auto split: option.split intro!: along_read_bind along_mint)

lemma open_reads [effects]: "along read_effect (openJoinedRoom env req)"
  unfolding openJoinedRoom_def Let_def by (auto split: option.split intro!: along_read_bind open_as_reads)

lemma history_reads [effects]: "along read_effect (sendJoinedHistory env req)"
  unfolding sendJoinedHistory_def Let_def by (auto split: option.split intro!: along_read_bind)

lemma rooms_reads [effects]: "along read_effect (sendJoinedRooms env)"
  unfolding sendJoinedRooms_def by (intro along_read_bind) simp_all

lemma log_reads: "along read_effect (log_reply roomId sinceId)"
  by (rule alongI) (simp add: log_reply_def Let_def split: sum.split)

lemma messages_reads [effects]: "along read_effect (sendRoomMessages env roomId req)"
  unfolding sendRoomMessages_def by (auto split: option.split intro!: along_read_bind log_reads)

lemma decode_reads [effects]: "along read_effect (decode_part env part)"
  by (simp add: decode_part_def)

lemma get_reads [effects]: "along read_effect (platform_get env req)"
  unfolding platform_get_def
  by (auto split: option.split list.split intro!: along_read_bind effects)

lemma bridge_effects:
  "map_of BRIDGE_ROUTES p = Some bridge \<Longrightarrow>
   along (device_effect (pe_digest env) (p \<noteq> ''/joined-rooms/remember'')) (bridge env req)"
  by (auto simp: BRIDGE_ROUTES_def split: if_splits intro: effects)

lemma bridge_origin:
  "map_of BRIDGE_ROUTES p = Some bridge \<Longrightarrow> \<not> isLoopbackOrigin (pe_rt env) (pq_origin req) \<Longrightarrow>
   bridge env req s = (Inr (ErrorReply 403 ''bad_origin''), s)"
  by (auto simp: BRIDGE_ROUTES_def loopback_only_def refreshJoinedRoomFromBridgeRequest_def receiveJoinedHistoryRequest_def
      rememberJoinedRoomFromInviteRequest_def archiveJoinedRoomRequest_def deleteJoinedRoomRequest_def
      archiveJoinedRoomsBulkRequest_def deleteJoinedRoomsBulkRequest_def bulk_request_def split: if_splits)

lemma snd_platform [simp]: "snd (platform_handle env req s) = snd (handle env req s)"
  by (simp add: platform_handle_def split: prod.split sum.split)

text \<open>A request is refused at the door, is a read, or is one of the bridges, from a loopback page.\<close>

lemma handle_cases:
  obtains (refused) e c where "handle env req s = (Inr (ErrorReply c e), s)"
  | (read) "handle env req s = platform_get env req s" "pq_method req = ''GET''" "pe_allowInsecureRemote env \<or> isLocalhost (pq_host req)"
  | (bridge) bridge where "handle env req s = bridge env req s" "map_of BRIDGE_ROUTES (pq_path req) = Some bridge"
      "pq_method req = ''POST''" "pe_allowInsecureRemote env \<or> isLocalhost (pq_host req)" "isLoopbackOrigin (pe_rt env) (pq_origin req)"
proof (cases "pe_allowInsecureRemote env \<or> isLocalhost (pq_host req)")
  case door: True
  show ?thesis
  proof (cases "if pq_method req = ''POST'' then map_of BRIDGE_ROUTES (pq_path req) else None")
    case None
    then show ?thesis using door refused read by (cases "pq_method req = ''GET''") (auto simp: handle_def)
  next
    case (Some bridge)
    then have b: "handle env req s = bridge env req s" "pq_method req = ''POST''" "map_of BRIDGE_ROUTES (pq_path req) = Some bridge"
      using door by (auto simp: handle_def split: if_splits)
    then show ?thesis
      using door bridge bridge_origin [OF b(3), of env req s] refused
      by (cases "isLoopbackOrigin (pe_rt env) (pq_origin req)") auto
  qed
qed (use refused in \<open>auto simp: handle_def\<close>)

lemma handle_effect: "device_effect (pe_digest env) (pq_path req \<noteq> ''/joined-rooms/remember'') s (snd (handle env req s))"
proof (cases rule: handle_cases [of env req s])
  case read
  then show ?thesis using alongD [OF get_reads, of s env req] by (simp add: read_device)
next
  case (bridge b)
  then show ?thesis using alongD [OF bridge_effects [OF bridge(2)]] by simp
qed simp

text \<open>Claim C34. The dashboard can be written only from this machine, by its own pages. Whatever the request,
  the control plane's registry and the hosts' room directories are never changed; the joined rooms, the
  snapshots and the stored tokens can change only for a POST to one of the seven bridge paths, whose
  Host is local (unless remote access was switched on) and whose Origin is a loopback page; and a
  stored token can change only on the import of an invite.\<close>

theorem dashboard_write_guard:
  assumes "platform_handle env req s = (r, s')"
  shows "pf_registry s' = pf_registry s \<and> pf_homes s' = pf_homes s \<and>
    (pf_device s' \<noteq> pf_device s \<or> pf_tokens s' \<noteq> pf_tokens s \<longrightarrow>
      (pe_allowInsecureRemote env \<or> isLocalhost (pq_host req)) \<and> pq_method req = ''POST'' \<and>
      pq_path req \<in> fst ` set BRIDGE_ROUTES \<and> isLoopbackOrigin (pe_rt env) (pq_origin req)) \<and>
    (pf_tokens s' \<noteq> pf_tokens s \<longrightarrow> pq_path req = ''/joined-rooms/remember'')"
proof -
  have s': "s' = snd (handle env req s)" using assms snd_platform [of env req s] by simp
  show ?thesis
  proof (cases rule: handle_cases [of env req s])
    case (refused e c)
    then show ?thesis using s' by simp
  next
    case read
    then show ?thesis using s' alongD [OF get_reads, of s env req] by (auto simp: read_effect_def)
  next
    case (bridge b)
    then show ?thesis
      using s' handle_effect [of env req s] map_of_SomeD [OF bridge(2)] by (force simp: device_effect_def)
  qed
qed

definition lab_env :: PlatformEnv where
  "lab_env = \<lparr> pe_rt = lab_runtime\<lparr> rt_URL := (\<lambda>s. if starts_with ''http://h'' s \<or> starts_with ''http://localhost'' s then
        Some ((lab_url (if s = ''http://h'' then ''/'' else drop 8 s))\<lparr>
          url_hostname := if starts_with ''http://localhost'' s then ''localhost'' else ''h'' \<rparr>) else None) \<rparr>,
     pe_allowInsecureRemote = False, pe_ownerUserId = Some ''ada'', pe_devOwner = None, pe_env = (\<lambda>_. None),
     pe_digest = (\<lambda>s. s), pe_num_str = (\<lambda>_. ''1''), pe_decode = Some, pe_rm_error = (\<lambda>_. None),
     pe_invite = (\<lambda>_ _. None), pe_probe = (\<lambda>_. None), pe_now = 7, pe_capability = ''cap1'' \<rparr>"

definition new_dashboard :: PlatformState where
  "new_dashboard = \<lparr> pf_device = new_device, pf_tokens = [], pf_grants = [], pf_registry = lab_registry,
     pf_homes = (\<lambda>_. empty_room) \<rparr>"

definition join_request :: "string \<Rightarrow> PlatformRequest" where
  "join_request origin = \<lparr> pq_method = ''POST'', pq_path = ''/joined-rooms'', pq_query = [], pq_host = Some ''localhost:80'',
     pq_origin = Some origin, pq_bytes = 40, pq_json = Some (JObj [(''roomId'', JStr ''lab''), (''alias'', JStr ''alice''),
       (''baseUrl'', JStr ''http://h'')]) \<rparr>"

lemma dashboard_write_guard_witness:
  "pf_device (snd (platform_handle lab_env (join_request ''http://h'') new_dashboard)) = new_device \<and>
   pf_device (snd (platform_handle lab_env (join_request ''http://localhost'') new_dashboard)) \<noteq> new_device"
proof -
  obtain r s' where run: "platform_handle lab_env (join_request ''http://h'') new_dashboard = (r, s')"
    by (cases "platform_handle lab_env (join_request ''http://h'') new_dashboard")
  have "\<not> isLoopbackOrigin (pe_rt lab_env) (pq_origin (join_request ''http://h''))" by code_simp
  then have "pf_device s' = pf_device new_dashboard" using dashboard_write_guard [OF run] by blast
  moreover have "dh_rooms (pf_device (snd (platform_handle lab_env (join_request ''http://localhost'') new_dashboard))) \<noteq> NoFile"
    by code_simp
  ultimately show ?thesis using run by (auto simp: new_dashboard_def new_device_def)
qed

subsection \<open>Runs of the dashboard\<close>

inductive platform_step :: "(string \<Rightarrow> string) \<Rightarrow> PlatformState \<Rightarrow> PlatformState \<Rightarrow> bool" for digest where
  request: "pe_digest env = digest \<Longrightarrow> platform_step digest s (snd (platform_handle env req s))"

definition fresh_dashboard :: "PlatformState \<Rightarrow> bool" where
  "fresh_dashboard s \<longleftrightarrow> pf_device s = new_device \<and> pf_grants s = []"

definition dashboard_inv :: "PlatformState \<Rightarrow> bool" where
  "dashboard_inv s \<longleftrightarrow> device_inv (pf_device s) \<and> grants_ok (pf_grants s)"

lemma platform_step_effect: "platform_step digest s t \<Longrightarrow> device_effect digest False s t"
  using handle_effect by (auto elim!: platform_step.cases simp: device_effect_def)

interpretation dashboard: refinement fresh_dashboard "platform_step digest" dashboard_inv "\<lambda>s. rows_view (pf_device s)" "rows_step\<^sup>*\<^sup>*" for digest
proof
  show "dashboard_inv s" if "fresh_dashboard s" for s
    using that by (simp add: dashboard_inv_def fresh_dashboard_def grants_ok_def device.init_inv)
  show "dashboard_inv t" if "dashboard_inv s" "platform_step digest s t" for s t
    using that platform_step_effect [OF that(2)] device.steps_inv [of digest "pf_device s" "pf_device t"]
    by (simp add: dashboard_inv_def device_effect_def)
  show "rows_step\<^sup>*\<^sup>* (rows_view (pf_device s)) (rows_view (pf_device t))"
    if "dashboard_inv s" "platform_step digest s t" for s t
    using that platform_step_effect [OF that(2)] device.abs_steps [of digest "pf_device s" "pf_device t"]
    by (simp add: dashboard_inv_def device_effect_def)
qed

text \<open>Claim C35. The dashboard over time, under any sequence of requests with any environments: it never has
  more than 64 grants, one per capability; a joined room has one row; every snapshot on disk is
  within its bounds with no bearer or tgl token in any text; and seen as a map from rooms to rows, it
  does nothing but join, archive and forget rows.\<close>

theorem dashboard_bounds:
  assumes "fresh_dashboard s0" "(platform_step digest)\<^sup>*\<^sup>* s0 s"
  shows "length (pf_grants s) \<le> 64 \<and> distinct (map fst (pf_grants s)) \<and>
    distinct (map room_id (rooms_of (pf_device s))) \<and>
    (\<forall>path f. history_file path (dh_history (pf_device s)) = File f \<longrightarrow> (\<exists>snap. f = Some (stored_snapshot snap) \<and> snapshot_ok snap)) \<and>
    rows_step\<^sup>*\<^sup>* (\<lambda>_. None) (rows_view (pf_device s))"
proof -
  have inv: "dashboard_inv s" using dashboard.reachable_inv [OF assms] .
  have "(rows_step\<^sup>*\<^sup>*)\<^sup>*\<^sup>* (rows_view (pf_device s0)) (rows_view (pf_device s))"
    using dashboard.abs_steps [OF assms(2)] dashboard.init_inv [OF assms(1)] by blast
  moreover have "rows_view (pf_device s0) = (\<lambda>_. None)"
    using assms(1) by (auto simp: fresh_dashboard_def rows_view_def rooms_of_def new_device_def)
  ultimately show ?thesis
    using inv by (simp add: dashboard_inv_def grants_ok_def SNAPSHOT_CAPABILITY_MAX_def device_inv_def history_inv_def)
qed

lemma dashboard_bounds_witness:
  "length (pf_grants (snd (platform_handle lab_env (join_request ''http://localhost'') new_dashboard))) \<le> 64"
proof -
  have "fresh_dashboard new_dashboard" by (simp add: fresh_dashboard_def new_dashboard_def)
  moreover have "(platform_step (\<lambda>s. s))\<^sup>*\<^sup>* new_dashboard (snd (platform_handle lab_env (join_request ''http://localhost'') new_dashboard))"
    by (rule r_into_rtranclp, rule platform_step.request) (simp add: lab_env_def)
  ultimately show ?thesis using dashboard_bounds by blast
qed

subsection \<open>The history bridge\<close>

text \<open>What names the room of a batch: a live grant, or a base URL under the origin the browser reports.\<close>

definition bridge_names :: "PlatformEnv \<Rightarrow> PlatformRequest \<Rightarrow> grants \<Rightarrow> string \<times> string \<Rightarrow> bool" where
  "bridge_names env req gs k \<longleftrightarrow> (case pq_json req of None \<Rightarrow> False
     | Some body \<Rightarrow> (case opt_prop body ''capability'' of
         Some (JStr c) \<Rightarrow> (\<exists>g. map_of gs c = Some g \<and> pe_now env < sg_expiresAt g \<and> k = (sg_roomId g, sg_baseUrl g))
       | Some JNull \<Rightarrow> snapshotTargetFromOrigin (pe_rt env) (opt_prop body ''baseUrl'') (opt_prop body ''roomId'') (pq_origin req) = Some k
       | None \<Rightarrow> snapshotTargetFromOrigin (pe_rt env) (opt_prop body ''baseUrl'') (opt_prop body ''roomId'') (pq_origin req) = Some k
       | _ \<Rightarrow> False))"

lemma readJoinedRooms_inv: "device_inv h \<Longrightarrow> readJoinedRooms h = (Inr (rooms_of h), h)"
  by (auto simp: readJoinedRooms_def rooms_of_def device_inv_def isNotFoundError_def split: stored.split option.split)

lemma on_device_rooms: "device_inv (pf_device s) \<Longrightarrow> on_device readJoinedRooms s = (Inr (rooms_of (pf_device s)), s)"
  by (simp add: on_device_def readJoinedRooms_inv)

lemma isStillTracked_apply:
  "device_inv (pf_device s) \<Longrightarrow> isStillTracked k s = (Inr (still_tracked (pf_device s) k), s)"
  by (simp add: isStillTracked_def on_device_rooms still_tracked_def rows_view_def same_row_id)

lemma resolve_live:
  assumes "resolveSnapshotCapability now v gs = (Some k, hs)" "distinct (map fst gs)"
  shows "\<exists>c g. v = Some (JStr c) \<and> map_of gs c = Some g \<and> now < sg_expiresAt g \<and> k = (sg_roomId g, sg_baseUrl g)"
proof -
  obtain c g where c: "v = Some (JStr c)" "map_of (pruneSnapshotCapabilities now gs) c = Some g" "k = (sg_roomId g, sg_baseUrl g)"
    using assms(1) by (auto simp: resolveSnapshotCapability_def Let_def split: option.splits json.splits if_splits)
  then have "(c, g) \<in> set gs" "now < sg_expiresAt g"
    using map_of_SomeD [OF c(2)] by (auto simp: pruneSnapshotCapabilities_def)
  then show ?thesis using c assms(2) by auto
qed

lemma resolve_target_names:
  assumes "resolve_target env req body s = (Inr (Some k), s')" "pq_json req = Some body" "distinct (map fst (pf_grants s))"
  shows "bridge_names env req (pf_grants s) k \<and> (\<exists>gs. s' = s\<lparr> pf_grants := gs \<rparr>)"
proof -
  obtain v where v: "jprop body ''capability'' = Inr v" "opt_prop body ''capability'' = v"
    using assms(1) by (cases body) (auto simp: resolve_target_def body_prop_def liftJ_def opt_prop_def)
  show ?thesis
  proof (cases "v = None \<or> v = Some JNull")
    case True
    then have "snapshotTargetFromOrigin (pe_rt env) (opt_prop body ''baseUrl'') (opt_prop body ''roomId'') (pq_origin req) = Some k" "s' = s"
      using assms(1) v by (auto simp: resolve_target_def body_prop_def liftJ_def)
    with True v assms(2) show ?thesis by (auto simp: bridge_names_def intro: exI [of _ "pf_grants s"])
  next
    case False
    obtain gs where gs: "resolveSnapshotCapability (pe_now env) v (pf_grants s) = (Some k, gs)" "s' = s\<lparr> pf_grants := gs \<rparr>"
      using assms(1) v False by (auto simp: resolve_target_def body_prop_def liftJ_def split: prod.splits)
    from resolve_live [OF gs(1) assms(3)] show ?thesis
      using v assms(2) gs(2) by (auto simp: bridge_names_def)
  qed
qed

lemma receive_outcome:
  assumes "dashboard_inv s" "receiveJoinedHistoryRequest env req s = (x, s')"
  shows "pf_device s' = pf_device s \<and> x \<noteq> Inr (StoredReply True) \<or>
    (\<exists>k entry. bridge_names env req (pf_grants s) k \<and> still_tracked (pf_device s) k \<and> entry_key entry = k \<and> x = Inr (StoredReply True) \<and>
      pf_device s' = snd (on_history (recordJoinedHistory (pe_digest env) entry (Some True)) (pf_device s)))"
proof (cases "isLoopbackOrigin (pe_rt env) (pq_origin req) \<and> body_json SNAPSHOT_BODY_MAX_BYTES req \<noteq> None")
  case False
  then show ?thesis using assms(2) by (auto simp: receiveJoinedHistoryRequest_def loopback_only_def split: if_splits)
next
  case True
  then obtain body where body: "body_json SNAPSHOT_BODY_MAX_BYTES req = Some body" "pq_json req = Some body"
    by (auto simp: body_json_def split: if_splits)
  obtain y s1 where target: "resolve_target env req body s = (y, s1)" by (cases "resolve_target env req body s")
  have dev: "pf_device s1 = pf_device s"
    using alongD [OF resolve_reads, of s env req body] target by (auto simp: read_effect_def)
  have inv: "device_inv (pf_device s1)" "distinct (map fst (pf_grants s))"
    using assms(1) dev by (simp_all add: dashboard_inv_def grants_ok_def)
  show ?thesis
  proof (cases "\<exists>k. y = Inr (Some k) \<and> still_tracked (pf_device s) k")
    case False
    then show ?thesis
      using assms(2) True body target dev
      by (cases y) (auto simp: receiveJoinedHistoryRequest_def loopback_only_def isStillTracked_apply [OF inv(1)] bindA_apply
          split: option.splits)
  next
    case True': True
    then obtain k where k: "y = Inr (Some k)" "still_tracked (pf_device s) k" by blast
    note names = resolve_target_names [OF target [unfolded k(1)] body(2) inv(2)]
    have run: "receiveJoinedHistoryRequest env req s =
       bindA (lift (liftJ (snapshotMessagesFrom (pe_num_str env) (opt_prop body ''messages'')))) (\<lambda>messages.
       bindA (lift (liftJ (snapshotForumPostsFrom (pe_num_str env) (opt_prop body ''forumPosts'')))) (\<lambda>posts.
       if messages = [] \<and> posts = [] then ret (StoredReply False)
       else bindA (isStillTracked k) (\<lambda>still.
            bindA (on_device (on_history (recordJoinedHistory (pe_digest env)
              \<lparr> he_roomId = fst k, he_baseUrl = snd k, he_messages = Some messages,
                he_forumPosts = Some posts, he_savedAt = env_iso env \<rparr> (Some still)))) (\<lambda>stored.
            ret (if stored = None then ErrorReply 404 ''not_tracked'' else StoredReply True))))) s1"
      using True body target k dev by (simp add: receiveJoinedHistoryRequest_def loopback_only_def isStillTracked_apply [OF inv(1)])
    obtain messages where m: "snapshotMessagesFrom (pe_num_str env) (opt_prop body ''messages'') = messages" by blast
    obtain posts where p: "snapshotForumPostsFrom (pe_num_str env) (opt_prop body ''forumPosts'') = posts" by blast
    show ?thesis
    proof (cases messages; cases posts)
      fix ms ps assume mp: "messages = Inr ms" "posts = Inr ps"
      let ?e = "\<lparr> he_roomId = fst k, he_baseUrl = snd k, he_messages = Some ms, he_forumPosts = Some ps, he_savedAt = env_iso env \<rparr>"
      show ?thesis
      proof (cases "ms = [] \<and> ps = []")
        case False
        obtain z fs where rec: "recordJoinedHistory (pe_digest env) ?e (Some True) (dh_history (pf_device s)) = (Inr (Some z), fs)"
          by (simp add: recordJoinedHistory_def)
        then have "x = Inr (StoredReply True)" "pf_device s' = snd (on_history (recordJoinedHistory (pe_digest env) ?e (Some True)) (pf_device s))"
          using assms(2) run m p mp False k(2) dev
          by (auto simp: liftJ_def isStillTracked_apply [OF inv(1)] on_device_def on_history_def)
        then show ?thesis using names k(2) by (intro disjI2 exI [of _ k] exI [of _ ?e]) (simp add: entry_key_def)
      qed (use assms(2) run m p mp dev in \<open>auto simp: liftJ_def\<close>)
    qed (use assms(2) run m p dev in \<open>auto simp: liftJ_def\<close>)
  qed
qed

lemma receive_stores:
  assumes "isLoopbackOrigin (pe_rt env) (pq_origin req)" "body_json SNAPSHOT_BODY_MAX_BYTES req = Some body"
    and "resolve_target env req body s = (Inr (Some k), s)" "device_inv (pf_device s)" "still_tracked (pf_device s) k"
    and "snapshotMessagesFrom (pe_num_str env) (opt_prop body ''messages'') = Inr (m # ms)"
    and "snapshotForumPostsFrom (pe_num_str env) (opt_prop body ''forumPosts'') = Inr posts"
  shows "fst (receiveJoinedHistoryRequest env req s) = Inr (StoredReply True)"
  using assms
  by (simp add: receiveJoinedHistoryRequest_def loopback_only_def liftJ_def on_device_def on_history_def recordJoinedHistory_def
      isStillTracked_apply)

lemma history_route:
  "pe_allowInsecureRemote env \<or> isLocalhost (pq_host req) \<Longrightarrow> pq_method req = ''POST'' \<Longrightarrow> pq_path req = ''/joined-rooms/history'' \<Longrightarrow>
    handle env req s = receiveJoinedHistoryRequest env req s"
  by (auto simp: handle_def BRIDGE_ROUTES_def)

text \<open>Claim C36. The history bridge is confined. On any dashboard that has been running, a batch posted to it
  changes no row and no token, and at most one snapshot: that of a room that is still tracked and not
  archived, and that the request could name, either by a capability that was minted for this very
  room and has not expired, or by a base URL under the origin the browser reports; and it says
  \<open>stored\<close> exactly when it wrote that snapshot.\<close>

theorem history_bridge_confined:
  assumes "fresh_dashboard s0" "(platform_step (pe_digest env))\<^sup>*\<^sup>* s0 s" "inj (pe_digest env)"
    and "pq_method req = ''POST''" "pq_path req = ''/joined-rooms/history''" "platform_handle env req s = (r, s')"
  shows "dh_rooms (pf_device s') = dh_rooms (pf_device s) \<and> pf_tokens s' = pf_tokens s \<and>
    (if r = StoredReply True
     then \<exists>k. still_tracked (pf_device s) k \<and> bridge_names env req (pf_grants s) k \<and>
       (\<forall>k'. k' \<noteq> k \<longrightarrow> history_file (joinedHistoryPath (pe_digest env) k') (dh_history (pf_device s')) =
          history_file (joinedHistoryPath (pe_digest env) k') (dh_history (pf_device s)))
     else pf_device s' = pf_device s)"
proof -
  have inv: "dashboard_inv s" using dashboard.reachable_inv [OF assms(1,2)] .
  have tokens: "pf_tokens s' = pf_tokens s"
    using handle_effect [of env req s] assms(5,6) snd_platform [of env req s] by (simp add: device_effect_def)
  show ?thesis
  proof (cases "pe_allowInsecureRemote env \<or> isLocalhost (pq_host req)")
    case False
    then show ?thesis using assms(6) by (auto simp: platform_handle_def handle_def)
  next
    case True
    obtain x t where run: "receiveJoinedHistoryRequest env req s = (x, t)" by (cases "receiveJoinedHistoryRequest env req s")
    have "handle env req s = (x, t)"
      using history_route [OF True assms(4,5)] run by simp
    then have r: "s' = t" "r = (case x of Inr r \<Rightarrow> r | Inl e \<Rightarrow> ErrorReply 500 ''internal_error'')"
      using assms(6) by (auto simp: platform_handle_def split: sum.splits)
    show ?thesis
    proof (cases "x = Inr (StoredReply True)")
      case False
      then have "pf_device s' = pf_device s" "r \<noteq> StoredReply True"
        using receive_outcome [OF inv run] r by (auto split: sum.splits)
      then show ?thesis using tokens by simp
    next
      case stored: True
      show ?thesis
      proof (cases "pf_device s' = pf_device s \<and> x \<noteq> Inr (StoredReply True)")
        case False
        then obtain k entry where k: "bridge_names env req (pf_grants s) k" "still_tracked (pf_device s) k" "entry_key entry = k"
            "pf_device s' = snd (on_history (recordJoinedHistory (pe_digest env) entry (Some True)) (pf_device s))"
          using receive_outcome [OF inv run] r(1) by blast
        then have "dh_rooms (pf_device s') = dh_rooms (pf_device s)"
          by (simp add: on_history_def split: prod.split)
        moreover have "history_file (joinedHistoryPath (pe_digest env) k') (dh_history (pf_device s')) =
            history_file (joinedHistoryPath (pe_digest env) k') (dh_history (pf_device s))" if "k' \<noteq> k" for k'
          using that k(3,4) assms(3)
          by (auto simp: on_history_def recordJoinedHistory_def entry_key_def history_path_inj)
        moreover have "r = StoredReply True" using r(2) stored by simp
        ultimately show ?thesis using k(1,2) tokens by (simp del: split_paired_Ex split_paired_All) blast
      qed (use stored in simp)
    qed
  qed
qed

definition batch_request :: PlatformRequest where
  "batch_request = \<lparr> pq_method = ''POST'', pq_path = ''/joined-rooms/history'', pq_query = [], pq_host = Some ''localhost:80'',
     pq_origin = Some ''http://localhost'', pq_bytes = 40, pq_json = Some (JObj [(''capability'', JStr ''nope''),
       (''messages'', JArr [JObj [(''id'', JNum (Finite 1)), (''text'', JStr ''hi'')]])]) \<rparr>"

definition lab_dashboard :: PlatformState where
  "lab_dashboard = snd (platform_handle lab_env (join_request ''http://localhost'') new_dashboard)"

lemma lab_dashboard_reachable: "fresh_dashboard new_dashboard" "(platform_step (pe_digest lab_env))\<^sup>*\<^sup>* new_dashboard lab_dashboard"
proof -
  show "fresh_dashboard new_dashboard" by (simp add: fresh_dashboard_def new_dashboard_def)
  show "(platform_step (pe_digest lab_env))\<^sup>*\<^sup>* new_dashboard lab_dashboard"
    unfolding lab_dashboard_def by (rule r_into_rtranclp, rule platform_step.request) simp
qed

lemma lab_dashboard_inv: "device_inv (pf_device lab_dashboard)"
  using dashboard.reachable_inv [OF lab_dashboard_reachable] by (simp add: dashboard_inv_def)

definition open_batch :: PlatformRequest where
  "open_batch = batch_request\<lparr> pq_origin := Some ''http://localhost'', pq_json := Some (JObj [(''baseUrl'', JStr ''http://h''),
       (''roomId'', JStr ''lab''), (''messages'', JArr [JObj [(''id'', JNum (Finite 1)), (''text'', JStr ''hi'')]])]) \<rparr>"

lemma open_batch_door:
  "pe_allowInsecureRemote lab_env \<or> isLocalhost (pq_host open_batch)" "pq_method open_batch = ''POST''"
  "pq_path open_batch = ''/joined-rooms/history''"
  by code_simp+

lemma open_batch_stored: "fst (receiveJoinedHistoryRequest lab_env open_batch lab_dashboard) = Inr (StoredReply True)"
proof (rule receive_stores)
  show "isLoopbackOrigin (pe_rt lab_env) (pq_origin open_batch)" by code_simp
  show "body_json SNAPSHOT_BODY_MAX_BYTES open_batch = Some (the (pq_json open_batch))"
    by (simp add: body_json_def SNAPSHOT_BODY_MAX_BYTES_def open_batch_def batch_request_def)
  show "device_inv (pf_device lab_dashboard)" by (rule lab_dashboard_inv)
  show "still_tracked (pf_device lab_dashboard) (''lab'', ''http://h'')"
    unfolding still_tracked_def by code_simp
  show "snapshotMessagesFrom (pe_num_str lab_env) (opt_prop (the (pq_json open_batch)) ''messages'') =
      Inr [\<lparr> sm_id = 1, sm_from = [], sm_ts = [], sm_type = Some ''chat'', sm_text = ''hi'' \<rparr>]"
    by (simp add: snapshotMessagesFrom_def SNAPSHOT_MAX_MESSAGES_def) code_simp
  show "snapshotForumPostsFrom (pe_num_str lab_env) (opt_prop (the (pq_json open_batch)) ''forumPosts'') = Inr []" by code_simp
  show "resolve_target lab_env open_batch (the (pq_json open_batch)) lab_dashboard = (Inr (Some (''lab'', ''http://h'')), lab_dashboard)"
  proof -
    have "jprop (the (pq_json open_batch)) ''capability'' = Inr None" by code_simp
    moreover have "snapshotTargetFromOrigin (pe_rt lab_env) (opt_prop (the (pq_json open_batch)) ''baseUrl'')
        (opt_prop (the (pq_json open_batch)) ''roomId'') (pq_origin open_batch) = Some (''lab'', ''http://h'')" by code_simp
    ultimately show ?thesis by (simp add: resolve_target_def body_prop_def liftJ_def)
  qed
qed

lemma history_bridge_confined_witness:
  "fst (platform_handle lab_env open_batch lab_dashboard) = StoredReply True \<and>
   (\<exists>k. still_tracked (pf_device lab_dashboard) k \<and> bridge_names lab_env open_batch (pf_grants lab_dashboard) k)"
proof -
  obtain r s' where run: "platform_handle lab_env open_batch lab_dashboard = (r, s')"
    by (cases "platform_handle lab_env open_batch lab_dashboard")
  have stored: "fst (platform_handle lab_env open_batch lab_dashboard) = StoredReply True"
    using open_batch_stored by (auto simp: platform_handle_def history_route open_batch_door split: prod.splits)
  have "inj (pe_digest lab_env)" by (simp add: lab_env_def inj_def)
  then show ?thesis
    using history_bridge_confined [OF lab_dashboard_reachable(1,2) _ _ _ run] stored run open_batch_door by auto
qed

end
