(* ===== verification/PlatformReplies.thy ===== *)
theory PlatformReplies
  imports PlatformRuns
begin

text \<open>
  What the dashboard answers. \<open>answers\<close> follows the shape of the handlers and gives each path its kinds
  of reply and its refusals; \<open>token_blind\<close> relates two runs that differ in the values of stored tokens
  only.
\<close>

subsection \<open>Kinds of replies\<close>

definition answers :: "(PlatformReply \<Rightarrow> bool) \<Rightarrow> PlatformReply platform_action \<Rightarrow> bool" where
  "answers P m \<longleftrightarrow> (\<forall>s. case fst (m s) of Inl _ \<Rightarrow> True | Inr r \<Rightarrow> P r)"

lemma answers_basic [simp]: "answers P (ret r) \<longleftrightarrow> P r" "answers P (throw e)"
  by (simp_all add: answers_def)

lemma answers_bind: "(\<And>x. answers P (f x)) \<Longrightarrow> answers P (bindA m f)"
  unfolding answers_def by (simp add: bindA_apply split: prod.split sum.split) (metis (no_types, lifting) fst_conv sum.simps(6))

lemma answers_loopback: "answers P (loopback_only env req m) \<longleftrightarrow>
    (if isLoopbackOrigin (pe_rt env) (pq_origin req) then answers P m else P (ErrorReply 403 ''bad_origin''))"
  by (simp add: loopback_only_def)


text \<open>The refusals of a write, by its path, once the door and the origin have let it through.\<close>

definition bulk_refusals :: "(nat \<times> string) list" where
  "bulk_refusals = [(413, ''body_too_large''), (400, ''invalid_json''), (400, ''invalid_targets''), (400, ''too_many_targets''),
     (400, ''invalid_target'')]"

definition WRITE_REFUSALS :: "(string \<times> (nat \<times> string) list) list" where
  "WRITE_REFUSALS =
    [(''/joined-rooms'', [(400, ''invalid_json''), (400, ''invalid_base_url'')]),
     (''/joined-rooms/history'', [(400, ''invalid_body''), (403, ''bad_capability''), (404, ''not_tracked'')]),
     (''/joined-rooms/remember'', [(400, ''invalid_json''), (400, ''invalid_invite_url''), (502, ''invite_unreachable'')]),
     (''/joined-rooms/archive'', [(400, ''invalid_json''), (400, ''invalid_target'')]),
     (''/joined-rooms/delete'', [(400, ''invalid_json''), (400, ''invalid_target'')]),
     (''/joined-rooms/archive-bulk'', bulk_refusals), (''/joined-rooms/delete-bulk'', bulk_refusals)]"

definition refusals :: "PlatformRequest \<Rightarrow> (nat \<times> string) set" where
  "refusals req =
     {(403, ''insecure_remote''), (500, ''internal_error'')} \<union>
     (if pq_method req = ''POST'' then
        (case map_of WRITE_REFUSALS (pq_path req) of None \<Rightarrow> {(405, ''method_not_allowed'')} | Some es \<Rightarrow> insert (403, ''bad_origin'') (set es))
      else if pq_method req \<noteq> ''GET'' then {(405, ''method_not_allowed'')}
      else if pq_path req = ''/joined-rooms/history'' then {(400, ''invalid_target''), (404, ''not_tracked'')}
      else {(404, ''not_found''), (400, ''invalid_since_id'')})"

text \<open>The requests that get no reply: a bulk write that passes every test and whose body is \<open>null\<close>.\<close>

definition null_bulk :: "PlatformEnv \<Rightarrow> PlatformRequest \<Rightarrow> bool" where
  "null_bulk env req \<longleftrightarrow> (pe_allowInsecureRemote env \<or> isLocalhost (pq_host req)) \<and> pq_method req = ''POST'' \<and>
     pq_path req \<in> {''/joined-rooms/archive-bulk'', ''/joined-rooms/delete-bulk''} \<and>
     isLoopbackOrigin (pe_rt env) (pq_origin req) \<and> pq_bytes req \<le> BULK_BODY_LIMIT \<and> pq_json req = Some JNull"

definition reply_ok :: "PlatformRequest \<Rightarrow> PlatformReply \<Rightarrow> bool" where
  "reply_ok req r \<longleftrightarrow>
     (let post = (\<lambda>p. pq_method req = ''POST'' \<and> pq_path req = p); get = (\<lambda>p. pq_method req = ''GET'' \<and> pq_path req = p)
      in case r of
        ErrorReply c e \<Rightarrow> (c, e) \<in> refusals req
      | OkReply \<Rightarrow> post ''/joined-rooms''
      | StoredReply _ \<Rightarrow> post ''/joined-rooms/history''
      | RememberedReply _ \<Rightarrow> post ''/joined-rooms/remember''
      | UpdatedReply _ \<Rightarrow> post ''/joined-rooms/archive''
      | RemovedReply _ \<Rightarrow> post ''/joined-rooms/delete''
      | BulkReply _ \<Rightarrow> post ''/joined-rooms/archive-bulk'' \<or> post ''/joined-rooms/delete-bulk''
      | NoReply \<Rightarrow> post ''/joined-rooms/archive-bulk'' \<or> post ''/joined-rooms/delete-bulk''
      | AssetReply file \<Rightarrow> pq_method req = ''GET'' \<and> map_of ASSETS (pq_path req) = Some file
      | VersionReply \<Rightarrow> get ''/version''
      | JoinedRoomsReply _ \<Rightarrow> get ''/joined-rooms''
      | HistoryReply _ \<Rightarrow> get ''/joined-rooms/history''
      | OpenHelp c \<Rightarrow> get ''/joined-rooms/open'' \<and> c \<in> {400, 404, 409}
      | OpenRedirect _ _ _ _ \<Rightarrow> get ''/joined-rooms/open''
      | ApiReply a \<Rightarrow> pq_method req = ''GET'' \<and> (case js_split CHR ''/'' (pq_path req) of a # b # _ \<Rightarrow> a = [] \<and> b = ''rooms'' | _ \<Rightarrow> False)
      | MessagesReply _ _ _ \<Rightarrow> pq_method req = ''GET'' \<and>
          (case js_split CHR ''/'' (pq_path req) of [a, b, c, d] \<Rightarrow> a = [] \<and> b = ''rooms'' \<and> d = ''messages'' | _ \<Rightarrow> False))"

lemmas handler_defs = refreshJoinedRoomFromBridgeRequest_def receiveJoinedHistoryRequest_def
  rememberJoinedRoomFromInviteRequest_def archiveJoinedRoomRequest_def deleteJoinedRoomRequest_def
  archiveJoinedRoomsBulkRequest_def deleteJoinedRoomsBulkRequest_def bulk_request_def

lemma bulk_codes: "readBulkTargets rt v = Inl e \<Longrightarrow> (400, e) \<in> set bulk_refusals"
  by (auto simp: readBulkTargets_def bulk_refusals_def split: option.splits json.splits if_splits)

lemma bulk_body_codes: "readBulkBody req = Inl r \<Longrightarrow> \<exists>c e. r = ErrorReply c e \<and> (c, e) \<in> set bulk_refusals"
  by (auto simp: readBulkBody_def bulk_refusals_def split: option.splits if_splits)

lemma bridge_answers:
  assumes "map_of BRIDGE_ROUTES (pq_path req) = Some bridge" "pq_method req = ''POST''"
  shows "answers (reply_ok req) (bridge env req)"
  using assms
  by (auto simp: BRIDGE_ROUTES_def handler_defs answers_loopback reply_ok_def refusals_def WRITE_REFUSALS_def Let_def
      intro!: answers_bind split: if_splits option.split sum.split dest!: bulk_body_codes bulk_codes)

lemma open_as_answers: "pq_method req = ''GET'' \<Longrightarrow> pq_path req = ''/joined-rooms/open'' \<Longrightarrow> answers (reply_ok req) (open_as env req joined a)"
  by (auto simp: open_as_def reply_ok_def intro!: answers_bind split: option.split)

lemma answers_log: "(\<And>ms c b. P (MessagesReply ms c b)) \<Longrightarrow> answers P (log_reply roomId sinceId)"
  by (auto simp: answers_def log_reply_def Let_def split: sum.split)

lemma get_answers:
  assumes "pq_method req = ''GET''"
  shows "answers (reply_ok req) (platform_get env req)"
  unfolding platform_get_def openJoinedRoom_def sendJoinedHistory_def sendJoinedRooms_def sendRoomMessages_def
  using assms
  by (auto simp: Let_def reply_ok_def refusals_def intro!: answers_bind answers_log open_as_answers
      split: option.split list.split)

lemma refusals_door: "(403, ''insecure_remote'') \<in> refusals req" "(500, ''internal_error'') \<in> refusals req"
  by (simp_all add: refusals_def)

lemma no_bridge: "map_of BRIDGE_ROUTES p = None \<longleftrightarrow> map_of WRITE_REFUSALS p = None"
  by (simp add: BRIDGE_ROUTES_def WRITE_REFUSALS_def)

lemma refusals_method:
  "pq_method req \<noteq> ''GET'' \<Longrightarrow> pq_method req = ''POST'' \<longrightarrow> map_of BRIDGE_ROUTES (pq_path req) = None \<Longrightarrow>
    (405, ''method_not_allowed'') \<in> refusals req"
  by (auto simp: refusals_def no_bridge)

lemma handle_answers: "answers (reply_ok req) (handle env req)"
proof (cases "if pq_method req = ''POST'' then map_of BRIDGE_ROUTES (pq_path req) else None")
  case None
  then show ?thesis
    using get_answers [of req env] refusals_method [of req]
    by (auto simp: handle_def reply_ok_def refusals_door split: if_splits)
next
  case (Some b)
  then show ?thesis
    using bridge_answers [of req b env]
    by (auto simp: handle_def reply_ok_def refusals_door split: if_splits)
qed

lemma answersD: "answers P m \<Longrightarrow> m s = (Inr r, s') \<Longrightarrow> P r"
  unfolding answers_def by (drule spec [of _ s]) simp

lemma platform_reply_cases:
  obtains r s' where "handle env req s = (Inr r, s')" "platform_handle env req s = (r, s')"
  | e s' where "handle env req s = (Inl e, s')" "platform_handle env req s = (ErrorReply 500 ''internal_error'', s')"
  by (cases "handle env req s"; cases "fst (handle env req s)") (auto simp: platform_handle_def)

lemma platform_answers: "reply_ok req (fst (platform_handle env req s))"
proof (cases rule: platform_reply_cases [of env req s])
  case (1 r s')
  then show ?thesis using answersD [OF handle_answers] by simp
qed (simp add: reply_ok_def refusals_door)

lemma no_reply_null:
  assumes "map_of BRIDGE_ROUTES (pq_path req) = Some b" "pq_method req = ''POST''"
    and "isLoopbackOrigin (pe_rt env) (pq_origin req)" "pe_allowInsecureRemote env \<or> isLocalhost (pq_host req)"
  shows "answers (\<lambda>r. r = NoReply \<longrightarrow> null_bulk env req) (b env req)"
  using assms
  by (auto simp: BRIDGE_ROUTES_def handler_defs answers_loopback null_bulk_def Let_def readBulkBody_def
      intro!: answers_bind split: if_splits option.split sum.split)

lemma null_bulk_iff: "fst (platform_handle env req s) = NoReply \<longleftrightarrow> null_bulk env req"
proof
  assume null: "null_bulk env req"
  then have "handle env req s = (Inr NoReply, s)"
    by (auto simp: null_bulk_def handle_def BRIDGE_ROUTES_def handler_defs loopback_only_def readBulkBody_def)
  then show "fst (platform_handle env req s) = NoReply" by (simp add: platform_handle_def)
next
  assume reply: "fst (platform_handle env req s) = NoReply"
  then obtain s' where h: "handle env req s = (Inr NoReply, s')"
    by (cases rule: platform_reply_cases [of env req s]) auto
  show "null_bulk env req"
  proof (cases rule: handle_cases [of env req s])
    case read
    then have "platform_get env req s = (Inr NoReply, s')" using h by simp
    with answersD [OF get_answers [OF read(2)] this] read(2) show ?thesis by (simp add: reply_ok_def)
  next
    case (bridge b)
    then have "b env req s = (Inr NoReply, s')" using h by simp
    with answersD [OF no_reply_null [OF bridge(2,3,5,4)] this] show ?thesis by simp
  qed (use h in simp)
qed

text \<open>Claim C38. Every request to the dashboard is answered, but one. The reply has the kind of its path, and a refusal is one
  of the codes of this path, of the door (not this machine, wrong method, origin of another machine) or an internal
  error. Only a bulk archive or delete that passes every test and whose body is the JSON text \<open>null\<close>
  gets no reply at all: it is left hanging.\<close>

theorem dashboard_answers:
  shows "reply_ok req (fst (platform_handle env req s)) \<and>
    (fst (platform_handle env req s) = NoReply \<longleftrightarrow> null_bulk env req)"
  using platform_answers null_bulk_iff by blast

subsection \<open>The values of tokens\<close>

text \<open>A token file without the values of its tokens: of a text only whether it is empty is kept.\<close>

fun hide_token :: "json \<Rightarrow> json" where
  "hide_token (JStr t) = JStr (if t = [] then [] else ''*'')"
| "hide_token v = v"

definition hide_tokens :: "(string \<times> json) list stored \<Rightarrow> (string \<times> json) list stored" where
  "hide_tokens f = (case f of File ts \<Rightarrow> File (map (\<lambda>(a, v). (a, hide_token v)) ts) | _ \<Rightarrow> f)"

text \<open>Two dashboards that differ in the values of stored tokens only.\<close>

definition token_blind :: "PlatformState \<Rightarrow> PlatformState \<Rightarrow> bool" where
  "token_blind s t \<longleftrightarrow> pf_device s = pf_device t \<and> pf_grants s = pf_grants t \<and> pf_registry s = pf_registry t \<and>
     pf_homes s = pf_homes t \<and> (\<forall>roomId. hide_tokens (tokens_file roomId s) = hide_tokens (tokens_file roomId t))"

text \<open>A reply without the token it may carry.\<close>

fun tokenless_reply :: "PlatformReply \<Rightarrow> PlatformReply" where
  "tokenless_reply (OpenRedirect baseUrl origin token capability) = OpenRedirect baseUrl origin [] capability"
| "tokenless_reply r = r"

definition blind :: "('a \<Rightarrow> 'b) \<Rightarrow> 'a platform_action \<Rightarrow> bool" where
  "blind v m \<longleftrightarrow> (\<forall>s t. token_blind s t \<longrightarrow>
     map_sum id v (fst (m s)) = map_sum id v (fst (m t)) \<and> token_blind (snd (m s)) (snd (m t)))"

lemma blind_basic [simp]: "blind v (ret x)" "blind v (throw e)" "blind v (lift r)"
  by (simp_all add: blind_def)

lemma blind_bind:
  assumes "blind id m" "\<And>x. blind v (f x)"
  shows "blind v (bindA m f)"
  unfolding blind_def
proof (intro allI impI)
  fix s t assume "token_blind s t"
  then have m: "fst (m s) = fst (m t)" "token_blind (snd (m s)) (snd (m t))"
    using assms(1) by (auto simp: blind_def sum.map_id)
  show "map_sum id v (fst (bindA m f s)) = map_sum id v (fst (bindA m f t)) \<and>
      token_blind (snd (bindA m f s)) (snd (bindA m f t))"
    using m assms(2) by (cases "m s"; cases "m t") (auto simp: bindA_apply blind_def split: sum.split)
qed

lemma blind_device: "blind v (on_device act)"
  by (auto simp: blind_def token_blind_def on_device_def tokens_file_def split: prod.split sum.split)

lemma blind_gets: "(\<And>s t. token_blind s t \<Longrightarrow> h s = h t) \<Longrightarrow> blind v (gets h)"
  by (simp add: blind_def)

lemma blind_modify: "(\<And>s t. token_blind s t \<Longrightarrow> token_blind (g s) (g t)) \<Longrightarrow> blind v (modify g)"
  by (simp add: blind_def)

lemma hide_lookup: "map_of (map (\<lambda>(a, v). (a, hide_token v)) ts) a = map_option hide_token (map_of ts a)"
  by (induction ts) auto

lemma hide_string: "is_string (map_option hide_token v) = is_string v"
  by (cases v; cases "the v") auto

lemma hide_fst: "fst \<circ> (\<lambda>(a, v). (a, hide_token v)) = fst"
  by auto

text \<open>What the dashboard asks of a token file is answered by the file without its values.\<close>

lemma aliases_hidden:
  "readStoredParticipantAliases roomId s = (if \<not> isSafeRoomId roomId then []
     else case hide_tokens (tokens_file roomId s) of
       File ts \<Rightarrow> filter (\<lambda>a. isSafeAlias a \<and> is_string (map_of ts a)) (map fst ts) | _ \<Rightarrow> [])"
  by (simp add: readStoredParticipantAliases_def hide_tokens_def hide_lookup hide_string hide_fst split: stored.split)

lemma token_hidden:
  "readStoredParticipantToken roomId a s \<noteq> None \<longleftrightarrow> isSafeRoomId roomId \<and> isSafeAlias a \<and>
     (case hide_tokens (tokens_file roomId s) of File ts \<Rightarrow> map_of ts a = Some (JStr ''*'') | _ \<Rightarrow> False)"
  by (auto simp: readStoredParticipantToken_def hide_tokens_def hide_lookup split: stored.split option.split json.split)

lemma blind_files: "token_blind s t \<Longrightarrow> hide_tokens (tokens_file roomId s) = hide_tokens (tokens_file roomId t)"
  by (simp add: token_blind_def)

lemma blind_aliases: "token_blind s t \<Longrightarrow> readStoredParticipantAliases roomId s = readStoredParticipantAliases roomId t"
  by (simp add: aliases_hidden blind_files [of s t])

lemma blind_token:
  "token_blind s t \<Longrightarrow> readStoredParticipantToken roomId a s = None \<longleftrightarrow> readStoredParticipantToken roomId a t = None"
  using token_hidden [of roomId a s] token_hidden [of roomId a t] blind_files [of s t roomId] by metis

lemma blind_seats: "token_blind s t \<Longrightarrow> heldSeatsFor room s = heldSeatsFor room t"
  unfolding heldSeatsFor_def by (simp only: blind_aliases [of s t])

subsection \<open>The handlers\<close>

named_theorems blinds

lemma blind_loopback: "blind v m \<Longrightarrow> blind v (loopback_only env req m)"
  by (simp add: loopback_only_def)

lemma tokens_file_update:
  "tokens_file r (s\<lparr> pf_tokens := AList.update roomId f (pf_tokens s) \<rparr>) = (if r = roomId then f else tokens_file r s)"
  by (simp add: tokens_file_def update_conv')

lemma hide_update:
  assumes "hide_tokens (File ts) = hide_tokens (File us)"
  shows "hide_tokens (File (AList.update a v ts)) = hide_tokens (File (AList.update a v us))"
proof -
  have "map (\<lambda>(a, v). (a, hide_token v)) (AList.update a v xs) =
      AList.update a (hide_token v) (map (\<lambda>(a, v). (a, hide_token v)) xs)" for xs
    by (induction xs) auto
  with assms show ?thesis by (simp add: hide_tokens_def)
qed

lemma blind_put:
  assumes "token_blind s t" "hide_tokens f = hide_tokens g"
  shows "token_blind (s\<lparr> pf_tokens := AList.update roomId f (pf_tokens s) \<rparr>) (t\<lparr> pf_tokens := AList.update roomId g (pf_tokens t) \<rparr>)"
  using assms unfolding token_blind_def tokens_file_update by simp

lemma hidden_cases:
  assumes "hide_tokens f = hide_tokens g"
  obtains (same) "f = g" | (files) ts us where "f = File ts" "g = File us" "hide_tokens (File ts) = hide_tokens (File us)"
  using assms by (cases f; cases g) (auto simp: hide_tokens_def)

lemma blind_write: "blind v (writeToken roomId a token)"
  unfolding blind_def
proof (intro allI impI)
  fix s t assume st: "token_blind s t"
  from blind_files [OF st, of roomId] show "map_sum id v (fst (writeToken roomId a token s)) = map_sum id v (fst (writeToken roomId a token t)) \<and>
      token_blind (snd (writeToken roomId a token s)) (snd (writeToken roomId a token t))"
  proof (cases rule: hidden_cases)
    case same
    then show ?thesis
      using st by (cases "tokens_file roomId t") (auto simp: writeToken_def isNotFoundError_def intro: blind_put)
  next
    case files
    then show ?thesis using blind_put [OF st hide_update [OF files(3)]] by (simp add: writeToken_def)
  qed
qed

lemma blind_bridges [blinds]:
  "blind id (refreshJoinedRoomFromBridgeRequest env req)" "blind id (archiveJoinedRoomRequest env req)"
  "blind id (deleteJoinedRoomRequest env req)" "blind id (archiveJoinedRoomsBulkRequest env req)"
  "blind id (deleteJoinedRoomsBulkRequest env req)" "blind id (rememberJoinedRoomFromInviteRequest env req)"
  by (auto simp: handler_defs read_target_def body_prop_def Let_def
      intro!: blind_bind blind_loopback blind_device blind_write split: option.split sum.split)

lemma blind_tracked: "blind id (isStillTracked k)"
  unfolding isStillTracked_def by (intro blind_bind blind_device) simp

lemma blind_grants: "blind id (\<lambda>s. case g (pf_grants s) of (x, gs) \<Rightarrow> (Inr x, s\<lparr> pf_grants := gs \<rparr>))"
  by (auto simp: blind_def token_blind_def tokens_file_def split: prod.split)

lemma blind_history [blinds]: "blind id (receiveJoinedHistoryRequest env req)"
  by (auto simp: receiveJoinedHistoryRequest_def resolve_target_def body_prop_def
      intro!: blind_bind blind_loopback blind_device blind_tracked blind_grants split: option.split)

lemma blind_open: "blind tokenless_reply (open_as env req joined a)"
proof -
  have "blind tokenless_reply (bindA (gets (readStoredParticipantToken (jr_roomId joined) a)) f)"
    if f: "\<And>x. blind tokenless_reply (f x)"
      "\<And>x y s t. token_blind s t \<Longrightarrow> map_sum id tokenless_reply (fst (f (Some x) s)) = map_sum id tokenless_reply (fst (f (Some y) t)) \<and>
        token_blind (snd (f (Some x) s)) (snd (f (Some y) t))" for f
    unfolding blind_def
  proof (intro allI impI)
    fix s t assume st: "token_blind s t"
    show "map_sum id tokenless_reply (fst (bindA (gets (readStoredParticipantToken (jr_roomId joined) a)) f s)) =
        map_sum id tokenless_reply (fst (bindA (gets (readStoredParticipantToken (jr_roomId joined) a)) f t)) \<and>
      token_blind (snd (bindA (gets (readStoredParticipantToken (jr_roomId joined) a)) f s))
        (snd (bindA (gets (readStoredParticipantToken (jr_roomId joined) a)) f t))"
      using blind_token [OF st, of "jr_roomId joined" a] f st
      by (cases "readStoredParticipantToken (jr_roomId joined) a s"; cases "readStoredParticipantToken (jr_roomId joined) a t")
        (simp_all add: bindA_apply gets_def blind_def)
  qed
  then show ?thesis
    unfolding open_as_def
    by (auto simp: token_blind_def tokens_file_def modify_def bindA_apply ret_def blind_def intro!: blind_bind split: option.split)
qed

lemma blind_mono: "blind id m \<Longrightarrow> blind v m"
  unfolding blind_def by (metis sum.map_id)

lemma blind_api: "(\<And>s t. token_blind s t \<Longrightarrow> h s = h t) \<Longrightarrow> blind v (\<lambda>s. (h s, s))"
  by (simp add: blind_def)

lemma blind_same: "token_blind s t \<Longrightarrow> pf_device s = pf_device t" "token_blind s t \<Longrightarrow> pf_registry s = pf_registry t"
  "token_blind s t \<Longrightarrow> pf_homes s = pf_homes t"
  by (simp_all add: token_blind_def)

lemma blind_log: "blind v (log_reply roomId sinceId)"
  unfolding blind_def log_reply_def Let_def by (auto simp: blind_same split: sum.split)

lemma blind_reads [blinds]: "blind v (sendJoinedRooms env)" "blind v (sendJoinedHistory env req)" "blind v (sendRoomMessages env roomId req)"
proof -
  show "blind v (sendJoinedRooms env)"
    unfolding sendJoinedRooms_def by (intro blind_bind blind_device blind_gets) (simp_all add: blind_seats)
  show "blind v (sendJoinedHistory env req)"
    unfolding sendJoinedHistory_def Let_def
    by (auto intro!: blind_bind blind_device blind_gets simp: blind_same split: option.split)
  show "blind v (sendRoomMessages env roomId req)"
    unfolding sendRoomMessages_def
    by (auto intro!: blind_bind blind_api blind_log simp: blind_same split: option.split)
qed

lemma blind_open_request [blinds]: "blind tokenless_reply (openJoinedRoom env req)"
  unfolding openJoinedRoom_def Let_def
  by (auto intro!: blind_bind blind_device blind_gets blind_open simp: blind_aliases split: option.split)

lemma blind_if: "(b \<Longrightarrow> blind v m) \<Longrightarrow> (\<not> b \<Longrightarrow> blind v n) \<Longrightarrow> blind v (if b then m else n)"
  by simp

lemma blind_parts: "(\<And>a b c d. blind v (f a b c d)) \<Longrightarrow> (\<And>a b c. blind v (g a b c)) \<Longrightarrow> blind v h \<Longrightarrow>
    blind v (case xs of [a, b, c, d] \<Rightarrow> f a b c d | [a, b, c] \<Rightarrow> g a b c | _ \<Rightarrow> h)"
  by (simp split: list.split)

lemma blind_rooms: "blind v (\<lambda>s. (listRoomsResponse rt now (pf_homes s) q (pf_registry s), s))"
  "blind v (\<lambda>s. (readRoomResponse rt now (pf_homes s) roomId q (pf_registry s), s))"
  by (rule blind_api, simp add: blind_same)+

lemma blind_get: "blind tokenless_reply (platform_get env req)"
  unfolding platform_get_def decode_part_def
  by (auto split: option.split intro!: blind_bind blind_if blind_parts blind_rooms blinds)

lemma blind_handle: "blind tokenless_reply (handle env req)"
proof -
  have "blind id (b env req)" if "map_of BRIDGE_ROUTES p = Some b" for p b
    using that by (auto simp: BRIDGE_ROUTES_def split: if_splits intro: blinds)
  then show ?thesis
    unfolding handle_def by (auto split: option.split intro: blind_mono blind_get)
qed

text \<open>Where a redirect comes from: a tracked row, and the token stored for one of its seats.\<close>

definition redirects :: "PlatformRequest \<Rightarrow> PlatformState \<Rightarrow> string \<Rightarrow> string \<Rightarrow> bool" where
  "redirects req s baseUrl token \<longleftrightarrow> pq_method req = ''GET'' \<and> pq_path req = ''/joined-rooms/open'' \<and>
     (\<exists>rooms row a. fst (readJoinedRooms (pf_device s)) = Inr rooms \<and> row \<in> set rooms \<and> jr_baseUrl row = baseUrl \<and>
       map_of (pq_query req) ''room_id'' = Some (jr_roomId row) \<and>
       a = or_default (map_of (pq_query req) ''alias'') (jr_alias row) \<and> readStoredParticipantToken (jr_roomId row) a s = Some token)"

lemma open_as_redirect:
  "open_as env req joined a s = (Inr (OpenRedirect u d tk c), s') \<Longrightarrow>
   u = jr_baseUrl joined \<and> readStoredParticipantToken (jr_roomId joined) a s = Some tk"
  by (auto simp: open_as_def bindA_apply gets_def modify_def split: if_splits option.splits)

lemma open_redirect:
  assumes "openJoinedRoom env req s = (Inr (OpenRedirect u d tk c), s')"
    and "pq_method req = ''GET''" "pq_path req = ''/joined-rooms/open''"
  shows "redirects req s u tk"
proof -
  obtain rooms row a where row: "readJoinedRooms (pf_device s) = (Inr rooms, pf_device s)"
      "find (\<lambda>room. same_row room (or_default (map_of (pq_query req) ''room_id'') [], the (sanitizeBaseUrl (pe_rt env) (query_param ''base_url'' req)))) rooms = Some row"
      "a = or_default (map_of (pq_query req) ''alias'') (jr_alias row)" "isSafeRoomId (or_default (map_of (pq_query req) ''room_id'') [])"
      "open_as env req row a s = (Inr (OpenRedirect u d tk c), s')"
    using assms(1) readJoinedRooms_same [of "pf_device s"]
    by (cases "readJoinedRooms (pf_device s)")
      (auto simp: openJoinedRoom_def Let_def bindA_apply on_device_def gets_def or_default_def split: option.splits if_splits sum.splits)
  have "map_of (pq_query req) ''room_id'' = Some (jr_roomId row)"
    using find_SomeD [OF row(2)] row(4) by (auto simp: same_row_def or_default_def isSafeRoomId_def matches_label_def split: option.splits)
  then show ?thesis
    using open_as_redirect [OF row(5)] row(1,3) find_SomeD [OF row(2)] assms(2,3) by (auto simp: redirects_def)
qed

lemma handle_redirect:
  assumes "handle env req s = (Inr (OpenRedirect u d tk c), s')"
  shows "redirects req s u tk"
proof -
  have m: "pq_method req = ''GET''" "pq_path req = ''/joined-rooms/open''"
    using answersD [OF handle_answers assms] by (simp_all add: reply_ok_def)
  have "openJoinedRoom env req s = (Inr (OpenRedirect u d tk c), s')"
    using assms m by (auto simp: handle_def platform_get_def ASSETS_def bindA_apply split: if_splits sum.splits)
  then show ?thesis using m by (rule open_redirect)
qed

text \<open>Claim C37. Stored tokens stay home. Two dashboards that differ in the values of stored tokens only answer every request
  alike, up to the token in the redirect of the open endpoint, and still differ in nothing else
  afterwards. That redirect exists for a GET of \<open>/joined-rooms/open\<close> only; it goes to the base URL of a
  tracked row that the request names, and carries the token this device stored in this room for the
  row's own alias or for the alias the request asks for.\<close>

theorem tokens_stay_home:
  assumes "token_blind s t" "platform_handle env req s = (r, s')" "platform_handle env req t = (r', t')"
  shows "tokenless_reply r = tokenless_reply r' \<and> token_blind s' t' \<and>
    (\<forall>baseUrl origin token capability. r = OpenRedirect baseUrl origin token capability \<longrightarrow> redirects req s baseUrl token)"
proof -
  have h: "map_sum id tokenless_reply (fst (handle env req s)) = map_sum id tokenless_reply (fst (handle env req t))"
      "token_blind (snd (handle env req s)) (snd (handle env req t))"
    using blind_handle assms(1) by (auto simp: blind_def)
  have "tokenless_reply r = tokenless_reply r'"
    using h(1) assms(2,3)
    by (cases "fst (handle env req s)"; cases "fst (handle env req t)") (auto simp: platform_handle_def split: prod.splits)
  moreover have "token_blind s' t'"
    using h(2) assms(2,3) snd_platform [of env req s] snd_platform [of env req t] by simp
  moreover have "redirects req s u tk" if "r = OpenRedirect u d tk c" for u d tk c
    using assms(2) that by (cases rule: platform_reply_cases [of env req s]) (auto intro: handle_redirect)
  ultimately show ?thesis by blast
qed

definition open_request :: PlatformRequest where
  "open_request = \<lparr> pq_method = ''GET'', pq_path = ''/joined-rooms/open'',
     pq_query = [(''room_id'', ''lab''), (''base_url'', ''http://h'')], pq_host = Some ''localhost:80'',
     pq_origin = None, pq_bytes = 0, pq_json = None \<rparr>"

definition with_token :: "string \<Rightarrow> PlatformState" where
  "with_token token = lab_dashboard\<lparr> pf_tokens := [(''lab'', File [(''alice'', JStr token)])] \<rparr>"

lemma tokens_stay_home_witness:
  "fst (platform_handle lab_env open_request (with_token ''t1'')) = OpenRedirect ''http://h'' ''http://localhost:80'' ''t1'' ''cap1'' \<and>
   redirects open_request (with_token ''t1'') ''http://h'' ''t1'' \<and>
   tokenless_reply (fst (platform_handle lab_env open_request (with_token ''t2''))) = OpenRedirect ''http://h'' ''http://localhost:80'' [] ''cap1''"
proof -
  have "token_blind (with_token ''t1'') (with_token ''t2'')"
    by (simp add: token_blind_def with_token_def tokens_file_def hide_tokens_def)
  moreover obtain r s' r' t' where run: "platform_handle lab_env open_request (with_token ''t1'') = (r, s')"
      "platform_handle lab_env open_request (with_token ''t2'') = (r', t')"
    by (meson surj_pair)
  ultimately have "tokenless_reply r = tokenless_reply r' \<and> token_blind s' t' \<and>
      (\<forall>u d tk c. r = OpenRedirect u d tk c \<longrightarrow> redirects open_request (with_token ''t1'') u tk)"
    by (rule tokens_stay_home)
  moreover have "fst (platform_handle lab_env open_request (with_token ''t1'')) = OpenRedirect ''http://h'' ''http://localhost:80'' ''t1'' ''cap1''"
    by code_simp
  ultimately show ?thesis using run by auto
qed

end
