(* ===== verification/TunnelClient.thy ===== *)
theory TunnelClient
  imports Broker ServerCore
begin

text \<open>
  \<open>tunnel/forwarding.ts\<close> and \<open>tunnel/client.ts\<close>: how a participant's request reaches the room server and
  its answer comes back, directly from the broker or through the host that attends the route, and the
  host's calls to the broker. The room server and the network are the parameter \<open>HostRuntime\<close>; a body is
  its bytes.
\<close>

subsection \<open>Requests and answers\<close>

text \<open>The answer of a buffered \<open>fetch\<close>: header names are lower case.\<close>

record HttpResponse =
  rp_status :: nat
  rp_headers :: "(string \<times> string) list"
  rp_body :: string

text \<open>
  \<open>hn_fetch url method headers body\<close> is the request to the room server, \<open>None\<close> when it throws; the
  platform's \<open>pf_url\<close> and \<open>pf_origin\<close> read a URL. \<open>hn_b64\<close> and \<open>hn_unb64\<close> are the two directions of base64.
\<close>

record HostRuntime =
  hn_platform :: Platform
  hn_fetch :: "string \<Rightarrow> string \<Rightarrow> (string \<times> string) list \<Rightarrow> string option \<Rightarrow> HttpResponse option"
  hn_b64 :: "string \<Rightarrow> string"
  hn_unb64 :: "string \<Rightarrow> string"

definition FORWARDED_REQUEST_HEADERS :: "string list" where
  "FORWARDED_REQUEST_HEADERS = [''authorization'', ''content-type'', ''accept'']"

definition translate_header ::
  "string \<Rightarrow> (string \<times> string) list \<Rightarrow> string \<times> string \<Rightarrow> (string \<times> string) list" where
  "translate_header targetOrigin result entry =
     (let lower = js_toLowerCase (fst entry)
      in if lower = ''origin'' then AList.update ''origin'' targetOrigin result
         else if lower = ''referer'' then AList.update ''referer'' (targetOrigin @ ''/'') result
         else if lower \<in> set FORWARDED_REQUEST_HEADERS then AList.update lower (snd entry) result
         else result)"

definition translateEnvelopeHeaders :: "(string \<times> string) list \<Rightarrow> string \<Rightarrow> (string \<times> string) list" where
  "translateEnvelopeHeaders headers targetOrigin = foldl (translate_header targetOrigin) [] headers"

definition selectForwardedResponseHeaders :: "(string \<times> string) list \<Rightarrow> (string \<times> string) list" where
  "selectForwardedResponseHeaders headers =
     List.map_filter (\<lambda>name. map_option (\<lambda>v. (name, v)) (map_of headers name)) FORWARDED_RESPONSE_HEADERS"

definition target_url :: "string \<Rightarrow> string \<Rightarrow> string" where
  "target_url targetBase path = targetBase @ (if starts_with ''/'' path then path else CHR ''/'' # path)"

text \<open>
  \<open>relayToLocalServer\<close>. A failure is a tunnel error, or \<open>None\<close> for the \<open>TypeError\<close> of an invalid target.
\<close>

definition relayToLocalServer ::
  "HostRuntime \<Rightarrow> string \<Rightarrow> ForwardedRequest \<Rightarrow> nat \<Rightarrow> TunnelError option + ForwardedResponse" where
  "relayToLocalServer rt target request responseBodyBytes =
     (case normalizeBaseUrl (hn_platform rt) target of
        None \<Rightarrow> Inl None
      | Some targetBase \<Rightarrow> (case pf_origin (hn_platform rt) targetBase of
          None \<Rightarrow> Inl None
        | Some origin \<Rightarrow>
            let body = (case fq_body request of
                  Some b \<Rightarrow> if fq_method request \<noteq> ''GET'' \<and> fq_method request \<noteq> ''HEAD'' then Some (hn_unb64 rt b) else None
                | None \<Rightarrow> None)
            in case hn_fetch rt (target_url targetBase (fq_path request)) (fq_method request)
                      (translateEnvelopeHeaders (fq_headers request) origin) body of
                 None \<Rightarrow> Inl (Some (tunnel_error TE_host_unavailable 502 ''host room server is unreachable''))
               | Some response \<Rightarrow>
                   if length (rp_body response) > responseBodyBytes
                   then Inl (Some (tunnel_error TE_response_too_large 502 ''host response exceeds the broker limit''))
                   else Inr \<lparr> fr_status = rp_status response,
                     fr_headers = selectForwardedResponseHeaders (rp_headers response),
                     fr_body = (if length (rp_body response) > 0 then Some (hn_b64 rt (rp_body response)) else None) \<rparr>))"

subsection \<open>The broker's own forwarding to a local target\<close>

text \<open>A streamed answer: its chunks, and whether the transport fails after them; \<open>None\<close> is a null body.\<close>

record HttpStream =
  st_status :: nat
  st_headers :: "(string \<times> string) list"
  st_body :: "(string list \<times> bool) option"

datatype socket_state = SockOpen | SockEnded | SockDestroyed

text \<open>What the participant has received.\<close>

record Delivery =
  dv_head :: "(nat \<times> (string \<times> string) list) option"
  dv_written :: "string list"
  dv_socket :: socket_state

record ForwardResult =
  fw_status :: nat
  fw_bytesIn :: nat
  fw_bytesOut :: nat

definition too_large :: TunnelError where
  "too_large = tunnel_error TE_response_too_large 502 ''forwarded response exceeds the broker limit''"

definition select_header :: "(string \<times> string) list \<Rightarrow> string \<times> string \<Rightarrow> (string \<times> string) list" where
  "select_header headers entry =
     (if js_toLowerCase (fst entry) \<in> set FORWARDED_REQUEST_HEADERS
      then AList.update (js_toLowerCase (fst entry)) (snd entry) headers else headers)"

definition selectRequestHeaders :: "(string \<times> string) list \<Rightarrow> string \<Rightarrow> (string \<times> string) list" where
  "selectRequestHeaders reqHeaders targetOrigin =
     (let headers = foldl select_header [] reqHeaders;
          headers = (if map_of reqHeaders ''origin'' \<noteq> None then AList.update ''origin'' targetOrigin headers else headers)
      in if map_of reqHeaders ''referer'' \<noteq> None then AList.update ''referer'' (targetOrigin @ ''/'') headers else headers)"

text \<open>\<open>readRequestBody\<close>: the chunks are counted as they arrive, and the first one over the limit throws.\<close>

fun read_chunks :: "nat \<Rightarrow> string list \<Rightarrow> string list \<Rightarrow> nat \<Rightarrow> TunnelError + string list" where
  "read_chunks limitBytes chunks [] got = Inr chunks"
| "read_chunks limitBytes chunks (c # cs) got =
     (if got + length c > limitBytes then Inl (tunnel_error TE_request_too_large 413 ''request body exceeds the broker limit'')
      else read_chunks limitBytes (chunks @ [c]) cs (got + length c))"

definition readRequestBody :: "string \<Rightarrow> string list \<Rightarrow> nat \<Rightarrow> TunnelError + string option" where
  "readRequestBody req_method arriving limitBytes =
     (if req_method = ''GET'' \<or> req_method = ''HEAD'' then Inr None
      else case read_chunks limitBytes [] arriving 0 of
        Inl e \<Rightarrow> Inl e
      | Inr chunks \<Rightarrow> Inr (if chunks = [] then None else Some (concat chunks)))"

text \<open>The loop of \<open>streamResponse\<close>; the last part is its return value.\<close>

fun stream_loop :: "nat \<Rightarrow> string list \<Rightarrow> string list \<Rightarrow> bool \<Rightarrow> nat \<Rightarrow> string list \<times> socket_state \<times> (TunnelError + nat)" where
  "stream_loop limit written [] fails bytesOut = (written, if fails then SockDestroyed else SockEnded, Inr bytesOut)"
| "stream_loop limit written (c # cs) fails bytesOut =
     (if bytesOut + length c > limit then (written, SockDestroyed, Inl too_large)
      else stream_loop limit (written @ [c]) cs fails (bytesOut + length c))"

definition streamResponse :: "HttpStream \<Rightarrow> nat \<Rightarrow> string list \<times> socket_state \<times> (TunnelError + nat)" where
  "streamResponse response responseBodyBytes = (case st_body response of
     None \<Rightarrow> ([], SockEnded, Inr 0)
   | Some (chunks, fails) \<Rightarrow> stream_loop responseBodyBytes [] chunks fails 0)"

text \<open>\<open>Number(headers.get("content-length"))\<close>, where an absent header counts as 0.\<close>

definition declared_over :: "(string \<times> string) list \<Rightarrow> nat \<Rightarrow> bool" where
  "declared_over headers limit = (case map_of headers ''content-length'' of
     None \<Rightarrow> False | Some s \<Rightarrow> (case js_Number s of Finite r \<Rightarrow> r > of_nat limit | _ \<Rightarrow> False))"

definition forwardToHost ::
  "HostRuntime \<Rightarrow> (string \<Rightarrow> string \<Rightarrow> (string \<times> string) list \<Rightarrow> string option \<Rightarrow> HttpStream option) \<Rightarrow>
   string \<Rightarrow> string \<Rightarrow> string \<Rightarrow> (string \<times> string) list \<Rightarrow> string list \<Rightarrow> nat \<Rightarrow> nat \<Rightarrow>
   (TunnelError option + ForwardResult) \<times> Delivery" where
  "forwardToHost rt fetch target path req_method reqHeaders arriving requestBodyBytes responseBodyBytes =
     (let nothing = \<lparr> dv_head = None, dv_written = [], dv_socket = SockOpen \<rparr>
      in case normalizeBaseUrl (hn_platform rt) target of
        None \<Rightarrow> (Inl None, nothing)
      | Some targetBase \<Rightarrow> (case pf_origin (hn_platform rt) targetBase of
          None \<Rightarrow> (Inl None, nothing)
        | Some origin \<Rightarrow> (case readRequestBody req_method arriving requestBodyBytes of
            Inl e \<Rightarrow> (Inl (Some e), nothing)
          | Inr body \<Rightarrow>
              (case fetch (target_url targetBase path) req_method (selectRequestHeaders reqHeaders origin) body of
                 None \<Rightarrow> (Inl (Some (tunnel_error TE_internal_error 502 ''could not reach the host room server'')), nothing)
               | Some response \<Rightarrow>
                   if declared_over (st_headers response) responseBodyBytes then (Inl (Some too_large), nothing)
                   else (case streamResponse response responseBodyBytes of
                     (written, sock, outcome) \<Rightarrow>
                       ((case outcome of
                           Inl e \<Rightarrow> Inl (Some e)
                         | Inr bytesOut \<Rightarrow> Inr \<lparr> fw_status = st_status response,
                             fw_bytesIn = (case body of Some b \<Rightarrow> length b | None \<Rightarrow> 0), fw_bytesOut = bytesOut \<rparr>),
                        \<lparr> dv_head = Some (st_status response, selectForwardedResponseHeaders (st_headers response)),
                          dv_written = written, dv_socket = sock \<rparr>))))))"

subsection \<open>The client's calls to the broker\<close>

text \<open>
  \<open>post\<close>: the call arrives and the broker's answer or error comes back as it is, or a failed \<open>fetch\<close>, which
  tells nothing about whether the broker has acted.
\<close>

datatype net = NetOk | RequestLost | ReplyLost

definition broker_unreachable :: TunnelError where
  "broker_unreachable = tunnel_error TE_broker_unreachable 502 ''could not reach the tunnel broker''"

definition post :: "net \<Rightarrow> 'a broker_action \<Rightarrow> 'a broker_action" where
  "post net act = (\<lambda>b. case net of
     NetOk \<Rightarrow> act b | RequestLost \<Rightarrow> (Inl broker_unreachable, b) | ReplyLost \<Rightarrow> (Inl broker_unreachable, snd (act b)))"

definition client_heartbeat :: "BrokerOptions \<Rightarrow> net \<Rightarrow> int \<Rightarrow> string \<Rightarrow> string \<Rightarrow> RouteMetadata broker_action" where
  "client_heartbeat opts net now routeId connectionId = post net (heartbeat opts now (Some (JStr routeId)) (Some (JStr connectionId)))"

definition client_close :: "BrokerOptions \<Rightarrow> net \<Rightarrow> int \<Rightarrow> string \<Rightarrow> string \<Rightarrow> string broker_action" where
  "client_close opts net now routeId connectionId = post net (broker_closeRoute opts now (Some (JStr routeId)) (Some (JStr connectionId)))"

definition client_poll :: "BrokerOptions \<Rightarrow> net \<Rightarrow> int \<Rightarrow> string \<Rightarrow> string \<Rightarrow> ForwardedRequest option broker_action" where
  "client_poll opts net now routeId connectionId = post net (claimRelay opts now (Some (JStr routeId)) (Some (JStr connectionId)))"

definition client_respond ::
  "BrokerOptions \<Rightarrow> net \<Rightarrow> int \<Rightarrow> string \<Rightarrow> string \<Rightarrow> string \<Rightarrow> ForwardedResponse \<Rightarrow> unit broker_action" where
  "client_respond opts net now routeId connectionId requestId response =
     post net (respondRelay opts now (Some (JStr routeId)) (Some (JStr connectionId)) requestId response)"

definition RELAY_RESPONSE_BODY_BYTES :: nat where
  "RELAY_RESPONSE_BODY_BYTES = 1024 * 1024"

fun error_code_text :: "TunnelErrorCode \<Rightarrow> string" where
  "error_code_text TE_invalid_registration = ''invalid_registration''"
| "error_code_text TE_route_slug_taken = ''route_slug_taken''"
| "error_code_text TE_invalid_heartbeat = ''invalid_heartbeat''"
| "error_code_text TE_route_not_found = ''route_not_found''"
| "error_code_text TE_route_expired = ''route_expired''"
| "error_code_text TE_route_closed = ''route_closed''"
| "error_code_text TE_broker_unreachable = ''broker_unreachable''"
| "error_code_text TE_unsupported_route = ''unsupported_route''"
| "error_code_text TE_route_request_limit = ''route_request_limit''"
| "error_code_text TE_wait_limit = ''wait_limit''"
| "error_code_text TE_rate_limited = ''rate_limited''"
| "error_code_text TE_request_too_large = ''request_too_large''"
| "error_code_text TE_response_too_large = ''response_too_large''"
| "error_code_text TE_host_unavailable = ''host_unavailable''"
| "error_code_text TE_unknown_request = ''unknown_request''"
| "error_code_text TE_quota_exceeded = ''quota_exceeded''"
| "error_code_text TE_internal_error = ''internal_error''"

text \<open>\<open>handleClaim\<close> up to its call of \<open>respond\<close>: a failure becomes a response of its own.\<close>

definition claim_response :: "HostRuntime \<Rightarrow> string \<Rightarrow> ForwardedRequest \<Rightarrow> ForwardedResponse" where
  "claim_response rt target request =
     (case relayToLocalServer rt target request RELAY_RESPONSE_BODY_BYTES of
        Inr response \<Rightarrow> response
      | Inl error \<Rightarrow> \<lparr> fr_status = (case error of Some e \<Rightarrow> te_status e | None \<Rightarrow> 502),
          fr_headers = [(''content-type'', ''application/json; charset=utf-8'')],
          fr_body = Some (hn_b64 rt (''{\"ok\":false,\"error\":\"'' @
            (case error of Some e \<Rightarrow> error_code_text (te_code e) | None \<Rightarrow> ''host_unavailable'') @ ''\"}'')) \<rparr>)"

definition handleClaim ::
  "BrokerOptions \<Rightarrow> HostRuntime \<Rightarrow> net \<Rightarrow> int \<Rightarrow> string \<Rightarrow> string \<Rightarrow> ForwardedRequest \<Rightarrow> string \<Rightarrow> unit broker_action" where
  "handleClaim opts rt net now routeId connectionId request target =
     client_respond opts net now routeId connectionId (fq_request_id request) (claim_response rt target request)"

definition attendOnce :: "BrokerOptions \<Rightarrow> HostRuntime \<Rightarrow> net \<Rightarrow> net \<Rightarrow> int \<Rightarrow> string \<Rightarrow> string \<Rightarrow> string \<Rightarrow> bool broker_action" where
  "attendOnce opts rt net net' now routeId connectionId target =
     bindA (client_poll opts net now routeId connectionId) (\<lambda>request.
     case request of
       None \<Rightarrow> ret False
     | Some q \<Rightarrow> bindA (handleClaim opts rt net' now routeId connectionId q target) (\<lambda>_. ret True))"

end
