(* ===== verification/HostSession.thy ===== *)
theory HostSession
  imports TunnelClient Interfaces "HOL-Library.Multiset"
begin

text \<open>
  \<open>tunnel/host-session.ts\<close>: the host's foreground session. A poll loop claims requests and hands each to a
  handler of its own; heartbeats hold the route. Every await is a step, so heartbeats, polls, handlers,
  the broker's other callers, its timers and a stop interleave in every order, and each call may be
  lost on the way there or back.
\<close>

subsection \<open>State\<close>

datatype poll_at = Top | Asking | Answered "TunnelError + ForwardedRequest option" | Idling | Ended

datatype beat_at = Beating | Beaten "TunnelError option"

datatype claim_at = Fetching | Responding ForwardedResponse

text \<open>
  \<open>ss_reported\<close> are the calls of \<open>onError\<close>; \<open>ss_claimed\<close> and \<open>ss_answered\<close> record the ids of the requests
  the loop was handed and of those \<open>respond\<close> was called for.
\<close>

record HostSession =
  ss_routeId :: string
  ss_connectionId :: string
  ss_target :: string
  ss_concurrency :: nat
  ss_poll :: poll_at
  ss_beats :: "beat_at list"
  ss_handlers :: "(ForwardedRequest \<times> claim_at) list"
  ss_timer :: bool
  ss_stopped :: bool
  ss_aborted :: bool
  ss_failure :: "TunnelError option"
  ss_reported :: "TunnelError list"
  ss_claimed :: "string list"
  ss_answered :: "string list"

definition DEFAULT_CONCURRENCY :: nat where "DEFAULT_CONCURRENCY = 16"

text \<open>A session that has just been constructed and started.\<close>

definition new_session :: "string \<Rightarrow> string \<Rightarrow> string \<Rightarrow> nat option \<Rightarrow> HostSession" where
  "new_session routeId connectionId target concurrency =
     \<lparr> ss_routeId = routeId, ss_connectionId = connectionId, ss_target = target,
       ss_concurrency = max 2 (case concurrency of Some n \<Rightarrow> n | None \<Rightarrow> DEFAULT_CONCURRENCY),
       ss_poll = Top, ss_beats = [], ss_handlers = [], ss_timer = True, ss_stopped = False, ss_aborted = False,
       ss_failure = None, ss_reported = [], ss_claimed = [], ss_answered = [] \<rparr>"

definition FATAL_ROUTE_CODES :: "TunnelErrorCode list" where
  "FATAL_ROUTE_CODES = [TE_route_closed, TE_route_expired, TE_route_not_found]"

definition isFatalRouteError :: "TunnelError \<Rightarrow> bool" where
  "isFatalRouteError e \<longleftrightarrow> te_code e \<in> set FATAL_ROUTE_CODES"

definition fail :: "TunnelError \<Rightarrow> HostSession \<Rightarrow> HostSession" where
  "fail e s = s\<lparr> ss_failure := (case ss_failure s of None \<Rightarrow> Some e | Some f \<Rightarrow> Some f), ss_aborted := True,
     ss_reported := ss_reported s @ [e] \<rparr>"

subsection \<open>The steps of the code\<close>

text \<open>The head of the poll loop.\<close>

definition loop_head :: "HostSession \<Rightarrow> HostSession" where
  "loop_head s = s\<lparr> ss_poll := (if ss_aborted s then Ended
     else if length (ss_handlers s) \<ge> ss_concurrency s then Idling else Asking) \<rparr>"

text \<open>What the loop does with the answer to its poll.\<close>

definition loop_answer :: "TunnelError + ForwardedRequest option \<Rightarrow> HostSession \<Rightarrow> HostSession" where
  "loop_answer x s = (case x of
     Inl e \<Rightarrow> if isFatalRouteError e then (fail e s)\<lparr> ss_poll := Ended \<rparr> else s\<lparr> ss_poll := Idling \<rparr>
   | Inr None \<Rightarrow> s\<lparr> ss_poll := Idling \<rparr>
   | Inr (Some q) \<Rightarrow> s\<lparr> ss_poll := Top, ss_handlers := ss_handlers s @ [(q, Fetching)],
       ss_claimed := ss_claimed s @ [fq_request_id q] \<rparr>)"

definition beat :: "HostSession \<Rightarrow> HostSession" where
  "beat s = (if ss_aborted s then s else s\<lparr> ss_beats := ss_beats s @ [Beating] \<rparr>)"

definition drop_nth :: "nat \<Rightarrow> 'a list \<Rightarrow> 'a list" where
  "drop_nth i xs = take i xs @ drop (Suc i) xs"

definition beat_answer :: "nat \<Rightarrow> TunnelError option \<Rightarrow> HostSession \<Rightarrow> HostSession" where
  "beat_answer i x s =
     (let t = s\<lparr> ss_beats := drop_nth i (ss_beats s) \<rparr>
      in case x of Some e \<Rightarrow> if isFatalRouteError e then fail e t else t | None \<Rightarrow> t)"

definition stop :: "HostSession \<Rightarrow> HostSession" where
  "stop s = (if ss_stopped s then s else s\<lparr> ss_stopped := True, ss_aborted := True, ss_timer := False \<rparr>)"

text \<open>One step of the session with its broker; the last rule is everybody else.\<close>

inductive session_step ::
  "HostRuntime \<Rightarrow> BrokerOptions \<Rightarrow> HostSession \<times> Broker \<Rightarrow> HostSession \<times> Broker \<Rightarrow> bool" for rt opts where
  loop: "ss_poll s = Top \<Longrightarrow> session_step rt opts (s, b) (loop_head s, b)"
| poll: "ss_poll s = Asking \<Longrightarrow> client_poll opts net now (ss_routeId s) (ss_connectionId s) b = (x, b') \<Longrightarrow>
    session_step rt opts (s, b) (s\<lparr> ss_poll := Answered x \<rparr>, b')"
| answered: "ss_poll s = Answered x \<Longrightarrow> session_step rt opts (s, b) (loop_answer x s, b)"
| wake: "ss_poll s = Idling \<Longrightarrow> session_step rt opts (s, b) (s\<lparr> ss_poll := Top \<rparr>, b)"
| tick: "ss_timer s \<Longrightarrow> session_step rt opts (s, b) (beat s, b)"
| heartbeat: "i < length (ss_beats s) \<Longrightarrow> ss_beats s ! i = Beating \<Longrightarrow>
    client_heartbeat opts net now (ss_routeId s) (ss_connectionId s) b = (x, b') \<Longrightarrow>
    session_step rt opts (s, b)
      (s\<lparr> ss_beats := (ss_beats s)[i := Beaten (case x of Inl e \<Rightarrow> Some e | Inr _ \<Rightarrow> None)] \<rparr>, b')"
| beaten: "i < length (ss_beats s) \<Longrightarrow> ss_beats s ! i = Beaten x \<Longrightarrow> session_step rt opts (s, b) (beat_answer i x s, b)"
| fetch: "i < length (ss_handlers s) \<Longrightarrow> ss_handlers s ! i = (q, Fetching) \<Longrightarrow>
    session_step rt opts (s, b)
      (s\<lparr> ss_handlers := (ss_handlers s)[i := (q, Responding (claim_response rt (ss_target s) q))] \<rparr>, b)"
| respond: "i < length (ss_handlers s) \<Longrightarrow> ss_handlers s ! i = (q, Responding r) \<Longrightarrow>
    client_respond opts net now (ss_routeId s) (ss_connectionId s) (fq_request_id q) r b = (x, b') \<Longrightarrow>
    session_step rt opts (s, b)
      (s\<lparr> ss_handlers := drop_nth i (ss_handlers s), ss_answered := ss_answered s @ [fq_request_id q] \<rparr>, b')"
| stop: "session_step rt opts (s, b) (stop s, b)"
| close: "ss_stopped s \<Longrightarrow> ss_poll s = Ended \<Longrightarrow> ss_handlers s = [] \<Longrightarrow>
    session_step rt opts (s, b) (s, snd (client_close opts net now (ss_routeId s) (ss_connectionId s) b))"
| others: "broker_step opts now b b' \<Longrightarrow> session_step rt opts (s, b) (s, b')"

subsection \<open>Requests that have been handed out\<close>

text \<open>A request is spent when it has been claimed or settled: no poll will return it again.\<close>

definition spent :: "string \<Rightarrow> RelayHub \<Rightarrow> bool" where
  "spent i hub \<longleftrightarrow> (case map_of (rh_inflight hub) i of
     Some item \<Rightarrow> ri_claimed item | None \<Rightarrow> i \<in> fst ` set (rh_settled hub))"

lemma spent_settle:
  assumes "relay_inv hub" "map_of (rh_inflight hub) j = Some item" "spent i hub"
  shows "spent i (settle j out hub)"
  using assms(3) settle_parts [OF assms(1,2), of out]
  by (auto simp: spent_def delete_conv' split: option.splits)

lemma spent_fail: "relay_inv hub \<Longrightarrow> spent i hub \<Longrightarrow> spent i (fail_request j e hub)"
  by (auto simp: fail_settle spent_settle split: option.split)

lemma spent_close:
  assumes "relay_inv hub" "spent i hub"
  shows "spent i (Relay.closeRoute slug hub)"
proof -
  have "relay_inv (foldl (close_one slug) h xs) \<and> spent i (foldl (close_one slug) h xs)"
    if "relay_inv h" "spent i h" for h xs
    using that by (induction xs arbitrary: h) (auto simp: close_one_def fail_inv spent_fail)
  with assms show ?thesis by (simp add: Relay.closeRoute_def)
qed

lemma spent_claim:
  assumes "relay_inv hub" "spent i hub"
  shows "spent i (snd (claim slug hub))"
proof (cases "unclaimed slug (rh_inflight hub)")
  case Nil
  then show ?thesis using claim_none [OF assms(1) Nil] assms(2) by (auto simp: spent_def split: option.splits)
next
  case (Cons j rest)
  then obtain item where "map_of (rh_inflight hub) j = Some item"
      "claim slug hub = (Some (ri_envelope item),
        hub\<lparr> rh_inflight := AList.update j (item\<lparr> ri_claimed := True \<rparr>) (rh_inflight hub),
          rh_pending := set_queue slug rest (rh_pending hub) \<rparr>)"
    using claim_some [OF assms(1) Cons] by auto
  then show ?thesis using assms(2) by (auto simp: spent_def update_conv' split: option.splits)
qed

lemma spent_step:
  assumes "relay_inv hub" "relay_step hub hub'" "spent i hub"
  shows "spent i hub'"
  using assms(2)
proof (cases rule: relay_step.cases)
  case (enqueue requestId slug envelope)
  moreover from enqueue have "map_of (rh_inflight hub) requestId = None" by (simp add: map_of_eq_None_iff)
  ultimately show ?thesis using assms(3)
    by (auto simp: spent_def enqueue_def update_conv' split: option.splits)
qed (use assms(1,3) in \<open>auto simp: spent_claim spent_close respond_settle claim_timeout_def response_timeout_def Let_def
    intro!: spent_fail spent_settle split: option.split\<close>)

text \<open>A claimed request was not spent, and now is.\<close>

lemma claim_spends:
  assumes "relay_inv hub" "claim slug hub = (Some q, hub')"
  shows "\<not> spent (fq_request_id q) hub \<and> spent (fq_request_id q) hub'"
proof (cases "unclaimed slug (rh_inflight hub)")
  case Nil
  then show ?thesis using claim_none [OF assms(1) Nil] assms(2) by auto
next
  case (Cons j rest)
  then obtain item where item: "map_of (rh_inflight hub) j = Some item" "\<not> ri_claimed item"
      "claim slug hub = (Some (ri_envelope item),
        hub\<lparr> rh_inflight := AList.update j (item\<lparr> ri_claimed := True \<rparr>) (rh_inflight hub),
          rh_pending := set_queue slug rest (rh_pending hub) \<rparr>)"
    using claim_some [OF assms(1) Cons] by auto
  moreover have "fq_request_id (ri_envelope item) = j"
    using assms(1) item(1) by (simp add: relay_inv_def)
  ultimately show ?thesis using assms(2) by (auto simp: spent_def update_conv')
qed

text \<open>Every step of the broker moves its relay by at most one step.\<close>

lemma poll_claims:
  assumes "broker_inv opts b" "claimRelay opts now rid cid b = (x, b')"
  shows "(\<exists>e. x = Inl e) \<and> tb_relay b' = tb_relay b \<or>
    (\<exists>slug q. x = Inr q \<and> claim slug (tb_relay b) = (q, tb_relay b'))"
proof (cases rule: find_cases [OF assms(1), of now rid cid])
  case (2 slug r)
  then show ?thesis
    using assms(2) by (cases "claim slug (tb_relay b)")
      (auto simp: claimRelay_def touch_def bindA_apply update_conv' split: if_splits)
qed (use assms(2) in \<open>auto simp: claimRelay_def\<close>)

lemma forward_relays:
  assumes "forward_start opts b64 adm reqId now slug input b = (x, b')"
  shows "tb_relay b' = tb_relay b \<or> (\<exists>env. tb_relay b' = enqueue slug env reqId (tb_relay b))"
  using forward_slot_balanced [OF assms] by (cases x) (auto split: prod.splits forward_wait.splits)

lemma relay_moves:
  assumes "broker_inv opts b" "broker_step opts now b b'"
  shows "relay_step\<^sup>=\<^sup>= (tb_relay b) (tb_relay b')"
  using assms(2)
proof (cases rule: broker_step.cases)
  case (register parse_url rte conn reg)
  then show ?thesis
    by (auto simp: register_def bindA_apply currentRoute_apply Let_def intro: relay_step.close
        split: option.splits json.splits sum.splits prod.splits if_splits)
next
  case (heartbeat rid cid)
  then show ?thesis
    by (cases rule: find_cases [OF assms(1), of now rid cid]) (auto simp: heartbeat_def Let_def)
next
  case (close rid cid)
  then show ?thesis
    by (cases rule: find_cases [OF assms(1), of now rid cid]) (auto simp: broker_closeRoute_def bindA_apply intro: relay_step.close)
next
  case (poll rid cid)
  then obtain x where "claimRelay opts now rid cid b = (x, b')" by (cases "claimRelay opts now rid cid b") simp
  from poll_claims [OF assms(1) this] have "tb_relay b' = tb_relay b \<or> (\<exists>slug. tb_relay b' = snd (claim slug (tb_relay b)))"
    by (metis snd_conv)
  then show ?thesis by (auto intro: relay_step.claim)
next
  case (respond rid cid req resp)
  then show ?thesis
    using relay_step.respond [of "tb_relay b" "bl_responseBodyBytes (opt_limits opts)" req resp]
    by (cases rule: find_cases [OF assms(1), of now rid cid]) (auto simp: respondRelay_def bindA_apply split: prod.splits)
next
  case (request req b64 adm path input)
  show ?thesis
  proof (cases "filter (\<lambda>x. x \<noteq> []) (js_split CHR ''/'' path)")
    case (Cons slug rest)
    obtain y b1 where res: "resolve opts now slug b = (y, b1)" by (cases "resolve opts now slug b")
    then have "tb_relay b1 = tb_relay b"
      by (auto simp: resolve_def currentRoute_apply bindA_apply split: option.splits if_splits)
    then show ?thesis
      using request res Cons forward_relays [of opts b64 adm req now slug _ b1] relay_step.enqueue [of req "tb_relay b" slug]
      by (fastforce simp: handleParticipantRequest_def Let_def bindA_apply split: sum.splits prod.splits if_splits)
  qed (use request in \<open>simp add: handleParticipantRequest_def\<close>)
qed (auto simp: snapshot_def relay_finish_def bindA_apply Let_def intro: relay_step.claim_timeout relay_step.response_timeout
    split: sum.splits)

lemma spent_moves: "broker_inv opts b \<Longrightarrow> broker_step opts now b b' \<Longrightarrow> spent i (tb_relay b) \<Longrightarrow> spent i (tb_relay b')"
  using relay_moves [of opts b now b'] spent_step [of "tb_relay b" "tb_relay b'" i] by (auto simp: broker_inv_def)

subsection \<open>The invariant\<close>

definition handed :: "HostSession \<Rightarrow> string list" where
  "handed s = map (fq_request_id \<circ> fst) (ss_handlers s)"

text \<open>A poll under way has room for what it may bring, and brings nothing the loop has seen.\<close>

fun poll_ready :: "poll_at \<Rightarrow> nat \<Rightarrow> nat \<Rightarrow> string list \<Rightarrow> RelayHub \<Rightarrow> bool" where
  "poll_ready Asking n limit seen hub \<longleftrightarrow> n < limit"
| "poll_ready (Answered (Inr (Some q))) n limit seen hub \<longleftrightarrow>
     n < limit \<and> fq_request_id q \<notin> set seen \<and> spent (fq_request_id q) hub"
| "poll_ready _ n limit seen hub \<longleftrightarrow> True"

lemma poll_ready_mono:
  "poll_ready p n limit seen hub \<Longrightarrow> n' \<le> n \<Longrightarrow> (\<And>i. spent i hub \<Longrightarrow> spent i hub') \<Longrightarrow> poll_ready p n' limit seen hub'"
  by (induction p n limit seen hub rule: poll_ready.induct) auto

definition session_inv :: "BrokerOptions \<Rightarrow> HostSession \<times> Broker \<Rightarrow> bool" where
  "session_inv opts = (\<lambda>(s, b). broker_inv opts b \<and> 2 \<le> ss_concurrency s \<and> length (ss_handlers s) \<le> ss_concurrency s \<and>
     poll_ready (ss_poll s) (length (ss_handlers s)) (ss_concurrency s) (ss_claimed s) (tb_relay b) \<and>
     (\<forall>e \<in> set (ss_reported s). isFatalRouteError e) \<and>
     ss_failure s = (case ss_reported s of [] \<Rightarrow> None | e # _ \<Rightarrow> Some e) \<and>
     (ss_aborted s \<longleftrightarrow> ss_stopped s \<or> ss_reported s \<noteq> []) \<and>
     (ss_poll s = Ended \<longrightarrow> ss_aborted s) \<and>
     distinct (ss_claimed s) \<and> (\<forall>i \<in> set (ss_claimed s). spent i (tb_relay b)) \<and>
     mset (ss_claimed s) = mset (handed s) + mset (ss_answered s))"

lemma drop_nth_mset: "i < length xs \<Longrightarrow> mset (map f xs) = add_mset (f (xs ! i)) (mset (map f (drop_nth i xs)))"
  unfolding drop_nth_def by (subst id_take_nth_drop [of i xs]) simp_all

lemma drop_nth_length: "i < length xs \<Longrightarrow> length (drop_nth i xs) = length xs - 1"
  by (simp add: drop_nth_def)

lemma broker_kept:
  assumes "session_inv opts (s, b)" "broker_step opts now b b'"
  shows "session_inv opts (s, b')"
proof -
  have "spent i (tb_relay b) \<Longrightarrow> spent i (tb_relay b')" for i
    using assms spent_moves [of opts b now b' i] by (simp add: session_inv_def)
  with assms broker_step_ok [of opts b now b'] show ?thesis
    by (auto simp: session_inv_def step_ok_def intro: poll_ready_mono)
qed

lemma post_step:
  assumes "post net act b = (x, b')" "broker_step opts now b (snd (act b))"
  shows "b' = b \<or> broker_step opts now b b'"
  using assms by (cases net) (auto simp: post_def)

lemma session_init: "session_inv opts (new_session rid cid target n, new_broker)"
  using new_broker_inv [of opts] by (simp add: session_inv_def new_session_def handed_def)

lemma session_step_inv:
  assumes "session_inv opts x" "session_step rt opts x y"
  shows "session_inv opts y"
  using assms(2)
proof (cases rule: session_step.cases)
  case (loop s b)
  then show ?thesis using assms(1) by (auto simp: session_inv_def loop_head_def handed_def)
next
  case (poll s net now b x b')
  have claims: "claimRelay opts now (Some (JStr (ss_routeId s))) (Some (JStr (ss_connectionId s))) b = (y, b1) \<Longrightarrow> y = Inr (Some q) \<Longrightarrow>
      \<not> spent (fq_request_id q) (tb_relay b) \<and> spent (fq_request_id q) (tb_relay b1)" for y q b1
    using poll_claims [of opts b now _ _ y b1] claim_spends [of "tb_relay b" _ q "tb_relay b1"] assms(1) poll(1)
    by (auto simp: session_inv_def broker_inv_def)
  have "b' = b \<or> broker_step opts now b b'"
    using poll(4) broker_step.poll unfolding client_poll_def by (intro post_step) auto
  then have kept: "session_inv opts (s, b')" using broker_kept assms(1) poll(1) by auto
  have "fq_request_id q \<notin> set (ss_claimed s) \<and> spent (fq_request_id q) (tb_relay b')" if "x = Inr (Some q)" for q
  proof -
    have "claimRelay opts now (Some (JStr (ss_routeId s))) (Some (JStr (ss_connectionId s))) b = (x, b')"
      using poll(4) that by (cases net) (auto simp: client_poll_def post_def broker_unreachable_def)
    from claims [OF this that] assms(1) poll(1) show ?thesis by (auto simp: session_inv_def)
  qed
  then have "poll_ready (Answered x) (length (ss_handlers s)) (ss_concurrency s) (ss_claimed s) (tb_relay b')"
    using kept poll(3) by (cases x; cases "projr x") (auto simp: session_inv_def)
  then show ?thesis using kept poll by (auto simp: session_inv_def handed_def)
next
  case (answered s x b)
  then show ?thesis using assms(1)
    by (auto simp: session_inv_def loop_answer_def fail_def handed_def neq_Nil_conv split: sum.splits option.splits list.splits)
next
  case (wake s b)
  then show ?thesis using assms(1) by (auto simp: session_inv_def handed_def)
next
  case (tick s b)
  then show ?thesis using assms(1) by (auto simp: session_inv_def beat_def handed_def)
next
  case (heartbeat i s net now b x b')
  have "b' = b \<or> broker_step opts now b b'"
    using heartbeat(5) broker_step.heartbeat unfolding client_heartbeat_def by (intro post_step) auto
  then have "session_inv opts (s, b')" using broker_kept assms(1) heartbeat(1) by auto
  then show ?thesis using heartbeat by (auto simp: session_inv_def handed_def)
next
  case (beaten i s x b)
  then show ?thesis using assms(1)
    by (auto simp: session_inv_def beat_answer_def fail_def handed_def Let_def split: option.splits list.splits)
next
  case (fetch i s q b)
  then have "handed (s\<lparr> ss_handlers := (ss_handlers s)[i := (q, Responding (claim_response rt (ss_target s) q))] \<rparr>) = handed s"
    unfolding handed_def by (intro nth_equalityI) (auto simp: nth_list_update)
  then show ?thesis using assms(1) fetch by (auto simp: session_inv_def)
next
  case (respond i s q r net now b x b')
  have "b' = b \<or> broker_step opts now b b'"
    using respond(5) broker_step.respond unfolding client_respond_def by (intro post_step) auto
  then have kept: "session_inv opts (s, b')" using broker_kept assms(1) respond(1) by auto
  have "mset (handed s) = add_mset (fq_request_id q) (mset (map (fq_request_id \<circ> fst) (drop_nth i (ss_handlers s))))"
    using drop_nth_mset [OF respond(3), of "fq_request_id \<circ> fst"] respond(4) by (simp add: handed_def)
  then show ?thesis using kept respond drop_nth_length [OF respond(3)]
    by (auto simp: session_inv_def handed_def intro: poll_ready_mono)
next
  case (stop s b)
  then show ?thesis using assms(1) by (auto simp: session_inv_def stop_def handed_def)
next
  case (close s b net now)
  have "b' = b \<or> broker_step opts now b b'" if "client_close opts net now (ss_routeId s) (ss_connectionId s) b = (z, b')" for z b'
    using that broker_step.close unfolding client_close_def by (intro post_step) auto
  then show ?thesis using broker_kept assms(1) close(1,2) by (metis prod.collapse)
next
  case (others now b b' s)
  then show ?thesis using broker_kept assms(1) by auto
qed

interpretation session: transition_system
  "\<lambda>(s, b). b = new_broker \<and> (\<exists>routeId connectionId target n. s = new_session routeId connectionId target n)"
  "session_step rt opts" "session_inv opts" for rt opts
proof
  show "session_inv opts x" if "case x of (s, b) \<Rightarrow> b = new_broker \<and> (\<exists>rid cid target n. s = new_session rid cid target n)" for x
    using that session_init by auto
  show "session_inv opts y" if "session_inv opts x" "session_step rt opts x y" for x y
    using that by (rule session_step_inv)
qed

lemma session_frame:
  "session_step rt opts (s, b) (t, c) \<Longrightarrow>
   ss_concurrency t = ss_concurrency s \<and> ss_routeId t = ss_routeId s \<and> ss_connectionId t = ss_connectionId s \<and> ss_target t = ss_target s"
  by (auto elim!: session_step.cases
      simp: loop_head_def loop_answer_def fail_def beat_def beat_answer_def stop_def Let_def split: sum.splits option.splits)

lemma session_frames:
  "(session_step rt opts)\<^sup>*\<^sup>* x y \<Longrightarrow> ss_concurrency (fst y) = ss_concurrency (fst x)"
  by (induction rule: rtranclp_induct) (auto dest: session_frame)

text \<open>Once the session is aborted, only the poll under way can still bring a request.\<close>

fun poll_pending :: "poll_at \<Rightarrow> nat" where
  "poll_pending Asking = 1"
| "poll_pending (Answered x) = 1"
| "poll_pending _ = 0"

lemma winding_down:
  "session_step rt opts x y \<Longrightarrow> ss_aborted (fst x) \<Longrightarrow>
   ss_aborted (fst y) \<and> prefix (ss_claimed (fst x)) (ss_claimed (fst y)) \<and>
   length (ss_claimed (fst y)) + poll_pending (ss_poll (fst y)) \<le> length (ss_claimed (fst x)) + poll_pending (ss_poll (fst x))"
  by (auto elim!: session_step.cases
      simp: loop_head_def loop_answer_def fail_def beat_def beat_answer_def stop_def Let_def split: sum.splits option.splits)

lemma wound_down:
  assumes "(session_step rt opts)\<^sup>*\<^sup>* x y" "ss_aborted (fst x)"
  shows "ss_aborted (fst y) \<and> prefix (ss_claimed (fst x)) (ss_claimed (fst y)) \<and>
   length (ss_claimed (fst y)) + poll_pending (ss_poll (fst y)) \<le> length (ss_claimed (fst x)) + poll_pending (ss_poll (fst x))"
  using assms
proof (induction rule: rtranclp_induct)
  case (step y z)
  then show ?case using winding_down [OF step(2)] by (auto intro: prefix_order.trans)
qed simp

text \<open>Claim C39. The host session, under every interleaving of its loop, its heartbeats and handlers with all other callers of
  the broker, with any calls lost on the way: it never processes more requests at once than its limit;
  it is handed no request twice, and each one it was handed is in the hands of one handler or has been
  answered, once; it fails only on the broker's word that the route is closed, expired or unknown, never
  on a lost call; and when it is stopped or has failed, at most the one poll under way still brings a
  request, and none does when the loop has ended.\<close>

theorem session_sound:
  assumes "(session_step rt opts)\<^sup>*\<^sup>* (new_session routeId connectionId target n, new_broker) (s, b)"
  shows "length (ss_handlers s) \<le> max 2 (case n of Some k \<Rightarrow> k | None \<Rightarrow> 16) \<and>
    distinct (ss_claimed s) \<and> mset (ss_claimed s) = mset (handed s) + mset (ss_answered s) \<and>
    (\<forall>e. ss_failure s = Some e \<longrightarrow> te_code e \<in> {TE_route_closed, TE_route_expired, TE_route_not_found}) \<and>
    (ss_poll s = Ended \<longrightarrow> ss_stopped s \<or> ss_failure s \<noteq> None) \<and>
    (\<forall>t c. (session_step rt opts)\<^sup>*\<^sup>* (s, b) (t, c) \<longrightarrow> ss_stopped s \<or> ss_failure s \<noteq> None \<longrightarrow>
      length (ss_claimed t) \<le> length (ss_claimed s) + (if ss_poll s = Ended then 0 else 1))"
proof -
  have inv: "session_inv opts (s, b)"
    by (rule session.reachable_inv [OF _ assms]) auto
  have limit: "ss_concurrency s = max 2 (case n of Some k \<Rightarrow> k | None \<Rightarrow> 16)"
    using session_frames [OF assms] by (cases n) (simp_all add: new_session_def DEFAULT_CONCURRENCY_def)
  have aborted: "ss_stopped s \<or> ss_failure s \<noteq> None \<longleftrightarrow> ss_aborted s"
    using inv by (auto simp: session_inv_def split: list.splits)
  have "length (ss_claimed t) \<le> length (ss_claimed s) + (if ss_poll s = Ended then 0 else 1)"
    if "(session_step rt opts)\<^sup>*\<^sup>* (s, b) (t, c)" "ss_stopped s \<or> ss_failure s \<noteq> None" for t c
    using wound_down [OF that(1)] that(2) aborted by (cases "ss_poll s") auto
  moreover have "te_code e \<in> {TE_route_closed, TE_route_expired, TE_route_not_found}" if "ss_failure s = Some e" for e
    using inv that by (auto simp: session_inv_def isFatalRouteError_def FATAL_ROUTE_CODES_def split: list.splits)
  moreover have "ss_poll s = Ended \<longrightarrow> ss_stopped s \<or> ss_failure s \<noteq> None"
    unfolding aborted using inv by (auto simp: session_inv_def)
  moreover have "length (ss_handlers s) \<le> max 2 (case n of Some k \<Rightarrow> k | None \<Rightarrow> 16)" "distinct (ss_claimed s)"
      "mset (ss_claimed s) = mset (handed s) + mset (ss_answered s)"
    using inv unfolding session_inv_def limit [symmetric] by auto
  ultimately show ?thesis by blast
qed

definition lab_runtime :: HostRuntime where
  "lab_runtime = \<lparr> hn_platform = \<lparr> pf_url = Some, pf_resolve = (\<lambda>path base. base @ path), pf_origin = Some,
       pf_sha256 = (\<lambda>t. t), pf_message = (\<lambda>e. ''error''), pf_locale_key = (\<lambda>t. 0), pf_asset = (\<lambda>_. None) \<rparr>,
     hn_fetch = (\<lambda>url httpMethod hs body.
       Some \<lparr> rp_status = 200, rp_headers = [(''content-type'', ''text/plain''), (''set-cookie'', ''c'')], rp_body = ''hello'' \<rparr>),
     hn_b64 = (\<lambda>s. s @ replicate ((4 * length s + 2) div 3 - length s) CHR ''A''),
     hn_unb64 = (\<lambda>s. take (length s * 3 div 4) s) \<rparr>"

text \<open>A session whose route the broker does not know.\<close>

definition lost_session :: HostSession where
  "lost_session = loop_answer (Inl (tunnel_error TE_route_not_found 404 ''no route matches these identifiers''))
     ((loop_head (new_session ''rte1'' ''c1'' ''http://h'' None))\<lparr> ss_poll :=
        Answered (Inl (tunnel_error TE_route_not_found 404 ''no route matches these identifiers'')) \<rparr>)"

lemma lost_session_reached:
  "(session_step lab_runtime default_options)\<^sup>*\<^sup>* (new_session ''rte1'' ''c1'' ''http://h'' None, new_broker) (lost_session, new_broker)"
proof -
  let ?s = "new_session ''rte1'' ''c1'' ''http://h'' None"
  let ?e = "Inl (tunnel_error TE_route_not_found 404 ''no route matches these identifiers'') :: TunnelError + ForwardedRequest option"
  have poll: "client_poll default_options NetOk 0 ''rte1'' ''c1'' new_broker = (?e, new_broker)"
    by (simp add: client_poll_def post_def claimRelay_def findByConnection_def new_broker_def)
  have "session_step lab_runtime default_options (?s, new_broker) (loop_head ?s, new_broker)"
    by (rule session_step.loop) (simp add: new_session_def)
  moreover have "session_step lab_runtime default_options (loop_head ?s, new_broker) ((loop_head ?s)\<lparr> ss_poll := Answered ?e \<rparr>, new_broker)"
    using poll by (intro session_step.poll [where net = NetOk and now = 0]) (simp_all add: loop_head_def new_session_def DEFAULT_CONCURRENCY_def)
  moreover have "session_step lab_runtime default_options ((loop_head ?s)\<lparr> ss_poll := Answered ?e \<rparr>, new_broker) (lost_session, new_broker)"
    unfolding lost_session_def by (rule session_step.answered) simp
  ultimately show ?thesis by (meson converse_rtranclp_into_rtranclp rtranclp.rtrancl_refl)
qed

lemma session_sound_witness:
  "ss_failure lost_session \<noteq> None \<and> ss_poll lost_session = Ended \<and> length (ss_handlers lost_session) \<le> 16 \<and>
   te_code (the (ss_failure lost_session)) \<in> {TE_route_closed, TE_route_expired, TE_route_not_found}"
proof -
  have "ss_failure lost_session \<noteq> None" "ss_poll lost_session = Ended" by code_simp+
  with session_sound [OF lost_session_reached] show ?thesis by auto
qed

text \<open>A heartbeat and a poll that both hear that the route is gone call \<open>onError\<close> twice.\<close>

lemma onError_twice:
  "\<exists>s. (session_step lab_runtime default_options)\<^sup>*\<^sup>* (new_session ''rte1'' ''c1'' ''http://h'' None, new_broker) (s, new_broker) \<and>
     length (ss_reported s) = 2"
proof -
  let ?e = "tunnel_error TE_route_not_found 404 ''no route matches these identifiers''"
  let ?run = "session_step lab_runtime default_options"
  define s0 s1 s2 where "s0 = new_session ''rte1'' ''c1'' ''http://h'' None" "s1 = loop_head s0" "s2 = beat s1"
  define s3 s4 where "s3 = s2\<lparr> ss_poll := Answered (Inl ?e) \<rparr>" "s4 = s3\<lparr> ss_beats := (ss_beats s3)[0 := Beaten (Some ?e)] \<rparr>"
  note defs = s0_s1_s2_def s3_s4_def loop_head_def beat_def new_session_def DEFAULT_CONCURRENCY_def
  have calls: "client_poll default_options NetOk 0 ''rte1'' ''c1'' new_broker = (Inl ?e, new_broker)"
      "client_heartbeat default_options NetOk 0 ''rte1'' ''c1'' new_broker = (Inl ?e, new_broker)"
    by (simp_all add: client_poll_def client_heartbeat_def post_def claimRelay_def heartbeat_def findByConnection_def new_broker_def)
  have "?run (s0, new_broker) (s1, new_broker)"
    unfolding s0_s1_s2_def(2) by (rule session_step.loop) (simp add: defs)
  moreover have "?run (s1, new_broker) (s2, new_broker)"
    unfolding s0_s1_s2_def(3) by (rule session_step.tick) (simp add: defs)
  moreover have "?run (s2, new_broker) (s3, new_broker)"
    unfolding s3_s4_def(1) using calls(1) by (intro session_step.poll [where net = NetOk and now = 0]) (simp_all add: defs)
  moreover have "?run (s3, new_broker) (s4, new_broker)"
    using session_step.heartbeat [of 0 s3 default_options NetOk 0 new_broker "Inl ?e" new_broker lab_runtime] calls(2)
    by (simp add: s3_s4_def(2)) (simp add: defs)
  moreover have "?run (s4, new_broker) (beat_answer 0 (Some ?e) s4, new_broker)"
    by (rule session_step.beaten) (simp_all add: defs)
  moreover have "?run (beat_answer 0 (Some ?e) s4, new_broker) (loop_answer (Inl ?e) (beat_answer 0 (Some ?e) s4), new_broker)"
    by (rule session_step.answered) (simp add: defs beat_answer_def fail_def isFatalRouteError_def Let_def)
  moreover have "length (ss_reported (loop_answer (Inl ?e) (beat_answer 0 (Some ?e) s4))) = 2"
    by (simp add: defs loop_answer_def beat_answer_def fail_def isFatalRouteError_def FATAL_ROUTE_CODES_def tunnel_error_def Let_def)
  ultimately show ?thesis unfolding s0_s1_s2_def(1) [symmetric] by (meson converse_rtranclp_into_rtranclp rtranclp.rtrancl_refl)
qed

end
