(* ===== verification/TunnelPath.thy ===== *)
theory TunnelPath
  imports HostSession Forum
begin

text \<open>
  The way of a request through the tunnel, end to end: what the room server is asked and what the
  participant gets, and the bounds of the direct way.
\<close>

subsection \<open>Headers on the way\<close>

lemma lower_slug: "list_all (\<lambda>c. c \<in> set slug_chars) a \<Longrightarrow> js_toLowerCase a = a"
  by (simp add: js_toLowerCase_def list_all_iff slug_char_lower map_idI)

lemma header_names: "list_all (list_all (\<lambda>c. c \<in> set slug_chars)) (ENVELOPE_HEADERS @ FORWARDED_RESPONSE_HEADERS)"
  by code_simp

lemma lower_envelope: "a \<in> set ENVELOPE_HEADERS \<Longrightarrow> js_toLowerCase a = a"
  using header_names lower_slug [of a] unfolding list_all_iff by auto

lemma lower_response: "a \<in> set FORWARDED_RESPONSE_HEADERS \<Longrightarrow> js_toLowerCase a = a"
  using header_names lower_slug [of a] unfolding list_all_iff by auto

lemma envelope_split: "set ENVELOPE_HEADERS = set FORWARDED_REQUEST_HEADERS \<union> {''origin'', ''referer''}"
proof -
  have split: "ENVELOPE_HEADERS = FORWARDED_REQUEST_HEADERS @ [''origin'', ''referer'']"
    by (simp add: ENVELOPE_HEADERS_def FORWARDED_REQUEST_HEADERS_def)
  show ?thesis unfolding split set_append by simp
qed

lemma translated:
  assumes "fst ` set hs \<subseteq> set ENVELOPE_HEADERS" "distinct (map fst hs)"
  shows "map_of (foldl (translate_header origin) acc hs) k =
    (case map_of hs k of
       Some v \<Rightarrow> Some (if k = ''origin'' then origin else if k = ''referer'' then origin @ ''/'' else v)
     | None \<Rightarrow> map_of acc k)"
  using assms
proof (induction hs arbitrary: acc)
  case (Cons h hs)
  obtain a v where h: "h = (a, v)" by (cases h)
  with Cons(2) have mem: "a \<in> set ENVELOPE_HEADERS" by simp
  then have low: "js_toLowerCase a = a" by (rule lower_envelope)
  have "a \<in> set FORWARDED_REQUEST_HEADERS" if "a \<noteq> ''origin''" "a \<noteq> ''referer''"
    using mem that unfolding envelope_split by simp
  then have head: "translate_header origin acc h = AList.update a (if a = ''origin'' then origin else if a = ''referer'' then origin @ ''/'' else v) acc"
    unfolding h translate_header_def Let_def fst_conv snd_conv low by (cases "a = ''origin''"; cases "a = ''referer''") simp_all
  have none: "map_of hs a = None" using Cons(3) h by (simp add: map_of_eq_None_iff)
  have "map_of (translate_header origin acc h) k =
      (if k = a then Some (if a = ''origin'' then origin else if a = ''referer'' then origin @ ''/'' else v) else map_of acc k)"
    unfolding head by (simp add: update_conv')
  moreover have "fst ` set hs \<subseteq> set ENVELOPE_HEADERS" "distinct (map fst hs)" using Cons(2,3) by simp_all
  note Cons(1) [OF this, of "translate_header origin acc h"]
  ultimately show ?case using none by (cases "k = a") (simp_all add: h split: option.split)
qed simp

lemma selected_distinct: "distinct (map fst (selectEnvelopeHeaders hs))"
proof -
  have "distinct (map fst acc) \<Longrightarrow> distinct (map fst (foldl (\<lambda>hs (nm, v). if js_toLowerCase nm \<in> set ENVELOPE_HEADERS
      then AList.update (js_toLowerCase nm) v hs else hs) acc hs))" for acc
    by (induction hs arbitrary: acc) (auto simp: distinct_update split: prod.splits)
  then show ?thesis by (simp add: selectEnvelopeHeaders_def)
qed

text \<open>What the room server sees of the participant's headers.\<close>

definition seen_header :: "string \<Rightarrow> (string \<times> string) list \<Rightarrow> string \<Rightarrow> string option" where
  "seen_header origin headers k = (case map_of (selectEnvelopeHeaders headers) k of
     None \<Rightarrow> None
   | Some v \<Rightarrow> Some (if k = ''origin'' then origin else if k = ''referer'' then origin @ ''/'' else v))"

lemma seen_headers:
  "map_of (translateEnvelopeHeaders (selectEnvelopeHeaders headers) origin) = seen_header origin headers"
  by (rule ext) (simp add: translateEnvelopeHeaders_def translated selected_headers selected_distinct seen_header_def split: option.split)

lemma answered_headers:
  "foldl (\<lambda>hs (nm, v). if js_toLowerCase nm \<in> set FORWARDED_RESPONSE_HEADERS then AList.update (js_toLowerCase nm) v hs else hs) []
     (selectForwardedResponseHeaders headers) = selectForwardedResponseHeaders headers"
proof -
  let ?step = "\<lambda>hs (nm, v). if js_toLowerCase nm \<in> set FORWARDED_RESPONSE_HEADERS then AList.update (js_toLowerCase nm) v hs else hs"
  have "foldl ?step acc (List.map_filter (\<lambda>name. map_option (\<lambda>v. (name, v)) (map_of headers name)) names) =
      acc @ List.map_filter (\<lambda>name. map_option (\<lambda>v. (name, v)) (map_of headers name)) names"
    if "distinct names" "set names \<subseteq> set FORWARDED_RESPONSE_HEADERS" "fst ` set acc \<inter> set names = {}" for acc names
    using that
  proof (induction names arbitrary: acc)
    case (Cons name names)
    then have low: "js_toLowerCase name = name" by (intro lower_response) simp
    have new: "AList.update name v acc = acc @ [(name, v)]" for v using Cons(4) by (intro update_new) auto
    show ?case
    proof (cases "map_of headers name")
      case None
      then show ?thesis using Cons by (simp add: List.map_filter_simps)
    next
      case (Some v)
      then show ?thesis using Cons(1) [of "acc @ [(name, v)]"] Cons(2-4) by (simp add: List.map_filter_simps low new)
    qed
  qed (simp add: List.map_filter_simps)
  moreover have "distinct FORWARDED_RESPONSE_HEADERS" by code_simp
  ultimately show ?thesis by (simp add: selectForwardedResponseHeaders_def)
qed

subsection \<open>A request all the way\<close>

text \<open>What a relayed request leaves in the relay, with the path the code cuts out of the URL.\<close>

definition asked_path :: "string \<Rightarrow> string \<Rightarrow> string \<Rightarrow> string" where
  "asked_path slug pathname search =
     (let cut = drop (length slug + 1) pathname in (if cut = [] then ''/'' else cut) @ search)"

lemma relayed_body:
  "relay_start opts b64 reqId now slug input b = (Inr (Relayed i body), b') \<Longrightarrow>
   body = (if fw_method input \<in> {''GET'', ''HEAD''} \<or> fw_body input = [] then None else Some (fw_body input))"
  by (auto simp: relay_start_def bindA_Inr_iff readBody_def split: if_splits option.splits)

lemma released_guards:
  "tb_guards (snd (relay_finish unb64 slug path h body outcome b)) = release h (tb_guards b)"
  by (cases outcome) (simp_all add: relay_finish_def guard_release_def bindA_apply Let_def)

lemma relayed_envelope:
  assumes "handleParticipantRequest opts b64 adm reqId now pathname input b = (Inr (Inr (h, Relayed i body)), b1)"
  shows "\<exists>slug rest. filter (\<lambda>x. x \<noteq> []) (js_split CHR ''/'' pathname) = slug # rest \<and> i = reqId \<and>
    tb_relay b1 = enqueue slug \<lparr> fq_request_id = [], fq_route_slug = slug, fq_method = fw_method input,
      fq_path = asked_path slug pathname (fw_search input), fq_headers = selectEnvelopeHeaders (fw_headers input),
      fq_body = map_option b64 body \<rparr> reqId (tb_relay b) \<and>
    tb_meter b1 = tb_meter b \<and>
    (\<forall>s. outstanding s (tb_guards b1) = outstanding s (tb_guards b) + (if s = slug then 1 else 0)) \<and>
    body = (if fw_method input \<in> {''GET'', ''HEAD''} \<or> fw_body input = [] then None else Some (fw_body input)) \<and>
    (\<forall>s. outstanding s (release h (tb_guards b1)) = outstanding s (tb_guards b))"
proof (cases "filter (\<lambda>x. x \<noteq> []) (js_split CHR ''/'' pathname)")
  case Nil
  with assms show ?thesis by (simp add: handleParticipantRequest_def)
next
  case (Cons slug rest)
  let ?cut = "drop (length slug + 1) pathname"
  let ?input = "input\<lparr> fw_path := if ?cut = [] then ''/'' else ?cut \<rparr>"
  have "\<exists>rs. forward_start opts b64 adm reqId now slug ?input (b\<lparr> tb_routes := rs \<rparr>) = (Inr (h, Relayed i body), b1)"
    using assms Cons
    by (fastforce simp: handleParticipantRequest_def resolve_def currentRoute_apply bindA_apply Let_def
        split: option.splits if_splits sum.splits prod.splits)
  then obtain rs where run: "forward_start opts b64 adm reqId now slug ?input (b\<lparr> tb_routes := rs \<rparr>) = (Inr (h, Relayed i body), b1)" ..
  note slot = forward_slot_balanced [OF run]
  obtain b' where start: "relay_start opts b64 reqId now slug ?input b' = (Inr (Relayed i body), b1)"
      "tb_relay b' = tb_relay b"
    using run
    by (auto simp: forward_start_def guard_enter_def bindA_apply or_release_def
        dest!: touch_frame split: option.splits sum.splits prod.splits)
  have freed: "outstanding s (release h (tb_guards b1)) = outstanding s (tb_guards b)" for s
    using slot by (simp add: released_guards)
  from relay_start_outcome [OF start(1)] start(2) slot freed relayed_body [OF start(1)] show ?thesis
    by (intro exI [of _ slug] exI [of _ rest]) (simp add: Cons asked_path_def Let_def)
qed

text \<open>The host that attends the route takes the request at the head of the queue and answers it.\<close>

lemma attended:
  assumes inv: "broker_inv opts b1"
    and queue: "unclaimed slug (rh_inflight (tb_relay b1)) = i # rest"
      "map_of (rh_inflight (tb_relay b1)) i = Some item"
    and host: "findByConnection opts t (Some (JStr rid)) (Some (JStr cid)) b1 = (Inr r, b2)"
      "rm_route_slug r = slug" "rm_status r = Route_active"
    and fits: "(case fr_body (claim_response rt target (ri_envelope item)) of Some s \<Rightarrow> base64_byteLength s | None \<Rightarrow> 0)
      \<le> bl_responseBodyBytes (opt_limits opts)"
  shows "\<exists>b3. attendOnce opts rt NetOk NetOk t rid cid target b1 = (Inr True, b3) \<and>
    rh_settled (tb_relay b3) = rh_settled (tb_relay b1) @ [(i, Inr (claim_response rt target (ri_envelope item)))] \<and>
    tb_guards b3 = tb_guards b1 \<and> tb_meter b3 = tb_meter b1"
proof -
  have rinv: "relay_inv (tb_relay b1)" using broker_inv_parts(2) [OF inv] .
  obtain hub where hub: "claim slug (tb_relay b1) = (Some (ri_envelope item), hub)"
      "rh_inflight hub = AList.update i (item\<lparr> ri_claimed := True \<rparr>) (rh_inflight (tb_relay b1))"
      "rh_settled hub = rh_settled (tb_relay b1)"
    using claim_some [OF rinv queue(1)] queue(2) by auto
  have i: "fq_request_id (ri_envelope item) = i" using rinv queue(2) by (simp add: relay_inv_def)
  have hinv: "relay_inv hub" using claim_inv [OF rinv, of slug] hub(1) by simp
  let ?r = "r\<lparr> rm_last_heartbeat_at := t, rm_last_seen_at := t, rm_expires_at := t + opt_routeTtlMs opts \<rparr>"
  have f: "b2 = b1\<lparr> tb_routes := AList.update slug r (tb_routes b1) \<rparr>"
    using host by (auto simp: findByConnection_def bindA_Inr_iff split: option.splits)
  define b' where "b' = b1\<lparr> tb_routes := AList.update slug ?r (tb_routes b1), tb_relay := hub \<rparr>"
  have polled: "client_poll opts NetOk t rid cid b1 = (Inr (Some (ri_envelope item)), b')"
    using host hub(1) f by (simp add: client_poll_def post_def claimRelay_def touch_def update_conv' b'_def)
  have again: "findByConnection opts t (Some (JStr rid)) (Some (JStr cid)) b' = (Inr (refresh opts t ?r),
      b'\<lparr> tb_routes := AList.update slug (refresh opts t ?r) (tb_routes b') \<rparr>)"
    using find_again [OF inv host(1), of b' ?r t] host(2) by (simp add: b'_def)
  let ?out = "claim_response rt target (ri_envelope item)"
  have "respond (bl_responseBodyBytes (opt_limits opts)) i ?out hub = (Inr (), settle i (Inr ?out) hub)"
    using fits by (simp add: respond_settle hub(2) update_conv' Let_def)
  then have "handleClaim opts rt NetOk t rid cid (ri_envelope item) target b' =
      (Inr (), b'\<lparr> tb_routes := AList.update slug (refresh opts t ?r) (tb_routes b'), tb_relay := settle i (Inr ?out) hub \<rparr>)"
    using again by (simp add: handleClaim_def client_respond_def post_def respondRelay_def i b'_def)
  moreover have "rh_settled (settle i (Inr ?out) hub) = rh_settled (tb_relay b1) @ [(i, Inr ?out)]"
    using settle_parts(2) [OF hinv, of i] by (simp add: hub update_conv')
  ultimately show ?thesis using polled by (simp add: attendOnce_def b'_def)
qed

lemma local_answer:
  assumes base: "normalizeBaseUrl (hn_platform rt) target = Some base" "pf_origin (hn_platform rt) base = Some origin"
    and page: "hn_fetch rt (target_url base (fq_path q)) (fq_method q) (translateEnvelopeHeaders (fq_headers q) origin) body = Some page"
      "length (rp_body page) \<le> RELAY_RESPONSE_BODY_BYTES"
    and sent: "fq_body q = map_option (hn_b64 rt) body" "body \<noteq> None \<longrightarrow> fq_method q \<notin> {''GET'', ''HEAD''}"
    and codec: "\<And>s. hn_unb64 rt (hn_b64 rt s) = s"
  shows "claim_response rt target q = \<lparr> fr_status = rp_status page,
    fr_headers = selectForwardedResponseHeaders (rp_headers page),
    fr_body = (if rp_body page = [] then None else Some (hn_b64 rt (rp_body page))) \<rparr>"
  using assms by (cases body) (simp_all add: claim_response_def relayToLocalServer_def Let_def)

text \<open>Claim C40. A request through the tunnel, end to end. When a participant's request for a slug is
  relayed and its host, the one attending that route, polls the broker once, the room server is asked for the
  target's URL with the slug cut off and the search kept, with the same method, the same body (none for
  GET and HEAD), and of the headers only the allowed ones, with origin and referer rewritten to the
  target's; and if it answers within the limits, the participant gets exactly its status and body with the
  allowed response headers, the request's slot is free again, and the transfer is metered once.\<close>

theorem tunnel_answers:
  assumes "broker_reachable opts b"
    and fresh: "reqId \<notin> fst ` set (rh_inflight (tb_relay b)) \<union> fst ` set (rh_settled (tb_relay b))"
    and visit: "handleParticipantRequest opts (hn_b64 rt) admission reqId now pathname input b =
        (Inr (Inr (h, Relayed i body)), b1)"
      "filter (\<lambda>x. x \<noteq> []) (js_split CHR ''/'' pathname) = slug # rest"
      "unclaimed slug (rh_inflight (tb_relay b)) = []"
    and host: "findByConnection opts t (Some (JStr routeId)) (Some (JStr connectionId)) b1 = (Inr route, b2)"
      "rm_route_slug route = slug" "rm_status route = Route_active"
    and server: "normalizeBaseUrl (hn_platform rt) target = Some base" "pf_origin (hn_platform rt) base = Some origin"
      "\<And>hs. map_of hs = seen_header origin (fw_headers input) \<Longrightarrow>
         hn_fetch rt (target_url base (asked_path slug pathname (fw_search input))) (fw_method input) hs
           (if fw_method input \<in> {''GET'', ''HEAD''} \<or> fw_body input = [] then None else Some (fw_body input)) = Some page"
      "length (rp_body page) \<le> RELAY_RESPONSE_BODY_BYTES"
      "length (rp_body page) \<le> bl_responseBodyBytes (opt_limits opts)"
    and codec: "\<And>s. hn_unb64 rt (hn_b64 rt s) = s" "\<And>s. base64_byteLength (hn_b64 rt s) = length s"
  shows "\<exists>b3 response b4. attendOnce opts rt NetOk NetOk t routeId connectionId target b1 = (Inr True, b3) \<and>
    rh_settled (tb_relay b3) = rh_settled (tb_relay b) @ [(reqId, Inr response)] \<and>
    relay_finish (hn_unb64 rt) slug path h body (Inr response) b3 =
      (Inr (rp_status page, selectForwardedResponseHeaders (rp_headers page), rp_body page), b4) \<and>
    (\<forall>s. outstanding s (tb_guards b4) = outstanding s (tb_guards b)) \<and>
    tb_meter b4 = tb_meter b @ [PublicForward slug path
      (if fw_method input \<in> {''GET'', ''HEAD''} then 0 else length (fw_body input)) (length (rp_body page))]"
proof -
  have inv: "broker_inv opts b" using broker.reachable_inv [OF refl assms(1)] .
  have inv1: "broker_inv opts b1" using request_ok [OF inv fresh, of now "hn_b64 rt" admission pathname input] visit(1)
    by (simp add: step_ok_def)
  let ?env = "\<lparr> fq_request_id = reqId, fq_route_slug = slug, fq_method = fw_method input,
      fq_path = asked_path slug pathname (fw_search input), fq_headers = selectEnvelopeHeaders (fw_headers input),
      fq_body = map_option (hn_b64 rt) body \<rparr>"
  have rel: "tb_relay b1 = enqueue slug (?env\<lparr> fq_request_id := [] \<rparr>) reqId (tb_relay b)" "tb_meter b1 = tb_meter b"
    and body: "body = (if fw_method input \<in> {''GET'', ''HEAD''} \<or> fw_body input = [] then None else Some (fw_body input))"
    and freed: "\<And>s. outstanding s (release h (tb_guards b1)) = outstanding s (tb_guards b)"
    using relayed_envelope [OF visit(1)] visit(2) by auto
  let ?item = "\<lparr> ri_envelope = ?env, ri_slug = slug, ri_claimed = False \<rparr>"
  have "rh_inflight (tb_relay b1) = rh_inflight (tb_relay b) @ [(reqId, ?item)]"
    using fresh by (auto simp: rel enqueue_def intro!: update_new)
  moreover have "map_of (rh_inflight (tb_relay b)) reqId = None" using fresh by (simp add: map_of_eq_None_iff)
  ultimately have queue: "unclaimed slug (rh_inflight (tb_relay b1)) = reqId # []" "map_of (rh_inflight (tb_relay b1)) reqId = Some ?item"
    using visit(3) by (simp_all add: unclaimed_def map_add_def)
  let ?out = "\<lparr> fr_status = rp_status page, fr_headers = selectForwardedResponseHeaders (rp_headers page),
    fr_body = (if rp_body page = [] then None else Some (hn_b64 rt (rp_body page))) \<rparr>"
  have out: "claim_response rt target ?env = ?out"
    using server(3) [OF seen_headers] body by (intro local_answer [OF server(1,2) _ server(4) _ _ codec(1)]) auto
  then have out_item: "claim_response rt target (ri_envelope ?item) = ?out" by simp
  have fits: "(case fr_body ?out of Some s \<Rightarrow> base64_byteLength s | None \<Rightarrow> 0) \<le> bl_responseBodyBytes (opt_limits opts)"
    using server(5) codec(2) by simp
  obtain b3 where b3: "attendOnce opts rt NetOk NetOk t routeId connectionId target b1 = (Inr True, b3)"
      "rh_settled (tb_relay b3) = rh_settled (tb_relay b1) @ [(reqId, Inr ?out)]"
      "tb_guards b3 = tb_guards b1" "tb_meter b3 = tb_meter b1"
    using attended [OF inv1 queue host, of rt target] fits unfolding out_item by blast
  obtain y b4 where fin: "relay_finish (hn_unb64 rt) slug path h body (Inr ?out) b3 = (y, b4)" by fastforce
  from fin have "tb_guards b4 = release h (tb_guards b1)"
    using released_guards [of "hn_unb64 rt" slug path h body "Inr ?out" b3] b3(3) by simp
  moreover from fin have "y = Inr (rp_status page, selectForwardedResponseHeaders (rp_headers page), rp_body page)"
      "tb_meter b4 = tb_meter b3 @ [PublicForward slug path (case body of Some s \<Rightarrow> length s | None \<Rightarrow> 0) (length (rp_body page))]"
    using codec(1) by (auto simp: relay_finish_def guard_release_def Let_def answered_headers)
  ultimately show ?thesis using b3 fin freed rel body
    by (intro exI [of _ b3] exI [of _ ?out] exI [of _ b4]) (simp add: enqueue_def)
qed

text \<open>A message sent through the laboratory's route.\<close>

definition lab_post :: ForwardInput where
  "lab_post = \<lparr> fw_path = ''/'', fw_search = ''?x=1'', fw_method = ''POST'', fw_clientIp = [],
     fw_headers = [(''origin'', ''http://public''), (''cookie'', ''c'')], fw_body = ''hi'' \<rparr>"

lemma lab_post_relayed:
  "\<exists>b1. handleParticipantRequest default_options (hn_b64 lab_runtime) (Inr ()) ''q1'' 5 ''/lab/api'' lab_post lab_broker =
     (Inr (Inr (0, Relayed ''q1'' (Some ''hi''))), b1) \<and>
   (\<exists>b2. findByConnection default_options 6 (Some (JStr ''rte1'')) (Some (JStr ''c1'')) b1 =
     (Inr (lab_route\<lparr> rm_last_seen_at := 5, rm_expires_at := 5 + opt_routeTtlMs default_options \<rparr>), b2))"
proof -
  have fresh: "refresh default_options n lab_route = lab_route"
      "refresh default_options n (lab_route\<lparr> rm_last_seen_at := 5, rm_expires_at := 5 + opt_routeTtlMs default_options \<rparr>) =
       lab_route\<lparr> rm_last_seen_at := 5, rm_expires_at := 5 + opt_routeTtlMs default_options \<rparr>" if "n = 5 \<or> n = 6" for n
    using that by (auto simp: refresh_def lab_route_def default_options_def BROKER_LIMITS_def)
  have names: "rm_route_slug lab_route = ''lab''" "rm_status lab_route = Route_active" "rm_host_connected lab_route"
      "rm_route_id lab_route = ''rte1''" "rm_host_connection_id lab_route = ''c1''"
    by (simp_all add: lab_route_def)
  have rest: "tb_guards lab_broker = new_guards" "tb_relay lab_broker = new_hub"
    using lab_slug by (simp_all add: lab_broker_def register_def lab_registration_def currentRoute_apply new_broker_def Let_def)
  have limit: "bl_requestBodyBytes (opt_limits default_options) = 65536"
    by (simp add: default_options_def BROKER_LIMITS_def)
  have "classifyPath ''/api'' \<noteq> ''wait''" by code_simp
  moreover have "\<exists>g. enter (opt_limits default_options) 5 \<lparr> gi_routeSlug = ''lab'', gi_clientIp = [], gi_isWait = False,
      gi_authenticated = False \<rparr> new_guards = (Inr 0, g)"
    by (simp add: enter_def admit_route_def admit_ip_def admitRate_def new_guards_def counts_of_def default_options_def BROKER_LIMITS_def
        bindA_apply)
  ultimately show ?thesis
    by (auto simp: handleParticipantRequest_def resolve_def currentRoute_apply lab_broker_routes fresh names rest
        forward_start_def guard_enter_def lab_post_def touch_def or_release_def relay_start_def readBody_def findByConnection_def
        bindA_apply limit Let_def)
qed

lemma unpadded: "last t \<noteq> CHR ''='' \<Longrightarrow> base64_byteLength t = length t * 3 div 4"
  by (cases "t = []") (auto simp: base64_byteLength_def Let_def last_conv_nth)

lemma lab_codec:
  "hn_unb64 lab_runtime (hn_b64 lab_runtime s) = s" "base64_byteLength (hn_b64 lab_runtime s) = length s"
proof -
  have sizes: "(4 * n + 2) div 3 * 3 div 4 = (n :: nat)" for n by presburger
  show "hn_unb64 lab_runtime (hn_b64 lab_runtime s) = s"
    using sizes [of "length s"] by (simp add: lab_runtime_def)
  show "base64_byteLength (hn_b64 lab_runtime s) = length s"
  proof (cases s)
    case Nil
    then show ?thesis by (simp add: lab_runtime_def base64_byteLength_def)
  next
    case (Cons c cs)
    let ?n = "length s"
    have "?n < (4 * ?n + 2) div 3" using Cons by simp
    then have "last (s @ replicate ((4 * ?n + 2) div 3 - ?n) CHR ''A'') = CHR ''A''" by simp
    then show ?thesis using sizes [of ?n] by (simp add: lab_runtime_def unpadded)
  qed
qed

lemma lab_server:
  "normalizeBaseUrl (hn_platform lab_runtime) ''http://h'' = Some ''http://h''"
  "pf_origin (hn_platform lab_runtime) ''http://h'' = Some ''http://h''"
  "hn_fetch lab_runtime url httpMethod hs body = Some \<lparr> rp_status = 200,
     rp_headers = [(''content-type'', ''text/plain''), (''set-cookie'', ''c'')], rp_body = ''hello'' \<rparr>"
  by (simp_all add: lab_runtime_def normalizeBaseUrl_def ends_with_def starts_with_def)

lemma lab_limits:
  "length ''hello'' \<le> RELAY_RESPONSE_BODY_BYTES" "length ''hello'' \<le> bl_responseBodyBytes (opt_limits default_options)"
  by (simp_all add: RELAY_RESPONSE_BODY_BYTES_def default_options_def BROKER_LIMITS_def)

lemma tunnel_answers_witness:
  "\<exists>b1 b3. handleParticipantRequest default_options (hn_b64 lab_runtime) (Inr ()) ''q1'' 5 ''/lab/api'' lab_post lab_broker =
     (Inr (Inr (0, Relayed ''q1'' (Some ''hi''))), b1) \<and>
   attendOnce default_options lab_runtime NetOk NetOk 6 ''rte1'' ''c1'' ''http://h'' b1 = (Inr True, b3) \<and>
   fst (relay_finish (hn_unb64 lab_runtime) ''lab'' ''/api'' 0 (Some ''hi'') (snd (hd (rh_settled (tb_relay b3)))) b3) =
     Inr (200, [(''content-type'', ''text/plain'')], ''hello'')"
proof -
  obtain b1 b2 where run: "handleParticipantRequest default_options (hn_b64 lab_runtime) (Inr ()) ''q1'' 5 ''/lab/api'' lab_post lab_broker =
      (Inr (Inr (0, Relayed ''q1'' (Some ''hi''))), b1)"
    and found: "findByConnection default_options 6 (Some (JStr ''rte1'')) (Some (JStr ''c1'')) b1 =
      (Inr (lab_route\<lparr> rm_last_seen_at := 5, rm_expires_at := 5 + opt_routeTtlMs default_options \<rparr>), b2)"
    using lab_post_relayed by blast
  have relay: "tb_relay lab_broker = \<lparr> rh_pending = [], rh_inflight = [], rh_settled = [] \<rparr>"
    using lab_slug by (simp add: lab_broker_def register_def lab_registration_def currentRoute_apply new_broker_def Let_def new_hub_def)
  have segments: "filter (\<lambda>x. x \<noteq> []) (js_split CHR ''/'' ''/lab/api'') = [''lab'', ''api'']" by simp
  have fresh: "''q1'' \<notin> fst ` set (rh_inflight (tb_relay lab_broker)) \<union> fst ` set (rh_settled (tb_relay lab_broker))"
      "unclaimed ''lab'' (rh_inflight (tb_relay lab_broker)) = []"
    by (simp_all add: relay unclaimed_def)
  have route: "rm_route_slug (lab_route\<lparr> rm_last_seen_at := 5, rm_expires_at := 5 + opt_routeTtlMs default_options \<rparr>) = ''lab''"
      "rm_status (lab_route\<lparr> rm_last_seen_at := 5, rm_expires_at := 5 + opt_routeTtlMs default_options \<rparr>) = Route_active"
    by (simp_all add: lab_route_def)
  let ?page = "\<lparr> rp_status = 200, rp_headers = [(''content-type'', ''text/plain''), (''set-cookie'', ''c'')], rp_body = ''hello'' \<rparr>"
  have limits: "length (rp_body ?page) \<le> RELAY_RESPONSE_BODY_BYTES"
      "length (rp_body ?page) \<le> bl_responseBodyBytes (opt_limits default_options)"
    unfolding HttpResponse.select_convs by (rule lab_limits)+
  have answer: "selectForwardedResponseHeaders [(''content-type'', ''text/plain''), (''set-cookie'', ''c'')] = [(''content-type'', ''text/plain'')]"
    by code_simp
  obtain b3 response b4 where fin: "attendOnce default_options lab_runtime NetOk NetOk 6 ''rte1'' ''c1'' ''http://h'' b1 = (Inr True, b3)"
      "rh_settled (tb_relay b3) = [(''q1'', Inr response)]"
      "relay_finish (hn_unb64 lab_runtime) ''lab'' ''/api'' 0 (Some ''hi'') (Inr response) b3 =
        (Inr (200, [(''content-type'', ''text/plain'')], ''hello''), b4)"
    using tunnel_answers [OF lab_broker_reachable fresh(1) run segments fresh(2) found route lab_server(1,2) lab_server(3) limits
      lab_codec, of "''/api''"] by (auto simp: relay answer)
  then show ?thesis using run by (intro exI [of _ b1] exI [of _ b3]) simp
qed

end
