(* ===== verification/Spec2Isabelle.thy ===== *)
theory Spec2Isabelle
  imports Attention Mentions Messages Boardroom Forum Interfaces RoomFiles RoomStore BoardroomStore ForumStore
    Tunnel Relay Broker JoinedRooms ServerReplies ServerPolls ServerPauses ServerPaging ServerRates CardTokens
    WriterLock Metering PlatformReplies TunnelPath
begin

text \<open>
  A model of agentgather: rooms in which agents and humans exchange messages, hosted on one machine,
  reachable through a tunnel, and listed on a local dashboard. All source paths are under \<open>src/\<close>.

  \<^bold>\<open>The program and its parts.\<close> A room is a directory of files. The stores (\<open>storage/\<close>) read and write
  them; the room server (\<open>server/\<close>) answers HTTP requests with the operations of the stores, holds
  long polls and runs the timers of the loop guard; the wire shapes, the parsers and the checks are in
  \<open>protocol/\<close>. A host may publish its room server through a broker (\<open>tunnel/\<close>): the broker keeps one
  route per slug, queues participant requests, and the host polls for them, asks its own room server
  and answers. The control plane (\<open>platform/\<close>) keeps a registry of an owner's rooms, derives their status
  from the broker and the host, meters public routes, and serves the dashboard, which also lists the
  rooms this device has joined with their offline snapshots. Read-modify-write operations on files
  run under a writer lock (\<open>storage/lock.ts\<close>).

  \<^bold>\<open>Theories and sources.\<close> \<open>Prelude\<close>, \<open>JsLib\<close> and \<open>JsNumber\<close> hold what the sources take from JavaScript:
  errors as values, state-and-error actions (\<open>bindA\<close>), files that may be missing or unreadable, JSON
  values, strings, and \<open>Number(text)\<close>. \<open>Interfaces\<close> holds the contracts as locales (a transition
  system with an invariant, a refinement, a log that only grows, a keyed store, a rate limiter, and
  others declared beside their clients); each is interpreted on the model's own definitions.
  \<^item> protocol: \<open>Types\<close> (\<open>types.ts\<close>, \<open>validation.ts\<close>), \<open>Attention\<close> (\<open>attention.ts\<close>, \<open>attendance.ts\<close>,
    \<open>wake-tier.ts\<close>), \<open>Mentions\<close>, \<open>Messages\<close>, \<open>Boardroom\<close>, \<open>Forum\<close> (the files of the same names),
    \<open>Cards\<close> and \<open>CardTokens\<close> (\<open>adapter.ts\<close>, \<open>instructions.ts\<close> and the card pages of \<open>server/http.ts\<close>).
  \<^item> storage: \<open>RoomFiles\<close> (the record \<open>RoomFiles\<close> of a room's files), \<open>RoomStore\<close>, \<open>BoardroomStore\<close>,
    \<open>ForumStore\<close>, \<open>Redaction\<close> and \<open>JoinedHistory\<close> (\<open>joined-history-store.ts\<close>), \<open>JoinedRooms\<close>,
    \<open>WriterLock\<close>.
  \<^item> server: \<open>ServerCore\<close> (authentication, parameters, rate limits, the wait hub), \<open>RoomServer\<close> (one
    definition per endpoint and \<open>handleRequest\<close>, which composes them as \<open>createRoomHttpServer\<close> does);
    \<open>ServerEffects\<close>, \<open>ServerReplies\<close>, \<open>ServerRuns\<close>, \<open>ServerConfined\<close>, \<open>ServerSystem\<close>, \<open>ServerPolls\<close>,
    \<open>ServerPauses\<close>, \<open>ServerPaging\<close>, \<open>ServerRates\<close> prove what the server does over whole runs.
  \<^item> tunnel: \<open>Tunnel\<close> (\<open>protocol.ts\<close>, \<open>logging.ts\<close>, \<open>limits.ts\<close>), \<open>Relay\<close>, \<open>Broker\<close>, \<open>TunnelClient\<close>
    (\<open>forwarding.ts\<close>, \<open>client.ts\<close>), \<open>HostSession\<close> (\<open>host-session.ts\<close>); \<open>TunnelPath\<close> proves what happens to a
    request on its way.
  \<^item> platform: \<open>Metering\<close>, \<open>PlatformStatus\<close>, \<open>Accounts\<close>, \<open>Registry\<close>, \<open>PlatformApi\<close>, and for \<open>http.ts\<close>
    \<open>PlatformBridge\<close> (what is accepted from outside), \<open>PlatformHttp\<close> (every handler), \<open>PlatformRuns\<close> (what
    requests change) and \<open>PlatformReplies\<close> (what they are answered).

  \<^bold>\<open>State and operations.\<close> Each component keeps its state in one record with the fields of the source:
  \<open>RoomFiles\<close> for a room directory, \<open>RoomServer\<close> for the memory of the server with its files, waiters,
  rate buckets and pending continuations, \<open>Broker\<close>, \<open>RelayHub\<close> and \<open>BrokerGuards\<close> for the tunnel,
  \<open>LockWorld\<close> for the lock directory and the tasks that use it, \<open>DeviceHome\<close> for joined rooms and
  snapshots, \<open>HostSession\<close> for the host's end of the tunnel, \<open>PlatformState\<close> for the dashboard. An operation is an action: it takes the state and
  returns an error or a value, and the new state. The order of checks, reads and writes is the one of
  the source, so an error leaves exactly the writes that came before it. Interleaving is explicit:
  \<open>server_step\<close>, \<open>relay_step\<close>, \<open>broker_step\<close>, \<open>race_step\<close>, \<open>platform_step\<close>, \<open>session_step\<close> and \<open>lock_step\<close> take one
  request, timer, file-system call or crash at a time, and the invariants hold under every sequence.

  \<^bold>\<open>What the lemmas show.\<close>
  \<^item> Stores: the log of a room only grows and its ids stay unique and ordered, also after a crash and
    recovery; a repeated append stores nothing; one active session; posts and comments are never lost;
    stored boardrooms stay valid; the joined-rooms list refines a map from rooms to rows; snapshots stay
    within their caps and carry no credentials; no snapshot outlives its row.
  \<^item> Writer lock: which schedules break it, and that it excludes under all others.
  \<^item> Server: what a request of a participant can change, what every reply and refusal looks like, that
    the files move by store operations only, that no held poll is lost and a message wakes all of them,
    one timer per pause, the bound of the loop guard, complete paging, the rate bound.
  \<^item> Tunnel: a relayed request is settled once, the counters match the requests in flight, an attended
    route keeps its host; a host session keeps its bounds and answers every request it is handed once,
    whatever calls are lost; a relayed request comes to the room server and its answer back unchanged.
  \<^item> Platform: exact tallies, no forwarding over quota, a status that never overstates, a registry that
    stores only what may be central, reads that depend on the owner's rooms only, a dashboard that can be
    written from this machine's pages only, within bounds, one room at a time.

  \<^bold>\<open>Parameters.\<close> What the code takes from its platform is an argument: \<open>Runtime\<close> (the URL constructor
  and the parsing and printing of dates), the digest of file names and of tokens, generated ids and
  tokens, the clock, the package's file map, the replies of \<open>fetch\<close>, base64, and the text of a number where it is
  put into a string. Hypotheses about them are stated where they are used: the digest does not
  collide on the keys at hand, the window of the meter is positive.

  \<^bold>\<open>Bounds and fuel.\<close> No definition needs fuel: the loops of the source recurse over a list or on a measure
  that is proved to decrease (\<open>bound_loop\<close> removes an element of the snapshot, the scans shorten the
  text). Client loops that follow cursors are bounded by the length of the log, and it is proved that
  this is enough.

  \<^bold>\<open>Limits of the model.\<close> A string is a list of code units below 256; byte lengths are those of UTF-8 for
  these. Numbers in JSON are doubles given by value; texts of numbers from \<open>10 ^ 21\<close> on are not printed.
  The ids of messages in snapshots are natural numbers and metered amounts whole numbers. A request body is
  the JSON value it decodes to, with its size. A request of the room server and of the dashboard is one step at one clock
  reading; where two requests can interleave in the middle (a held poll, the two halves of
  a bulk delete against a save, the two writes of an append, the steps of the lock) the halves are steps of their own.

  \<^bold>\<open>Not modelled.\<close> The pages in \<open>browser/\<close> and the scripts run in a DOM or drive a browser. The
  command line (\<open>cli/\<close>) parses arguments, prints, starts processes and calls the components above over HTTP;
  of it only the token store the dashboard reads and writes is modelled. \<open>server/runtime.ts\<close> probes ports
  and processes. Of \<open>tunnel/client.ts\<close> the registration call and the \<open>tunnel.json\<close> file are left out. Security headers, socket handling, file modes and \<open>fsync\<close> have no counterpart here.
\<close>

end
